(* ===== verification/Prelude.thy ===== *)
theory Prelude
  imports Main "HOL-Library.Word" "HOL-Library.List_Lexorder" "HOL-Library.Char_ord"
    "HOL-Library.Sublist" "HOL-Library.Multiset"
begin

text \<open>
  Shared vocabulary of the development: the types the Go code uses everywhere (unsigned
  32-bit counters, instants and durations in nanoseconds), the relational operations the SQL
  statements of the store layer amount to (filter, update-where, first row by a key, ordered
  page), and the generic lemmas about them that the component proofs rest on.  A table is the
  list of its rows in insertion order.
\<close>

named_theorems sql_simps \<open>rewriting of row updates and row selections\<close>
named_theorems model_defs \<open>definitions of operations that component proofs unfold together\<close>

type_synonym u32 = "32 word"
type_synonym u64 = "64 word"

text \<open>\<^verbatim>\<open>time.Time\<close> and \<^verbatim>\<open>time.Duration\<close> in nanoseconds; the zero \<^verbatim>\<open>time.Time\<close> is
  0001-01-01T00:00:00Z, which lies 62135596800 seconds before the Unix epoch.\<close>

type_synonym time = int
type_synonym duration = int

definition zero_time :: time where
  "zero_time = -62135596800000000000"

definition nsec :: duration where "nsec = 1"
definition msec :: duration where "msec = 1000000"
definition second :: duration where "second = 1000000000"

text \<open>\<^verbatim>\<open>t.Truncate(time.Millisecond)\<close> rounds towards the zero time, which is a whole number of
  milliseconds away from the Unix epoch, so it rounds down.\<close>

definition truncate_ms :: "time \<Rightarrow> time" where
  "truncate_ms t = (t div msec) * msec"

text \<open>The value a 64-bit signed Go integer takes when a computation yields \<open>n\<close>.\<close>

definition int64 :: "int \<Rightarrow> int" where
  "int64 n = (n + 2 ^ 63) mod 2 ^ 64 - 2 ^ 63"

lemma int64_id: "- (2 ^ 63) \<le> n \<Longrightarrow> n < 2 ^ 63 \<Longrightarrow> int64 n = n"
  by (simp add: int64_def)

lemma int64_range: "- (2 ^ 63) \<le> int64 n" "int64 n < 2 ^ 63"
  by (simp_all add: int64_def pos_mod_bound [of "2 ^ 64" "n + 2 ^ 63", simplified])

subsection \<open>Statements over tables\<close>

text \<open>\<^verbatim>\<open>UPDATE ... SET f WHERE p\<close>, and the number of rows it touches.\<close>

definition update_where :: "('a \<Rightarrow> bool) \<Rightarrow> ('a \<Rightarrow> 'a) \<Rightarrow> 'a list \<Rightarrow> 'a list" where
  "update_where p f xs = map (\<lambda>x. if p x then f x else x) xs"

definition count_where :: "('a \<Rightarrow> bool) \<Rightarrow> 'a list \<Rightarrow> nat" where
  "count_where p xs = length (filter p xs)"

text \<open>\<^verbatim>\<open>SELECT ... WHERE p ORDER BY k ASC\<close>.  Rows with equal keys keep their insertion order.\<close>

definition select_asc :: "('a \<Rightarrow> 'k::linorder) \<Rightarrow> ('a \<Rightarrow> bool) \<Rightarrow> 'a list \<Rightarrow> 'a list" where
  "select_asc k p xs = sort_key k (filter p xs)"

text \<open>\<^verbatim>\<open>SELECT ... WHERE p ORDER BY k LIMIT 1\<close>, as GORM's \<^verbatim>\<open>First\<close> issues it.\<close>

definition first_by :: "('a \<Rightarrow> 'k::linorder) \<Rightarrow> ('a \<Rightarrow> bool) \<Rightarrow> 'a list \<Rightarrow> 'a option" where
  "first_by k p xs = (case select_asc k p xs of [] \<Rightarrow> None | x # _ \<Rightarrow> Some x)"

text \<open>\<^verbatim>\<open>COALESCE(MAX(k), 0)\<close> over the rows that satisfy \<open>p\<close>.\<close>

definition max_where :: "('a \<Rightarrow> bool) \<Rightarrow> ('a \<Rightarrow> u32) \<Rightarrow> 'a list \<Rightarrow> u32" where
  "max_where p k xs = foldr (\<lambda>x m. max (k x) m) (filter p xs) 0"

lemma update_where_Nil [simp]: "update_where p f [] = []"
  by (simp add: update_where_def)

lemma update_where_Cons [simp]:
  "update_where p f (x # xs) = (if p x then f x else x) # update_where p f xs"
  by (simp add: update_where_def)

lemma update_where_append [simp]:
  "update_where p f (xs @ ys) = update_where p f xs @ update_where p f ys"
  by (simp add: update_where_def)

lemma length_update_where [simp]: "length (update_where p f xs) = length xs"
  by (simp add: update_where_def)

lemma set_update_where:
  "y \<in> set (update_where p f xs) \<longleftrightarrow> (\<exists>x \<in> set xs. y = (if p x then f x else x))"
  by (auto simp: update_where_def)

lemma map_update_where [sql_simps]:
  assumes "\<And>x. p x \<Longrightarrow> g (f x) = g x"
  shows "map g (update_where p f xs) = map g xs"
  using assms by (simp add: update_where_def)

lemma filter_update_where [sql_simps]:
  assumes "\<And>x. p x \<Longrightarrow> q (f x) = q x"
  shows "filter q (update_where p f xs) = update_where p f (filter q xs)"
  using assms by (induction xs) auto

lemma update_where_none:
  "(\<And>x. x \<in> set xs \<Longrightarrow> \<not> p x) \<Longrightarrow> update_where p f xs = xs"
  by (induction xs) auto

lemma update_where_comp:
  assumes "\<And>x. p x \<Longrightarrow> q (f x)" and "\<And>x. x \<in> set xs \<Longrightarrow> \<not> p x \<Longrightarrow> \<not> q x"
  shows "update_where q g (update_where p f xs) = update_where p (g \<circ> f) xs"
  using assms by (induction xs) auto

lemma count_where_Nil [simp]: "count_where p [] = 0"
  by (simp add: count_where_def)

lemma count_where_Cons [simp]:
  "count_where p (x # xs) = (if p x then Suc (count_where p xs) else count_where p xs)"
  by (simp add: count_where_def)

lemma count_where_append [simp]:
  "count_where p (xs @ ys) = count_where p xs + count_where p ys"
  by (simp add: count_where_def)

lemma count_where_zero: "count_where p xs = 0 \<longleftrightarrow> (\<forall>x \<in> set xs. \<not> p x)"
  by (auto simp: count_where_def filter_empty_conv)

subsection \<open>Selections\<close>

lemma set_select_asc [simp]: "set (select_asc k p xs) = {x \<in> set xs. p x}"
  by (auto simp: select_asc_def)

lemma sorted_select_asc: "sorted (map k (select_asc k p xs))"
  by (simp add: select_asc_def)

lemma length_select_asc [simp]: "length (select_asc k p xs) = count_where p xs"
  by (simp add: select_asc_def count_where_def)

lemma first_by_SomeD: "first_by k p xs = Some x \<Longrightarrow> x \<in> set xs \<and> p x"
proof -
  assume "first_by k p xs = Some x"
  then obtain ys where "select_asc k p xs = x # ys"
    by (auto simp: first_by_def split: list.splits)
  then have "x \<in> set (select_asc k p xs)"
    by (metis list.set_intros(1))
  then show ?thesis by simp
qed

lemma first_by_None_iff: "first_by k p xs = None \<longleftrightarrow> (\<forall>x \<in> set xs. \<not> p x)"
proof -
  have "first_by k p xs = None \<longleftrightarrow> select_asc k p xs = []"
    by (simp add: first_by_def split: list.splits)
  also have "\<dots> \<longleftrightarrow> set (select_asc k p xs) = {}"
    by (simp only: set_empty)
  finally show ?thesis by auto
qed

lemma first_by_exists:
  "x \<in> set xs \<Longrightarrow> p x \<Longrightarrow> \<exists>y. first_by k p xs = Some y"
  using first_by_None_iff [of k p xs] by (cases "first_by k p xs") auto

text \<open>With a key that identifies the selected rows, the first row is the only one.\<close>

lemma first_by_unique:
  assumes "x \<in> set xs" "p x" "\<And>y. y \<in> set xs \<Longrightarrow> p y \<Longrightarrow> y = x"
  shows "first_by k p xs = Some x"
  using assms first_by_exists [of x xs p k] first_by_SomeD [of k p xs] by blast

lemma first_by_cong:
  assumes "filter p xs = filter q ys"
  shows "first_by k p xs = first_by k q ys"
  using assms by (simp add: first_by_def select_asc_def)

lemma first_by_append_none:
  assumes "\<not> p y"
  shows "first_by k p (xs @ [y]) = first_by k p xs"
  using assms by (intro first_by_cong) simp

lemma distinct_map_unique:
  assumes "distinct (map f xs)" "x \<in> set xs" "y \<in> set xs" "f x = f y"
  shows "x = y"
  using assms by (auto simp: distinct_map inj_on_def)

lemma option_eqI: "(\<And>x. a = Some x \<longleftrightarrow> b = Some x) \<Longrightarrow> a = b"
  by (cases a; cases b) auto

lemma distinct_map_sort_key [simp]: "distinct (map f (sort_key k xs)) = distinct (map f xs)"
proof -
  have "mset (map f (sort_key k xs)) = mset (map f xs)" by (metis mset_map mset_sort)
  then show ?thesis by (rule mset_eq_imp_distinct_iff)
qed

lemma first_by_key:
  assumes "distinct (map f xs)" "x \<in> set xs" "p x" "\<And>y. p y \<Longrightarrow> f y = f x"
  shows "first_by k p xs = Some x"
  using assms by (intro first_by_unique) (auto dest: distinct_map_unique)

subsection \<open>The greatest value of a column\<close>

lemma max_where_Nil [simp]: "max_where p k [] = 0"
  by (simp add: max_where_def)

lemma max_where_Cons [simp]:
  "max_where p k (x # xs) = (if p x then max (k x) (max_where p k xs) else max_where p k xs)"
  by (simp add: max_where_def)

lemma max_where_ge: "x \<in> set xs \<Longrightarrow> p x \<Longrightarrow> k x \<le> max_where p k xs"
  by (induction xs) (auto simp: le_max_iff_disj)

lemma max_where_in:
  "max_where p k xs \<noteq> 0 \<Longrightarrow> \<exists>x \<in> set xs. p x \<and> k x = max_where p k xs"
  by (induction xs) (auto simp: max_def split: if_splits)

lemma max_where_append [simp]:
  "max_where p k (xs @ ys) = max (max_where p k xs) (max_where p k ys)"
  by (induction xs) (auto simp: max.assoc)

lemma max_where_none: "(\<And>x. x \<in> set xs \<Longrightarrow> \<not> p x) \<Longrightarrow> max_where p k xs = 0"
  by (induction xs) auto

text \<open>The next counter value, where it does not wrap around.\<close>

lemma unat_word_of_nat32: "k < 2 ^ 32 \<Longrightarrow> unat (word_of_nat k :: u32) = k"
  by (simp add: unat_of_nat)

lemma unat_lt32: "unat (w :: u32) < 4294967296"
  by (rule order_less_le_trans [OF unsigned_less]) simp

lemma mod_wrap_once: "(m :: nat) \<le> k \<Longrightarrow> k < 2 * m \<Longrightarrow> k mod m = k - m"
  by (simp add: le_mod_geq)

lemma unat_add_wrap32:
  assumes "2 ^ 32 \<le> unat (a :: u32) + k" "k < 2 ^ 32"
  shows "unat (a + word_of_nat k) = unat a + k - 2 ^ 32"
proof -
  have "a + word_of_nat k = word_of_nat (unat a + k)" by simp
  then have "unat (a + word_of_nat k) = (unat a + k) mod 2 ^ 32"
    by (simp only: unat_of_nat) simp
  also have "\<dots> = unat a + k - 2 ^ 32"
    using assms unat_lt32 [of a] by (intro mod_wrap_once) simp_all
  finally show ?thesis .
qed

lemma unat_word_succ: "(w :: u32) \<noteq> - 1 \<Longrightarrow> unat (w + 1) = Suc (unat w)"
  by (metis add.commute add_eq_0_iff2 unatSuc)

lemma word_succ_gt: "(w :: u32) \<noteq> - 1 \<Longrightarrow> w < w + 1"
  by (simp add: word_less_nat_alt unat_word_succ)

lemma word_le_succ_iff:
  assumes "(w :: u32) \<noteq> - 1"
  shows "v \<le> w + 1 \<longleftrightarrow> v \<le> w \<or> v = w + 1"
proof -
  have "v \<le> w + 1 \<longleftrightarrow> unat v \<le> unat w \<or> unat v = unat (w + 1)"
    using assms by (simp add: word_le_nat_alt unat_word_succ le_Suc_eq)
  also have "\<dots> \<longleftrightarrow> v \<le> w \<or> v = w + 1"
    by (simp only: word_le_nat_alt word_unat_eq_iff)
  finally show ?thesis .
qed

subsection \<open>Pages of a stable sort\<close>

lemma filter_key_sort [simp]:
  "filter (\<lambda>x. f k = f x) (sort_key f zs) = filter (\<lambda>x. f k = f x) zs"
  using sort_key_stable [where f = f and k = "f k" and xs = zs] by (simp add: eq_commute)

text \<open>
  The stable sort around a pivot value: smaller keys, the rows with the pivot's key in their
  original order, greater keys.
\<close>

lemma sort_key_pivot:
  "sort_key f xs = sort_key f (filter (\<lambda>x. f x < v) xs) @ filter (\<lambda>x. f x = v) xs
     @ sort_key f (filter (\<lambda>x. v < f x) xs)" (is "_ = ?ys")
proof (rule properties_for_sort_key)
  show "mset ?ys = mset xs"
    by (induction xs) auto
  show "filter (\<lambda>x. f k = f x) ?ys = filter (\<lambda>x. f k = f x) xs" for k
  proof -
    have "filter (\<lambda>x. f k = f x) ?ys
        = filter (\<lambda>x. f x < v \<and> f k = f x) xs @ filter (\<lambda>x. f x = v \<and> f k = f x) xs
          @ filter (\<lambda>x. v < f x \<and> f k = f x) xs"
      by simp
    also have "\<dots> = filter (\<lambda>x. f k = f x) xs"
    proof (cases "f k" v rule: linorder_cases)
      case less
      then have "filter (\<lambda>x. f x = v \<and> f k = f x) xs = []"
        "filter (\<lambda>x. v < f x \<and> f k = f x) xs = []"
        "filter (\<lambda>x. f x < v \<and> f k = f x) xs = filter (\<lambda>x. f k = f x) xs"
        by (auto simp: filter_empty_conv intro: filter_cong)
      then show ?thesis by simp
    next
      case equal
      then have "filter (\<lambda>x. f x < v \<and> f k = f x) xs = []"
        "filter (\<lambda>x. v < f x \<and> f k = f x) xs = []"
        "filter (\<lambda>x. f x = v \<and> f k = f x) xs = filter (\<lambda>x. f k = f x) xs"
        by (auto simp: filter_empty_conv intro: filter_cong)
      then show ?thesis by simp
    next
      case greater
      then have "filter (\<lambda>x. f x < v \<and> f k = f x) xs = []"
        "filter (\<lambda>x. f x = v \<and> f k = f x) xs = []"
        "filter (\<lambda>x. v < f x \<and> f k = f x) xs = filter (\<lambda>x. f k = f x) xs"
        by (auto simp: filter_empty_conv intro: filter_cong)
      then show ?thesis by simp
    qed
    finally show ?thesis .
  qed
  have "sorted (map f (filter (\<lambda>x. f x = v) xs))"
    by (induction xs) auto
  then show "sorted (map f ?ys)"
    by (auto simp: sorted_append intro: less_imp_le)
qed

text \<open>
  A row that comes after \<open>n\<close> rows with keys no greater than its own is not among the first
  \<open>n\<close> of the sorted table.
\<close>

lemma take_sort_skip:
  assumes "n \<le> length (filter (\<lambda>x. f x \<le> f q) xs)"
  shows "take n (sort_key f (xs @ q # ys)) = take n (sort_key f (xs @ ys))"
proof -
  let ?lt = "sort_key f (filter (\<lambda>x. f x < f q) (xs @ ys))"
  let ?gt = "sort_key f (filter (\<lambda>x. f q < f x) (xs @ ys))"
  let ?L = "?lt @ filter (\<lambda>x. f x = f q) xs"
  have with_q: "sort_key f (xs @ q # ys) = ?L @ q # filter (\<lambda>x. f x = f q) ys @ ?gt"
    by (subst sort_key_pivot [where v = "f q"]) simp
  have without_q: "sort_key f (xs @ ys) = ?L @ filter (\<lambda>x. f x = f q) ys @ ?gt"
    by (subst sort_key_pivot [where v = "f q"]) simp
  have "length (filter (\<lambda>x. f x \<le> f q) xs)
      = length (filter (\<lambda>x. f x < f q) xs) + length (filter (\<lambda>x. f x = f q) xs)"
    by (induction xs) auto
  then have "n \<le> length ?L" using assms by simp
  then show ?thesis by (simp add: with_q without_q)
qed

lemma take_sort_skips:
  assumes "\<And>q. q \<in> set qs \<Longrightarrow> n \<le> length (filter (\<lambda>x. f x \<le> f q) xs)"
  shows "take n (sort_key f (xs @ qs @ ys)) = take n (sort_key f (xs @ ys))"
  using assms
proof (induction qs)
  case Nil
  then show ?case by simp
next
  case (Cons q qs)
  have "take n (sort_key f (xs @ q # (qs @ ys))) = take n (sort_key f (xs @ qs @ ys))"
    by (rule take_sort_skip) (simp add: Cons.prems)
  then show ?case using Cons by simp
qed

lemma sorted_prefix_le:
  assumes "sorted (map f zs)" "q \<in> set (drop n zs)"
  shows "n \<le> length (filter (\<lambda>x. f x \<le> f q) (take n zs))"
proof -
  have le: "f x \<le> f q" if "x \<in> set (take n zs)" for x
  proof -
    have "sorted (map f (take n zs @ drop n zs))" using assms(1) by simp
    then show ?thesis using that assms(2) by (auto simp: sorted_append simp del: append_take_drop_id)
  qed
  have "length (take n zs) = n"
    using assms(2) by (cases "n \<le> length zs") auto
  then show ?thesis using le by (simp add: filter_True)
qed

lemma sort_key_append_sorted_left: "sort_key f (sort_key f xs @ ys) = sort_key f (xs @ ys)"
  by (rule properties_for_sort_key [symmetric]) simp_all

lemma sort_key_append_sorted_right: "sort_key f (xs @ sort_key f ys) = sort_key f (xs @ ys)"
  by (rule properties_for_sort_key [symmetric]) simp_all

text \<open>
  The first \<open>n\<close> rows of two tables sorted together are determined by the first \<open>n\<close> rows of
  each table sorted alone.
\<close>

lemma take_sort_merge:
  "take n (sort_key f (take n (sort_key f xs) @ take n (sort_key f ys)))
     = take n (sort_key f (xs @ ys))"
proof -
  let ?X = "sort_key f xs" and ?Y = "sort_key f ys"
  have "take n (sort_key f (xs @ ys)) = take n (sort_key f ((take n ?X @ drop n ?X) @ ?Y))"
    by (simp only: append_take_drop_id sort_key_append_sorted_left sort_key_append_sorted_right)
  also have "\<dots> = take n (sort_key f (take n ?X @ drop n ?X @ ?Y))"
    by (simp only: append_assoc)
  also have "\<dots> = take n (sort_key f (take n ?X @ ?Y))"
    by (rule take_sort_skips) (simp add: sorted_prefix_le)
  also have "\<dots> = take n (sort_key f ((take n ?X @ take n ?Y) @ drop n ?Y @ []))"
    by (simp only: append_assoc append_Nil2 append_take_drop_id)
  also have "\<dots> = take n (sort_key f ((take n ?X @ take n ?Y) @ []))"
  proof (rule take_sort_skips)
    fix q assume "q \<in> set (drop n ?Y)"
    then have "n \<le> length (filter (\<lambda>x. f x \<le> f q) (take n ?Y))"
      by (simp add: sorted_prefix_le)
    then show "n \<le> length (filter (\<lambda>x. f x \<le> f q) (take n ?X @ take n ?Y))"
      by simp
  qed
  finally show ?thesis by simp
qed

end
