(* ===== verification/Protocol.thy ===== *)
theory Protocol
  imports Prelude
begin

text \<open>
  The wire protocol (\<^verbatim>\<open>pkg/protocol\<close>): package and update types, response codes and the
  typed handler errors.  JSON encoding itself is Go's standard library; a message body is kept as
  the value that is marshalled (see theory \<open>Models\<close>).
\<close>

datatype PackageType = PackageTypeRequest | PackageTypeResponse | PackageTypeUpdates

definition UpdateTypeMessage :: string where [simp]: "UpdateTypeMessage = ''message''"
definition UpdateTypeDeleteMessage :: string where [simp]: "UpdateTypeDeleteMessage = ''delete_message''"
definition UpdateTypeMarkRead :: string where [simp]: "UpdateTypeMarkRead = ''mark_read''"
definition UpdateTypeConversation :: string where [simp]: "UpdateTypeConversation = ''conversation''"
definition UpdateTypeGap :: string where [simp]: "UpdateTypeGap = ''gap''"
definition UpdateTypeTyping :: string where [simp]: "UpdateTypeTyping = ''typing''"
definition UpdateTypeStreaming :: string where [simp]: "UpdateTypeStreaming = ''streaming''"
definition UpdateTypeAgentStatus :: string where [simp]: "UpdateTypeAgentStatus = ''agent_status''"
definition UpdateTypeAgentTimeout :: string where [simp]: "UpdateTypeAgentTimeout = ''agent_timeout''"
definition UpdateTypeFunctionCall :: string where [simp]: "UpdateTypeFunctionCall = ''function_call''"

type_synonym ResponseCode = int

definition ResponseCodeOK :: ResponseCode where [simp]: "ResponseCodeOK = 0"
definition ResponseCodeError :: ResponseCode where [simp]: "ResponseCodeError = -1"
definition ResponseCodeValidationError :: ResponseCode where [simp]: "ResponseCodeValidationError = -100"
definition ResponseCodeNotFound :: ResponseCode where [simp]: "ResponseCodeNotFound = -101"
definition ResponseCodeDuplicate :: ResponseCode where [simp]: "ResponseCodeDuplicate = -102"
definition ResponseCodePermissionDenied :: ResponseCode where [simp]: "ResponseCodePermissionDenied = -200"
definition ResponseCodeForbidden :: ResponseCode where [simp]: "ResponseCodeForbidden = -201"
definition ResponseCodeInternalError :: ResponseCode where [simp]: "ResponseCodeInternalError = -300"
definition ResponseCodeUnavailable :: ResponseCode where [simp]: "ResponseCodeUnavailable = -301"

text \<open>\<^verbatim>\<open>HandlerError\<close>; the wrapped error is kept as its message.\<close>

record HandlerError =
  he_code :: ResponseCode
  he_msg :: string
  he_err :: "string option"

definition HandlerError_Error :: "HandlerError \<Rightarrow> string" where
  "HandlerError_Error e =
     (case he_err e of Some w \<Rightarrow> he_msg e @ '': '' @ w | None \<Rightarrow> he_msg e)"

definition NewHandlerError :: "ResponseCode \<Rightarrow> string \<Rightarrow> HandlerError" where
  "NewHandlerError code m = \<lparr>he_code = code, he_msg = m, he_err = None\<rparr>"

definition WrapError :: "ResponseCode \<Rightarrow> string \<Rightarrow> HandlerError" where
  "WrapError code err = \<lparr>he_code = code, he_msg = err, he_err = Some err\<rparr>"

definition NewValidationError :: "string \<Rightarrow> HandlerError" where
  "NewValidationError m = NewHandlerError ResponseCodeValidationError m"

definition NewNotFoundError :: "string \<Rightarrow> HandlerError" where
  "NewNotFoundError m = NewHandlerError ResponseCodeNotFound m"

definition NewDuplicateError :: "string \<Rightarrow> HandlerError" where
  "NewDuplicateError m = NewHandlerError ResponseCodeDuplicate m"

definition NewPermissionDeniedError :: "string \<Rightarrow> HandlerError" where
  "NewPermissionDeniedError m = NewHandlerError ResponseCodePermissionDenied m"

definition NewInternalError :: "string \<Rightarrow> HandlerError" where
  "NewInternalError err = WrapError ResponseCodeInternalError err"

lemma he_code_new [simp]:
  "he_code (NewValidationError m) = -100"
  "he_code (NewNotFoundError m) = -101"
  "he_code (NewDuplicateError m) = -102"
  "he_code (NewPermissionDeniedError m) = -200"
  "he_code (NewInternalError m) = -300"
  by (simp_all add: NewValidationError_def NewNotFoundError_def NewDuplicateError_def
      NewPermissionDeniedError_def NewInternalError_def NewHandlerError_def WrapError_def)

lemma error_kinds_differ [simp]:
  "NewValidationError a \<noteq> NewNotFoundError b"
  "NewValidationError a \<noteq> NewPermissionDeniedError b"
  "NewValidationError a \<noteq> NewInternalError b"
  "NewNotFoundError a \<noteq> NewPermissionDeniedError b"
  "NewNotFoundError a \<noteq> NewInternalError b"
  "NewPermissionDeniedError a \<noteq> NewInternalError b"
  by (auto dest!: arg_cong [where f = he_code])

end
