(* ===== verification/Models.thy ===== *)
theory Models
  imports Protocol
begin

text \<open>
  The rows the server persists (\<^verbatim>\<open>internal/store/model\<close>), the JSON bodies of user updates and
  the database.  A soft-deleted row has a \<open>deleted_at\<close>; GORM adds the condition that it is NULL
  to every query that is not \<^verbatim>\<open>Unscoped\<close>.  A nullable time is an \<open>option\<close>.
\<close>

record conversation =
  c_id :: string
  c_user1 :: string
  c_user2 :: string
  c_type :: string
  c_title :: string
  c_pinned :: bool
  c_muted :: bool
  c_avatar :: string
  c_desc :: string
  c_last_msg :: u32
  c_created :: time
  c_updated :: time
  c_last_at :: time
  c_read1 :: u32
  c_read2 :: u32
  c_agent_status :: string
  c_agent_id :: string
  c_checkpoint :: string
  c_agent_act :: time
  c_deleted :: "time option"

definition AgentStatusIdle :: string where [simp]: "AgentStatusIdle = ''idle''"
definition AgentStatusToolCalling :: string where [simp]: "AgentStatusToolCalling = ''tool_calling''"
definition AgentStatusAskingUser :: string where [simp]: "AgentStatusAskingUser = ''asking_user''"

record message =
  m_id :: string
  m_client_id :: string
  m_conv :: string
  m_msg_id :: u32
  m_sender :: string
  m_content :: string
  m_type :: string
  m_reply_to :: u32
  m_status :: string
  m_summarized :: bool
  m_created :: time
  m_deleted :: "time option"

datatype rc_status = RcPending | RcResolved | RcCancelled | RcExpired

fun rc_status_str :: "rc_status \<Rightarrow> string" where
  "rc_status_str RcPending = ''pending''"
| "rc_status_str RcResolved = ''resolved''"
| "rc_status_str RcCancelled = ''cancelled''"
| "rc_status_str RcExpired = ''expired''"

text \<open>
  The lifecycle order of a remote calling: pending is below the three final states, which are
  incomparable.
\<close>

instantiation rc_status :: order
begin

definition less_eq_rc_status :: "rc_status \<Rightarrow> rc_status \<Rightarrow> bool" where
  "less_eq_rc_status s t \<longleftrightarrow> s = t \<or> s = RcPending"

definition less_rc_status :: "rc_status \<Rightarrow> rc_status \<Rightarrow> bool" where
  "less_rc_status s t \<longleftrightarrow> s = RcPending \<and> t \<noteq> RcPending"

instance
  by standard (auto simp: less_eq_rc_status_def less_rc_status_def)

end

lemma rc_pending_least [simp]: "RcPending \<le> s"
  by (simp add: less_eq_rc_status_def)

lemma rc_final_max: "s \<noteq> RcPending \<Longrightarrow> s \<le> t \<longleftrightarrow> t = s"
  by (auto simp: less_eq_rc_status_def)

record remote_calling =
  rc_id :: string
  rc_conv :: string
  rc_checkpoint :: string
  rc_agent :: string
  rc_msg_id :: u32
  rc_method :: string
  rc_params :: string
  rc_interrupt :: string
  rc_device :: string
  rc_stat :: rc_status
  rc_result :: string
  rc_error :: string
  rc_success :: bool
  rc_created :: time
  rc_resolved_at :: "time option"
  rc_expires_at :: "time option"
  rc_cancelled_at :: "time option"
  rc_cancelled_by :: string
  rc_cancel_reason :: string
  rc_deleted :: "time option"

text \<open>
  The JSON documents stored in \<^verbatim>\<open>UserUpdate.Payload\<close>: a message, a deletion notice
  (\<^verbatim>\<open>message_id, conversation_id, message_id_seq\<close>), a read cursor, a conversation action with
  an optional \<^verbatim>\<open>updated_at\<close> in Unix seconds, a creation notice carrying the conversation, a bare
  conversation (as old servers sent it), the bodies of the ephemeral updates (typing: user, conversation,
  is typing, is agent, time; streaming: stream, user, conversation, text, done, is agent, time; agent
  status and timeout: user, conversation, status or reason, time; function call: user, conversation, name,
  arguments, result, error, duration, done, time), the null document of a gap, and a
  document that does not parse.
\<close>

datatype payload =
    PMessage message
  | PDeleteMessage string string u32
  | PMarkRead string u32
  | PConvAction string string "int option"
  | PConvCreate string conversation
  | PConversation conversation
  | PTyping string string bool bool int
  | PStreaming string string string string bool bool int
  | PAgentStatus string string string int
  | PAgentTimeout string string string int
  | PFunctionCall string string string string string string int bool int
  | PNull
  | PMalformed

record user_update =
  u_id :: string
  u_user :: string
  u_seq :: u32
  u_type :: string
  u_payload :: payload
  u_created :: time

text \<open>\<^verbatim>\<open>protocol.PackageDataUpdate\<close>\<close>

record data_update =
  du_seq :: u32
  du_type :: string
  du_payload :: payload
  du_created :: time

record db =
  convs :: "conversation list"
  msgs :: "message list"
  upds :: "user_update list"
  rcs :: "remote_calling list"

text \<open>The errors of \<^verbatim>\<open>internal/store/errors.go\<close>; any other driver error keeps its text.\<close>

datatype store_error =
    ErrNotFound
  | ErrDuplicateKey
  | ErrForeignKeyViolation
  | ErrConnectionFailed
  | ErrContextDeadlineExceeded
  | ErrConflict
  | ErrDatabaseDeadlock
  | ErrOther string

fun store_error_msg :: "store_error \<Rightarrow> string" where
  "store_error_msg ErrNotFound = ''store: record not found''"
| "store_error_msg ErrDuplicateKey = ''store: duplicate key''"
| "store_error_msg ErrForeignKeyViolation = ''store: foreign key violation''"
| "store_error_msg ErrConnectionFailed = ''store: connection failed''"
| "store_error_msg ErrContextDeadlineExceeded = ''store: context deadline exceeded''"
| "store_error_msg ErrConflict = ''store: conflict''"
| "store_error_msg ErrDatabaseDeadlock = ''store: database deadlock''"
| "store_error_msg (ErrOther s) = s"

text \<open>\<^verbatim>\<open>strings.Contains\<close>\<close>

fun contains :: "string \<Rightarrow> string \<Rightarrow> bool" where
  "contains [] pat = prefix pat []"
| "contains (c # cs) pat = (prefix pat (c # cs) \<or> contains cs pat)"

lemma contains_iff: "contains s pat \<longleftrightarrow> sublist pat s"
  by (induction s) (auto simp: sublist_Cons_right)

text \<open>
  \<^verbatim>\<open>classifyError\<close>: the record-not-found error of GORM is recognised by identity
  (\<open>not_found\<close>), everything else by the text of the driver's message.
\<close>

definition classifyError :: "bool \<Rightarrow> string \<Rightarrow> store_error" where
  "classifyError not_found m =
    (if not_found then ErrNotFound
     else if contains m ''duplicate key'' \<or> contains m ''UNIQUE constraint failed''
          \<or> contains m ''Duplicate entry'' then ErrDuplicateKey
     else if contains m ''foreign key constraint'' \<or> contains m ''FOREIGN KEY constraint failed''
          \<or> contains m ''Cannot add or update a child row''
          \<or> contains m ''Cannot delete or update a parent row'' then ErrForeignKeyViolation
     else if contains m ''connection refused'' \<or> contains m ''connection reset''
          \<or> contains m ''broken pipe'' \<or> contains m ''no such host''
          \<or> contains m ''dial tcp'' then ErrConnectionFailed
     else if contains m ''context deadline exceeded'' \<or> contains m ''Query timed out''
          then ErrContextDeadlineExceeded
     else if contains m ''database is deadlocked'' then ErrDatabaseDeadlock
     else ErrOther m)"

text \<open>
  Wrapping a driver error with \<^verbatim>\<open>fmt.Errorf("...: %w", err)\<close> keeps its text as a suffix, so a
  unique violation is recognised through any number of wrappings.
\<close>

lemma classify_unique_wrapped:
  "classifyError False (pre @ ''UNIQUE constraint failed'' @ post) = ErrDuplicateKey"
proof -
  have "contains (pre @ ''UNIQUE constraint failed'' @ post) ''UNIQUE constraint failed''"
    by (metis contains_iff sublist_appendI)
  then show ?thesis by (simp only: classifyError_def if_False disj_ac simp_thms if_True)
qed

end
