(* ===== verification/ConversationStore.thy ===== *)
theory ConversationStore
  imports Models "HOL-Library.Multiset"
begin

text \<open>
  \<^verbatim>\<open>internal/store/conversation.go\<close>: the operations on the conversations table.  A query that can
  only fail in the driver is a plain function; a driver failure is added where a handler calls
  the operation (theory \<open>HandlerBase\<close>).  Operations that GORM stamps take the time it reads
  from its clock (\<open>now\<close>): \<^verbatim>\<open>Update\<close>/\<^verbatim>\<open>Updates\<close> on a model set \<open>updated_at\<close>, a soft delete does not.
\<close>

definition conv_live :: "conversation \<Rightarrow> bool" where
  "conv_live c \<longleftrightarrow> c_deleted c = None"

definition is_member :: "string \<Rightarrow> conversation \<Rightarrow> bool" where
  "is_member u c \<longleftrightarrow> c_user1 c = u \<or> c_user2 c = u"

text \<open>
  The primary key and the unique index on \<^verbatim>\<open>(user_id1, user_id2)\<close>.  Both see soft-deleted rows:
  \<open>deleted_at\<close> is not a column of the unique index.
\<close>

definition conv_conflict :: "conversation \<Rightarrow> conversation \<Rightarrow> bool" where
  "conv_conflict c c' \<longleftrightarrow>
     c_id c' = c_id c \<or> (c_user1 c' = c_user1 c \<and> c_user2 c' = c_user2 c)"

text \<open>Column defaults and creation stamps that GORM fills in for zero-valued fields.\<close>

definition conv_defaults :: "time \<Rightarrow> conversation \<Rightarrow> conversation" where
  "conv_defaults now c =
     c\<lparr>c_agent_status := (if c_agent_status c = [] then AgentStatusIdle else c_agent_status c),
       c_created := (if c_created c = zero_time then now else c_created c),
       c_updated := (if c_updated c = zero_time then now else c_updated c)\<rparr>"

definition conv_create :: "time \<Rightarrow> conversation \<Rightarrow> db \<Rightarrow> store_error + (conversation \<times> db)" where
  "conv_create now c d =
     (if list_ex (conv_conflict c) (convs d) then Inl ErrDuplicateKey
      else let c' = conv_defaults now c in Inr (c', d\<lparr>convs := convs d @ [c']\<rparr>))"

definition conv_get :: "string \<Rightarrow> db \<Rightarrow> store_error + conversation" where
  "conv_get cid d =
     (case first_by c_id (\<lambda>c. c_id c = cid \<and> conv_live c) (convs d) of
        None \<Rightarrow> Inl ErrNotFound | Some c \<Rightarrow> Inr c)"

definition conv_get_unscoped :: "string \<Rightarrow> db \<Rightarrow> store_error + conversation" where
  "conv_get_unscoped cid d =
     (case first_by c_id (\<lambda>c. c_id c = cid) (convs d) of
        None \<Rightarrow> Inl ErrNotFound | Some c \<Rightarrow> Inr c)"

definition conv_get_by_users :: "string \<Rightarrow> string \<Rightarrow> db \<Rightarrow> store_error + conversation" where
  "conv_get_by_users u1 u2 d =
     (case first_by c_id
        (\<lambda>c. ((c_user1 c = u1 \<and> c_user2 c = u2) \<or> (c_user1 c = u2 \<and> c_user2 c = u1)) \<and> conv_live c)
        (convs d) of
        None \<Rightarrow> Inl ErrNotFound | Some c \<Rightarrow> Inr c)"

subsection \<open>A user's conversations, newest first\<close>

text \<open>
  \<^verbatim>\<open>sortConversationsByLastMessageAt\<close>: the inner loop moves element \<open>i\<close> towards the front past
  every strictly older one.  The sorted prefix is kept reversed, so that its last element is at
  hand.
\<close>

fun shift_back :: "conversation \<Rightarrow> conversation list \<Rightarrow> conversation list" where
  "shift_back c [] = [c]"
| "shift_back c (p # ps) =
     (if c_last_at p < c_last_at c then p # shift_back c ps else c # p # ps)"

definition sort_conversations_by_last_message_at :: "conversation list \<Rightarrow> conversation list" where
  "sort_conversations_by_last_message_at cs = rev (foldl (\<lambda>acc c. shift_back c acc) [] cs)"

text \<open>The merge loop with its \<open>seen\<close> set: a row is kept unless its id was kept before.\<close>

fun dedup_by_id :: "string list \<Rightarrow> conversation list \<Rightarrow> conversation list" where
  "dedup_by_id seen [] = []"
| "dedup_by_id seen (c # cs) =
     (if c_id c \<in> set seen then dedup_by_id seen cs
      else c # dedup_by_id (c_id c # seen) cs)"

definition norm_list_limit :: "int \<Rightarrow> int" where
  "norm_list_limit limit = (if limit \<le> 0 \<or> limit > 101 then 20 else limit)"

definition conv_get_by_user :: "string \<Rightarrow> int \<Rightarrow> int \<Rightarrow> db \<Rightarrow> conversation list" where
  "conv_get_by_user uid offset0 limit0 d =
     (let limit = norm_list_limit limit0;
          offset = (if offset0 < 0 then 0 else offset0);
          fetch = nat (offset + limit);
          as1 = take fetch (select_asc (\<lambda>c. - c_last_at c)
                  (\<lambda>c. c_user1 c = uid \<and> conv_live c) (convs d));
          as2 = take fetch (select_asc (\<lambda>c. - c_last_at c)
                  (\<lambda>c. (c_user2 c = uid \<and> c_user2 c \<noteq> []) \<and> conv_live c) (convs d));
          merged = sort_conversations_by_last_message_at (dedup_by_id [] (as1 @ as2))
      in if offset \<ge> int (length merged) then []
         else let e = (if offset + limit > int (length merged) then int (length merged)
                       else offset + limit)
              in drop (nat offset) (take (nat e) merged))"

subsection \<open>Soft delete, restore, and the other updates\<close>

definition conv_delete :: "time \<Rightarrow> string \<Rightarrow> db \<Rightarrow> store_error + db" where
  "conv_delete now cid d =
     (let p = (\<lambda>c. c_id c = cid \<and> conv_live c)
      in if count_where p (convs d) = 0 then Inl ErrNotFound
         else Inr (d\<lparr>convs := update_where p (\<lambda>c. c\<lparr>c_deleted := Some now\<rparr>) (convs d)\<rparr>))"

definition conv_restore :: "time \<Rightarrow> string \<Rightarrow> db \<Rightarrow> store_error + db" where
  "conv_restore now cid d =
     (let p = (\<lambda>c. c_id c = cid \<and> \<not> conv_live c)
      in if count_where p (convs d) = 0 then Inl ErrNotFound
         else Inr (d\<lparr>convs := update_where p
                (\<lambda>c. c\<lparr>c_deleted := None, c_updated := now\<rparr>) (convs d)\<rparr>))"

definition conv_update_last_message ::
  "time \<Rightarrow> string \<Rightarrow> time \<Rightarrow> u32 \<Rightarrow> db \<Rightarrow> store_error + db" where
  "conv_update_last_message now cid at mid d =
     (let p = (\<lambda>c. c_id c = cid \<and> conv_live c)
      in if count_where p (convs d) = 0 then Inl ErrNotFound
         else Inr (d\<lparr>convs := update_where p
                (\<lambda>c. c\<lparr>c_last_at := at, c_last_msg := mid, c_updated := now\<rparr>) (convs d)\<rparr>))"

text \<open>
  \<^verbatim>\<open>UpdateLastRead\<close> picks the caller's column and writes
  \<^verbatim>\<open>CASE WHEN col > ? THEN col ELSE ? END\<close>.
\<close>

definition conv_update_last_read ::
  "time \<Rightarrow> string \<Rightarrow> string \<Rightarrow> u32 \<Rightarrow> db \<Rightarrow> store_error + db" where
  "conv_update_last_read now cid uid mid d =
     (case conv_get cid d of
        Inl e \<Rightarrow> Inl e
      | Inr conv \<Rightarrow>
          if c_user1 conv = uid then
            Inr (d\<lparr>convs := update_where (\<lambda>c. c_id c = cid \<and> conv_live c)
                   (\<lambda>c. c\<lparr>c_read1 := (if c_read1 c > mid then c_read1 c else mid),
                         c_updated := now\<rparr>) (convs d)\<rparr>)
          else if c_user2 conv = uid then
            Inr (d\<lparr>convs := update_where (\<lambda>c. c_id c = cid \<and> conv_live c)
                   (\<lambda>c. c\<lparr>c_read2 := (if c_read2 c > mid then c_read2 c else mid),
                         c_updated := now\<rparr>) (convs d)\<rparr>)
          else Inl ErrNotFound)"

definition conv_update_agent_status ::
  "time \<Rightarrow> string \<Rightarrow> string \<Rightarrow> string \<Rightarrow> string \<Rightarrow> db \<Rightarrow> store_error + (time \<times> db)" where
  "conv_update_agent_status now cid status agent checkpoint d =
     (let p = (\<lambda>c. c_id c = cid \<and> conv_live c)
      in if count_where p (convs d) = 0 then Inl ErrNotFound
         else Inr (now, d\<lparr>convs := update_where p
                (\<lambda>c. c\<lparr>c_agent_status := status, c_agent_id := agent,
                      c_checkpoint := checkpoint, c_agent_act := now, c_updated := now\<rparr>)
                (convs d)\<rparr>))"

definition conv_clear_agent_status :: "time \<Rightarrow> string \<Rightarrow> db \<Rightarrow> store_error + (time \<times> db)" where
  "conv_clear_agent_status now cid d =
     (let p = (\<lambda>c. c_id c = cid \<and> conv_live c)
      in if count_where p (convs d) = 0 then Inl ErrNotFound
         else Inr (now, d\<lparr>convs := update_where p
                (\<lambda>c. c\<lparr>c_agent_status := AgentStatusIdle, c_agent_id := [],
                      c_checkpoint := [], c_agent_act := now, c_updated := now\<rparr>)
                (convs d)\<rparr>))"

definition conv_list_stale_hitl :: "time \<Rightarrow> duration \<Rightarrow> nat \<Rightarrow> db \<Rightarrow> conversation list" where
  "conv_list_stale_hitl now max_age limit d =
     take limit (select_asc c_agent_act
       (\<lambda>c. (c_agent_status c = AgentStatusAskingUser \<or> c_agent_status c = AgentStatusToolCalling)
            \<and> c_agent_act c < now - max_age \<and> conv_live c) (convs d))"

subsection \<open>LIKE patterns\<close>

text \<open>\<^verbatim>\<open>strings.ReplaceAll\<close> of a one-character pattern.\<close>

fun replace_char :: "char \<Rightarrow> string \<Rightarrow> string \<Rightarrow> string" where
  "replace_char c r [] = []"
| "replace_char c r (x # xs) = (if x = c then r @ replace_char c r xs else x # replace_char c r xs)"

definition escape_like_pattern :: "string \<Rightarrow> string" where
  "escape_like_pattern s =
     replace_char CHR ''_'' ''|_''
      (replace_char CHR ''%'' ''|%'' (replace_char CHR ''|'' ''||'' s))"

text \<open>
  The SQL operator \<^verbatim>\<open>t LIKE p ESCAPE '|'\<close>.  How single characters compare is the database's
  choice (SQLite and MySQL fold the case of ASCII letters, PostgreSQL does not), so the comparison is a
  parameter.
\<close>

fun like :: "(char \<Rightarrow> char \<Rightarrow> bool) \<Rightarrow> string \<Rightarrow> string \<Rightarrow> bool" where
  "like eqc [] t = (t = [])"
| "like eqc (p # ps) t =
     (if p = CHR ''|'' then
        (case ps of [] \<Rightarrow> False
         | q # qs \<Rightarrow> (case t of [] \<Rightarrow> False | x # xs \<Rightarrow> eqc q x \<and> like eqc qs xs))
      else if p = CHR ''%'' then
        like eqc ps t \<or> (case t of [] \<Rightarrow> False | x # xs \<Rightarrow> like eqc (p # ps) xs)
      else if p = CHR ''_'' then
        (case t of [] \<Rightarrow> False | x # xs \<Rightarrow> like eqc ps xs)
      else (case t of [] \<Rightarrow> False | x # xs \<Rightarrow> eqc p x \<and> like eqc ps xs))"

definition like_substring :: "(char \<Rightarrow> char \<Rightarrow> bool) \<Rightarrow> string \<Rightarrow> string \<Rightarrow> bool" where
  "like_substring eqc s t = like eqc (''%'' @ escape_like_pattern s @ ''%'') t"

definition conv_search_by_title ::
  "(char \<Rightarrow> char \<Rightarrow> bool) \<Rightarrow> string \<Rightarrow> string \<Rightarrow> int \<Rightarrow> db \<Rightarrow> conversation list" where
  "conv_search_by_title eqc uid title limit0 d =
     (let limit = norm_list_limit limit0
      in if title = [] then []
         else take (nat limit) (select_asc (\<lambda>c. - c_last_at c)
           (\<lambda>c. ((c_user1 c = uid \<or> c_user2 c = uid) \<and> like_substring eqc title (c_title c))
                \<and> conv_live c) (convs d)))"

subsection \<open>LIKE with an escaped pattern is substring search\<close>

definition esc_char :: "char \<Rightarrow> string" where
  "esc_char c = (if c = CHR ''|'' \<or> c = CHR ''%'' \<or> c = CHR ''_'' then [CHR ''|'', c] else [c])"

lemma replace_char_append [simp]:
  "replace_char c r (xs @ ys) = replace_char c r xs @ replace_char c r ys"
  by (induction xs) auto

lemma escape_like_Nil [simp]: "escape_like_pattern [] = []"
  by (simp add: escape_like_pattern_def)

lemma escape_like_Cons [simp]:
  "escape_like_pattern (c # cs) = esc_char c @ escape_like_pattern cs"
  by (simp add: escape_like_pattern_def esc_char_def)

lemma like_percent:
  "like eqc (CHR ''%'' # p) t \<longleftrightarrow> (\<exists>a b. t = a @ b \<and> like eqc p b)"
proof (induction t)
  case Nil
  then show ?case by simp
next
  case (Cons x t)
  have "like eqc (CHR ''%'' # p) (x # t) \<longleftrightarrow> like eqc p (x # t) \<or> like eqc (CHR ''%'' # p) t"
    by simp
  also have "\<dots> \<longleftrightarrow> like eqc p (x # t) \<or> (\<exists>a b. t = a @ b \<and> like eqc p b)"
    by (simp only: Cons.IH)
  also have "\<dots> \<longleftrightarrow> (\<exists>a b. x # t = a @ b \<and> like eqc p b)"
    by (auto simp: Cons_eq_append_conv)
  finally show ?case .
qed

lemma like_esc_char:
  "like eqc (esc_char c @ p) t \<longleftrightarrow> (\<exists>x xs. t = x # xs \<and> eqc c x \<and> like eqc p xs)"
  by (auto simp: esc_char_def split: list.splits)

lemma like_escaped:
  "like eqc (escape_like_pattern s @ p) t
     \<longleftrightarrow> (\<exists>b r. t = b @ r \<and> list_all2 eqc s b \<and> like eqc p r)"
proof (induction s arbitrary: t)
  case Nil
  then show ?case by simp
next
  case (Cons c s)
  have "like eqc (escape_like_pattern (c # s) @ p) t
     \<longleftrightarrow> (\<exists>x xs. t = x # xs \<and> eqc c x \<and> like eqc (escape_like_pattern s @ p) xs)"
    by (simp only: escape_like_Cons append_assoc like_esc_char)
  also have "\<dots> \<longleftrightarrow> (\<exists>x b r. t = x # b @ r \<and> eqc c x \<and> list_all2 eqc s b \<and> like eqc p r)"
    using Cons.IH by blast
  also have "\<dots> \<longleftrightarrow> (\<exists>b r. t = b @ r \<and> list_all2 eqc (c # s) b \<and> like eqc p r)"
    by (metis append_Cons list_all2_Cons1)
  finally show ?case .
qed

lemma like_percent_end: "like eqc ''%'' t"
  by (induction t) auto

lemma like_substring_iff:
  "like_substring eqc s t \<longleftrightarrow> (\<exists>a b r. t = a @ b @ r \<and> list_all2 eqc s b)"
proof -
  have "like_substring eqc s t \<longleftrightarrow> like eqc (CHR ''%'' # (escape_like_pattern s @ ''%'')) t"
    by (simp add: like_substring_def)
  also have "\<dots> \<longleftrightarrow> (\<exists>a u. t = a @ u \<and> like eqc (escape_like_pattern s @ ''%'') u)"
    by (rule like_percent)
  also have "\<dots> \<longleftrightarrow> (\<exists>a u. t = a @ u \<and> (\<exists>b r. u = b @ r \<and> list_all2 eqc s b))"
    by (simp only: like_escaped like_percent_end simp_thms)
  also have "\<dots> \<longleftrightarrow> (\<exists>a b r. t = a @ b @ r \<and> list_all2 eqc s b)"
    by auto
  finally show ?thesis .
qed

lemma list_all2_eq_iff: "list_all2 (\<lambda>x y. x = y) xs ys \<longleftrightarrow> xs = ys"
  by (simp add: list_all2_eq)

subsection \<open>The insertion sort is the stable sort\<close>

lemma mset_shift_back: "mset (shift_back c ps) = {#c#} + mset ps"
  by (induction ps) auto

lemma set_shift_back [simp]: "set (shift_back c ps) = insert c (set ps)"
  using mset_shift_back [of c ps] by (metis set_mset_add_mset_insert set_mset_mset add_mset_add_single union_commute)

lemma sorted_rev_shift_back:
  "sorted_wrt (\<lambda>x y. c_last_at x \<le> c_last_at y) ps \<Longrightarrow>
   sorted_wrt (\<lambda>x y. c_last_at x \<le> c_last_at y) (shift_back c ps)"
  by (induction ps) (auto)

lemma filter_shift_back:
  "sorted_wrt (\<lambda>x y. c_last_at x \<le> c_last_at y) ps \<Longrightarrow>
   filter (\<lambda>x. c_last_at x = t) (shift_back c ps)
     = (if c_last_at c = t then c # filter (\<lambda>x. c_last_at x = t) ps
        else filter (\<lambda>x. c_last_at x = t) ps)"
  by (induction ps) auto

lemma sort_fold_inv:
  assumes "acc' = foldl (\<lambda>acc c. shift_back c acc) acc cs"
    and "sorted_wrt (\<lambda>x y. c_last_at x \<le> c_last_at y) acc"
  shows "mset acc' = mset acc + mset cs
    \<and> sorted_wrt (\<lambda>x y. c_last_at x \<le> c_last_at y) acc'
    \<and> (\<forall>t. filter (\<lambda>x. c_last_at x = t) acc'
           = rev (filter (\<lambda>x. c_last_at x = t) cs) @ filter (\<lambda>x. c_last_at x = t) acc)"
  using assms
proof (induction cs arbitrary: acc)
  case Nil
  then show ?case by simp
next
  case (Cons c cs)
  then show ?case
    by (simp add: mset_shift_back sorted_rev_shift_back filter_shift_back)
qed

lemma sort_conversations_stable:
  "sort_conversations_by_last_message_at cs = sort_key (\<lambda>c. - c_last_at c) cs"
proof -
  let ?acc = "foldl (\<lambda>acc c. shift_back c acc) [] cs"
  have inv: "mset ?acc = mset cs
    \<and> sorted_wrt (\<lambda>x y. c_last_at x \<le> c_last_at y) ?acc
    \<and> (\<forall>t. filter (\<lambda>x. c_last_at x = t) ?acc = rev (filter (\<lambda>x. c_last_at x = t) cs))"
    using sort_fold_inv [OF refl, of "[]" cs] by simp
  have "sorted (map (\<lambda>c. - c_last_at c) (rev ?acc))"
    using inv by (simp add: sorted_map sorted_wrt_rev)
  moreover have "mset (rev ?acc) = mset cs" using inv by simp
  moreover have "filter (\<lambda>x. - c_last_at k = - c_last_at x) (rev ?acc)
      = filter (\<lambda>x. - c_last_at k = - c_last_at x) cs" for k
  proof -
    have "filter (\<lambda>x. c_last_at x = c_last_at k) (rev ?acc)
        = filter (\<lambda>x. c_last_at x = c_last_at k) cs"
      using inv by (metis rev_filter rev_rev_ident)
    then show ?thesis by (simp add: eq_commute)
  qed
  ultimately show ?thesis
    unfolding sort_conversations_by_last_message_at_def
    by (intro properties_for_sort_key [symmetric]) auto
qed

subsection \<open>A page of the merged list is a page of the whole list\<close>

definition as_user1 :: "string \<Rightarrow> conversation \<Rightarrow> bool" where
  "as_user1 uid c \<longleftrightarrow> c_user1 c = uid \<and> conv_live c"

definition as_user2 :: "string \<Rightarrow> conversation \<Rightarrow> bool" where
  "as_user2 uid c \<longleftrightarrow> (c_user2 c = uid \<and> c_user2 c \<noteq> []) \<and> conv_live c"

definition conversations_newest_first :: "string \<Rightarrow> db \<Rightarrow> conversation list" where
  "conversations_newest_first uid d =
     sort_key (\<lambda>c. - c_last_at c) (filter (as_user1 uid) (convs d) @ filter (as_user2 uid) (convs d))"

lemma dedup_distinct:
  "distinct (map c_id cs) \<Longrightarrow> set (map c_id cs) \<inter> set seen = {} \<Longrightarrow> dedup_by_id seen cs = cs"
  by (induction cs arbitrary: seen) auto

lemma distinct_map_take: "distinct (map f xs) \<Longrightarrow> distinct (map f (take n xs))"
  by (simp flip: take_map)

lemma dedup_sides:
  assumes ids: "distinct (map c_id (convs d))"
    and no_self: "\<And>c. c \<in> set (convs d) \<Longrightarrow> c_user1 c \<noteq> c_user2 c"
  shows "dedup_by_id []
      (take n (select_asc k (as_user1 uid) (convs d)) @ take n (select_asc k (as_user2 uid) (convs d)))
    = take n (select_asc k (as_user1 uid) (convs d)) @ take n (select_asc k (as_user2 uid) (convs d))"
proof (rule dedup_distinct)
  let ?A = "take n (select_asc k (as_user1 uid) (convs d))"
  let ?B = "take n (select_asc k (as_user2 uid) (convs d))"
  have sub: "set ?A \<subseteq> {c \<in> set (convs d). as_user1 uid c}" "set ?B \<subseteq> {c \<in> set (convs d). as_user2 uid c}"
    using set_take_subset set_select_asc by fastforce+
  have "c_id a \<noteq> c_id b" if "a \<in> set ?A" "b \<in> set ?B" for a b
  proof
    assume "c_id a = c_id b"
    moreover have "a \<in> set (convs d)" "b \<in> set (convs d)" using that sub by auto
    ultimately have "a = b" using ids by (blast dest: distinct_map_unique)
    then show False using that sub no_self by (fastforce simp: as_user1_def as_user2_def)
  qed
  moreover have "distinct (map c_id ?A)" "distinct (map c_id ?B)"
    using ids by (simp_all add: select_asc_def distinct_map_filter distinct_map_take)
  ultimately show "distinct (map c_id (?A @ ?B))" by (auto simp: image_iff)
qed simp

lemma page_of_prefix:
  assumes "take (off + lim) xs = take (off + lim) ys" "0 < lim"
  shows "(if off \<ge> length xs then [] else drop off (take (min (off + lim) (length xs)) xs))
    = take lim (drop off ys)"
proof -
  have "drop off (take (off + lim) zs) = take lim (drop off zs)" for zs :: "'a list"
    by (simp add: drop_take)
  then have "take lim (drop off xs) = take lim (drop off ys)"
    using assms(1) by metis
  moreover have "take (min (off + lim) (length xs)) xs = take (off + lim) xs"
    by (cases "off + lim \<le> length xs") (simp_all add: min_def)
  ultimately have "drop off (take (min (off + lim) (length xs)) xs) = take lim (drop off ys)"
    by (simp add: drop_take)
  moreover have "off \<ge> length xs \<Longrightarrow> take lim (drop off ys) = []"
    using \<open>take lim (drop off xs) = take lim (drop off ys)\<close> by (metis drop_all take_Nil)
  ultimately show ?thesis by simp
qed

lemma page_end:
  "(if int a + int b > int n then int n else int a + int b) = int (min (a + b) n)"
  by (simp add: min_def)

lemma norm_list_limit_bounds: "1 \<le> norm_list_limit l \<and> norm_list_limit l \<le> 101"
  by (simp add: norm_list_limit_def)

text \<open>
  C20: \<^verbatim>\<open>GetByUser\<close> returns exactly the requested page of all the user's live conversations
  sorted newest first.  Fetching only \<^verbatim>\<open>offset+limit\<close> rows of each side loses nothing, whatever
  the offset, so the limitation its comment describes (interleaved rows missed at large offsets)
  cannot happen.
\<close>

theorem get_by_user_exact_page:
  assumes "distinct (map c_id (convs d))"
    and "\<And>c. c \<in> set (convs d) \<Longrightarrow> c_user1 c \<noteq> c_user2 c"
  shows "conv_get_by_user uid off lim d
    = take (nat (norm_list_limit lim)) (drop (nat off) (conversations_newest_first uid d))"
proof -
  let ?k = "\<lambda>c. - c_last_at c"
  obtain l where l: "norm_list_limit lim = int l" "0 < l"
    using norm_list_limit_bounds [of lim] by (metis int_nat_eq not_less zero_less_one zero_less_nat_eq
        less_le_trans order_less_imp_le)
  let ?o = "nat off"
  let ?A = "take (?o + l) (select_asc ?k (as_user1 uid) (convs d))"
  let ?B = "take (?o + l) (select_asc ?k (as_user2 uid) (convs d))"
  let ?m = "sort_key ?k (?A @ ?B)"
  have off: "(if off < 0 then 0 else off) = int ?o" by simp
  have merged: "sort_conversations_by_last_message_at (dedup_by_id [] (?A @ ?B)) = ?m"
    by (simp only: sort_conversations_stable dedup_sides [OF assms])
  have sides: "(\<lambda>c. c_user1 c = uid \<and> conv_live c) = as_user1 uid"
    "(\<lambda>c. (c_user2 c = uid \<and> c_user2 c \<noteq> []) \<and> conv_live c) = as_user2 uid"
    by (auto simp: as_user1_def as_user2_def)
  have "conv_get_by_user uid off lim d
      = (if length ?m \<le> ?o then [] else drop ?o (take (min (?o + l) (length ?m)) ?m))"
    unfolding conv_get_by_user_def Let_def off sides
    by (simp only: l(1) nat_int_add merged page_end of_nat_le_iff nat_int)
  also have "\<dots> = take l (drop ?o (conversations_newest_first uid d))"
  proof (rule page_of_prefix [OF _ l(2)])
    show "take (?o + l) ?m = take (?o + l) (conversations_newest_first uid d)"
      unfolding conversations_newest_first_def select_asc_def by (rule take_sort_merge)
  qed
  finally show ?thesis by (simp add: l(1))
qed

end
