(* ===== verification/MessageStore.thy ===== *)
theory MessageStore
  imports ConversationStore
begin

text \<open>
  \<^verbatim>\<open>internal/store/message.go\<close>: the operations on the messages table.  Message ids count up per
  conversation and are allocated by \<open>SendMessage\<close> (theory \<open>Store\<close>); the pair
  \<^verbatim>\<open>(client_message_id, sender_id)\<close> has a unique index, which also sees soft-deleted rows.
\<close>

definition msg_live :: "message \<Rightarrow> bool" where
  "msg_live m \<longleftrightarrow> m_deleted m = None"

definition msg_conflict :: "message \<Rightarrow> message \<Rightarrow> bool" where
  "msg_conflict m m' \<longleftrightarrow>
     m_id m' = m_id m \<or> (m_client_id m' = m_client_id m \<and> m_sender m' = m_sender m)"

definition msg_defaults :: "time \<Rightarrow> message \<Rightarrow> message" where
  "msg_defaults now m =
     m\<lparr>m_type := (if m_type m = [] then ''text'' else m_type m),
       m_status := (if m_status m = [] then ''sent'' else m_status m),
       m_created := (if m_created m = zero_time then now else m_created m)\<rparr>"

definition msg_create :: "time \<Rightarrow> message \<Rightarrow> db \<Rightarrow> store_error + db" where
  "msg_create now m d =
     (if list_ex (msg_conflict m) (msgs d) then Inl ErrDuplicateKey
      else Inr (d\<lparr>msgs := msgs d @ [msg_defaults now m]\<rparr>))"

definition msg_get :: "string \<Rightarrow> db \<Rightarrow> store_error + message" where
  "msg_get mid d =
     (case first_by m_id (\<lambda>m. m_id m = mid \<and> msg_live m) (msgs d) of
        None \<Rightarrow> Inl ErrNotFound | Some m \<Rightarrow> Inr m)"

definition msg_get_by_conversation_and_message_id ::
  "string \<Rightarrow> u32 \<Rightarrow> db \<Rightarrow> store_error + message" where
  "msg_get_by_conversation_and_message_id cid n d =
     (case first_by m_id (\<lambda>m. (m_conv m = cid \<and> m_msg_id m = n) \<and> msg_live m) (msgs d) of
        None \<Rightarrow> Inl ErrNotFound | Some m \<Rightarrow> Inr m)"

definition msg_list_by_conversation :: "string \<Rightarrow> u32 \<Rightarrow> int \<Rightarrow> db \<Rightarrow> message list" where
  "msg_list_by_conversation cid after limit0 d =
     (let limit = (if limit0 \<le> 0 \<or> limit0 > 201 then 50 else limit0)
      in take (nat limit) (select_asc m_msg_id
           (\<lambda>m. (m_conv m = cid \<and> m_msg_id m > after) \<and> msg_live m) (msgs d)))"

definition msg_delete :: "time \<Rightarrow> string \<Rightarrow> db \<Rightarrow> store_error + db" where
  "msg_delete now mid d =
     (let p = (\<lambda>m. m_id m = mid \<and> msg_live m)
      in if count_where p (msgs d) = 0 then Inl ErrNotFound
         else Inr (d\<lparr>msgs := update_where p (\<lambda>m. m\<lparr>m_deleted := Some now\<rparr>) (msgs d)\<rparr>))"

definition msg_get_by_client_message_id :: "string \<Rightarrow> string \<Rightarrow> db \<Rightarrow> store_error + message" where
  "msg_get_by_client_message_id cmid sender d =
     (case first_by m_id (\<lambda>m. (m_client_id m = cmid \<and> m_sender m = sender) \<and> msg_live m) (msgs d) of
        None \<Rightarrow> Inl ErrNotFound | Some m \<Rightarrow> Inr m)"

text \<open>\<^verbatim>\<open>ORDER BY message_id DESC\<close>: the key is the negated counter.\<close>

definition desc_msg_id :: "message \<Rightarrow> int" where
  "desc_msg_id m = - uint (m_msg_id m)"

definition msg_search_by_conversation ::
  "(char \<Rightarrow> char \<Rightarrow> bool) \<Rightarrow> string \<Rightarrow> string \<Rightarrow> u32 \<Rightarrow> int \<Rightarrow> db \<Rightarrow> message list" where
  "msg_search_by_conversation eqc cid content after limit0 d =
     (let limit = (if limit0 \<le> 0 \<or> limit0 > 201 then 50 else limit0)
      in if content = [] then []
         else take (nat limit) (select_asc desc_msg_id
           (\<lambda>m. ((m_conv m = cid \<and> like_substring eqc content (m_content m))
                 \<and> (after > 0 \<longrightarrow> m_msg_id m < after)) \<and> msg_live m) (msgs d)))"

definition msg_list_by_time_range :: "string \<Rightarrow> time \<Rightarrow> time \<Rightarrow> int \<Rightarrow> db \<Rightarrow> message list" where
  "msg_list_by_time_range cid t0 t1 limit0 d =
     (let limit = (if limit0 \<le> 0 \<or> limit0 > 200 then 50 else limit0)
      in take (nat limit) (select_asc m_msg_id
           (\<lambda>m. (m_conv m = cid \<and> m_created m \<ge> t0 \<and> m_created m \<le> t1) \<and> msg_live m) (msgs d)))"

definition msg_get_latest_tool_calling :: "string \<Rightarrow> db \<Rightarrow> store_error + message" where
  "msg_get_latest_tool_calling cid d =
     (case first_by (\<lambda>m. (desc_msg_id m)) (\<lambda>m. (m_conv m = cid \<and> m_type m = ''tool_calling''
            \<and> m_status m = ''executing'') \<and> msg_live m) (msgs d) of
        None \<Rightarrow> Inl ErrNotFound | Some m \<Rightarrow> Inr m)"

definition msg_restore :: "string \<Rightarrow> db \<Rightarrow> store_error + db" where
  "msg_restore mid d =
     (let p = (\<lambda>m. m_id m = mid \<and> \<not> msg_live m)
      in if count_where p (msgs d) = 0 then Inl ErrNotFound
         else Inr (d\<lparr>msgs := update_where p (\<lambda>m. m\<lparr>m_deleted := None\<rparr>) (msgs d)\<rparr>))"

definition msg_delete_by_conversation :: "time \<Rightarrow> string \<Rightarrow> db \<Rightarrow> db" where
  "msg_delete_by_conversation now cid d =
     d\<lparr>msgs := update_where (\<lambda>m. m_conv m = cid \<and> msg_live m)
        (\<lambda>m. m\<lparr>m_deleted := Some now\<rparr>) (msgs d)\<rparr>"

definition msg_mark_summarized :: "string \<Rightarrow> u32 \<Rightarrow> db \<Rightarrow> db" where
  "msg_mark_summarized cid n d =
     d\<lparr>msgs := update_where (\<lambda>m. (m_conv m = cid \<and> m_msg_id m \<le> n \<and> \<not> m_summarized m) \<and> msg_live m)
        (\<lambda>m. m\<lparr>m_summarized := True\<rparr>) (msgs d)\<rparr>"

definition msg_count_unread :: "string \<Rightarrow> u32 \<Rightarrow> db \<Rightarrow> int" where
  "msg_count_unread cid after d =
     (let count = int (count_where (\<lambda>m. (m_conv m = cid \<and> m_msg_id m > after) \<and> msg_live m) (msgs d))
      in if count < 0 then 0 else count)"

definition msg_restore_by_conversation :: "string \<Rightarrow> db \<Rightarrow> nat \<times> db" where
  "msg_restore_by_conversation cid d =
     (let p = (\<lambda>m. m_conv m = cid \<and> \<not> msg_live m)
      in (count_where p (msgs d),
          d\<lparr>msgs := update_where p (\<lambda>m. m\<lparr>m_deleted := None\<rparr>) (msgs d)\<rparr>))"

definition msg_update_content ::
  "string \<Rightarrow> u32 \<Rightarrow> string \<Rightarrow> string \<Rightarrow> string \<Rightarrow> db \<Rightarrow> store_error + db" where
  "msg_update_content cid n content ty status d =
     (let p = (\<lambda>m. (m_conv m = cid \<and> m_msg_id m = n) \<and> msg_live m)
      in if count_where p (msgs d) = 0 then Inl ErrNotFound
         else Inr (d\<lparr>msgs := update_where p
                (\<lambda>m. m\<lparr>m_content := content, m_type := ty, m_status := status\<rparr>) (msgs d)\<rparr>))"

definition msg_list_recent :: "string \<Rightarrow> int \<Rightarrow> db \<Rightarrow> message list" where
  "msg_list_recent cid limit0 d =
     (let limit = (if limit0 \<le> 0 \<or> limit0 > 500 then 50 else limit0)
      in take (nat limit) (select_asc desc_msg_id
           (\<lambda>m. (m_conv m = cid \<and> (\<not> m_summarized m \<or> m_type m = ''summary'')) \<and> msg_live m) (msgs d)))"

end
