(* ===== verification/UserUpdateStore.thy ===== *)
theory UserUpdateStore
  imports Models
begin

text \<open>
  \<^verbatim>\<open>internal/store/user_update.go\<close> and \<^verbatim>\<open>internal/cleanup\<close>: the per-user update log.  A new entry
  takes the highest sequence number of the user's rows plus one, in 32-bit arithmetic.  The table
  has no unique index on \<^verbatim>\<open>(user_id, seq)\<close>; rows are removed for good by the cleanup task.
\<close>

definition upd_conflict :: "user_update \<Rightarrow> user_update \<Rightarrow> bool" where
  "upd_conflict u u' \<longleftrightarrow> u_id u' = u_id u"

text \<open>\<^verbatim>\<open>CreateInBatches\<close> runs in one transaction: either every row is inserted or none.\<close>

fun upd_insert_all :: "user_update list \<Rightarrow> user_update list \<Rightarrow> store_error + user_update list" where
  "upd_insert_all [] rows = Inr rows"
| "upd_insert_all (u # us) rows =
     (if list_ex (upd_conflict u) rows then Inl ErrDuplicateKey else upd_insert_all us (rows @ [u]))"

definition upd_create :: "user_update list \<Rightarrow> db \<Rightarrow> store_error + db" where
  "upd_create us d =
     (if us = [] then Inr d
      else case upd_insert_all us (upds d) of
             Inl e \<Rightarrow> Inl e | Inr rows \<Rightarrow> Inr (d\<lparr>upds := rows\<rparr>))"

definition upd_list_by_user :: "string \<Rightarrow> u32 \<Rightarrow> int \<Rightarrow> db \<Rightarrow> user_update list" where
  "upd_list_by_user uid after limit0 d =
     (let limit = (if limit0 \<le> 0 \<or> limit0 > 1000 then 100 else limit0)
      in take (nat limit) (select_asc u_seq (\<lambda>u. u_user u = uid \<and> u_seq u > after) (upds d)))"

definition upd_list_by_user_range :: "string \<Rightarrow> u32 \<Rightarrow> u32 \<Rightarrow> db \<Rightarrow> user_update list" where
  "upd_list_by_user_range uid after mx d =
     (if mx \<le> after then []
      else select_asc u_seq (\<lambda>u. u_user u = uid \<and> u_seq u > after \<and> u_seq u \<le> mx) (upds d))"

definition upd_latest_seq :: "string \<Rightarrow> db \<Rightarrow> u32" where
  "upd_latest_seq uid d = max_where (\<lambda>u. u_user u = uid) u_seq (upds d)"

definition DefaultCleanupRetention :: duration where
  "DefaultCleanupRetention = 30 * 24 * 3600 * second"

definition upd_cleanup_expired_before :: "time \<Rightarrow> db \<Rightarrow> nat \<times> db" where
  "upd_cleanup_expired_before before d =
     (count_where (\<lambda>u. u_created u < before) (upds d),
      d\<lparr>upds := filter (\<lambda>u. \<not> u_created u < before) (upds d)\<rparr>)"

definition upd_cleanup_expired :: "time \<Rightarrow> db \<Rightarrow> nat \<times> db" where
  "upd_cleanup_expired now d = upd_cleanup_expired_before (now - DefaultCleanupRetention) d"

text \<open>
  One tick of \<^verbatim>\<open>UserUpdateCleaner.Run\<close>: a driver failure is logged and leaves the table alone; the
  result is the log line, if any.
\<close>

datatype cleaner_log = CleanupFailed store_error | CleanedUp nat

definition cleaner_run_once ::
  "store_error option \<Rightarrow> time \<Rightarrow> db \<Rightarrow> cleaner_log option \<times> db" where
  "cleaner_run_once fault now d =
     (case fault of
        Some e \<Rightarrow> (Some (CleanupFailed e), d)
      | None \<Rightarrow> (let (deleted, d') = upd_cleanup_expired now d
                 in (if deleted > 0 then Some (CleanedUp deleted) else None, d')))"

subsection \<open>The log as an interface\<close>

text \<open>
  What the producers of updates rely on: entries carry a per-user number, the next number is above
  every number handed out so far, and appending keeps what is there.  A writer that allocates and
  appends in one transaction keeps the numbers of each user pairwise distinct.
\<close>

locale seq_log =
  fixes entries :: "'s \<Rightarrow> 'e list"
    and latest :: "'u \<Rightarrow> 's \<Rightarrow> u32"
    and append_entry :: "'e \<Rightarrow> 's \<Rightarrow> 's"
    and owner :: "'e \<Rightarrow> 'u"
    and num :: "'e \<Rightarrow> u32"
  assumes latest_ge: "e \<in> set (entries s) \<Longrightarrow> num e \<le> latest (owner e) s"
    and entries_append: "entries (append_entry e s) = entries s @ [e]"
begin

definition numbered :: "'s \<Rightarrow> bool" where
  "numbered s \<longleftrightarrow> distinct (map (\<lambda>e. (owner e, num e)) (entries s))"

lemma numbered_append:
  assumes "numbered s" and "num e = latest (owner e) s + 1" and "latest (owner e) s \<noteq> - 1"
  shows "numbered (append_entry e s)"
proof -
  have "(owner x, num x) \<noteq> (owner e, num e)" if "x \<in> set (entries s)" for x
  proof
    assume same: "(owner x, num x) = (owner e, num e)"
    have "num x \<le> latest (owner e) s" using latest_ge [OF that] same by simp
    moreover have "latest (owner e) s < num e" using assms(2,3) by (simp add: word_succ_gt)
    ultimately show False using same by simp
  qed
  then have "(owner e, num e) \<notin> (\<lambda>x. (owner x, num x)) ` set (entries s)"
    by (metis (no_types, lifting) imageE)
  then show ?thesis using assms(1) by (simp add: numbered_def entries_append)
qed

lemma fresh_number:
  assumes "num e = latest (owner e) s + 1" "latest (owner e) s \<noteq> - 1"
    "x \<in> set (entries s)" "owner x = owner e"
  shows "num x < num e"
  using latest_ge [OF assms(3)] assms(1,2,4) word_succ_gt [OF assms(2)] by auto

end

interpretation upd_log: seq_log "upds" upd_latest_seq "\<lambda>u d. d\<lparr>upds := upds d @ [u]\<rparr>" u_user u_seq
  by unfold_locales (auto simp: upd_latest_seq_def intro: max_where_ge)

subsection \<open>Inserting a batch\<close>

lemma upd_insert_all_Inr:
  "upd_insert_all us rows = Inr rows' \<longleftrightarrow>
     rows' = rows @ us \<and> distinct (map u_id us) \<and> u_id ` set us \<inter> u_id ` set rows = {}"
proof (induction us arbitrary: rows)
  case Nil
  then show ?case by auto
next
  case (Cons u us)
  have "list_ex (upd_conflict u) rows \<longleftrightarrow> u_id u \<in> u_id ` set rows"
    by (metis (no_types, lifting) image_iff list_ex_iff upd_conflict_def)
  then show ?case using Cons.IH [of "rows @ [u]"] by auto
qed

lemma upd_create_Inr:
  "upd_create us d = Inr d' \<Longrightarrow> d' = d\<lparr>upds := upds d @ us\<rparr>"
  by (auto simp: upd_create_def upd_insert_all_Inr split: if_splits sum.splits)

lemma upd_create_ok:
  "distinct (map u_id us) \<Longrightarrow> u_id ` set us \<inter> u_id ` set (upds d) = {} \<Longrightarrow>
   upd_create us d = Inr (d\<lparr>upds := upds d @ us\<rparr>)"
  using upd_insert_all_Inr [of us "upds d" "upds d @ us"] by (auto simp: upd_create_def)

lemma latest_seq_append:
  "upd_latest_seq uid (d\<lparr>upds := upds d @ us\<rparr>)
     = max (upd_latest_seq uid d) (max_where (\<lambda>u. u_user u = uid) u_seq us)"
  by (simp add: upd_latest_seq_def)

end
