(* ===== verification/RemoteCallingStore.thy ===== *)
theory RemoteCallingStore
  imports Models
begin

text \<open>
  \<^verbatim>\<open>internal/store/remote_calling.go\<close>: calls an agent makes to a client (questions to the user and
  client functions).  A row is created pending and leaves that status once, through one of
  resolve, cancel and expire.
\<close>

definition rc_live :: "remote_calling \<Rightarrow> bool" where
  "rc_live r \<longleftrightarrow> rc_deleted r = None"

text \<open>
  The foreign key on \<^verbatim>\<open>conversation_id\<close> is enforced by PostgreSQL and MySQL, and by SQLite only
  when its foreign-key pragma is on; the flag \<open>fk\<close> says whether it is.
\<close>

definition rc_create :: "bool \<Rightarrow> time \<Rightarrow> remote_calling \<Rightarrow> db \<Rightarrow> store_error + db" where
  "rc_create fk now r d =
     (if list_ex (\<lambda>r'. rc_id r' = rc_id r) (rcs d) then Inl ErrDuplicateKey
      else if fk \<and> \<not> list_ex (\<lambda>c. c_id c = rc_conv r) (convs d) then Inl ErrForeignKeyViolation
      else Inr (d\<lparr>rcs := rcs d @
        [r\<lparr>rc_created := (if rc_created r = zero_time then now else rc_created r)\<rparr>]\<rparr>))"

definition rc_get_by_id :: "string \<Rightarrow> db \<Rightarrow> store_error + remote_calling" where
  "rc_get_by_id i d =
     (case first_by rc_id (\<lambda>r. rc_id r = i) (rcs d) of None \<Rightarrow> Inl ErrNotFound | Some r \<Rightarrow> Inr r)"

definition rc_get_pending_by_conversation :: "string \<Rightarrow> db \<Rightarrow> remote_calling list" where
  "rc_get_pending_by_conversation cid d =
     select_asc rc_created (\<lambda>r. (rc_conv r = cid \<and> rc_stat r = RcPending) \<and> rc_live r) (rcs d)"

definition rc_get_pending_by_checkpoint :: "string \<Rightarrow> db \<Rightarrow> remote_calling list" where
  "rc_get_pending_by_checkpoint cp d =
     select_asc rc_created (\<lambda>r. (rc_checkpoint r = cp \<and> rc_stat r = RcPending) \<and> rc_live r) (rcs d)"

definition rc_get_by_checkpoint :: "string \<Rightarrow> db \<Rightarrow> remote_calling list" where
  "rc_get_by_checkpoint cp d =
     select_asc rc_created (\<lambda>r. rc_checkpoint r = cp \<and> rc_live r) (rcs d)"

definition rc_get_resolved_by_checkpoint :: "string \<Rightarrow> db \<Rightarrow> remote_calling list" where
  "rc_get_resolved_by_checkpoint cp d =
     select_asc rc_created (\<lambda>r. (rc_checkpoint r = cp \<and> rc_stat r = RcResolved) \<and> rc_live r) (rcs d)"

text \<open>
  The two resolve operations update the pending row; when none matches they look again, this time
  also among soft-deleted rows, to tell a finished call from an unknown one.
\<close>

definition rc_missing :: "string \<Rightarrow> db \<Rightarrow> store_error" where
  "rc_missing i d =
     (case first_by rc_id (\<lambda>r. rc_id r = i) (rcs d) of None \<Rightarrow> ErrNotFound | Some _ \<Rightarrow> ErrConflict)"

definition rc_resolve_result :: "time \<Rightarrow> string \<Rightarrow> string \<Rightarrow> db \<Rightarrow> store_error + db" where
  "rc_resolve_result now i result d =
     (let p = (\<lambda>r. (rc_id r = i \<and> rc_stat r = RcPending) \<and> rc_live r)
      in if count_where p (rcs d) = 0 then Inl (rc_missing i d)
         else Inr (d\<lparr>rcs := update_where p (\<lambda>r. r\<lparr>rc_stat := RcResolved, rc_result := result,
                rc_success := True, rc_resolved_at := Some now\<rparr>) (rcs d)\<rparr>))"

definition rc_resolve_error :: "time \<Rightarrow> string \<Rightarrow> string \<Rightarrow> db \<Rightarrow> store_error + db" where
  "rc_resolve_error now i err d =
     (let p = (\<lambda>r. (rc_id r = i \<and> rc_stat r = RcPending) \<and> rc_live r)
      in if count_where p (rcs d) = 0 then Inl (rc_missing i d)
         else Inr (d\<lparr>rcs := update_where p (\<lambda>r. r\<lparr>rc_stat := RcResolved, rc_error := err,
                rc_success := False, rc_resolved_at := Some now\<rparr>) (rcs d)\<rparr>))"

text \<open>
  \<^verbatim>\<open>CancelByCheckpoint\<close>: inside one transaction, the first pending row (by primary key) supplies
  the conversation and the agent, then every pending row is cancelled.
\<close>

definition rc_cancel_by_checkpoint ::
  "time \<Rightarrow> string \<Rightarrow> string \<Rightarrow> string \<Rightarrow> db \<Rightarrow> (nat \<times> string \<times> string) \<times> db" where
  "rc_cancel_by_checkpoint now cp reason by d =
     (let p = (\<lambda>r. (rc_checkpoint r = cp \<and> rc_stat r = RcPending) \<and> rc_live r)
      in case first_by rc_id p (rcs d) of
           None \<Rightarrow> ((0, [], []), d)
         | Some r \<Rightarrow>
             ((count_where p (rcs d), rc_conv r, rc_agent r),
              d\<lparr>rcs := update_where p (\<lambda>r. r\<lparr>rc_stat := RcCancelled, rc_cancelled_at := Some now,
                  rc_cancelled_by := by, rc_cancel_reason := reason\<rparr>) (rcs d)\<rparr>))"

definition rc_get_resolved_by_method_and_conversation ::
  "string \<Rightarrow> string \<Rightarrow> db \<Rightarrow> store_error + remote_calling" where
  "rc_get_resolved_by_method_and_conversation meth cid d =
     (case first_by (\<lambda>r. - rc_created r) (\<lambda>r. (rc_method r = meth \<and> rc_conv r = cid
            \<and> rc_stat r = RcResolved \<and> rc_msg_id r > 0) \<and> rc_live r) (rcs d) of
        None \<Rightarrow> Inl ErrNotFound | Some r \<Rightarrow> Inr r)"

definition rc_delete_by_conversation :: "time \<Rightarrow> string \<Rightarrow> db \<Rightarrow> db" where
  "rc_delete_by_conversation now cid d =
     d\<lparr>rcs := update_where (\<lambda>r. rc_conv r = cid \<and> rc_live r)
        (\<lambda>r. r\<lparr>rc_deleted := Some now\<rparr>) (rcs d)\<rparr>"

definition rc_delete_by_checkpoint :: "time \<Rightarrow> string \<Rightarrow> db \<Rightarrow> db" where
  "rc_delete_by_checkpoint now cp d =
     d\<lparr>rcs := update_where (\<lambda>r. rc_checkpoint r = cp \<and> rc_live r)
        (\<lambda>r. r\<lparr>rc_deleted := Some now\<rparr>) (rcs d)\<rparr>"

definition rc_count_pending_by_checkpoint :: "string \<Rightarrow> db \<Rightarrow> nat" where
  "rc_count_pending_by_checkpoint cp d =
     count_where (\<lambda>r. (rc_checkpoint r = cp \<and> rc_stat r = RcPending) \<and> rc_live r) (rcs d)"

definition rc_overdue :: "time \<Rightarrow> remote_calling \<Rightarrow> bool" where
  "rc_overdue now r \<longleftrightarrow> (case rc_expires_at r of None \<Rightarrow> False | Some e \<Rightarrow> e < now)"

definition rc_list_expired :: "nat \<Rightarrow> time \<Rightarrow> db \<Rightarrow> remote_calling list" where
  "rc_list_expired limit now d =
     take limit (select_asc rc_created
       (\<lambda>r. (rc_stat r = RcPending \<and> rc_overdue now r) \<and> rc_live r) (rcs d))"

definition rc_mark_expired_by_checkpoint :: "string \<Rightarrow> time \<Rightarrow> db \<Rightarrow> nat \<times> db" where
  "rc_mark_expired_by_checkpoint cp now d =
     (let p = (\<lambda>r. (rc_checkpoint r = cp \<and> rc_stat r = RcPending \<and> rc_overdue now r) \<and> rc_live r)
      in (count_where p (rcs d),
          d\<lparr>rcs := update_where p (\<lambda>r. r\<lparr>rc_stat := RcExpired\<rparr>) (rcs d)\<rparr>))"

text \<open>\<^verbatim>\<open>MarkExpired\<close> looks for the row again without \<^verbatim>\<open>Unscoped\<close>.\<close>

definition rc_mark_expired :: "string \<Rightarrow> db \<Rightarrow> store_error + db" where
  "rc_mark_expired i d =
     (let p = (\<lambda>r. (rc_id r = i \<and> rc_stat r = RcPending) \<and> rc_live r)
      in if count_where p (rcs d) = 0 then
           (case first_by rc_id (\<lambda>r. rc_id r = i \<and> rc_live r) (rcs d) of
              None \<Rightarrow> Inl ErrNotFound | Some _ \<Rightarrow> Inl ErrConflict)
         else Inr (d\<lparr>rcs := update_where p (\<lambda>r. r\<lparr>rc_stat := RcExpired\<rparr>) (rcs d)\<rparr>))"

subsection \<open>The lifecycle of a remote calling\<close>

text \<open>
  What an operation may do to the table: rows are only added, keep their identity and move up in
  the lifecycle order; a row that has left the pending status keeps its outcome.
\<close>

definition rc_outcome :: "remote_calling \<Rightarrow> rc_status \<times> string \<times> string \<times> bool \<times> time option
    \<times> time option \<times> string \<times> string" where
  "rc_outcome r = (rc_stat r, rc_result r, rc_error r, rc_success r, rc_resolved_at r,
     rc_cancelled_at r, rc_cancelled_by r, rc_cancel_reason r)"

definition rc_advances :: "remote_calling \<Rightarrow> remote_calling \<Rightarrow> bool" where
  "rc_advances r r' \<longleftrightarrow>
     (rc_id r', rc_conv r', rc_checkpoint r', rc_agent r', rc_method r', rc_params r', rc_expires_at r')
       = (rc_id r, rc_conv r, rc_checkpoint r, rc_agent r, rc_method r, rc_params r, rc_expires_at r)
     \<and> rc_stat r \<le> rc_stat r'
     \<and> (rc_stat r \<noteq> RcPending \<longrightarrow> rc_outcome r' = rc_outcome r)"

definition rc_table_advances :: "remote_calling list \<Rightarrow> remote_calling list \<Rightarrow> bool" where
  "rc_table_advances rs rs' \<longleftrightarrow> length rs \<le> length rs'
     \<and> list_all2 rc_advances rs (take (length rs) rs')"

lemma rc_advances_refl [simp, intro]: "rc_advances r r"
  by (simp add: rc_advances_def)

lemma rc_advances_trans: "rc_advances r s \<Longrightarrow> rc_advances s t \<Longrightarrow> rc_advances r t"
  by (auto simp: rc_advances_def rc_outcome_def)

lemma list_all2_advances_trans:
  "list_all2 rc_advances rs ss \<Longrightarrow> list_all2 rc_advances ss ts \<Longrightarrow> list_all2 rc_advances rs ts"
  by (rule list_all2_trans [of rc_advances rc_advances rc_advances, OF rc_advances_trans])

lemma table_advances_refl [simp]: "rc_table_advances xs xs"
  by (auto simp: rc_table_advances_def intro!: list_all2_refl)

lemma table_advances_append: "rc_table_advances rs (rs @ new)"
  by (auto simp: rc_table_advances_def intro!: list_all2_refl)

lemma table_advances_update:
  assumes "\<And>r. p r \<Longrightarrow> rc_advances r (f r)"
  shows "rc_table_advances rs (update_where p f rs)"
proof -
  have "list_all2 rc_advances rs (update_where p f rs)"
    using assms by (induction rs) auto
  then show ?thesis by (auto simp: rc_table_advances_def dest: list_all2_lengthD)
qed

lemma table_advances_trans:
  assumes "rc_table_advances rs ss" "rc_table_advances ss ts"
  shows "rc_table_advances rs ts"
proof -
  from assms have l: "length rs \<le> length ss" "length ss \<le> length ts"
    and a: "list_all2 rc_advances rs (take (length rs) ss)"
    and b: "list_all2 rc_advances ss (take (length ss) ts)"
    by (auto simp: rc_table_advances_def)
  from b have "list_all2 rc_advances (take (length rs) ss) (take (length rs) (take (length ss) ts))"
    by (rule list_all2_takeI)
  then have "list_all2 rc_advances rs (take (length rs) ts)"
    using a l by (auto intro: list_all2_advances_trans simp: min_def)
  then show ?thesis using l by (auto simp: rc_table_advances_def)
qed

text \<open>The steps the store offers, as a relation.\<close>

inductive rc_step :: "db \<Rightarrow> db \<Rightarrow> bool" where
  create: "rc_create fk now r d = Inr d' \<Longrightarrow> rc_step d d'"
| resolve_result: "rc_resolve_result now i x d = Inr d' \<Longrightarrow> rc_step d d'"
| resolve_error: "rc_resolve_error now i x d = Inr d' \<Longrightarrow> rc_step d d'"
| cancel: "rc_cancel_by_checkpoint now cp reason by d = (res, d') \<Longrightarrow> rc_step d d'"
| expire_checkpoint: "rc_mark_expired_by_checkpoint cp now d = (n, d') \<Longrightarrow> rc_step d d'"
| expire: "rc_mark_expired i d = Inr d' \<Longrightarrow> rc_step d d'"
| delete_conversation: "d' = rc_delete_by_conversation now cid d \<Longrightarrow> rc_step d d'"
| delete_checkpoint: "d' = rc_delete_by_checkpoint now cp d \<Longrightarrow> rc_step d d'"

inductive_cases rc_stepE: "rc_step d d'"

lemma rc_step_advances: "rc_step d d' \<Longrightarrow> rc_table_advances (rcs d) (rcs d')"
proof (induction rule: rc_step.induct)
  case (create fk now r d d')
  then show ?case by (auto simp: rc_create_def table_advances_append split: if_splits)
next
  case (resolve_result now i x d d')
  then show ?case
    by (auto simp: rc_resolve_result_def Let_def rc_advances_def intro!: table_advances_update
        split: if_splits)
next
  case (resolve_error now i x d d')
  then show ?case
    by (auto simp: rc_resolve_error_def Let_def rc_advances_def intro!: table_advances_update
        split: if_splits)
next
  case (cancel now cp reason by' d res d')
  then show ?case
    by (auto simp: rc_cancel_by_checkpoint_def Let_def rc_advances_def intro!: table_advances_update
        split: option.splits)
next
  case (expire_checkpoint cp now d n d')
  then show ?case
    by (auto simp: rc_mark_expired_by_checkpoint_def Let_def rc_advances_def
        intro!: table_advances_update)
next
  case (expire i d d')
  then show ?case
    by (auto simp: rc_mark_expired_def Let_def rc_advances_def intro!: table_advances_update
        split: if_splits option.splits)
next
  case (delete_conversation d' now cid d)
  then show ?case
    by (auto simp: rc_delete_by_conversation_def rc_advances_def rc_outcome_def
        intro!: table_advances_update)
next
  case (delete_checkpoint d' now cp d)
  then show ?case
    by (auto simp: rc_delete_by_checkpoint_def rc_advances_def rc_outcome_def
        intro!: table_advances_update)
qed

lemma rc_steps_advance: "rc_step\<^sup>*\<^sup>* d d' \<Longrightarrow> rc_table_advances (rcs d) (rcs d')"
  by (induction rule: rtranclp_induct) (auto intro: table_advances_trans rc_step_advances)

text \<open>
  C19: along any sequence of store operations a remote calling that has been resolved, cancelled or
  expired keeps its status and its outcome, and no row disappears from the table.
\<close>

theorem remote_calling_final_states_stable:
  assumes "rc_step\<^sup>*\<^sup>* d d'" and "i < length (rcs d)" and "rc_stat (rcs d ! i) \<noteq> RcPending"
  shows "i < length (rcs d') \<and> rc_id (rcs d' ! i) = rc_id (rcs d ! i)
    \<and> rc_outcome (rcs d' ! i) = rc_outcome (rcs d ! i)"
proof -
  from rc_steps_advance [OF assms(1)] have "length (rcs d) \<le> length (rcs d')"
    and "list_all2 rc_advances (rcs d) (take (length (rcs d)) (rcs d'))"
    by (auto simp: rc_table_advances_def)
  then have "i < length (rcs d')" "rc_advances (rcs d ! i) (rcs d' ! i)"
    using assms(2) by (auto dest: list_all2_nthD)
  then show ?thesis using assms(3) by (auto simp: rc_advances_def)
qed

end
