(* ===== verification/Store.thy ===== *)
theory Store
  imports MessageStore UserUpdateStore RemoteCallingStore
begin

text \<open>
  \<^verbatim>\<open>internal/store/store.go\<close>: transactions with their retry on deadlock, and \<^verbatim>\<open>SendMessage\<close>, the
  composite operation that allocates the message id and the sequence number of every member, inserts
  the message and the fan-out updates and advances the conversation, all in one transaction.
\<close>

subsection \<open>Transactions\<close>

text \<open>
  The database's view of one attempt: \<open>tx_fault i\<close> is the driver error attempt \<open>i\<close> ends in, if
  any; \<open>tx_cancelled i\<close> says that the context is cancelled when it is looked at before the first
  attempt (0) or during the back-off after attempt \<open>i - 1\<close>.  A failed attempt is rolled back.
\<close>

record txenv =
  tx_fault :: "nat \<Rightarrow> store_error option"
  tx_cancelled :: "nat \<Rightarrow> bool"

definition tx_ok :: txenv where
  "tx_ok = \<lparr>tx_fault = (\<lambda>_. None), tx_cancelled = (\<lambda>_. False)\<rparr>"

definition ctx_error :: store_error where
  "ctx_error = ErrOther ''context canceled''"

definition tx_attempt ::
  "txenv \<Rightarrow> nat \<Rightarrow> (db \<Rightarrow> store_error + ('a \<times> db)) \<Rightarrow> db \<Rightarrow> store_error + ('a \<times> db)" where
  "tx_attempt t i f d = (case tx_fault t i of Some e \<Rightarrow> Inl e | None \<Rightarrow> f d)"

fun tx_loop ::
  "nat \<Rightarrow> nat \<Rightarrow> txenv \<Rightarrow> (db \<Rightarrow> store_error + ('a \<times> db)) \<Rightarrow> db \<Rightarrow> store_error
     \<Rightarrow> store_error + ('a \<times> db)" where
  "tx_loop 0 i t f d err = Inl err"
| "tx_loop (Suc n) i t f d err =
     (case tx_attempt t i f d of
        Inr r \<Rightarrow> Inr r
      | Inl e \<Rightarrow>
          if e \<noteq> ErrDatabaseDeadlock then Inl e
          else if tx_cancelled t (Suc i) then Inl ctx_error
          else tx_loop n (Suc i) t f d e)"

definition maxRetries :: nat where "maxRetries = 3"

definition store_transaction ::
  "txenv \<Rightarrow> (db \<Rightarrow> store_error + ('a \<times> db)) \<Rightarrow> db \<Rightarrow> store_error + ('a \<times> db)" where
  "store_transaction t f d =
     (if tx_cancelled t 0 then Inl ctx_error
      else tx_loop maxRetries 0 t f d ErrDatabaseDeadlock)"

lemma tx_loop_Inr: "tx_loop n i t f d e = Inr r \<Longrightarrow> f d = Inr r"
  by (induction n i t f d e rule: tx_loop.induct)
     (auto simp: tx_attempt_def split: sum.splits option.splits if_splits)

lemma store_transaction_Inr: "store_transaction t f d = Inr r \<Longrightarrow> f d = Inr r"
  by (auto simp: store_transaction_def dest: tx_loop_Inr split: if_splits)

lemma store_transaction_ok:
  "f d \<noteq> Inl ErrDatabaseDeadlock \<Longrightarrow> store_transaction tx_ok f d = f d"
  by (cases "f d") (simp_all add: store_transaction_def maxRetries_def tx_ok_def tx_attempt_def
      numeral_3_eq_3)

text \<open>Two deadlocks are absorbed, the third is returned.\<close>

lemma store_transaction_deadlocks:
  assumes "\<not> tx_cancelled t 0" "\<not> tx_cancelled t 1" "\<not> tx_cancelled t 2" "\<not> tx_cancelled t 3"
    and "tx_fault t 0 = Some ErrDatabaseDeadlock" "tx_fault t 1 = Some ErrDatabaseDeadlock"
  shows "store_transaction t f d = tx_attempt t 2 f d"
  using assms
  by (cases "tx_attempt t 2 f d")
     (simp_all add: store_transaction_def maxRetries_def tx_attempt_def numeral_3_eq_3 numeral_2_eq_2)

subsection \<open>SendMessage\<close>

definition maxSendMessageUpdates :: nat where "maxSendMessageUpdates = 500"

text \<open>
  Sequence allocation and construction of the fan-out rows: every member's latest number is read
  from the state before the batch is inserted.  \<open>uuid i\<close> is the i-th fresh identifier.
\<close>

definition build_updates ::
  "(nat \<Rightarrow> string) \<Rightarrow> time \<Rightarrow> string \<Rightarrow> payload \<Rightarrow> string list \<Rightarrow> db \<Rightarrow> user_update list" where
  "build_updates uuid now ty pl members d =
     map (\<lambda>(i, u). \<lparr>u_id = uuid i, u_user = u, u_seq = upd_latest_seq u d + 1,
                   u_type = ty, u_payload = pl, u_created = now\<rparr>)
         (enumerate 0 members)"

definition send_message_tx ::
  "(nat \<Rightarrow> string) \<Rightarrow> time \<Rightarrow> message \<Rightarrow> string list \<Rightarrow> db
     \<Rightarrow> store_error + ((message \<times> user_update list) \<times> db)" where
  "send_message_tx uuid now msg0 members d =
     (case conv_get (m_conv msg0) d of
        Inl e \<Rightarrow> Inl e
      | Inr conv \<Rightarrow>
          let msg = msg0\<lparr>m_msg_id := c_last_msg conv + 1\<rparr>;
              updates = build_updates uuid now UpdateTypeMessage (PMessage msg) members d
          in case msg_create now msg d of
               Inl e \<Rightarrow> Inl e
             | Inr d1 \<Rightarrow>
                 (case upd_create updates d1 of
                    Inl e \<Rightarrow> Inl e
                  | Inr d2 \<Rightarrow>
                      (case conv_update_last_message now (m_conv msg) (m_created msg) (m_msg_id msg) d2 of
                         Inl e \<Rightarrow> Inl e
                       | Inr d3 \<Rightarrow> Inr ((msg_defaults now msg, updates), d3))))"

definition store_send_message ::
  "txenv \<Rightarrow> (nat \<Rightarrow> string) \<Rightarrow> time \<Rightarrow> message \<Rightarrow> string list \<Rightarrow> db
     \<Rightarrow> store_error + ((message \<times> user_update list) \<times> db)" where
  "store_send_message t uuid now msg members d =
     (if length members > maxSendMessageUpdates then Inl (ErrOther ''store: too many members'')
      else store_transaction t (send_message_tx uuid now msg members) d)"

subsection \<open>What a successful SendMessage did\<close>

lemma conv_get_Inr:
  "conv_get cid d = Inr c \<Longrightarrow> c \<in> set (convs d) \<and> c_id c = cid \<and> conv_live c"
  by (auto simp: conv_get_def split: option.splits dest: first_by_SomeD)

lemma conv_get_unscoped_Inr:
  "conv_get_unscoped cid d = Inr c \<Longrightarrow> c \<in> set (convs d) \<and> c_id c = cid"
  by (auto simp: conv_get_unscoped_def split: option.splits dest: first_by_SomeD)

lemma conv_get_ok:
  assumes "distinct (map c_id (convs d))" "c \<in> set (convs d)" "conv_live c"
  shows "conv_get (c_id c) d = Inr c"
proof -
  have "first_by c_id (\<lambda>x. c_id x = c_id c \<and> conv_live x) (convs d) = Some c"
    using assms by (intro first_by_key [where f = c_id]) auto
  then show ?thesis by (simp add: conv_get_def)
qed

lemma conv_get_cong_convs: "convs d' = convs d \<Longrightarrow> conv_get cid d' = conv_get cid d"
  by (simp add: conv_get_def)

lemma length_build_updates [simp]: "length (build_updates uuid now ty pl members d) = length members"
  by (simp add: build_updates_def)

lemma build_updates_nth:
  "i < length members \<Longrightarrow> build_updates uuid now ty pl members d ! i
     = \<lparr>u_id = uuid i, u_user = members ! i, u_seq = upd_latest_seq (members ! i) d + 1,
        u_type = ty, u_payload = pl, u_created = now\<rparr>"
  by (simp add: build_updates_def nth_enumerate_eq)

lemma map_u_user_build [simp]: "map u_user (build_updates uuid now ty pl members d) = members"
  by (rule nth_equalityI) (simp_all add: build_updates_nth)

lemma map_u_id_build: "map u_id (build_updates uuid now ty pl members d) = map uuid [0..<length members]"
  by (rule nth_equalityI) (simp_all add: build_updates_nth)

lemma set_build_updates:
  "u \<in> set (build_updates uuid now ty pl members d) \<Longrightarrow>
     u_user u \<in> set members \<and> u_seq u = upd_latest_seq (u_user u) d + 1 \<and> u_type u = ty
     \<and> u_payload u = pl \<and> u_created u = now"
  by (auto simp: in_set_conv_nth build_updates_nth)

lemma build_updates_user:
  assumes "u \<in> set members"
  shows "\<exists>x \<in> set (build_updates uuid now ty pl members d). u_user x = u"
  using assms by (metis image_iff map_u_user_build set_map)

lemma send_message_tx_Inr:
  assumes "send_message_tx uuid now msg0 members d = Inr ((msg, updates), d')"
  obtains conv where "conv_get (m_conv msg0) d = Inr conv"
    and "msg = msg_defaults now (msg0\<lparr>m_msg_id := c_last_msg conv + 1\<rparr>)"
    and "updates = build_updates uuid now UpdateTypeMessage
           (PMessage (msg0\<lparr>m_msg_id := c_last_msg conv + 1\<rparr>)) members d"
    and "\<not> list_ex (msg_conflict msg0) (msgs d)"
    and "d' = d\<lparr>msgs := msgs d @ [msg], upds := upds d @ updates,
                convs := update_where (\<lambda>c. c_id c = m_conv msg0 \<and> conv_live c)
                  (\<lambda>c. c\<lparr>c_last_at := m_created msg0, c_last_msg := c_last_msg conv + 1,
                        c_updated := now\<rparr>) (convs d)\<rparr>"
proof -
  from assms obtain conv where c: "conv_get (m_conv msg0) d = Inr conv"
    by (auto simp: send_message_tx_def split: sum.splits)
  let ?m = "msg0\<lparr>m_msg_id := c_last_msg conv + 1\<rparr>"
  have cf: "msg_conflict ?m = msg_conflict msg0" by (auto simp: msg_conflict_def fun_eq_iff)
  from assms c obtain d1 d2 where
    u: "updates = build_updates uuid now UpdateTypeMessage (PMessage ?m) members d"
    and 1: "msg_create now ?m d = Inr d1" and 2: "upd_create updates d1 = Inr d2"
    and 3: "conv_update_last_message now (m_conv msg0) (m_created msg0) (c_last_msg conv + 1) d2 = Inr d'"
    and m: "msg = msg_defaults now ?m"
    by (auto simp: send_message_tx_def Let_def split: sum.splits)
  from 1 have d1: "d1 = d\<lparr>msgs := msgs d @ [msg]\<rparr>" and nc: "\<not> list_ex (msg_conflict msg0) (msgs d)"
    by (auto simp: msg_create_def cf m split: if_splits)
  from 2 have d2: "d2 = d1\<lparr>upds := upds d1 @ updates\<rparr>" by (rule upd_create_Inr)
  from 3 have "d' = d2\<lparr>convs := update_where (\<lambda>c. c_id c = m_conv msg0 \<and> conv_live c)
      (\<lambda>c. c\<lparr>c_last_at := m_created msg0, c_last_msg := c_last_msg conv + 1, c_updated := now\<rparr>)
      (convs d2)\<rparr>"
    by (auto simp: conv_update_last_message_def Let_def split: if_splits)
  with d1 d2 show thesis by (intro that [OF c m u nc]) simp
qed

end
