(* ===== verification/HandlerBase.thy ===== *)
theory HandlerBase
  imports Store
begin

text \<open>
  What the request handlers of \<^verbatim>\<open>internal/handler\<close> share: the caller, the state they work on (the
  database and the tasks put on the message queue), the environment's choices during one request,
  the membership helpers of \<^verbatim>\<open>send_message.go\<close>, and the fan-out of a persisted update to the members of
  a conversation.  A handler maps the caller, the decoded parameters (\<open>None\<close> when they do not
  parse) and the state to a response or a \<^verbatim>\<open>HandlerError\<close>, and the new state.
\<close>

record client_conn =
  cl_user :: string
  cl_device :: string

record recipient =
  rcp_user :: string
  rcp_updates :: "data_update list"

record agent_process_payload =
  ap_message_id :: string
  ap_conversation_id :: string
  ap_agent_id :: string
  ap_sender_id :: string
  ap_device_id :: string

record agent_resume_task_payload =
  ar_conversation_id :: string
  ar_checkpoint_id :: string
  ar_agent_id :: string
  ar_sender_id :: string
  ar_device_id :: string
  ar_cancelled_by :: string
  ar_message_id :: u32

text \<open>Tasks of the message queue; the agent task carries its retry limit.\<close>

datatype task =
    TaskSendMessage "recipient list"
  | TaskAgentProcess agent_process_payload nat
  | TaskAgentResume agent_resume_task_payload

record srv =
  sv_db :: db
  sv_queue :: "task list"

text \<open>
  The database calls of a handler, for the environment to fail: each constructor is one kind of call.
\<close>

datatype db_call =
    CallGetConversation
  | CallGetConversationAgain
  | CallGetByUsers
  | CallGetByUsersAgain
  | CallCreateConversation
  | CallGetByUser
  | CallUpdateLastRead
  | CallCountUnread
  | CallGetMessage
  | CallDeleteMessage
  | CallGetByClientMessageID
  | CallListMessages
  | CallLatestSeq string
  | CallListUpdates
  | CallCreateUpdates
  | CallGetRemoteCalling
  | CallListRemoteCallings
  | CallMarkExpired
  | CallResolve
  | CallMarkExpiredByCheckpoint
  | CallCountPending
  | CallCancel

text \<open>
  One request's environment: which database calls fail and how, the transactions the request opens
  (one or two), the clock readings and fresh identifiers it obtains, in order, whether a broker is
  configured and which of its enqueue calls succeed.
\<close>

record env =
  e_fault :: "db_call \<Rightarrow> store_error option"
  e_tx :: txenv
  e_tx2 :: txenv
  e_now :: "nat \<Rightarrow> time"
  e_uuid :: "nat \<Rightarrow> string"
  e_broker :: bool
  e_enqueue_ok :: "nat \<Rightarrow> bool"

definition db_try :: "env \<Rightarrow> db_call \<Rightarrow> store_error + 'a \<Rightarrow> store_error + 'a" where
  "db_try env call r = (case e_fault env call of Some e \<Rightarrow> Inl e | None \<Rightarrow> r)"

text \<open>The environment in which no database call of the handler fails.\<close>

definition no_faults :: "env \<Rightarrow> bool" where
  "no_faults env \<longleftrightarrow> e_fault env = (\<lambda>_. None)"

lemma no_faults_db_try: "no_faults env \<Longrightarrow> db_try env call r = r"
  by (simp add: no_faults_def db_try_def)

definition enqueue :: "env \<Rightarrow> nat \<Rightarrow> task \<Rightarrow> srv \<Rightarrow> bool \<times> srv" where
  "enqueue env k t s =
     (if e_enqueue_ok env k then (True, s\<lparr>sv_queue := sv_queue s @ [t]\<rparr>) else (False, s))"

definition set_db :: "db \<Rightarrow> srv \<Rightarrow> srv" where
  "set_db d s = s\<lparr>sv_db := d\<rparr>"

subsection \<open>Members of a conversation\<close>

definition peerUserID :: "conversation \<Rightarrow> string \<Rightarrow> string" where
  "peerUserID conv sender =
     (if c_user1 conv = sender then c_user2 conv
      else if c_user2 conv = sender then c_user1 conv else [])"

definition conversationMembers :: "conversation \<Rightarrow> string list" where
  "conversationMembers conv =
     (if c_user2 conv \<noteq> [] then [c_user1 conv, c_user2 conv] else [c_user1 conv])"

fun containsUser :: "string list \<Rightarrow> string \<Rightarrow> bool" where
  "containsUser [] u = False"
| "containsUser (m # ms) u = (if m = u then True else containsUser ms u)"

fun containsUserOrAgentBase :: "string list \<Rightarrow> string \<Rightarrow> bool" where
  "containsUserOrAgentBase [] u = False"
| "containsUserOrAgentBase (m # ms) u =
     (if m = u then True
      else if prefix (u @ ''/'') m then True
      else containsUserOrAgentBase ms u)"

lemma containsUser_iff [simp]: "containsUser ms u \<longleftrightarrow> u \<in> set ms"
  by (induction ms) auto

lemma containsUserOrAgentBase_iff:
  "containsUserOrAgentBase ms u \<longleftrightarrow> (\<exists>m \<in> set ms. m = u \<or> prefix (u @ ''/'') m)"
  by (induction ms) auto

lemma set_conversationMembers:
  "set (conversationMembers c)
     = (if c_user2 c \<noteq> [] then {c_user1 c, c_user2 c} else {c_user1 c})"
  by (simp add: conversationMembers_def)

lemma distinct_conversationMembers:
  "c_user1 c \<noteq> c_user2 c \<Longrightarrow> distinct (conversationMembers c)"
  by (simp add: conversationMembers_def)

lemma conversationMembers_nonempty [simp]: "conversationMembers c \<noteq> []"
  by (simp add: conversationMembers_def)

subsection \<open>Fetching the conversation of a request\<close>

text \<open>
  The block every conversation handler starts with: \<^verbatim>\<open>ConversationStore().Get\<close> with its two error
  branches, and the membership check.
\<close>

definition get_conversation_or_error ::
  "env \<Rightarrow> db_call \<Rightarrow> string \<Rightarrow> db \<Rightarrow> HandlerError + conversation" where
  "get_conversation_or_error env call cid d =
     (case db_try env call (conv_get cid d) of
        Inr c \<Rightarrow> Inr c
      | Inl ErrNotFound \<Rightarrow> Inl (NewNotFoundError ''conversation not found'')
      | Inl e \<Rightarrow> Inl (NewInternalError (''get conversation: '' @ store_error_msg e)))"

definition not_a_member :: HandlerError where
  "not_a_member = NewPermissionDeniedError ''user is not a member of the conversation''"

definition missing_field :: "string \<Rightarrow> HandlerError" where
  "missing_field f = NewValidationError (''missing required field: '' @ f)"

definition invalid_params :: HandlerError where
  "invalid_params = NewValidationError ''invalid params''"

lemma get_conversation_or_error_Inr:
  "get_conversation_or_error env call cid d = Inr c \<longleftrightarrow>
     e_fault env call = None \<and> conv_get cid d = Inr c"
  by (auto simp: get_conversation_or_error_def db_try_def
      split: option.splits sum.splits store_error.splits)

lemma get_conversation_or_error_ok:
  "e_fault env call = None \<Longrightarrow> conv_get cid d = Inr c \<Longrightarrow>
     get_conversation_or_error env call cid d = Inr c"
  by (simp add: get_conversation_or_error_Inr)

subsection \<open>Fan-out of an update\<close>

definition to_recipient :: "user_update \<Rightarrow> recipient" where
  "to_recipient u = \<lparr>rcp_user = u_user u, rcp_updates = [\<lparr>du_seq = u_seq u, du_type = u_type u,
     du_payload = u_payload u, du_created = u_created u\<rparr>]\<rparr>"

text \<open>
  The loop of \<^verbatim>\<open>delete_message\<close>, \<^verbatim>\<open>delete_conversation\<close> and \<^verbatim>\<open>restore_conversation\<close> over the members: a
  member whose latest number cannot be read is skipped, every other member gets number latest + 1.
  The numbers are read outside any transaction.
\<close>

fun fanout_updates ::
  "env \<Rightarrow> time \<Rightarrow> string \<Rightarrow> payload \<Rightarrow> nat \<Rightarrow> string list \<Rightarrow> db \<Rightarrow> user_update list" where
  "fanout_updates env now ty pl i [] d = []"
| "fanout_updates env now ty pl i (u # us) d =
     (case db_try env (CallLatestSeq u) (Inr (upd_latest_seq u d)) of
        Inl e \<Rightarrow> fanout_updates env now ty pl (Suc i) us d
      | Inr latest \<Rightarrow>
          \<lparr>u_id = e_uuid env i, u_user = u, u_seq = latest + 1, u_type = ty, u_payload = pl,
           u_created = now\<rparr> # fanout_updates env now ty pl (Suc i) us d)"

text \<open>\<^verbatim>\<open>broadcast...Updates\<close>: one task carrying all recipients; failures are only logged.\<close>

definition broadcast_updates :: "env \<Rightarrow> nat \<Rightarrow> user_update list \<Rightarrow> srv \<Rightarrow> srv" where
  "broadcast_updates env k us s =
     (if \<not> e_broker env then s
      else snd (enqueue env k (TaskSendMessage (map to_recipient us)) s))"

text \<open>
  The steps the three handlers take after their main effect: build the rows, try to insert them
  (a failure is logged only), and broadcast them in either case.
\<close>

definition persist_and_broadcast ::
  "env \<Rightarrow> nat \<Rightarrow> time \<Rightarrow> string \<Rightarrow> payload \<Rightarrow> string list \<Rightarrow> srv \<Rightarrow> srv" where
  "persist_and_broadcast env k now ty pl members s =
     (let us = fanout_updates env now ty pl 0 members (sv_db s);
          s1 = (case db_try env CallCreateUpdates (upd_create us (sv_db s)) of
                  Inl e \<Rightarrow> s | Inr d \<Rightarrow> set_db d s)
      in broadcast_updates env k us s1)"

text \<open>
  \<^verbatim>\<open>broadcastConversationUpdateToMembers\<close>: allocation and insertion in one transaction, then the
  broadcast; a failed transaction is returned to the caller and nothing is pushed.
\<close>

definition broadcastConversationUpdateToMembers ::
  "env \<Rightarrow> txenv \<Rightarrow> nat \<Rightarrow> time \<Rightarrow> string \<Rightarrow> string list \<Rightarrow> string \<Rightarrow> srv
     \<Rightarrow> store_error option \<times> srv" where
  "broadcastConversationUpdateToMembers env t k now cid members action s =
     (if members = [] then (None, s)
      else
        let pl = PConvAction cid action None
        in case store_transaction t
                  (\<lambda>d. let us' = build_updates (e_uuid env) now UpdateTypeConversation pl members d
                       in case upd_create us' d of Inl e \<Rightarrow> Inl e | Inr d' \<Rightarrow> Inr (us', d'))
                  (sv_db s) of
             Inl e \<Rightarrow> (Some e, s)
           | Inr (us, d') \<Rightarrow> (None, broadcast_updates env k us (set_db d' s)))"

subsection \<open>Facts about the fan-out\<close>

lemma sv_db_set [simp]: "sv_db (set_db d s) = d" "sv_queue (set_db d s) = sv_queue s"
  by (simp_all add: set_db_def)

lemma sv_db_enqueue [simp]: "sv_db (snd (enqueue env k t s)) = sv_db s"
  by (simp add: enqueue_def)

lemma sv_db_broadcast [simp]: "sv_db (broadcast_updates env k us s) = sv_db s"
  by (simp add: broadcast_updates_def)

lemma set_fanout:
  "u \<in> set (fanout_updates env now ty pl i members d) \<Longrightarrow>
     u_user u \<in> set members \<and> u_seq u = upd_latest_seq (u_user u) d + 1 \<and> u_type u = ty
     \<and> u_payload u = pl \<and> u_created u = now"
  by (induction i members d rule: fanout_updates.induct [where ?a0.0 = env and ?a1.0 = now and ?a2.0 = ty and ?a3.0 = pl])
     (auto simp: db_try_def split: option.splits sum.splits)

subsection \<open>Fresh identifiers\<close>

text \<open>The identifiers a request draws are new and pairwise different.\<close>

definition fresh_ids :: "env \<Rightarrow> db \<Rightarrow> bool" where
  "fresh_ids env d \<longleftrightarrow> inj (e_uuid env) \<and>
     (\<forall>i. e_uuid env i \<notin> c_id ` set (convs d) \<and> e_uuid env i \<notin> m_id ` set (msgs d)
        \<and> e_uuid env i \<notin> u_id ` set (upds d))"

lemma fresh_ids_neq:
  "fresh_ids env d \<Longrightarrow> m \<in> set (msgs d) \<Longrightarrow> m_id m \<noteq> e_uuid env i"
  "fresh_ids env d \<Longrightarrow> c \<in> set (convs d) \<Longrightarrow> c_id c \<noteq> e_uuid env i"
  "fresh_ids env d \<Longrightarrow> u \<in> set (upds d) \<Longrightarrow> u_id u \<noteq> e_uuid env i"
  unfolding fresh_ids_def by (metis image_eqI)+

lemma upd_create_build:
  assumes "inj uuid" "\<And>i. uuid i \<notin> u_id ` set (upds d')"
  shows "upd_create (build_updates uuid now ty pl members d) d'
    = Inr (d'\<lparr>upds := upds d' @ build_updates uuid now ty pl members d\<rparr>)"
proof (rule upd_create_ok)
  show "distinct (map u_id (build_updates uuid now ty pl members d))"
    using assms(1) by (auto simp: map_u_id_build distinct_map intro: inj_on_subset)
  have "u_id ` set (build_updates uuid now ty pl members d)
      = set (map u_id (build_updates uuid now ty pl members d))" by simp
  also have "\<dots> = uuid ` {0..<length members}"
    by (simp only: map_u_id_build) simp
  finally have "u_id ` set (build_updates uuid now ty pl members d) = uuid ` {0..<length members}" .
  then show "u_id ` set (build_updates uuid now ty pl members d) \<inter> u_id ` set (upds d') = {}"
    using assms(2) by auto
qed

text \<open>Without failures the fan-out numbers the members the way a transaction would.\<close>

lemma fanout_no_faults:
  assumes "no_faults env"
  shows "fanout_updates env now ty pl i members d = build_updates (\<lambda>k. e_uuid env (i + k)) now ty pl members d"
proof (induction members arbitrary: i)
  case Nil
  then show ?case by (simp add: build_updates_def)
next
  case (Cons u us)
  have "build_updates (\<lambda>k. e_uuid env (i + k)) now ty pl (u # us) d
    = \<lparr>u_id = e_uuid env i, u_user = u, u_seq = upd_latest_seq u d + 1, u_type = ty, u_payload = pl,
       u_created = now\<rparr> # build_updates (\<lambda>k. e_uuid env (Suc i + k)) now ty pl us d" (is "?l = ?r")
  proof (rule nth_equalityI)
    fix k assume "k < length ?l"
    then show "?l ! k = ?r ! k" by (cases k) (simp_all add: build_updates_nth)
  qed simp
  then show ?case by (simp add: Cons.IH no_faults_db_try [OF assms])
qed

lemma persist_and_broadcast_db:
  assumes "no_faults env" "fresh_ids env (sv_db s)"
  shows "sv_db (persist_and_broadcast env k now ty pl members s)
    = (sv_db s)\<lparr>upds := upds (sv_db s) @ build_updates (e_uuid env) now ty pl members (sv_db s)\<rparr>"
proof -
  have "upd_create (build_updates (e_uuid env) now ty pl members (sv_db s)) (sv_db s)
    = Inr ((sv_db s)\<lparr>upds := upds (sv_db s) @ build_updates (e_uuid env) now ty pl members (sv_db s)\<rparr>)"
    by (rule upd_create_build) (use assms(2) in \<open>auto simp: fresh_ids_def\<close>)
  then show ?thesis
    by (simp add: persist_and_broadcast_def Let_def fanout_no_faults [OF assms(1)]
        no_faults_db_try [OF assms(1)])
qed

text \<open>Whatever fails, the fan-out only appends rows to the update log.\<close>

lemma persist_and_broadcast_appends:
  "\<exists>us. sv_db (persist_and_broadcast env k now ty pl members s) = (sv_db s)\<lparr>upds := upds (sv_db s) @ us\<rparr>
     \<and> (us = [] \<or> us = fanout_updates env now ty pl 0 members (sv_db s)
           \<and> upd_create us (sv_db s) = Inr ((sv_db s)\<lparr>upds := upds (sv_db s) @ us\<rparr>))"
proof -
  let ?us = "fanout_updates env now ty pl 0 members (sv_db s)"
  show ?thesis
  proof (cases "db_try env CallCreateUpdates (upd_create ?us (sv_db s))")
    case (Inl e)
    then have "sv_db (persist_and_broadcast env k now ty pl members s) = sv_db s"
      by (simp add: persist_and_broadcast_def Let_def)
    then show ?thesis by (intro exI [of _ "[]"]) simp
  next
    case (Inr d)
    then have u: "upd_create ?us (sv_db s) = Inr d" by (simp add: db_try_def split: option.splits)
    then have d: "d = (sv_db s)\<lparr>upds := upds (sv_db s) @ ?us\<rparr>" by (rule upd_create_Inr)
    have "sv_db (persist_and_broadcast env k now ty pl members s) = d"
      by (simp add: persist_and_broadcast_def Let_def Inr)
    then show ?thesis using u d by (intro exI [of _ ?us]) simp
  qed
qed

end
