(* ===== verification/AgentRegistry.thy ===== *)
theory AgentRegistry
  imports Prelude
begin

text \<open>
  \<^verbatim>\<open>internal/agent/config.go\<close>, \<^verbatim>\<open>parser.go\<close> and \<^verbatim>\<open>registry.go\<close>: the agent definition files and the
  registry the message handler consults.  The YAML decoder is a library of its own, so it is an
  argument (\<open>yaml\<close>) that turns the lines of the front matter into a configuration; the directory
  listing and the file contents are arguments too.  The floating-point generation parameters and
  the free-form tool configuration are not used by any of this code and are left out of the record.
\<close>

record MCPServerConfig =
  mcp_name :: string
  mcp_transport :: string
  mcp_url :: string
  mcp_command :: string

record ClientToolsConfig =
  ct_function_tags :: "string list"
  ct_excluded :: "string list"
  ct_call_timeout :: duration

record AgentConfig =
  ac_id :: string
  ac_name :: string
  ac_description :: string
  ac_model :: string
  ac_api_key_env :: string
  ac_base_url :: string
  ac_max_tokens :: int
  ac_max_messages :: int
  ac_tools :: "string list"
  ac_dynamic_tools :: "string list"
  ac_enable_summarization :: bool
  ac_summarization_tokens :: int
  ac_enable_tool_reduction :: bool
  ac_tool_reduction_max :: int
  ac_enable_patch_tool_calls :: bool
  ac_enable_client_tools :: bool
  ac_client_tools :: ClientToolsConfig
  ac_sub_agents :: "string list"
  ac_mcp_servers :: "MCPServerConfig list"
  ac_system_prompt :: string

datatype config_error =
    ErrNoFrontMatter
  | ErrInvalidFrontMatter string
  | ErrMissingID
  | ErrMissingName
  | ErrMissingModel
  | ErrMissingAPIKeyEnv
  | ErrMCPMissingName
  | ErrMCPDuplicateName string
  | ErrMCPMissingURL
  | ErrMCPMissingCommand
  | ErrInvalidMCPTransport

subsection \<open>Time-outs of client functions\<close>

definition DefaultClientFunctionCallTimeoutMs :: int where
  "DefaultClientFunctionCallTimeoutMs = 120000"

definition MinClientFunctionCallTimeoutMs :: int where
  "MinClientFunctionCallTimeoutMs = 60000"

definition DefaultHITLTimeout :: duration where
  "DefaultHITLTimeout = 24 * 3600 * second"

definition NormalizeClientFunctionTimeout :: "int \<Rightarrow> int \<Rightarrow> int" where
  "NormalizeClientFunctionTimeout timeoutMs defaultCallTimeoutMs =
     (let t = (if timeoutMs \<le> 0 then
                 (if defaultCallTimeoutMs > 0 then defaultCallTimeoutMs
                  else DefaultClientFunctionCallTimeoutMs)
               else timeoutMs)
      in if t < MinClientFunctionCallTimeoutMs then MinClientFunctionCallTimeoutMs else t)"

subsection \<open>Validation\<close>

text \<open>The loop of \<^verbatim>\<open>Validate\<close> over the MCP servers with its set of names seen.\<close>

fun validate_mcp :: "string set \<Rightarrow> MCPServerConfig list \<Rightarrow> config_error option" where
  "validate_mcp seen [] = None"
| "validate_mcp seen (m # ms) =
     (if mcp_name m = [] then Some ErrMCPMissingName
      else if mcp_name m \<in> seen then Some (ErrMCPDuplicateName (mcp_name m))
      else if mcp_transport m = ''sse'' then
        (if mcp_url m = [] then Some ErrMCPMissingURL
         else validate_mcp (insert (mcp_name m) seen) ms)
      else if mcp_transport m = ''stdio'' then
        (if mcp_command m = [] then Some ErrMCPMissingCommand
         else validate_mcp (insert (mcp_name m) seen) ms)
      else Some ErrInvalidMCPTransport)"

definition Validate :: "AgentConfig \<Rightarrow> config_error option" where
  "Validate c =
     (if ac_id c = [] then Some ErrMissingID
      else if ac_name c = [] then Some ErrMissingName
      else if ac_model c = [] then Some ErrMissingModel
      else if ac_api_key_env c = [] then Some ErrMissingAPIKeyEnv
      else validate_mcp {} (ac_mcp_servers c))"

definition mcp_well_formed :: "MCPServerConfig \<Rightarrow> bool" where
  "mcp_well_formed m \<longleftrightarrow> mcp_name m \<noteq> [] \<and>
     (mcp_transport m = ''sse'' \<and> mcp_url m \<noteq> [] \<or> mcp_transport m = ''stdio'' \<and> mcp_command m \<noteq> [])"

lemma validate_mcp_None_iff:
  "validate_mcp seen ms = None \<longleftrightarrow>
     (\<forall>m \<in> set ms. mcp_well_formed m) \<and> distinct (map mcp_name ms) \<and> mcp_name ` set ms \<inter> seen = {}"
  by (induction seen ms rule: validate_mcp.induct) (auto simp: mcp_well_formed_def)

subsection \<open>Front matter\<close>

text \<open>\<^verbatim>\<open>bytes.Split(data, "\n")\<close> and \<^verbatim>\<open>bytes.Join(lines, "\n")\<close>.\<close>

fun split_lines :: "string \<Rightarrow> string list" where
  "split_lines [] = [[]]"
| "split_lines (c # cs) =
     (if c = CHR 0x0A then [] # split_lines cs
      else case split_lines cs of [] \<Rightarrow> [[c]] | l # ls \<Rightarrow> (c # l) # ls)"

fun join_lines :: "string list \<Rightarrow> string" where
  "join_lines [] = []"
| "join_lines [l] = l"
| "join_lines (l # ls) = l @ CHR 0x0A # join_lines ls"

text \<open>\<^verbatim>\<open>TrimSpace\<close> on ASCII text.\<close>

definition is_space :: "char \<Rightarrow> bool" where
  "is_space c \<longleftrightarrow> c \<in> {CHR 0x09, CHR 0x0A, CHR 0x0B, CHR 0x0C, CHR 0x0D, CHR '' ''}"

definition trim_space :: "string \<Rightarrow> string" where
  "trim_space s = rev (dropWhile is_space (rev (dropWhile is_space s)))"

definition is_dashes :: "string \<Rightarrow> bool" where
  "is_dashes line \<longleftrightarrow> trim_space line = ''---''"

text \<open>
  The loop that looks for the two delimiters, with its two variables (\<open>None\<close> for -1).
\<close>

fun find_dashes :: "nat \<Rightarrow> nat option \<Rightarrow> string list \<Rightarrow> nat option \<times> nat option" where
  "find_dashes i first [] = (first, None)"
| "find_dashes i first (l # ls) =
     (if is_dashes l then
        (case first of None \<Rightarrow> find_dashes (Suc i) (Some i) ls | Some f \<Rightarrow> (Some f, Some i))
      else find_dashes (Suc i) first ls)"

definition ParseFrontMatter ::
  "(string \<Rightarrow> string + AgentConfig) \<Rightarrow> string \<Rightarrow> config_error + AgentConfig" where
  "ParseFrontMatter yaml data =
     (let lines = split_lines data in
      case find_dashes 0 None lines of
        (Some a, Some b) \<Rightarrow>
          (case yaml (join_lines (take (b - (a + 1)) (drop (a + 1) lines))) of
             Inl m \<Rightarrow> Inl (ErrInvalidFrontMatter m)
           | Inr config0 \<Rightarrow>
               let config = (if b + 1 < length lines
                             then config0\<lparr>ac_system_prompt := trim_space (join_lines (drop (b + 1) lines))\<rparr>
                             else config0)
               in case Validate config of Some e \<Rightarrow> Inl e | None \<Rightarrow> Inr config)
      | _ \<Rightarrow> Inl ErrNoFrontMatter)"

subsection \<open>The registry\<close>

record registry =
  ar_agents :: "string \<rightharpoonup> AgentConfig"
  ar_dir :: string

definition NewRegistry :: registry where
  "NewRegistry = \<lparr>ar_agents = Map.empty, ar_dir = []\<rparr>"

text \<open>One directory entry: its name, whether it is a directory, and its contents, if readable.\<close>

record dir_entry =
  de_name :: string
  de_is_dir :: bool
  de_data :: "string option"

datatype read_dir_result = DirNotExist | DirError string | DirEntries "dir_entry list"

fun load_entries ::
  "(string \<Rightarrow> string + AgentConfig) \<Rightarrow> dir_entry list \<Rightarrow> (string \<rightharpoonup> AgentConfig)
     \<Rightarrow> (string \<rightharpoonup> AgentConfig)" where
  "load_entries yaml [] m = m"
| "load_entries yaml (e # es) m =
     (if de_is_dir e \<or> \<not> suffix ''.md'' (de_name e) then load_entries yaml es m
      else case de_data e of
             None \<Rightarrow> load_entries yaml es m
           | Some data \<Rightarrow>
               (case ParseFrontMatter yaml data of
                  Inl err \<Rightarrow> load_entries yaml es m
                | Inr config \<Rightarrow>
                    (case m (ac_id config) of
                       Some _ \<Rightarrow> load_entries yaml es m
                     | None \<Rightarrow> load_entries yaml es (m(ac_id config \<mapsto> config)))))"

definition Load ::
  "(string \<Rightarrow> string + AgentConfig) \<Rightarrow> (string \<Rightarrow> read_dir_result) \<Rightarrow> string \<Rightarrow> registry
     \<Rightarrow> string option \<times> registry" where
  "Load yaml read_dir dir r =
     (let r' = r\<lparr>ar_agents := Map.empty, ar_dir := dir\<rparr> in
      case read_dir dir of
        DirNotExist \<Rightarrow> (None, r')
      | DirError m \<Rightarrow> (Some (''read agents dir: '' @ m), r')
      | DirEntries es \<Rightarrow> (None, r'\<lparr>ar_agents := load_entries yaml es Map.empty\<rparr>))"

definition Reload ::
  "(string \<Rightarrow> string + AgentConfig) \<Rightarrow> (string \<Rightarrow> read_dir_result) \<Rightarrow> registry
     \<Rightarrow> string option \<times> registry" where
  "Reload yaml read_dir r = Load yaml read_dir (ar_dir r) r"

definition Register :: "AgentConfig \<Rightarrow> registry \<Rightarrow> registry" where
  "Register c r = r\<lparr>ar_agents := (ar_agents r)(ac_id c \<mapsto> c)\<rparr>"

definition Get :: "string \<Rightarrow> registry \<Rightarrow> AgentConfig option" where
  "Get i r = ar_agents r i"

definition IsAgent :: "string \<Rightarrow> registry \<Rightarrow> AgentConfig option" where
  "IsAgent uid r = Get uid r"

definition Count :: "registry \<Rightarrow> nat" where
  "Count r = card (dom (ar_agents r))"

subsection \<open>Facts about front matter and loading\<close>

lemma split_lines_nonempty [simp]: "split_lines s \<noteq> []"
  by (induction s) (auto split: list.splits)

lemma split_lines_line:
  "CHR 0x0A \<notin> set l \<Longrightarrow> split_lines l = [l]"
  by (induction l) auto

lemma split_lines_append:
  "CHR 0x0A \<notin> set l \<Longrightarrow> split_lines (l @ CHR 0x0A # s) = l # split_lines s"
  by (induction l) auto

lemma split_join:
  "ls \<noteq> [] \<Longrightarrow> \<forall>l \<in> set ls. CHR 0x0A \<notin> set l \<Longrightarrow> split_lines (join_lines ls) = ls"
  by (induction ls rule: join_lines.induct) (auto simp: split_lines_line split_lines_append)

lemma find_dashes_skip:
  "\<forall>l \<in> set xs. \<not> is_dashes l \<Longrightarrow>
     find_dashes i first (xs @ ys) = find_dashes (i + length xs) first ys"
  by (induction xs arbitrary: i) auto

lemma is_dashes_exact [simp]: "is_dashes ''---''"
  by (simp add: is_dashes_def trim_space_def is_space_def)

text \<open>What one directory entry contributes.\<close>

definition entry_config ::
  "(string \<Rightarrow> string + AgentConfig) \<Rightarrow> dir_entry \<Rightarrow> AgentConfig option" where
  "entry_config yaml e =
     (if de_is_dir e \<or> \<not> suffix ''.md'' (de_name e) then None
      else case de_data e of
             None \<Rightarrow> None
           | Some data \<Rightarrow> (case ParseFrontMatter yaml data of Inl _ \<Rightarrow> None | Inr c \<Rightarrow> Some c))"

lemma load_entries_Cons:
  "load_entries yaml (e # es) m =
     (case entry_config yaml e of
        None \<Rightarrow> load_entries yaml es m
      | Some c \<Rightarrow> load_entries yaml es (if m (ac_id c) = None then m(ac_id c \<mapsto> c) else m))"
  by (auto simp: entry_config_def split: option.splits sum.splits)

lemma load_entries_lookup:
  "load_entries yaml es m i =
     (case m i of Some c \<Rightarrow> Some c
      | None \<Rightarrow> find (\<lambda>c. ac_id c = i) (List.map_filter (entry_config yaml) es))"
proof (induction es arbitrary: m)
  case Nil
  then show ?case by (simp add: map_filter_simps split: option.splits)
next
  case (Cons e es)
  show ?case
    by (cases "entry_config yaml e")
       (auto simp: load_entries_Cons map_filter_simps Cons.IH simp del: load_entries.simps
          split: option.splits)
qed

lemma ParseFrontMatter_valid: "ParseFrontMatter yaml data = Inr c \<Longrightarrow> Validate c = None"
  by (auto simp: ParseFrontMatter_def Let_def split: prod.splits option.splits sum.splits if_splits)

text \<open>
  C21: parsing a file written as front matter between two delimiter lines and a body gives the
  decoded configuration with the trimmed body as its system prompt; the YAML decoder sees exactly
  the lines in between, and a configuration that does not validate is rejected with the
  validation error.  Lines above the first delimiter are ignored.
\<close>

theorem parse_front_matter_layout:
  assumes "\<forall>l \<in> set pre. CHR 0x0A \<notin> set l \<and> \<not> is_dashes l"
    and "\<forall>l \<in> set ys. CHR 0x0A \<notin> set l \<and> \<not> is_dashes l"
    and "\<forall>l \<in> set body. CHR 0x0A \<notin> set l" and "body \<noteq> []"
  shows "ParseFrontMatter yaml (join_lines (pre @ [''---''] @ ys @ [''---''] @ body)) =
    (case yaml (join_lines ys) of
       Inl m \<Rightarrow> Inl (ErrInvalidFrontMatter m)
     | Inr c \<Rightarrow> (let c' = c\<lparr>ac_system_prompt := trim_space (join_lines body)\<rparr>
                 in case Validate c' of Some e \<Rightarrow> Inl e | None \<Rightarrow> Inr c'))"
proof -
  let ?ls = "pre @ [''---''] @ ys @ [''---''] @ body"
  have lines: "split_lines (join_lines ?ls) = ?ls"
    using assms by (intro split_join) auto
  have "find_dashes 0 None ?ls = find_dashes (length pre) None ([''---''] @ ys @ [''---''] @ body)"
    using assms(1) by (subst find_dashes_skip) auto
  also have "\<dots> = find_dashes (Suc (length pre)) (Some (length pre)) (ys @ [''---''] @ body)"
    by simp
  also have "\<dots> = (Some (length pre), Some (Suc (length pre + length ys)))"
    using assms(2) by (subst find_dashes_skip) auto
  finally have dashes: "find_dashes 0 None ?ls
    = (Some (length pre), Some (Suc (length pre + length ys)))" .
  have yaml_part: "take (Suc (length pre + length ys) - (length pre + 1)) (drop (length pre + 1) ?ls) = ys"
    by simp
  have body_part: "drop (Suc (length pre + length ys) + 1) ?ls = body" by simp
  have more: "Suc (length pre + length ys) + 1 < length ?ls" using assms(4) by simp
  show ?thesis
    unfolding ParseFrontMatter_def lines Let_def dashes
    by (simp only: prod.case option.case yaml_part body_part more if_True)
qed

text \<open>
  C22: after loading a directory the registry maps an id to the configuration of the first
  entry, in directory order, that is a readable and valid \<^verbatim>\<open>.md\<close> file with that id, and every
  registered configuration passes validation under its own id.
\<close>

theorem load_first_valid_wins:
  assumes "read_dir dir = DirEntries es"
  shows "Get i (snd (Load yaml read_dir dir r))
      = find (\<lambda>c. ac_id c = i) (List.map_filter (entry_config yaml) es)
    \<and> (\<forall>c. Get i (snd (Load yaml read_dir dir r)) = Some c \<longrightarrow> ac_id c = i \<and> Validate c = None)"
proof -
  have lookup: "Get i (snd (Load yaml read_dir dir r))
      = find (\<lambda>c. ac_id c = i) (List.map_filter (entry_config yaml) es)"
    using assms by (simp add: Get_def Load_def Let_def load_entries_lookup)
  have "ac_id c = i \<and> Validate c = None" if "Get i (snd (Load yaml read_dir dir r)) = Some c" for c
  proof -
    from that have c: "ac_id c = i" "c \<in> set (List.map_filter (entry_config yaml) es)"
      unfolding lookup by (auto simp: find_Some_iff)
    then obtain e where "entry_config yaml e = Some c"
      by (auto simp: List.map_filter_def)
    then have "Validate c = None"
      by (auto simp: entry_config_def dest: ParseFrontMatter_valid
          split: if_splits option.splits sum.splits)
    with c show ?thesis by simp
  qed
  with lookup show ?thesis by blast
qed

end
