(* ===== verification/MessageHandlers.thy ===== *)
theory MessageHandlers
  imports HandlerBase AgentRegistry
begin

text \<open>
  The message handlers of \<^verbatim>\<open>internal/handler\<close>: \<^verbatim>\<open>send_message\<close>, \<^verbatim>\<open>delete_message\<close>, \<^verbatim>\<open>mark_as_read\<close>,
  \<^verbatim>\<open>get_messages\<close> and \<^verbatim>\<open>search_messages\<close>.  The clock readings and identifiers of a request are
  numbered in the order the code obtains them; reading 0 is the handler's \<^verbatim>\<open>time.Now()\<close>, the
  following ones are GORM's.
\<close>

subsection \<open>send\_message\<close>

record sendMessageParams =
  sm_conversation_id :: string
  sm_client_message_id :: string
  sm_content :: string
  sm_type :: string
  sm_reply_to :: u32

record sendMessageResponse =
  smr_message :: message
  smr_duplicate :: bool

definition send_message_row :: "env \<Rightarrow> client_conn \<Rightarrow> sendMessageParams \<Rightarrow> conversation \<Rightarrow> message" where
  "send_message_row env cl p conv =
     \<lparr>m_id = e_uuid env 0, m_client_id = sm_client_message_id p, m_conv = c_id conv, m_msg_id = 0,
      m_sender = cl_user cl, m_content = sm_content p,
      m_type = (if sm_type p = [] then ''text'' else sm_type p),
      m_reply_to = sm_reply_to p, m_status = ''sent'', m_summarized = False,
      m_created = e_now env 0, m_deleted = None\<rparr>"

text \<open>
  Step 5b: the agent task is enqueued when a registry is configured, the sender is not an agent
  and the peer is one.
\<close>

definition trigger_agent ::
  "registry option \<Rightarrow> env \<Rightarrow> client_conn \<Rightarrow> conversation \<Rightarrow> string \<Rightarrow> srv \<Rightarrow> srv" where
  "trigger_agent reg env cl conv mid s =
     (case reg of
        None \<Rightarrow> s
      | Some r \<Rightarrow>
          if IsAgent (cl_user cl) r \<noteq> None then s
          else let peer = peerUserID conv (cl_user cl) in
               if peer = [] then s
               else if IsAgent peer r = None then s
               else snd (enqueue env 1 (TaskAgentProcess
                 \<lparr>ap_message_id = mid, ap_conversation_id = c_id conv, ap_agent_id = peer,
                  ap_sender_id = cl_user cl, ap_device_id = cl_device cl\<rparr> 20) s))"

definition send_message ::
  "registry option \<Rightarrow> env \<Rightarrow> client_conn \<Rightarrow> sendMessageParams option \<Rightarrow> srv
     \<Rightarrow> (HandlerError + sendMessageResponse) \<times> srv" where
  "send_message reg env cl params s =
     (case params of
        None \<Rightarrow> (Inl invalid_params, s)
      | Some p \<Rightarrow>
          if sm_conversation_id p = [] then (Inl (missing_field ''conversation_id''), s)
          else if sm_client_message_id p = [] then (Inl (missing_field ''client_message_id''), s)
          else case get_conversation_or_error env CallGetConversation (sm_conversation_id p) (sv_db s) of
            Inl e \<Rightarrow> (Inl e, s)
          | Inr conv \<Rightarrow>
              let members = conversationMembers conv in
              if \<not> containsUser members (cl_user cl) then (Inl not_a_member, s)
              else case store_send_message (e_tx env) (\<lambda>i. e_uuid env (Suc i)) (e_now env 1)
                          (send_message_row env cl p conv) members (sv_db s) of
                Inl err \<Rightarrow>
                  (case (if err = ErrDuplicateKey
                         then db_try env CallGetByClientMessageID
                                (msg_get_by_client_message_id (sm_client_message_id p) (cl_user cl) (sv_db s))
                         else Inl err) of
                     Inr existing \<Rightarrow> (Inr \<lparr>smr_message = existing, smr_duplicate = True\<rparr>, s)
                   | Inl _ \<Rightarrow> (Inl (NewInternalError (''send message: '' @ store_error_msg err)), s))
              | Inr ((msg, updates), d) \<Rightarrow>
                  let s1 = snd (enqueue env 0 (TaskSendMessage (map to_recipient updates)) (set_db d s));
                      s2 = trigger_agent reg env cl conv (m_id msg) s1
                  in (Inr \<lparr>smr_message = msg, smr_duplicate = False\<rparr>, s2))"

subsection \<open>delete\_message\<close>

definition delete_message ::
  "env \<Rightarrow> client_conn \<Rightarrow> string option \<Rightarrow> srv \<Rightarrow> (HandlerError + unit) \<times> srv" where
  "delete_message env cl params s =
     (case params of
        None \<Rightarrow> (Inl invalid_params, s)
      | Some mid \<Rightarrow>
          if mid = [] then (Inl (missing_field ''message_id''), s)
          else case db_try env CallGetMessage (msg_get mid (sv_db s)) of
            Inl ErrNotFound \<Rightarrow> (Inl (NewNotFoundError ''message not found''), s)
          | Inl e \<Rightarrow> (Inl (NewInternalError (''get message: '' @ store_error_msg e)), s)
          | Inr msg \<Rightarrow>
              (case get_conversation_or_error env CallGetConversation (m_conv msg) (sv_db s) of
                 Inl e \<Rightarrow> (Inl e, s)
               | Inr conv \<Rightarrow>
                   let members = conversationMembers conv in
                   if \<not> containsUser members (cl_user cl) then (Inl not_a_member, s)
                   else if m_sender msg \<noteq> cl_user cl then
                     (Inl (NewPermissionDeniedError ''only the sender can delete this message''), s)
                   else case db_try env CallDeleteMessage (msg_delete (e_now env 0) mid (sv_db s)) of
                     Inl e \<Rightarrow> (Inl (NewInternalError (''delete message: '' @ store_error_msg e)), s)
                   | Inr d \<Rightarrow>
                       (Inr (), persist_and_broadcast env 0 (e_now env 1) UpdateTypeDeleteMessage
                          (PDeleteMessage mid (m_conv msg) (m_msg_id msg)) members (set_db d s))))"

subsection \<open>mark\_as\_read\<close>

record markAsReadParams =
  mr_conversation_id :: string
  mr_message_id :: u32

record markAsReadResponse =
  mrr_unread :: int
  mrr_last_read :: u32

text \<open>Steps 4 and 5: zero means everything, and the cursor never passes the last message.\<close>

definition mark_target :: "u32 \<Rightarrow> u32 \<Rightarrow> u32" where
  "mark_target requested last_msg =
     (let n = (if requested = 0 then last_msg else requested)
      in if n > last_msg then last_msg else n)"

text \<open>
  Step 8 and 9: one update for the caller alone, numbered outside a transaction; a failed insertion is
  only logged, and the broadcast is made anyway.
\<close>

definition mark_read_update :: "env \<Rightarrow> string \<Rightarrow> payload \<Rightarrow> srv \<Rightarrow> srv" where
  "mark_read_update env uid pl s =
     (case db_try env (CallLatestSeq uid) (Inr (upd_latest_seq uid (sv_db s))) of
        Inl e \<Rightarrow> s
      | Inr latest \<Rightarrow>
          let u = \<lparr>u_id = e_uuid env 0, u_user = uid, u_seq = latest + 1, u_type = UpdateTypeMarkRead,
                   u_payload = pl, u_created = e_now env 1\<rparr>;
              s1 = (case db_try env CallCreateUpdates (upd_create [u] (sv_db s)) of
                      Inl e \<Rightarrow> s | Inr d \<Rightarrow> set_db d s)
          in broadcast_updates env 0 [u] s1)"

definition mark_as_read ::
  "env \<Rightarrow> client_conn \<Rightarrow> markAsReadParams option \<Rightarrow> srv \<Rightarrow> (HandlerError + markAsReadResponse) \<times> srv" where
  "mark_as_read env cl params s =
     (case params of
        None \<Rightarrow> (Inl invalid_params, s)
      | Some p \<Rightarrow>
          if mr_conversation_id p = [] then (Inl (missing_field ''conversation_id''), s)
          else case get_conversation_or_error env CallGetConversation (mr_conversation_id p) (sv_db s) of
            Inl e \<Rightarrow> (Inl e, s)
          | Inr conv \<Rightarrow>
              if \<not> containsUser (conversationMembers conv) (cl_user cl) then (Inl not_a_member, s)
              else
                let target = mark_target (mr_message_id p) (c_last_msg conv) in
                (case db_try env CallUpdateLastRead
                        (conv_update_last_read (e_now env 0) (mr_conversation_id p) (cl_user cl) target (sv_db s)) of
                   Inl e \<Rightarrow> (Inl (NewInternalError (''update last read: '' @ store_error_msg e)), s)
                 | Inr d \<Rightarrow>
                     let s1 = set_db d s in
                     (case db_try env CallGetConversationAgain (conv_get (mr_conversation_id p) d) of
                        Inl e \<Rightarrow>
                          (Inl (NewInternalError (''get conversation after update: '' @ store_error_msg e)), s1)
                      | Inr conv' \<Rightarrow>
                          let cursor = (if cl_user cl = c_user2 conv' then c_read2 conv' else c_read1 conv') in
                          (case db_try env CallCountUnread (Inr (msg_count_unread (mr_conversation_id p) cursor d)) of
                             Inl e \<Rightarrow> (Inl (NewInternalError (''count unread: '' @ store_error_msg e)), s1)
                           | Inr unread \<Rightarrow>
                               (Inr \<lparr>mrr_unread = unread, mrr_last_read = cursor\<rparr>,
                                mark_read_update env (cl_user cl) (PMarkRead (mr_conversation_id p) cursor) s1)))))"

subsection \<open>get\_messages and search\_messages\<close>

record getMessagesParams =
  gm_conversation_id :: string
  gm_after :: u32
  gm_limit :: int

record messagesResponse =
  ms_messages :: "message list"
  ms_has_more :: bool

definition messages_limit :: "int \<Rightarrow> int" where
  "messages_limit limit = (if limit \<le> 0 \<or> limit > 200 then 50 else limit)"

text \<open>The limit+1 probe: one more row than asked for is fetched to see whether there are more.\<close>

definition probe_page :: "int \<Rightarrow> 'a list \<Rightarrow> 'a list \<times> bool" where
  "probe_page limit rows =
     (let has_more = int (length rows) > limit
      in (if has_more then take (nat limit) rows else rows, has_more))"

definition get_messages ::
  "env \<Rightarrow> client_conn \<Rightarrow> getMessagesParams option \<Rightarrow> srv \<Rightarrow> (HandlerError + messagesResponse) \<times> srv" where
  "get_messages env cl params s =
     (case params of
        None \<Rightarrow> (Inl invalid_params, s)
      | Some p \<Rightarrow>
          if gm_conversation_id p = [] then (Inl (missing_field ''conversation_id''), s)
          else case get_conversation_or_error env CallGetConversation (gm_conversation_id p) (sv_db s) of
            Inl e \<Rightarrow> (Inl e, s)
          | Inr conv \<Rightarrow>
              if \<not> containsUser (conversationMembers conv) (cl_user cl) then (Inl not_a_member, s)
              else
                let limit = messages_limit (gm_limit p) in
                (case db_try env CallListMessages
                        (Inr (msg_list_by_conversation (c_id conv) (gm_after p) (limit + 1) (sv_db s))) of
                   Inl e \<Rightarrow> (Inl (NewInternalError (''list messages: '' @ store_error_msg e)), s)
                 | Inr rows \<Rightarrow>
                     (let (page, more) = probe_page limit rows
                      in (Inr \<lparr>ms_messages = page, ms_has_more = more\<rparr>, s))))"

record searchMessagesParams =
  sp_conversation_id :: string
  sp_query :: string
  sp_after :: u32
  sp_limit :: int

definition search_messages ::
  "(char \<Rightarrow> char \<Rightarrow> bool) \<Rightarrow> env \<Rightarrow> client_conn \<Rightarrow> searchMessagesParams option \<Rightarrow> srv
     \<Rightarrow> (HandlerError + messagesResponse) \<times> srv" where
  "search_messages eqc env cl params s =
     (case params of
        None \<Rightarrow> (Inl invalid_params, s)
      | Some p \<Rightarrow>
          if sp_conversation_id p = [] then (Inl (missing_field ''conversation_id''), s)
          else if sp_query p = [] then (Inl (missing_field ''query''), s)
          else case get_conversation_or_error env CallGetConversation (sp_conversation_id p) (sv_db s) of
            Inl e \<Rightarrow> (Inl e, s)
          | Inr conv \<Rightarrow>
              if \<not> containsUser (conversationMembers conv) (cl_user cl) then (Inl not_a_member, s)
              else
                let limit = messages_limit (sp_limit p) in
                (case db_try env CallListMessages
                        (Inr (msg_search_by_conversation eqc (c_id conv) (sp_query p) (sp_after p)
                               (limit + 1) (sv_db s))) of
                   Inl e \<Rightarrow> (Inl (NewInternalError (''search messages: '' @ store_error_msg e)), s)
                 | Inr rows \<Rightarrow>
                     (let (page, more) = probe_page limit rows
                      in (Inr \<lparr>ms_messages = page, ms_has_more = more\<rparr>, s))))"

subsection \<open>Sending\<close>

lemma send_row_simps [simp]:
  "m_id (send_message_row env cl p conv) = e_uuid env 0"
  "m_client_id (send_message_row env cl p conv) = sm_client_message_id p"
  "m_conv (send_message_row env cl p conv) = c_id conv"
  "m_sender (send_message_row env cl p conv) = cl_user cl"
  "m_created (send_message_row env cl p conv) = e_now env 0"
  by (simp_all add: send_message_row_def)

text \<open>The message a request stores, once it has its number.\<close>

definition sent_message :: "env \<Rightarrow> client_conn \<Rightarrow> sendMessageParams \<Rightarrow> conversation \<Rightarrow> message" where
  "sent_message env cl p conv = (send_message_row env cl p conv)\<lparr>m_msg_id := c_last_msg conv + 1\<rparr>"

lemma msg_defaults_sent:
  "e_now env 0 \<noteq> zero_time \<Longrightarrow> msg_defaults now (sent_message env cl p conv) = sent_message env cl p conv"
  by (simp add: msg_defaults_def sent_message_def send_message_row_def)

lemma msg_conflict_sent: "msg_conflict (sent_message env cl p conv) = msg_conflict (send_message_row env cl p conv)"
  by (auto simp: sent_message_def msg_conflict_def fun_eq_iff)

lemma length_members: "length (conversationMembers c) \<le> maxSendMessageUpdates"
  by (simp add: conversationMembers_def maxSendMessageUpdates_def)

lemma inj_shift: "inj f \<Longrightarrow> inj (\<lambda>i::nat. f (Suc i))"
  by (auto simp: inj_def)

lemma store_send_ok:
  assumes conv: "conv_get (c_id conv) d = Inr conv"
    and fresh: "fresh_ids env d" and now: "e_now env 0 \<noteq> zero_time"
    and new: "\<not> list_ex (msg_conflict (send_message_row env cl p conv)) (msgs d)"
  defines "msg \<equiv> sent_message env cl p conv"
    and "us \<equiv> build_updates (\<lambda>i. e_uuid env (Suc i)) (e_now env 1) UpdateTypeMessage
           (PMessage (sent_message env cl p conv)) (conversationMembers conv) d"
  shows "store_send_message tx_ok (\<lambda>i. e_uuid env (Suc i)) (e_now env 1)
      (send_message_row env cl p conv) (conversationMembers conv) d
    = Inr ((msg, us), d\<lparr>msgs := msgs d @ [msg], upds := upds d @ us,
        convs := update_where (\<lambda>c. c_id c = c_id conv \<and> conv_live c)
          (\<lambda>c. c\<lparr>c_last_at := e_now env 0, c_last_msg := c_last_msg conv + 1,
                c_updated := e_now env 1\<rparr>) (convs d)\<rparr>)"
proof -
  let ?row = "send_message_row env cl p conv" and ?now = "e_now env 1"
  let ?d1 = "d\<lparr>msgs := msgs d @ [msg]\<rparr>"
  have m: "?row\<lparr>m_msg_id := c_last_msg conv + 1\<rparr> = msg" by (simp add: msg_def sent_message_def)
  have mm: "m_conv msg = c_id conv" "m_created msg = e_now env 0" "m_msg_id msg = c_last_msg conv + 1"
    "msg_defaults ?now msg = msg"
    by (simp_all add: msg_def msg_defaults_sent [OF now]) (simp_all add: sent_message_def)
  have us: "build_updates (\<lambda>i. e_uuid env (Suc i)) ?now UpdateTypeMessage (PMessage msg)
      (conversationMembers conv) d = us"
    by (simp only: us_def msg_def)
  have 1: "msg_create ?now msg d = Inr ?d1"
    using new by (simp only: msg_create_def msg_def msg_conflict_sent msg_defaults_sent [OF now] if_False)
  have 2: "upd_create us ?d1 = Inr (?d1\<lparr>upds := upds ?d1 @ us\<rparr>)"
    unfolding us_def by (rule upd_create_build) (use fresh in \<open>auto simp: fresh_ids_def intro: inj_shift\<close>)
  have 3: "conv_update_last_message ?now (c_id conv) (e_now env 0) (c_last_msg conv + 1)
      (?d1\<lparr>upds := upds ?d1 @ us\<rparr>)
    = Inr (d\<lparr>msgs := msgs d @ [msg], upds := upds d @ us,
        convs := update_where (\<lambda>c. c_id c = c_id conv \<and> conv_live c)
        (\<lambda>c. c\<lparr>c_last_at := e_now env 0, c_last_msg := c_last_msg conv + 1, c_updated := ?now\<rparr>)
        (convs d)\<rparr>)"
    using conv_get_Inr [OF conv] by (auto simp: conv_update_last_message_def Let_def count_where_zero)
  have "send_message_tx (\<lambda>i. e_uuid env (Suc i)) ?now ?row (conversationMembers conv) d
    = Inr ((msg, us), d\<lparr>msgs := msgs d @ [msg], upds := upds d @ us,
        convs := update_where (\<lambda>c. c_id c = c_id conv \<and> conv_live c)
          (\<lambda>c. c\<lparr>c_last_at := e_now env 0, c_last_msg := c_last_msg conv + 1, c_updated := ?now\<rparr>)
          (convs d)\<rparr>)"
    by (simp only: send_message_tx_def send_row_simps conv sum.case Let_def m mm us 1 2 3)
  then show ?thesis
    using length_members [of conv] by (simp add: store_send_message_def store_transaction_ok)
qed

end
