(* ===== verification/ConversationHandlers.thy ===== *)
theory ConversationHandlers
  imports MessageHandlers
begin

text \<open>
  The conversation handlers of \<^verbatim>\<open>internal/handler\<close>: \<^verbatim>\<open>create_conversation\<close>,
  \<^verbatim>\<open>delete_conversation\<close>, \<^verbatim>\<open>restore_conversation\<close>, \<^verbatim>\<open>list_conversations\<close> and \<^verbatim>\<open>get_conversation\<close>.
\<close>

subsection \<open>create\_conversation\<close>

record createConversationParams =
  cc_user_id :: string
  cc_title :: string

record createConversationResponse =
  ccr_conversation :: conversation
  ccr_duplicate :: bool

definition new_conversation :: "env \<Rightarrow> string \<Rightarrow> createConversationParams \<Rightarrow> conversation" where
  "new_conversation env caller p =
     (let (user1, user2) = (if cc_user_id p < caller then (cc_user_id p, caller)
                            else (caller, cc_user_id p))
      in \<lparr>c_id = e_uuid env 0, c_user1 = user1, c_user2 = user2, c_type = ''1-on-1'',
          c_title = cc_title p, c_pinned = False, c_muted = False, c_avatar = [], c_desc = [],
          c_last_msg = 0, c_created = e_now env 0, c_updated = e_now env 0, c_last_at = e_now env 0,
          c_read1 = 0, c_read2 = 0, c_agent_status = [], c_agent_id = [], c_checkpoint = [],
          c_agent_act = zero_time, c_deleted = None\<rparr>)"

text \<open>Step 6: the updates are allocated and inserted in one transaction; a failure is only logged.\<close>

definition announce_conversation :: "env \<Rightarrow> conversation \<Rightarrow> srv \<Rightarrow> srv" where
  "announce_conversation env conv s =
     (let members = [c_user1 conv, c_user2 conv];
          build = build_updates (\<lambda>i. e_uuid env (Suc i)) (e_now env 2) UpdateTypeConversation
                    (PConvCreate ''create'' conv) members
      in case store_transaction (e_tx env)
                (\<lambda>d. case upd_create (build d) d of Inl e \<Rightarrow> Inl e | Inr d' \<Rightarrow> Inr (build d, d'))
                (sv_db s) of
           Inl e \<Rightarrow> s
         | Inr (us, d') \<Rightarrow> broadcast_updates env 0 us (set_db d' s))"

definition create_conversation ::
  "env \<Rightarrow> client_conn \<Rightarrow> createConversationParams option \<Rightarrow> srv
     \<Rightarrow> (HandlerError + createConversationResponse) \<times> srv" where
  "create_conversation env cl params s =
     (case params of
        None \<Rightarrow> (Inl invalid_params, s)
      | Some p \<Rightarrow>
          if cc_user_id p = [] then (Inl (missing_field ''user_id''), s)
          else if cc_user_id p = cl_user cl then
            (Inl (NewValidationError ''cannot create conversation with yourself''), s)
          else case db_try env CallGetByUsers (conv_get_by_users (cl_user cl) (cc_user_id p) (sv_db s)) of
            Inr existing \<Rightarrow> (Inr \<lparr>ccr_conversation = existing, ccr_duplicate = True\<rparr>, s)
          | Inl e \<Rightarrow>
              if e \<noteq> ErrNotFound then
                (Inl (NewInternalError (''check existing conversation: '' @ store_error_msg e)), s)
              else case db_try env CallCreateConversation
                          (conv_create (e_now env 1) (new_conversation env (cl_user cl) p) (sv_db s)) of
                Inl err \<Rightarrow>
                  (case (if err = ErrDuplicateKey
                         then db_try env CallGetByUsersAgain
                                (conv_get_by_users (cl_user cl) (cc_user_id p) (sv_db s))
                         else Inl err) of
                     Inr existing \<Rightarrow> (Inr \<lparr>ccr_conversation = existing, ccr_duplicate = True\<rparr>, s)
                   | Inl _ \<Rightarrow> (Inl (NewInternalError (''create conversation: '' @ store_error_msg err)), s))
              | Inr (conv, d) \<Rightarrow>
                  (Inr \<lparr>ccr_conversation = conv, ccr_duplicate = False\<rparr>,
                   announce_conversation env conv (set_db d s)))"

subsection \<open>delete\_conversation\<close>

text \<open>The cascade transaction: count, mark the conversation, mark its messages, all with one time.\<close>

definition delete_conversation_tx :: "time \<Rightarrow> string \<Rightarrow> db \<Rightarrow> store_error + (nat \<times> db)" where
  "delete_conversation_tx now cid d =
     (let n = count_where (\<lambda>m. m_conv m = cid \<and> msg_live m) (msgs d) in
      case conv_delete now cid d of
        Inl e \<Rightarrow> Inl e
      | Inr d1 \<Rightarrow> Inr (n, msg_delete_by_conversation now cid d1))"

definition delete_conversation ::
  "env \<Rightarrow> client_conn \<Rightarrow> string option \<Rightarrow> srv \<Rightarrow> (HandlerError + nat) \<times> srv" where
  "delete_conversation env cl params s =
     (case params of
        None \<Rightarrow> (Inl invalid_params, s)
      | Some cid \<Rightarrow>
          if cid = [] then (Inl (missing_field ''conversation_id''), s)
          else case get_conversation_or_error env CallGetConversation cid (sv_db s) of
            Inl e \<Rightarrow> (Inl e, s)
          | Inr conv \<Rightarrow>
              let members = conversationMembers conv in
              if \<not> containsUser members (cl_user cl) then (Inl not_a_member, s)
              else
                let now = truncate_ms (e_now env 0) in
                (case store_transaction (e_tx env) (delete_conversation_tx now cid) (sv_db s) of
                   Inl ErrNotFound \<Rightarrow> (Inl (NewNotFoundError ''conversation not found''), s)
                 | Inl e \<Rightarrow> (Inl (NewInternalError (''delete conversation: '' @ store_error_msg e)), s)
                 | Inr (n, d) \<Rightarrow>
                     (Inr n, persist_and_broadcast env 0 now UpdateTypeConversation
                        (PConvAction cid ''delete'' None) members (set_db d s))))"

subsection \<open>restore\_conversation\<close>

record restoreConversationResponse =
  rr_conversation :: conversation
  rr_restored :: nat

text \<open>
  The restore transaction.  Only the messages deleted with the conversation (the same time) come
  back; the conversation's counter and time are taken from its latest message, deleted or not.
\<close>

definition restore_conversation_tx ::
  "time \<Rightarrow> string \<Rightarrow> time \<Rightarrow> db \<Rightarrow> store_error + (nat \<times> db)" where
  "restore_conversation_tx now cid deleted_at d =
     (case conv_restore now cid d of
        Inl e \<Rightarrow> Inl e
      | Inr d1 \<Rightarrow>
          let p = (\<lambda>m. m_conv m = cid \<and> m_deleted m = Some deleted_at);
              n = count_where p (msgs d1);
              d2 = d1\<lparr>msgs := update_where p (\<lambda>m. m\<lparr>m_deleted := None\<rparr>) (msgs d1)\<rparr>
          in case first_by desc_msg_id (\<lambda>m. m_conv m = cid) (msgs d2) of
               None \<Rightarrow> Inr (n, d2)
             | Some latest \<Rightarrow>
                 Inr (n, d2\<lparr>convs := update_where (\<lambda>c. c_id c = cid \<and> conv_live c)
                   (\<lambda>c. c\<lparr>c_last_msg := m_msg_id latest, c_last_at := m_created latest,
                         c_updated := now\<rparr>) (convs d2)\<rparr>))"

definition restore_conversation ::
  "env \<Rightarrow> client_conn \<Rightarrow> string option \<Rightarrow> srv
     \<Rightarrow> (HandlerError + restoreConversationResponse) \<times> srv" where
  "restore_conversation env cl params s =
     (case params of
        None \<Rightarrow> (Inl invalid_params, s)
      | Some cid \<Rightarrow>
          if cid = [] then (Inl (missing_field ''conversation_id''), s)
          else case db_try env CallGetConversation (conv_get_unscoped cid (sv_db s)) of
            Inl ErrNotFound \<Rightarrow> (Inl (NewNotFoundError ''conversation not found''), s)
          | Inl e \<Rightarrow> (Inl (NewInternalError (''get conversation: '' @ store_error_msg e)), s)
          | Inr conv \<Rightarrow>
              let members = conversationMembers conv in
              if \<not> containsUser members (cl_user cl) then (Inl not_a_member, s)
              else if c_deleted conv = None \<or> c_deleted conv = Some zero_time then
                (case db_try env CallGetConversationAgain (conv_get cid (sv_db s)) of
                   Inl e \<Rightarrow> (Inl (NewInternalError (''get conversation: '' @ store_error_msg e)), s)
                 | Inr c \<Rightarrow> (Inr \<lparr>rr_conversation = c, rr_restored = 0\<rparr>, s))
              else
                (case store_transaction (e_tx env)
                        (restore_conversation_tx (e_now env 0) cid (the (c_deleted conv))) (sv_db s) of
                   Inl ErrNotFound \<Rightarrow> (Inl (NewNotFoundError ''conversation not found''), s)
                 | Inl e \<Rightarrow> (Inl (NewInternalError (''restore conversation: '' @ store_error_msg e)), s)
                 | Inr (n, d) \<Rightarrow>
                     let s1 = persist_and_broadcast env 0 (e_now env 1) UpdateTypeConversation
                                (PConvAction cid ''restore'' None) members (set_db d s)
                     in (case db_try env CallGetConversationAgain (conv_get cid (sv_db s1)) of
                           Inl e \<Rightarrow>
                             (Inl (NewInternalError (''get restored conversation: '' @ store_error_msg e)), s1)
                         | Inr c \<Rightarrow> (Inr \<lparr>rr_conversation = c, rr_restored = n\<rparr>, s1))))"

subsection \<open>list\_conversations and get\_conversation\<close>

record listConversationsParams =
  lc_offset :: int
  lc_limit :: int

record listConversationsResponse =
  lcr_conversations :: "conversation list"
  lcr_has_more :: bool

definition list_conversations ::
  "env \<Rightarrow> client_conn \<Rightarrow> listConversationsParams option \<Rightarrow> srv
     \<Rightarrow> (HandlerError + listConversationsResponse) \<times> srv" where
  "list_conversations env cl params s =
     (case params of
        None \<Rightarrow> (Inl invalid_params, s)
      | Some p \<Rightarrow>
          let limit = (if lc_limit p \<le> 0 \<or> lc_limit p > 100 then 20 else lc_limit p);
              offset = (if lc_offset p < 0 then 0 else lc_offset p)
          in case db_try env CallGetByUser
                    (Inr (conv_get_by_user (cl_user cl) offset (limit + 1) (sv_db s))) of
               Inl e \<Rightarrow> (Inl (NewInternalError (''list conversations: '' @ store_error_msg e)), s)
             | Inr rows \<Rightarrow>
                 (let (page, more) = probe_page limit rows
                  in (Inr \<lparr>lcr_conversations = page, lcr_has_more = more\<rparr>, s)))"

record getConversationResponse =
  gcr_conversation :: conversation
  gcr_unread :: int
  gcr_remote_callings :: "remote_calling list"

definition get_conversation ::
  "env \<Rightarrow> client_conn \<Rightarrow> string option \<Rightarrow> srv \<Rightarrow> (HandlerError + getConversationResponse) \<times> srv" where
  "get_conversation env cl params s =
     (case params of
        None \<Rightarrow> (Inl invalid_params, s)
      | Some cid \<Rightarrow>
          if cid = [] then (Inl (missing_field ''conversation_id''), s)
          else case get_conversation_or_error env CallGetConversation cid (sv_db s) of
            Inl e \<Rightarrow> (Inl e, s)
          | Inr conv \<Rightarrow>
              if \<not> containsUserOrAgentBase (conversationMembers conv) (cl_user cl) then
                (Inl not_a_member, s)
              else
                let last_read = (if c_user1 conv = cl_user cl then c_read1 conv
                                 else if c_user2 conv = cl_user cl then c_read2 conv else 0);
                    unread = (case db_try env CallCountUnread
                                (Inr (msg_count_unread (c_id conv) last_read (sv_db s))) of
                                Inl e \<Rightarrow> 0 | Inr n \<Rightarrow> n);
                    calls = (case db_try env CallListRemoteCallings
                               (Inr (rc_get_pending_by_conversation (c_id conv) (sv_db s))) of
                               Inl e \<Rightarrow> [] | Inr rs \<Rightarrow> rs)
                in (Inr \<lparr>gcr_conversation = conv, gcr_unread = unread, gcr_remote_callings = calls\<rparr>, s))"

end
