(* ===== verification/AgentHandlers.thy ===== *)
theory AgentHandlers
  imports ConversationHandlers
begin

text \<open>
  The handlers around remote callings: \<^verbatim>\<open>agent_resume\<close>, \<^verbatim>\<open>cancel_remote_calls\<close> and
  \<^verbatim>\<open>get_remote_callings\<close> of \<^verbatim>\<open>internal/handler\<close>.  A paused agent resumes when the last pending
  call of its checkpoint has been answered or cancelled.
\<close>

subsection \<open>agent\_resume\<close>

record agentResumeParams =
  rs_id :: string
  rs_success :: bool
  rs_result :: string
  rs_error_message :: string
  rs_agent_id :: string

datatype resume_response =
    AlreadyProcessed rc_status
  | HasExpired
  | AlreadyResolved
  | PartialPending nat
  | Queued

definition maxResultSize :: nat where "maxResultSize = 1 * 1024 * 1024"
definition maxErrorMessageSize :: nat where "maxErrorMessageSize = 10 * 1024"

text \<open>Step 6: resolve with the result or the error; a conflict is not an error.\<close>

definition resume_resolve ::
  "env \<Rightarrow> agentResumeParams \<Rightarrow> remote_calling \<Rightarrow> db \<Rightarrow> store_error + db" where
  "resume_resolve env p rc d =
     db_try env CallResolve
       (if rs_success p then rc_resolve_result (e_now env 1) (rc_id rc) (rs_result p) d
        else rc_resolve_error (e_now env 1) (rc_id rc) (rs_error_message p) d)"

definition resume_task :: "client_conn \<Rightarrow> remote_calling \<Rightarrow> task" where
  "resume_task cl rc = TaskAgentResume
     \<lparr>ar_conversation_id = rc_conv rc, ar_checkpoint_id = rc_checkpoint rc, ar_agent_id = rc_agent rc,
      ar_sender_id = cl_user cl, ar_device_id = cl_device cl, ar_cancelled_by = [],
      ar_message_id = rc_msg_id rc\<rparr>"

text \<open>The update attached to the response itself: sequence number 0, not persisted.\<close>

definition resume_sidecar :: "env \<Rightarrow> remote_calling \<Rightarrow> data_update" where
  "resume_sidecar env rc =
     \<lparr>du_seq = 0, du_type = UpdateTypeConversation,
      du_payload = PConvAction (rc_conv rc) ''update'' None, du_created = e_now env 3\<rparr>"

text \<open>The persisted broadcast at the end; every failure is only logged.\<close>

definition resume_broadcast :: "env \<Rightarrow> remote_calling \<Rightarrow> srv \<Rightarrow> srv" where
  "resume_broadcast env rc s =
     (case db_try env CallGetConversation (conv_get (rc_conv rc) (sv_db s)) of
        Inl e \<Rightarrow> s
      | Inr conv \<Rightarrow>
          snd (broadcastConversationUpdateToMembers env (e_tx env) 1 (e_now env 4) (rc_conv rc)
                 (conversationMembers conv) ''update'' s))"

text \<open>
  Steps 7 to 10, after the call has been resolved (\<open>d1\<close>): expire overdue siblings, count what is
  pending, and resume the agent when nothing is.  The response comes with the updates put into the
  sidecar.
\<close>

definition resume_finish ::
  "env \<Rightarrow> client_conn \<Rightarrow> remote_calling \<Rightarrow> db \<Rightarrow> srv
     \<Rightarrow> (HandlerError + (resume_response \<times> data_update list)) \<times> srv" where
  "resume_finish env cl rc d1 s =
     (let d2 = (case db_try env CallMarkExpiredByCheckpoint
                  (Inr (rc_mark_expired_by_checkpoint (rc_checkpoint rc) (e_now env 2) d1)) of
                  Inl e \<Rightarrow> d1 | Inr (n, d) \<Rightarrow> d);
          s2 = set_db d2 s
      in (case db_try env CallCountPending
              (Inr (rc_count_pending_by_checkpoint (rc_checkpoint rc) d2)) of
            Inl e \<Rightarrow>
              (Inl (NewInternalError (''agent_resume: count pending: '' @ store_error_msg e)), s2)
          | Inr pending \<Rightarrow>
              if pending > 0 then (Inr (PartialPending pending, []), s2)
              else
                (let (queued, s3) = enqueue env 0 (resume_task cl rc) s2
                 in if \<not> queued then
                      (Inl (NewInternalError ''agent_resume: enqueue task''), s3)
                    else (Inr (Queued, [resume_sidecar env rc]), resume_broadcast env rc s3))))"

text \<open>
  The broker's own error text is left out of the message of a failed enqueue.
\<close>

definition agent_resume ::
  "env \<Rightarrow> client_conn \<Rightarrow> agentResumeParams option \<Rightarrow> srv
     \<Rightarrow> (HandlerError + (resume_response \<times> data_update list)) \<times> srv" where
  "agent_resume env cl params s =
     (case params of
        None \<Rightarrow> (Inl invalid_params, s)
      | Some p \<Rightarrow>
          if rs_id p = [] \<or> rs_agent_id p = [] then
            (Inl (NewValidationError ''id and agent_id are required''), s)
          else if length (rs_result p) > maxResultSize then
            (Inl (NewValidationError ''result exceeds maximum size (1MB)''), s)
          else if length (rs_error_message p) > maxErrorMessageSize then
            (Inl (NewValidationError ''error_message exceeds maximum size (10KB)''), s)
          else case db_try env CallGetRemoteCalling (rc_get_by_id (rs_id p) (sv_db s)) of
            Inl ErrNotFound \<Rightarrow> (Inl (NewNotFoundError ''remote calling not found''), s)
          | Inl e \<Rightarrow> (Inl (NewInternalError (''agent_resume: get remote calling: '' @ store_error_msg e)), s)
          | Inr rc \<Rightarrow>
              if rc_stat rc \<noteq> RcPending then (Inr (AlreadyProcessed (rc_stat rc), []), s)
              else if rc_overdue (e_now env 0) rc then
                (case db_try env CallMarkExpired (rc_mark_expired (rc_id rc) (sv_db s)) of
                   Inl e \<Rightarrow> (Inl (NewInternalError (''agent_resume: mark expired: '' @ store_error_msg e)), s)
                 | Inr d \<Rightarrow> (Inr (HasExpired, []), set_db d s))
              else
                (case resume_resolve env p rc (sv_db s) of
                   Inl ErrConflict \<Rightarrow> (Inr (AlreadyResolved, []), s)
                 | Inl e \<Rightarrow>
                     (Inl (NewInternalError
                        ((if rs_success p then ''agent_resume: resolve result: ''
                          else ''agent_resume: resolve error: '') @ store_error_msg e)), s)
                 | Inr d1 \<Rightarrow> resume_finish env cl rc d1 s))"

subsection \<open>cancel\_remote\_calls\<close>

record cancelRemoteCallsParams =
  cr_checkpoint_id :: string
  cr_reason :: string

definition maxReasonLength :: nat where "maxReasonLength = 1024"

definition cancel_remote_calls ::
  "env \<Rightarrow> client_conn \<Rightarrow> cancelRemoteCallsParams option \<Rightarrow> srv \<Rightarrow> (HandlerError + nat) \<times> srv" where
  "cancel_remote_calls env cl params s =
     (case params of
        None \<Rightarrow> (Inl invalid_params, s)
      | Some p \<Rightarrow>
          if cr_checkpoint_id p = [] \<or> cr_reason p = [] then
            (Inl (NewValidationError ''checkpoint_id and reason are required''), s)
          else if length (cr_reason p) > maxReasonLength then
            (Inl (NewValidationError ''reason exceeds maximum length (1024 bytes)''), s)
          else case db_try env CallListRemoteCallings
                      (Inr (rc_get_pending_by_checkpoint (cr_checkpoint_id p) (sv_db s))) of
            Inl e \<Rightarrow>
              (Inl (NewInternalError
                 (''cancel_remote_calls: get pending by checkpoint: '' @ store_error_msg e)), s)
          | Inr [] \<Rightarrow> (Inl (NewNotFoundError ''no pending remote callings found for checkpoint''), s)
          | Inr (rc # _) \<Rightarrow>
              let convID = rc_conv rc in
              (case db_try env CallGetConversation (conv_get convID (sv_db s)) of
                 Inl ErrNotFound \<Rightarrow> (Inl (NewNotFoundError ''conversation not found''), s)
               | Inl e \<Rightarrow>
                   (Inl (NewInternalError (''cancel_remote_calls: get conversation: '' @ store_error_msg e)), s)
               | Inr conv \<Rightarrow>
                   let members = conversationMembers conv in
                   if \<not> containsUserOrAgentBase members (cl_user cl) then (Inl not_a_member, s)
                   else case db_try env CallCancel
                          (Inr (rc_cancel_by_checkpoint (e_now env 0) (cr_checkpoint_id p) (cr_reason p)
                                 (cl_user cl) (sv_db s))) of
                     Inl e \<Rightarrow> (Inl (NewInternalError (''cancel_remote_calls: cancel: '' @ store_error_msg e)), s)
                   | Inr ((n, rcConvID, rcAgentID), d) \<Rightarrow>
                       let s1 = snd (broadcastConversationUpdateToMembers env (e_tx env) 0 (e_now env 1) convID
                                  members ''update'' (set_db d s)) in
                       (case db_try env CallCountPending
                               (Inr (rc_count_pending_by_checkpoint (cr_checkpoint_id p) (sv_db s1))) of
                          Inl e \<Rightarrow>
                            (Inl (NewInternalError (''cancel_remote_calls: count pending: '' @ store_error_msg e)), s1)
                        | Inr pending \<Rightarrow>
                            if pending = 0 \<and> rcConvID \<noteq> [] then
                              (let (queued, s2) = enqueue env 1 (TaskAgentResume
                                     \<lparr>ar_conversation_id = rcConvID, ar_checkpoint_id = cr_checkpoint_id p,
                                      ar_agent_id = rcAgentID, ar_sender_id = cl_user cl,
                                      ar_device_id = cl_device cl, ar_cancelled_by = cl_user cl,
                                      ar_message_id = 0\<rparr>) s1
                               in if \<not> queued then
                                    (Inl (NewInternalError ''cancel_remote_calls: enqueue task''), s2)
                                  else (Inr n, s2))
                            else (Inr n, s1))))"

subsection \<open>get\_remote\_callings\<close>

definition get_remote_callings ::
  "env \<Rightarrow> client_conn \<Rightarrow> string option \<Rightarrow> srv \<Rightarrow> (HandlerError + remote_calling list) \<times> srv" where
  "get_remote_callings env cl params s =
     (case params of
        None \<Rightarrow> (Inl invalid_params, s)
      | Some cid \<Rightarrow>
          if cid = [] then (Inl (missing_field ''conversation_id''), s)
          else case db_try env CallGetConversation (conv_get cid (sv_db s)) of
            Inl ErrNotFound \<Rightarrow> (Inl (NewNotFoundError ''conversation not found''), s)
          | Inl e \<Rightarrow>
              (Inl (NewInternalError (''get_remote_callings: get conversation: '' @ store_error_msg e)), s)
          | Inr conv \<Rightarrow>
              if \<not> containsUserOrAgentBase (conversationMembers conv) (cl_user cl) then (Inl not_a_member, s)
              else case db_try env CallListRemoteCallings (Inr (rc_get_pending_by_conversation cid (sv_db s))) of
                Inl e \<Rightarrow>
                  (Inl (NewInternalError (''get_remote_callings: query: '' @ store_error_msg e)), s)
              | Inr rs \<Rightarrow> (Inr rs, s))"

end
