(* ===== verification/SyncHandler.thy ===== *)
theory SyncHandler
  imports HandlerBase
begin

text \<open>
  \<^verbatim>\<open>internal/handler/sync_updates.go\<close>: the pull of a user's update log.  The handler returns a
  contiguous run of numbers after \<^verbatim>\<open>after_seq\<close>, with synthetic gap entries for numbers that have no
  row.  All arithmetic on numbers is 32-bit; the loop over the numbers need not end, so it is a
  partial function.
\<close>

record syncUpdatesParams =
  su_after_seq :: u32
  su_limit :: int

record syncUpdatesResponse =
  sur_updates :: "data_update list"
  sur_has_more :: bool
  sur_latest_seq :: u32

definition sync_limit :: "int \<Rightarrow> int" where
  "sync_limit limit0 =
     (let limit = (if limit0 \<le> 0 then 100 else limit0) in if limit > 500 then 500 else limit)"

text \<open>The lookup map built from the rows: a later row with the same number replaces an earlier one.\<close>

definition actual_map :: "user_update list \<Rightarrow> u32 \<rightharpoonup> user_update" where
  "actual_map us = foldl (\<lambda>m u. m(u_seq u \<mapsto> u)) Map.empty us"

text \<open>A gap is stamped with a clock reading of its own.\<close>

definition sync_entry :: "(nat \<Rightarrow> time) \<Rightarrow> (u32 \<rightharpoonup> user_update) \<Rightarrow> u32 \<Rightarrow> data_update" where
  "sync_entry now m seq =
     (case m seq of
        Some u \<Rightarrow> \<lparr>du_seq = u_seq u, du_type = u_type u, du_payload = u_payload u,
                   du_created = u_created u\<rparr>
      | None \<Rightarrow> \<lparr>du_seq = seq, du_type = UpdateTypeGap, du_payload = PNull,
               du_created = now (unat seq)\<rparr>)"

text \<open>\<^verbatim>\<open>for seq := afterSeq + 1; seq <= expectedEnd; seq++\<close>; not returning is \<open>None\<close>.\<close>

partial_function (option) fill_gaps ::
  "(nat \<Rightarrow> time) \<Rightarrow> (u32 \<rightharpoonup> user_update) \<Rightarrow> u32 \<Rightarrow> u32 \<Rightarrow> data_update list option" where
  "fill_gaps now m seq expected_end =
     (if seq \<le> expected_end then
        Option.bind (fill_gaps now m (seq + 1) expected_end)
          (\<lambda>rest. Some (sync_entry now m seq # rest))
      else Some [])"

definition sync_updates ::
  "env \<Rightarrow> client_conn \<Rightarrow> syncUpdatesParams option \<Rightarrow> srv
     \<Rightarrow> (HandlerError + syncUpdatesResponse) option" where
  "sync_updates env cl params s =
     (case params of
        None \<Rightarrow> Some (Inl invalid_params)
      | Some p \<Rightarrow>
          let limit = sync_limit (su_limit p); uid = cl_user cl; after = su_after_seq p in
          (case db_try env (CallLatestSeq uid) (Inr (upd_latest_seq uid (sv_db s))) of
             Inl e \<Rightarrow> Some (Inl (NewInternalError (''get latest seq: '' @ store_error_msg e)))
           | Inr latest \<Rightarrow>
               if latest \<le> after then
                 Some (Inr \<lparr>sur_updates = [], sur_has_more = False, sur_latest_seq = latest\<rparr>)
               else
                 let sum = after + word_of_int limit;
                     expected_end = (if sum > latest then latest else sum) in
                 (case db_try env CallListUpdates
                         (Inr (upd_list_by_user_range uid after expected_end (sv_db s))) of
                    Inl e \<Rightarrow> Some (Inl (NewInternalError (''list updates: '' @ store_error_msg e)))
                  | Inr us \<Rightarrow>
                      (case fill_gaps (e_now env) (actual_map us) (after + 1) expected_end of
                         None \<Rightarrow> None
                       | Some result \<Rightarrow>
                           Some (Inr \<lparr>sur_updates = result,
                                      sur_has_more = (after + word_of_int limit < latest),
                                      sur_latest_seq = latest\<rparr>)))))"

subsection \<open>The loop over the numbers\<close>

lemma fill_gaps_nat:
  assumes "unat e < 2 ^ 32 - 1" and "n \<le> Suc (unat e)"
  shows "fill_gaps now m (word_of_nat n) e
    = Some (map (\<lambda>i. sync_entry now m (word_of_nat i)) [n..<Suc (unat e)])"
  using assms(2)
proof (induction k \<equiv> "Suc (unat e) - n" arbitrary: n)
  case 0
  then have n: "n = Suc (unat e)" by simp
  then have "unat (word_of_nat n :: u32) = n"
    using assms(1) by (intro unat_word_of_nat32) simp
  then have "\<not> (word_of_nat n :: u32) \<le> e"
    by (simp add: word_le_nat_alt n)
  then show ?case by (subst fill_gaps.simps) (simp add: n)
next
  case (Suc k)
  then have n: "n \<le> unat e" by simp
  then have "unat (word_of_nat n :: u32) = n"
    using assms(1) by (intro unat_word_of_nat32) simp
  then have "(word_of_nat n :: u32) \<le> e"
    by (simp add: word_le_nat_alt n)
  moreover have "fill_gaps now m (word_of_nat (Suc n)) e
      = Some (map (\<lambda>i. sync_entry now m (word_of_nat i)) [Suc n..<Suc (unat e)])"
    using Suc by (intro Suc.hyps) auto
  then have "fill_gaps now m (word_of_nat n + 1) e
      = Some (map (\<lambda>i. sync_entry now m (word_of_nat i)) [Suc n..<Suc (unat e)])"
    by (simp add: add.commute)
  moreover have "[n..<Suc (unat e)] = n # [Suc n..<Suc (unat e)]"
    using n by (simp add: upt_conv_Cons)
  ultimately show ?case by (subst fill_gaps.simps) (simp only: if_True bind.bind_lunit list.map option.simps)
qed

lemma fill_gaps_empty: "\<not> seq \<le> e \<Longrightarrow> fill_gaps now m seq e = Some []"
  by (subst fill_gaps.simps) simp

lemma fill_gaps_ends: "fill_gaps now m seq e = Some r \<Longrightarrow> e \<noteq> - 1"
proof (rule fill_gaps.raw_induct [where P = "\<lambda>now m seq e r. e \<noteq> - 1"])
  fix f :: "(nat \<Rightarrow> time) \<Rightarrow> (u32 \<rightharpoonup> user_update) \<Rightarrow> u32 \<Rightarrow> u32 \<Rightarrow> data_update list option"
    and now m seq e y
  assume IH: "\<And>now m seq e y. f now m seq e = Some y \<Longrightarrow> e \<noteq> - 1"
    and step: "(if seq \<le> e then Option.bind (f now m (seq + 1) e)
      (\<lambda>rest. Some (sync_entry now m seq # rest)) else Some []) = Some y"
  show "e \<noteq> - 1"
  proof (cases "seq \<le> e")
    case True
    then obtain z where "f now m (seq + 1) e = Some z"
      using step by (auto simp: bind_eq_Some_conv)
    then show ?thesis by (rule IH)
  next
    case False
    then show ?thesis by auto
  qed
qed simp

lemma fill_gaps_never: "fill_gaps now m seq (- 1) = None"
  using fill_gaps_ends [of now m seq "- 1"] by (cases "fill_gaps now m seq (- 1)") auto

lemma actual_map_lookup:
  "distinct (map u_seq us) \<Longrightarrow> actual_map us q = find (\<lambda>u. u_seq u = q) us"
proof (induction us rule: rev_induct)
  case Nil
  then show ?case by (simp add: actual_map_def)
next
  case (snoc u us)
  have "actual_map (us @ [u]) = (actual_map us)(u_seq u \<mapsto> u)" by (simp add: actual_map_def)
  moreover have "find p (xs @ [x]) = (case find p xs of Some y \<Rightarrow> Some y | None \<Rightarrow> if p x then Some x else None)"
    for p and x :: user_update and xs
    by (induction xs) auto
  ultimately show ?case using snoc by (force simp: find_None_iff find_Some_iff split: option.splits)
qed

text \<open>The rows of one user, looked up by number.\<close>

lemma find_row_iff:
  assumes "upd_log.numbered d" "set us = {u \<in> set (upds d). u_user u = uid \<and> after < u_seq u \<and> u_seq u \<le> e}"
    and "after < q" "q \<le> e"
  shows "find (\<lambda>u. u_seq u = q) us = Some u
    \<longleftrightarrow> u \<in> set (upds d) \<and> u_user u = uid \<and> u_seq u = q"
proof
  assume "find (\<lambda>u. u_seq u = q) us = Some u"
  then have "u \<in> set us" "u_seq u = q" by (auto simp: find_Some_iff)
  then show "u \<in> set (upds d) \<and> u_user u = uid \<and> u_seq u = q" using assms(2) by auto
next
  assume r: "u \<in> set (upds d) \<and> u_user u = uid \<and> u_seq u = q"
  then have "u \<in> set us" using assms by auto
  then obtain v where v: "find (\<lambda>u. u_seq u = q) us = Some v"
    using r by (cases "find (\<lambda>u. u_seq u = q) us") (auto simp: find_None_iff)
  then have "v \<in> set us" "u_seq v = q" by (auto simp: find_Some_iff)
  then have "v \<in> set (upds d)" "u_user v = uid" using assms(2) by auto
  then have "v = u" using r \<open>u_seq v = q\<close> assms(1)
    by (intro distinct_map_unique [of "\<lambda>e. (u_user e, u_seq e)" "upds d"])
      (auto simp: upd_log.numbered_def)
  with v show "find (\<lambda>u. u_seq u = q) us = Some u" by simp
qed

subsection \<open>What a pull returns\<close>

text \<open>The entry of a user's log under a number, as a pull shows it.\<close>

definition pulled :: "(nat \<Rightarrow> time) \<Rightarrow> db \<Rightarrow> string \<Rightarrow> u32 \<Rightarrow> data_update" where
  "pulled now d uid q =
     (case find (\<lambda>u. u_user u = uid \<and> u_seq u = q) (upds d) of
        Some u \<Rightarrow> \<lparr>du_seq = q, du_type = u_type u, du_payload = u_payload u, du_created = u_created u\<rparr>
      | None \<Rightarrow> \<lparr>du_seq = q, du_type = UpdateTypeGap, du_payload = PNull, du_created = now (unat q)\<rparr>)"

lemma numbered_find_iff:
  assumes "upd_log.numbered d"
  shows "find (\<lambda>u. u_user u = uid \<and> u_seq u = q) (upds d) = Some u
    \<longleftrightarrow> u \<in> set (upds d) \<and> u_user u = uid \<and> u_seq u = q"
proof
  assume "find (\<lambda>u. u_user u = uid \<and> u_seq u = q) (upds d) = Some u"
  then show "u \<in> set (upds d) \<and> u_user u = uid \<and> u_seq u = q" by (auto simp: find_Some_iff)
next
  assume r: "u \<in> set (upds d) \<and> u_user u = uid \<and> u_seq u = q"
  then obtain v where v: "find (\<lambda>u. u_user u = uid \<and> u_seq u = q) (upds d) = Some v"
    by (cases "find (\<lambda>u. u_user u = uid \<and> u_seq u = q) (upds d)") (auto simp: find_None_iff)
  then have "v \<in> set (upds d)" "u_user v = uid" "u_seq v = q" by (auto simp: find_Some_iff)
  then have "v = u" using r assms
    by (intro distinct_map_unique [of "\<lambda>e. (u_user e, u_seq e)" "upds d"])
      (auto simp: upd_log.numbered_def)
  with v show "find (\<lambda>u. u_user u = uid \<and> u_seq u = q) (upds d) = Some u" by simp
qed

lemma range_rows:
  "set (upd_list_by_user_range uid after e d)
     = {u \<in> set (upds d). u_user u = uid \<and> after < u_seq u \<and> u_seq u \<le> e}"
  by (auto simp: upd_list_by_user_range_def)

lemma range_distinct:
  assumes "upd_log.numbered d"
  shows "distinct (map u_seq (upd_list_by_user_range uid after e d))"
proof -
  let ?p = "\<lambda>u. u_user u = uid \<and> after < u_seq u \<and> u_seq u \<le> e"
  have "distinct (map (\<lambda>u. (u_user u, u_seq u)) (filter ?p (upds d)))"
    using assms by (simp add: upd_log.numbered_def distinct_map_filter)
  then have "distinct (map u_seq (filter ?p (upds d)))"
    by (auto simp: distinct_map inj_on_def)
  then show ?thesis by (simp add: upd_list_by_user_range_def select_asc_def)
qed

lemma sync_entry_pulled:
  assumes "upd_log.numbered d" "after < q" "q \<le> e"
  shows "sync_entry now (actual_map (upd_list_by_user_range uid after e d)) q = pulled now d uid q"
proof -
  have "actual_map (upd_list_by_user_range uid after e d) q = Some u
      \<longleftrightarrow> find (\<lambda>u. u_user u = uid \<and> u_seq u = q) (upds d) = Some u" for u
    unfolding actual_map_lookup [OF range_distinct [OF assms(1)]]
      find_row_iff [OF assms(1) range_rows assms(2,3)] numbered_find_iff [OF assms(1)] ..
  then have "actual_map (upd_list_by_user_range uid after e d) q
      = find (\<lambda>u. u_user u = uid \<and> u_seq u = q) (upds d)"
    by (rule option_eqI)
  moreover have "u_seq u = q" if "find (\<lambda>u. u_user u = uid \<and> u_seq u = q) (upds d) = Some u" for u
    using that by (simp add: numbered_find_iff [OF assms(1)])
  ultimately show ?thesis
    by (cases "find (\<lambda>u. u_user u = uid \<and> u_seq u = q) (upds d)")
      (simp_all add: sync_entry_def pulled_def)
qed

definition sync_page_end :: "u32 \<Rightarrow> int \<Rightarrow> u32 \<Rightarrow> nat" where
  "sync_page_end after limit latest = min (unat after + nat (sync_limit limit)) (unat latest)"

lemma sync_limit_bounds: "1 \<le> sync_limit l \<and> sync_limit l \<le> 500"
  by (simp add: sync_limit_def Let_def)

lemma sync_page:
  assumes nf: "no_faults env" and num: "upd_log.numbered (sv_db s)"
    and more: "su_after_seq p < upd_latest_seq (cl_user cl) (sv_db s)"
    and max: "upd_latest_seq (cl_user cl) (sv_db s) \<noteq> - 1"
    and nowrap: "unat (su_after_seq p) + nat (sync_limit (su_limit p)) < 2 ^ 32"
  shows "sync_updates env cl (Some p) s = Some (Inr \<lparr>
      sur_updates = map (\<lambda>i. pulled (e_now env) (sv_db s) (cl_user cl) (word_of_nat i))
        [Suc (unat (su_after_seq p))
          ..<Suc (sync_page_end (su_after_seq p) (su_limit p) (upd_latest_seq (cl_user cl) (sv_db s)))],
      sur_has_more = (unat (su_after_seq p) + nat (sync_limit (su_limit p))
        < unat (upd_latest_seq (cl_user cl) (sv_db s))),
      sur_latest_seq = upd_latest_seq (cl_user cl) (sv_db s)\<rparr>)"
proof -
  let ?d = "sv_db s" and ?u = "cl_user cl" and ?a = "su_after_seq p"
  let ?latest = "upd_latest_seq ?u ?d"
  let ?sum = "?a + word_of_int (sync_limit (su_limit p))"
  define e where "e = (if ?sum > ?latest then ?latest else ?sum)"
  obtain l where l: "sync_limit (su_limit p) = int l" "1 \<le> l"
    using sync_limit_bounds [of "su_limit p"] by (metis int_nat_eq nat_one_as_int nat_le_eq_zle
        int_one_le_iff_zero_less of_nat_le_iff of_nat_1 zero_less_imp_eq_int order_trans zero_le_one)
  have sum_eq: "?sum = word_of_nat (unat ?a + l)" by (simp add: l(1))
  have un_sum: "unat ?sum = unat ?a + l"
    unfolding sum_eq by (rule unat_word_of_nat32) (use nowrap l in simp)
  then have un_sum': "unat (?a + word_of_nat l) = unat ?a + l" by (simp add: l(1))
  have un_e: "unat e = sync_page_end ?a (su_limit p) ?latest"
    by (simp add: e_def sync_page_end_def l(1) un_sum' word_less_nat_alt min_def)
  have lt_latest: "unat ?latest < 2 ^ 32 - 1"
  proof -
    have "unat ?latest \<noteq> unat (- 1 :: u32)" using max by (metis word_unat_eq_iff)
    moreover have "unat ?latest < 2 ^ 32" using unsigned_less [of ?latest] by simp
    ultimately show ?thesis by (simp add: unsigned_minus_1_eq_mask mask_eq_exp_minus_1)
  qed
  have "unat e \<le> unat ?latest" by (simp add: un_e sync_page_end_def)
  then have e_max: "unat e < 2 ^ 32 - 1" using lt_latest by linarith
  have a_e: "unat ?a < unat e"
    using more l by (simp add: un_e sync_page_end_def word_less_nat_alt)
  have entry: "sync_entry (e_now env) (actual_map (upd_list_by_user_range ?u ?a e ?d)) (word_of_nat i)
      = pulled (e_now env) ?d ?u (word_of_nat i)" if "i \<in> set [Suc (unat ?a)..<Suc (unat e)]" for i
  proof (rule sync_entry_pulled [OF num])
    have "unat (word_of_nat i :: u32) = i" by (rule unat_word_of_nat32) (use that e_max in auto)
    then show "?a < word_of_nat i" "word_of_nat i \<le> e"
      using that by (auto simp: word_less_nat_alt word_le_nat_alt)
  qed
  have gaps: "fill_gaps (e_now env) (actual_map (upd_list_by_user_range ?u ?a e ?d)) (?a + 1) e
      = Some (map (\<lambda>i. pulled (e_now env) ?d ?u (word_of_nat i)) [Suc (unat ?a)..<Suc (unat e)])"
  proof -
    let ?m = "actual_map (upd_list_by_user_range ?u ?a e ?d)"
    have first: "?a + 1 = word_of_nat (Suc (unat ?a))" by (simp add: add.commute)
    have "fill_gaps (e_now env) ?m (word_of_nat (Suc (unat ?a))) e
        = Some (map (\<lambda>i. sync_entry (e_now env) ?m (word_of_nat i)) [Suc (unat ?a)..<Suc (unat e)])"
      by (rule fill_gaps_nat [OF e_max]) (use a_e in simp)
    also have "map (\<lambda>i. sync_entry (e_now env) ?m (word_of_nat i)) [Suc (unat ?a)..<Suc (unat e)]
        = map (\<lambda>i. pulled (e_now env) ?d ?u (word_of_nat i)) [Suc (unat ?a)..<Suc (unat e)]"
      by (rule map_cong [OF refl entry])
    finally show ?thesis by (simp only: first)
  qed
  have has_more: "?sum < ?latest \<longleftrightarrow> unat ?a + nat (sync_limit (su_limit p)) < unat ?latest"
    by (simp add: word_less_nat_alt un_sum' l(1))
  have e_unfold: "(if ?latest < ?sum then ?latest else ?sum) = e" by (simp add: e_def)
  have "\<not> ?latest \<le> ?a" using more by (simp only: not_le)
  then show ?thesis
    unfolding sync_updates_def Let_def
    by (simp only: option.case sum.case no_faults_db_try [OF nf] if_False e_unfold gaps has_more un_e)
qed

lemma du_seq_pulled [simp]: "du_seq (pulled now d uid q) = q"
  by (simp add: pulled_def split: option.splits)

definition as_data_update :: "user_update \<Rightarrow> data_update" where
  "as_data_update u = \<lparr>du_seq = u_seq u, du_type = u_type u, du_payload = u_payload u,
     du_created = u_created u\<rparr>"

lemma pulled_row:
  assumes "upd_log.numbered d" "u \<in> set (upds d)"
  shows "pulled now d (u_user u) (u_seq u) = as_data_update u"
proof -
  have "find (\<lambda>v. u_user v = u_user u \<and> u_seq v = u_seq u) (upds d) = Some u"
    using assms(2) by (simp add: numbered_find_iff [OF assms(1)])
  then show ?thesis by (simp add: pulled_def as_data_update_def)
qed

lemma pulled_cases:
  "pulled now d uid q = \<lparr>du_seq = q, du_type = UpdateTypeGap, du_payload = PNull,
      du_created = now (unat q)\<rparr> \<and> (\<forall>u \<in> set (upds d). u_user u = uid \<longrightarrow> u_seq u \<noteq> q)
   \<or> (\<exists>u \<in> set (upds d). u_user u = uid \<and> pulled now d uid q = as_data_update u)"
proof (cases "find (\<lambda>u. u_user u = uid \<and> u_seq u = q) (upds d)")
  case None
  then have "\<forall>u \<in> set (upds d). u_user u = uid \<longrightarrow> u_seq u \<noteq> q" by (auto simp: find_None_iff)
  with None show ?thesis by (simp only: pulled_def option.case) blast
next
  case (Some u)
  then have "u \<in> set (upds d)" "u_user u = uid" "u_seq u = q" by (auto simp: find_Some_iff)
  with Some show ?thesis by (auto simp: pulled_def as_data_update_def)
qed

text \<open>
  C5: a pull returns the numbers after \<^verbatim>\<open>after_seq\<close> without a hole, up to the requested
  limit or the latest number.  Every row of the caller in that range is in the page as it is
  stored; every other entry of the page is a gap for a number the caller has no row for; and
  \<^verbatim>\<open>has_more\<close> says exactly whether the page stops before the latest number.
\<close>

theorem sync_updates_contiguous_page:
  assumes "no_faults env" and "upd_log.numbered (sv_db s)"
    and "su_after_seq p < latest" and "latest = upd_latest_seq (cl_user cl) (sv_db s)"
    and "latest \<noteq> - 1"
    and "unat (su_after_seq p) + nat (sync_limit (su_limit p)) < 2 ^ 32"
  shows "\<exists>us. sync_updates env cl (Some p) s = Some (Inr \<lparr>sur_updates = us,
        sur_has_more = (sync_page_end (su_after_seq p) (su_limit p) latest < unat latest),
        sur_latest_seq = latest\<rparr>)
    \<and> map (unat \<circ> du_seq) us
        = [Suc (unat (su_after_seq p))..<Suc (sync_page_end (su_after_seq p) (su_limit p) latest)]
    \<and> (\<forall>u \<in> set (upds (sv_db s)). u_user u = cl_user cl \<and> su_after_seq p < u_seq u
          \<and> unat (u_seq u) \<le> sync_page_end (su_after_seq p) (su_limit p) latest
        \<longrightarrow> as_data_update u \<in> set us)
    \<and> (\<forall>x \<in> set us. (\<exists>u \<in> set (upds (sv_db s)). u_user u = cl_user cl \<and> x = as_data_update u)
        \<or> du_type x = UpdateTypeGap
          \<and> (\<forall>u \<in> set (upds (sv_db s)). u_user u = cl_user cl \<longrightarrow> u_seq u \<noteq> du_seq x))"
proof -
  let ?a = "su_after_seq p" and ?e = "sync_page_end (su_after_seq p) (su_limit p) latest"
  let ?ns = "[Suc (unat ?a)..<Suc ?e]"
  let ?pulled = "\<lambda>i. pulled (e_now env) (sv_db s) (cl_user cl) (word_of_nat i)"
  have le: "?e \<le> unat latest" by (simp add: sync_page_end_def)
  have wn: "unat (word_of_nat i :: u32) = i" if "i \<in> set ?ns" for i
  proof -
    have "i \<le> ?e" using that by (simp only: set_upt atLeastLessThan_iff less_Suc_eq_le)
    then have "i \<le> unat latest" using le by (rule le_trans)
    then show ?thesis using unat_lt32 [of latest] by (intro unat_word_of_nat32) simp
  qed
  have more: "sync_page_end ?a (su_limit p) latest < unat latest
      \<longleftrightarrow> unat ?a + nat (sync_limit (su_limit p)) < unat latest"
    by (simp add: sync_page_end_def min_def)
  have resp: "sync_updates env cl (Some p) s = Some (Inr \<lparr>sur_updates = map ?pulled ?ns,
        sur_has_more = (?e < unat latest), sur_latest_seq = latest\<rparr>)"
    unfolding more using sync_page [OF assms(1,2), of p cl] assms(3-6) by simp
  have seqs: "map (unat \<circ> du_seq) (map ?pulled ?ns) = ?ns"
    unfolding map_map by (rule map_idI) (simp only: wn comp_apply du_seq_pulled)
  have rows: "as_data_update u \<in> set (map ?pulled ?ns)"
    if "u \<in> set (upds (sv_db s))" "u_user u = cl_user cl" "?a < u_seq u" "unat (u_seq u) \<le> ?e" for u
  proof -
    have "?pulled (unat (u_seq u)) = as_data_update u"
      using pulled_row [OF assms(2) that(1)] that(2) by simp
    moreover have "unat (u_seq u) \<in> set ?ns" using that(3,4)
      by (simp only: set_upt atLeastLessThan_iff less_Suc_eq_le Suc_le_eq word_less_nat_alt)
    ultimately have "as_data_update u \<in> ?pulled ` set ?ns" by (rule image_eqI [OF sym])
    then show ?thesis by (simp only: set_map)
  qed
  have entries: "(\<exists>u \<in> set (upds (sv_db s)). u_user u = cl_user cl \<and> x = as_data_update u)
      \<or> du_type x = UpdateTypeGap \<and> (\<forall>u \<in> set (upds (sv_db s)). u_user u = cl_user cl \<longrightarrow> u_seq u \<noteq> du_seq x)"
    if "x \<in> set (map ?pulled ?ns)" for x
  proof -
    from that obtain i where x: "x = ?pulled i" by auto
    then have "du_seq x = word_of_nat i" by simp
    moreover have "du_type \<lparr>du_seq = q, du_type = UpdateTypeGap, du_payload = PNull, du_created = t\<rparr>
        = UpdateTypeGap" for q t by (simp only: data_update.simps)
    ultimately show ?thesis
      using pulled_cases [of "e_now env" "sv_db s" "cl_user cl" "word_of_nat i"] unfolding x by metis
  qed
  show ?thesis
    using resp seqs rows entries by (intro exI [of _ "map ?pulled ?ns"] conjI) blast+
qed

text \<open>
  C6: near the end of the number space the pull fails to make progress.  When \<^verbatim>\<open>after_seq\<close>
  plus the limit does not fit in 32 bits, the handler answers with an empty page and
  \<^verbatim>\<open>has_more\<close> set, whatever updates there are.
\<close>

theorem sync_updates_wraparound:
  assumes "no_faults env"
    and "su_after_seq p < upd_latest_seq (cl_user cl) (sv_db s)"
    and "2 ^ 32 \<le> unat (su_after_seq p) + nat (sync_limit (su_limit p))"
  shows "sync_updates env cl (Some p) s = Some (Inr \<lparr>sur_updates = [], sur_has_more = True,
    sur_latest_seq = upd_latest_seq (cl_user cl) (sv_db s)\<rparr>)"
proof -
  let ?a = "su_after_seq p" and ?latest = "upd_latest_seq (cl_user cl) (sv_db s)"
  let ?sum = "?a + word_of_int (sync_limit (su_limit p))"
  have l: "0 \<le> sync_limit (su_limit p)" "sync_limit (su_limit p) \<le> 500"
    using sync_limit_bounds [of "su_limit p"] by auto
  then have lim: "word_of_int (sync_limit (su_limit p)) = (word_of_nat (nat (sync_limit (su_limit p))) :: u32)"
    by simp
  have "nat (sync_limit (su_limit p)) < 2 ^ 32" using l by simp
  then have "unat ?sum = unat ?a + nat (sync_limit (su_limit p)) - 2 ^ 32" "nat (sync_limit (su_limit p)) < 2 ^ 32"
    unfolding lim using assms(3) by (simp_all only: unat_add_wrap32)
  then have sum: "?sum < ?a"
    using assms(3) unfolding word_less_nat_alt by linarith
  have a_max: "?a \<noteq> - 1" using assms(2) by auto
  have cmp: "?sum < ?latest" using sum assms(2) by (rule order_less_trans)
  moreover from cmp have "\<not> ?latest < ?sum" by (rule order_less_not_sym)
  moreover have "\<not> ?latest \<le> ?a" using assms(2) by (simp only: not_le)
  moreover have "\<not> ?a + 1 \<le> ?sum"
    using order_less_trans [OF sum word_succ_gt [OF a_max]] by (simp only: not_le)
  ultimately show ?thesis
    unfolding sync_updates_def Let_def
    by (simp only: option.case sum.case no_faults_db_try [OF assms(1)] if_False fill_gaps_empty simp_thms)
qed

text \<open>
  C7: when the page ends exactly at the greatest 32-bit number, the loop condition
  \<^verbatim>\<open>seq <= expectedEnd\<close> never becomes false and the handler does not return.
\<close>

theorem sync_updates_diverges_at_max:
  assumes "no_faults env" and "upd_latest_seq (cl_user cl) (sv_db s) = - 1"
    and "su_after_seq p < - 1"
    and "su_after_seq p + word_of_int (sync_limit (su_limit p)) = - 1"
  shows "sync_updates env cl (Some p) s = None"
proof -
  have "\<not> (- 1 :: u32) \<le> su_after_seq p" using assms(3) by (simp only: not_le)
  then show ?thesis
    unfolding sync_updates_def
    by (simp only: Let_def assms(2,4) option.case sum.case no_faults_db_try [OF assms(1)] if_False
        if_cancel fill_gaps_never less_irrefl)
qed

end
