(* ===== verification/Api.thy ===== *)
theory Api
  imports AgentHandlers SyncHandler
begin

text \<open>
  The request side of the server as one function: \<^verbatim>\<open>internal/handler/register.go\<close> (which method
  name runs which handler), the small handlers \<^verbatim>\<open>reload_agents\<close> and \<^verbatim>\<open>system.reconnect\<close>, and the
  dispatcher of \<^verbatim>\<open>internal/server/websocket_handler.go\<close> with the response sidecar.  Decoding the
  JSON parameters is the standard library's work; the decoders are an argument, one per shape of
  parameters.  The methods \<^verbatim>\<open>heartbeat\<close>, \<^verbatim>\<open>set_typing\<close>, \<^verbatim>\<open>stream_text\<close> and
  \<^verbatim>\<open>system.register_functions\<close> work on connections and functions, not on this state, and are not in
  the table.
\<close>

record api_state =
  st_srv :: srv
  st_agents :: "registry option"

text \<open>What the process is configured with: character comparison of LIKE, YAML decoder, directories.\<close>

record deps =
  dp_eqc :: "char \<Rightarrow> char \<Rightarrow> bool"
  dp_yaml :: "string \<Rightarrow> string + AgentConfig"
  dp_read_dir :: "string \<Rightarrow> read_dir_result"

datatype api_request =
    ReqSend "sendMessageParams option"
  | ReqSync "syncUpdatesParams option"
  | ReqCreateConversation "createConversationParams option"
  | ReqListConversations "listConversationsParams option"
  | ReqGetMessages "getMessagesParams option"
  | ReqSearchMessages "searchMessagesParams option"
  | ReqGetConversation "string option"
  | ReqDeleteConversation "string option"
  | ReqRestoreConversation "string option"
  | ReqDeleteMessage "string option"
  | ReqMarkAsRead "markAsReadParams option"
  | ReqReloadAgents
  | ReqAgentResume "agentResumeParams option"
  | ReqGetRemoteCallings "string option"
  | ReqCancelRemoteCalls "cancelRemoteCallsParams option"
  | ReqReconnect

datatype api_response =
    RespSend sendMessageResponse
  | RespSync syncUpdatesResponse
  | RespCreateConversation createConversationResponse
  | RespListConversations listConversationsResponse
  | RespMessages messagesResponse
  | RespGetConversation getConversationResponse
  | RespDeleteConversation nat
  | RespRestoreConversation restoreConversationResponse
  | RespOk
  | RespMarkAsRead markAsReadResponse
  | RespCount nat
  | RespResume resume_response
  | RespRemoteCallings "remote_calling list"
  | RespCancelled nat

text \<open>
  The error a handler returns: a \<^verbatim>\<open>HandlerError\<close>, found by \<^verbatim>\<open>errors.As\<close>, or any other error with
  its text.
\<close>

datatype method_error = Typed HandlerError | Untyped string

definition reload_agents :: "deps \<Rightarrow> registry option \<Rightarrow> (method_error + nat) \<times> registry option" where
  "reload_agents dp reg =
     (case reg of
        None \<Rightarrow> (Inr 0, None)
      | Some r \<Rightarrow>
          (case Reload (dp_yaml dp) (dp_read_dir dp) r of
             (Some e, r') \<Rightarrow> (Inl (Untyped (''reload agents from '' @ [CHR 0x22] @ ar_dir r' @ [CHR 0x22]
                 @ '': '' @ e)), Some r')
           | (None, r') \<Rightarrow> (Inr (Count r'), Some r')))"

text \<open>Lifting a handler on the server state to the API's state and response type.\<close>

definition lift ::
  "('r \<Rightarrow> api_response) \<Rightarrow> (HandlerError + 'r) \<times> srv \<Rightarrow> api_state
     \<Rightarrow> ((method_error + (api_response \<times> data_update list)) \<times> api_state) option" where
  "lift f x a =
     Some ((case fst x of Inl e \<Rightarrow> Inl (Typed e) | Inr r \<Rightarrow> Inr (f r, [])), a\<lparr>st_srv := snd x\<rparr>)"

text \<open>One method call; \<open>None\<close> is a call that does not return.  The list is the response's sidecar.\<close>

definition call_method ::
  "deps \<Rightarrow> env \<Rightarrow> client_conn \<Rightarrow> api_request \<Rightarrow> api_state
     \<Rightarrow> ((method_error + (api_response \<times> data_update list)) \<times> api_state) option" where
  "call_method dp env cl req a =
     (let s = st_srv a in
      case req of
        ReqSend p \<Rightarrow> lift RespSend (send_message (st_agents a) env cl p s) a
      | ReqSync p \<Rightarrow>
          (case sync_updates env cl p s of
             None \<Rightarrow> None
           | Some r \<Rightarrow> lift RespSync (r, s) a)
      | ReqCreateConversation p \<Rightarrow> lift RespCreateConversation (create_conversation env cl p s) a
      | ReqListConversations p \<Rightarrow> lift RespListConversations (list_conversations env cl p s) a
      | ReqGetMessages p \<Rightarrow> lift RespMessages (get_messages env cl p s) a
      | ReqSearchMessages p \<Rightarrow> lift RespMessages (search_messages (dp_eqc dp) env cl p s) a
      | ReqGetConversation p \<Rightarrow> lift RespGetConversation (get_conversation env cl p s) a
      | ReqDeleteConversation p \<Rightarrow> lift RespDeleteConversation (delete_conversation env cl p s) a
      | ReqRestoreConversation p \<Rightarrow> lift RespRestoreConversation (restore_conversation env cl p s) a
      | ReqDeleteMessage p \<Rightarrow> lift (\<lambda>_. RespOk) (delete_message env cl p s) a
      | ReqMarkAsRead p \<Rightarrow> lift RespMarkAsRead (mark_as_read env cl p s) a
      | ReqReloadAgents \<Rightarrow>
          (let (r, reg) = reload_agents dp (st_agents a)
           in Some ((case r of Inl e \<Rightarrow> Inl e | Inr n \<Rightarrow> Inr (RespCount n, [])), a\<lparr>st_agents := reg\<rparr>))
      | ReqAgentResume p \<Rightarrow>
          (let (r, s') = agent_resume env cl p s
           in Some ((case r of Inl e \<Rightarrow> Inl (Typed e) | Inr (x, sidecar) \<Rightarrow> Inr (RespResume x, sidecar)),
                    a\<lparr>st_srv := s'\<rparr>))
      | ReqGetRemoteCallings p \<Rightarrow> lift RespRemoteCallings (get_remote_callings env cl p s) a
      | ReqCancelRemoteCalls p \<Rightarrow> lift RespCancelled (cancel_remote_calls env cl p s) a
      | ReqReconnect \<Rightarrow> Some (Inr (RespOk, []), a))"

subsection \<open>Registration\<close>

record 'raw decoders =
  dec_send :: "'raw \<Rightarrow> sendMessageParams option"
  dec_sync :: "'raw \<Rightarrow> syncUpdatesParams option"
  dec_create :: "'raw \<Rightarrow> createConversationParams option"
  dec_list :: "'raw \<Rightarrow> listConversationsParams option"
  dec_get_messages :: "'raw \<Rightarrow> getMessagesParams option"
  dec_search :: "'raw \<Rightarrow> searchMessagesParams option"
  dec_conversation_id :: "'raw \<Rightarrow> string option"
  dec_message_id :: "'raw \<Rightarrow> string option"
  dec_mark :: "'raw \<Rightarrow> markAsReadParams option"
  dec_resume :: "'raw \<Rightarrow> agentResumeParams option"
  dec_cancel :: "'raw \<Rightarrow> cancelRemoteCallsParams option"

definition RegisterAll :: "'raw decoders \<Rightarrow> string \<rightharpoonup> ('raw \<Rightarrow> api_request)" where
  "RegisterAll dec = map_of
     [(''send_message'', \<lambda>x. ReqSend (dec_send dec x)),
      (''sync_updates'', \<lambda>x. ReqSync (dec_sync dec x)),
      (''create_conversation'', \<lambda>x. ReqCreateConversation (dec_create dec x)),
      (''list_conversations'', \<lambda>x. ReqListConversations (dec_list dec x)),
      (''get_messages'', \<lambda>x. ReqGetMessages (dec_get_messages dec x)),
      (''search_messages'', \<lambda>x. ReqSearchMessages (dec_search dec x)),
      (''get_conversation'', \<lambda>x. ReqGetConversation (dec_conversation_id dec x)),
      (''delete_conversation'', \<lambda>x. ReqDeleteConversation (dec_conversation_id dec x)),
      (''restore_conversation'', \<lambda>x. ReqRestoreConversation (dec_conversation_id dec x)),
      (''delete_message'', \<lambda>x. ReqDeleteMessage (dec_message_id dec x)),
      (''mark_as_read'', \<lambda>x. ReqMarkAsRead (dec_mark dec x)),
      (''reload_agents'', \<lambda>x. ReqReloadAgents),
      (''agent_resume'', \<lambda>x. ReqAgentResume (dec_resume dec x)),
      (''get_remote_callings'', \<lambda>x. ReqGetRemoteCallings (dec_conversation_id dec x)),
      (''cancel_remote_calls'', \<lambda>x. ReqCancelRemoteCalls (dec_cancel dec x)),
      (''system.reconnect'', \<lambda>x. ReqReconnect)]"

subsection \<open>Dispatch\<close>

record 'raw wire_request =
  rq_id :: string
  rq_method :: string
  rq_params :: 'raw

text \<open>An incoming package: its type, and for a request the decoded data, if it decodes.\<close>

datatype 'raw package =
    PkgRequest "'raw wire_request option"
  | PkgResponse
  | PkgUpdates
  | PkgUnknown

record wire_response =
  rp_id :: string
  rp_code :: ResponseCode
  rp_msg :: string
  rp_data :: "api_response option"
  rp_updates :: "data_update list"

definition error_response :: "string \<Rightarrow> ResponseCode \<Rightarrow> string \<Rightarrow> wire_response" where
  "error_response i code m = \<lparr>rp_id = i, rp_code = code, rp_msg = m, rp_data = None, rp_updates = []\<rparr>"

definition success_response :: "string \<Rightarrow> api_response \<Rightarrow> data_update list \<Rightarrow> wire_response" where
  "success_response i d us =
     \<lparr>rp_id = i, rp_code = ResponseCodeOK, rp_msg = ''ok'', rp_data = Some d, rp_updates = us\<rparr>"

text \<open>
  \<^verbatim>\<open>handleRequest\<close>: look the method up, fall back, run it, and turn its outcome into a response.  An
  error discards the sidecar.
\<close>

definition handle_request ::
  "(string \<rightharpoonup> ('raw \<Rightarrow> api_request)) \<Rightarrow> ('raw \<Rightarrow> api_request) option \<Rightarrow> deps \<Rightarrow> env \<Rightarrow> client_conn
     \<Rightarrow> 'raw wire_request option \<Rightarrow> api_state \<Rightarrow> (wire_response \<times> api_state) option" where
  "handle_request methods fallback dp env cl data a =
     (case data of
        None \<Rightarrow> Some (error_response [] ResponseCodeError ''invalid request data'', a)
      | Some req \<Rightarrow>
          (case (case methods (rq_method req) of Some h \<Rightarrow> Some h | None \<Rightarrow> fallback) of
             None \<Rightarrow>
               Some (error_response (rq_id req) ResponseCodeError (''unknown method: '' @ rq_method req), a)
           | Some h \<Rightarrow>
               (case call_method dp env cl (h (rq_params req)) a of
                  None \<Rightarrow> None
                | Some (Inl (Typed e), a') \<Rightarrow> Some (error_response (rq_id req) (he_code e) (he_msg e), a')
                | Some (Inl (Untyped m), a') \<Rightarrow> Some (error_response (rq_id req) ResponseCodeError m, a')
                | Some (Inr (d, us), a') \<Rightarrow> Some (success_response (rq_id req) d us, a'))))"

definition HandleMessage ::
  "(string \<rightharpoonup> ('raw \<Rightarrow> api_request)) \<Rightarrow> ('raw \<Rightarrow> api_request) option \<Rightarrow> deps \<Rightarrow> env \<Rightarrow> client_conn
     \<Rightarrow> 'raw package \<Rightarrow> api_state \<Rightarrow> (wire_response list \<times> api_state) option" where
  "HandleMessage methods fallback dp env cl pkg a =
     (case pkg of
        PkgRequest data \<Rightarrow>
          map_option (\<lambda>(r, a'). ([r], a')) (handle_request methods fallback dp env cl data a)
      | _ \<Rightarrow> Some ([], a))"

end
