(* ===== verification/MessageProps.thy ===== *)
theory MessageProps
  imports ConversationHandlers
begin

text \<open>
  What the message handlers do on every branch that matters: sending and its idempotency, deleting,
  marking as read, and paging through a conversation.
\<close>

text \<open>
  C2: sending a message to a conversation of which the caller is a member, with a client id not used
  before, stores it under the conversation's next number, appends to every member's log one update
  carrying the message under that member's next sequence number, advances the conversation's
  counter, touches nothing else in the database, and enqueues one push task with all of these
  updates before any other task.
\<close>

theorem send_message_effect:
  assumes "no_faults env" and "e_tx env = tx_ok" and "fresh_ids env (sv_db s)"
    and "e_now env 0 \<noteq> zero_time"
    and "sm_conversation_id p \<noteq> []" and "sm_client_message_id p \<noteq> []"
    and "conv_get (sm_conversation_id p) (sv_db s) = Inr conv" and "is_member (cl_user cl) conv"
    and "cl_user cl \<noteq> []"
    and "\<forall>m \<in> set (msgs (sv_db s)). m_client_id m = sm_client_message_id p \<longrightarrow> m_sender m \<noteq> cl_user cl"
  shows "\<exists>s' us. send_message reg env cl (Some p) s
      = (Inr \<lparr>smr_message = sent_message env cl p conv, smr_duplicate = False\<rparr>, s')
    \<and> m_msg_id (sent_message env cl p conv) = c_last_msg conv + 1
    \<and> msgs (sv_db s') = msgs (sv_db s) @ [sent_message env cl p conv]
    \<and> upds (sv_db s') = upds (sv_db s) @ us \<and> map u_user us = conversationMembers conv
    \<and> (\<forall>u \<in> set us. u_seq u = upd_latest_seq (u_user u) (sv_db s) + 1
          \<and> u_payload u = PMessage (sent_message env cl p conv))
    \<and> convs (sv_db s') = update_where (\<lambda>c. c_id c = c_id conv \<and> conv_live c)
          (\<lambda>c. c\<lparr>c_last_at := e_now env 0, c_last_msg := c_last_msg conv + 1, c_updated := e_now env 1\<rparr>)
          (convs (sv_db s))
    \<and> rcs (sv_db s') = rcs (sv_db s)
    \<and> (e_enqueue_ok env 0 \<longrightarrow>
          (\<exists>more. sv_queue s' = sv_queue s @ TaskSendMessage (map to_recipient us) # more))"
proof -
  let ?d = "sv_db s" and ?msg = "sent_message env cl p conv"
  define us where "us = build_updates (\<lambda>i. e_uuid env (Suc i)) (e_now env 1) UpdateTypeMessage
    (PMessage ?msg) (conversationMembers conv) ?d"
  define d' where "d' = ?d\<lparr>msgs := msgs ?d @ [?msg], upds := upds ?d @ us,
        convs := update_where (\<lambda>c. c_id c = c_id conv \<and> conv_live c)
          (\<lambda>c. c\<lparr>c_last_at := e_now env 0, c_last_msg := c_last_msg conv + 1, c_updated := e_now env 1\<rparr>)
          (convs ?d)\<rparr>"
  have cid: "c_id conv = sm_conversation_id p" using conv_get_Inr [OF assms(7)] by simp
  have member: "containsUser (conversationMembers conv) (cl_user cl)"
    using assms(8,9) by (auto simp: is_member_def set_conversationMembers)
  have new: "\<not> list_ex (msg_conflict (send_message_row env cl p conv)) (msgs ?d)"
    using assms(10) fresh_ids_neq(1) [OF assms(3)] by (auto simp: msg_conflict_def list_ex_iff)
  have store: "store_send_message tx_ok (\<lambda>i. e_uuid env (Suc i)) (e_now env 1)
      (send_message_row env cl p conv) (conversationMembers conv) ?d = Inr ((?msg, us), d')"
    unfolding us_def d'_def
    by (rule store_send_ok [OF _ assms(3,4) new]) (use assms(7) cid in simp)
  define s' where "s' = trigger_agent reg env cl conv (m_id ?msg)
    (snd (enqueue env 0 (TaskSendMessage (map to_recipient us)) (set_db d' s)))"
  have get: "get_conversation_or_error env CallGetConversation (sm_conversation_id p) ?d = Inr conv"
    using assms(1,7) by (intro get_conversation_or_error_ok) (simp_all add: no_faults_def)
  have result: "send_message reg env cl (Some p) s
      = (Inr \<lparr>smr_message = ?msg, smr_duplicate = False\<rparr>, s')"
    using assms(5,6) member
    by (simp only: send_message_def option.case if_False get sum.case Let_def not_True_eq_False
        assms(2) store prod.case s'_def)
  have db: "sv_db s' = d'"
    by (simp add: s'_def trigger_agent_def Let_def split: option.split)
  have queue: "\<exists>more. sv_queue s' = sv_queue s @ TaskSendMessage (map to_recipient us) # more"
    if "e_enqueue_ok env 0"
    using that by (auto simp: s'_def trigger_agent_def Let_def enqueue_def split: option.split)
  have seqs: "\<forall>u \<in> set us. u_seq u = upd_latest_seq (u_user u) ?d + 1 \<and> u_payload u = PMessage ?msg"
    unfolding us_def using set_build_updates by blast
  have fields: "msgs d' = msgs ?d @ [?msg]" "upds d' = upds ?d @ us" "rcs d' = rcs ?d"
    "convs d' = update_where (\<lambda>c. c_id c = c_id conv \<and> conv_live c)
          (\<lambda>c. c\<lparr>c_last_at := e_now env 0, c_last_msg := c_last_msg conv + 1, c_updated := e_now env 1\<rparr>)
          (convs ?d)"
    by (simp_all add: d'_def)
  have users: "map u_user us = conversationMembers conv" by (simp add: us_def)
  have number: "m_msg_id ?msg = c_last_msg conv + 1" by (simp add: sent_message_def)
  show ?thesis
    by (intro exI [of _ s'] exI [of _ us] conjI impI)
      (fact result number fields [folded db] users seqs | erule queue)+
qed

text \<open>What the unique index on the client id does to a second attempt.\<close>

lemma send_conflict:
  assumes "conv_get (c_id conv) d = Inr conv" "list_ex (msg_conflict (send_message_row env cl p conv)) (msgs d)"
  shows "store_send_message tx_ok uuid now (send_message_row env cl p conv) (conversationMembers conv) d
    = Inl ErrDuplicateKey"
proof -
  have "msg_create now ((send_message_row env cl p conv)\<lparr>m_msg_id := c_last_msg conv + 1\<rparr>) d
      = Inl ErrDuplicateKey"
    using assms(2) by (simp add: msg_create_def msg_conflict_sent flip: sent_message_def)
  then have "send_message_tx uuid now (send_message_row env cl p conv) (conversationMembers conv) d
      = Inl ErrDuplicateKey"
    by (simp add: send_message_tx_def assms(1) Let_def)
  then show ?thesis
    using length_members [of conv] by (simp add: store_send_message_def store_transaction_ok)
qed

text \<open>
  C3: repeating a request with a client id the caller has used before returns the message stored
  then, flagged as a duplicate, and changes neither the database nor the queue.
\<close>

theorem send_message_idempotent:
  assumes "no_faults env" and "e_tx env = tx_ok"
    and "sm_conversation_id p \<noteq> []" and "sm_client_message_id p \<noteq> []"
    and "conv_get (sm_conversation_id p) (sv_db s) = Inr conv" and "is_member (cl_user cl) conv"
    and "cl_user cl \<noteq> []"
    and "m \<in> set (msgs (sv_db s))" "msg_live m" "m_client_id m = sm_client_message_id p"
      "m_sender m = cl_user cl"
    and "distinct (map (\<lambda>m. (m_client_id m, m_sender m)) (msgs (sv_db s)))"
  shows "send_message reg env cl (Some p) s = (Inr \<lparr>smr_message = m, smr_duplicate = True\<rparr>, s)"
proof -
  have cid: "c_id conv = sm_conversation_id p" using conv_get_Inr [OF assms(5)] by simp
  have member: "containsUser (conversationMembers conv) (cl_user cl)"
    using assms(6,7) by (auto simp: is_member_def set_conversationMembers)
  have get: "get_conversation_or_error env CallGetConversation (sm_conversation_id p) (sv_db s) = Inr conv"
    using assms(1,5) by (intro get_conversation_or_error_ok) (simp_all add: no_faults_def)
  have "list_ex (msg_conflict (send_message_row env cl p conv)) (msgs (sv_db s))"
    using assms(8,10,11) by (auto simp: msg_conflict_def list_ex_iff)
  then have store: "store_send_message tx_ok (\<lambda>i. e_uuid env (Suc i)) (e_now env 1)
      (send_message_row env cl p conv) (conversationMembers conv) (sv_db s) = Inl ErrDuplicateKey"
    by (intro send_conflict) (use assms(5) cid in simp_all)
  have "first_by m_id (\<lambda>m. (m_client_id m = sm_client_message_id p \<and> m_sender m = cl_user cl)
      \<and> msg_live m) (msgs (sv_db s)) = Some m"
    by (rule first_by_key [OF assms(12) assms(8)]) (use assms(9-11) in auto)
  then have look: "msg_get_by_client_message_id (sm_client_message_id p) (cl_user cl) (sv_db s) = Inr m"
    by (simp add: msg_get_by_client_message_id_def)
  show ?thesis
    using assms(3,4) member
    by (simp only: send_message_def option.case if_False get sum.case Let_def not_True_eq_False
        assms(2) store if_True no_faults_db_try [OF assms(1)] look simp_thms)
qed

text \<open>
  C4: the unique index also sees soft-deleted messages while the lookup does not, so repeating a
  request whose message has been deleted since is answered with an internal error instead of the
  stored message.
\<close>

theorem send_message_retry_after_delete_fails:
  assumes "no_faults env" and "e_tx env = tx_ok"
    and "sm_conversation_id p \<noteq> []" and "sm_client_message_id p \<noteq> []"
    and "conv_get (sm_conversation_id p) (sv_db s) = Inr conv" and "is_member (cl_user cl) conv"
    and "cl_user cl \<noteq> []"
    and "m \<in> set (msgs (sv_db s))" "\<not> msg_live m" "m_client_id m = sm_client_message_id p"
      "m_sender m = cl_user cl"
    and "distinct (map (\<lambda>m. (m_client_id m, m_sender m)) (msgs (sv_db s)))"
  shows "send_message reg env cl (Some p) s
    = (Inl (NewInternalError ''send message: store: duplicate key''), s)"
proof -
  have cid: "c_id conv = sm_conversation_id p" using conv_get_Inr [OF assms(5)] by simp
  have member: "containsUser (conversationMembers conv) (cl_user cl)"
    using assms(6,7) by (auto simp: is_member_def set_conversationMembers)
  have get: "get_conversation_or_error env CallGetConversation (sm_conversation_id p) (sv_db s) = Inr conv"
    using assms(1,5) by (intro get_conversation_or_error_ok) (simp_all add: no_faults_def)
  have "list_ex (msg_conflict (send_message_row env cl p conv)) (msgs (sv_db s))"
    using assms(8,10,11) by (auto simp: msg_conflict_def list_ex_iff)
  then have store: "store_send_message tx_ok (\<lambda>i. e_uuid env (Suc i)) (e_now env 1)
      (send_message_row env cl p conv) (conversationMembers conv) (sv_db s) = Inl ErrDuplicateKey"
    by (intro send_conflict) (use assms(5) cid in simp_all)
  have "\<not> msg_live x" if "x \<in> set (msgs (sv_db s))" "m_client_id x = sm_client_message_id p"
    "m_sender x = cl_user cl" for x
    using distinct_map_unique [OF assms(12) that(1) assms(8)] that(2,3) assms(9-11) by auto
  then have "first_by m_id (\<lambda>m. (m_client_id m = sm_client_message_id p \<and> m_sender m = cl_user cl)
      \<and> msg_live m) (msgs (sv_db s)) = None"
    by (auto simp: first_by_None_iff)
  then have look: "msg_get_by_client_message_id (sm_client_message_id p) (cl_user cl) (sv_db s) = Inl ErrNotFound"
    by (simp add: msg_get_by_client_message_id_def)
  have msg: "''send message: '' @ store_error_msg ErrDuplicateKey = ''send message: store: duplicate key''"
    by simp
  show ?thesis
    using assms(3,4) member
    by (simp only: send_message_def option.case if_False get sum.case Let_def not_True_eq_False
        assms(2) store if_True no_faults_db_try [OF assms(1)] look msg simp_thms)
qed

subsection \<open>Marking as read\<close>

text \<open>The caller's cursor of a conversation, and the conversation with that cursor replaced.\<close>

definition read_cursor :: "string \<Rightarrow> conversation \<Rightarrow> u32" where
  "read_cursor uid c = (if c_user1 c = uid then c_read1 c else c_read2 c)"

definition with_cursor :: "string \<Rightarrow> u32 \<Rightarrow> time \<Rightarrow> conversation \<Rightarrow> conversation" where
  "with_cursor uid n now c =
     (if c_user1 c = uid then c\<lparr>c_read1 := n, c_updated := now\<rparr> else c\<lparr>c_read2 := n, c_updated := now\<rparr>)"

lemma update_where_single:
  assumes "distinct (map f xs)" "x \<in> set xs" "p x" "\<And>y. p y \<Longrightarrow> f y = f x"
    and "g x = h x"
  shows "update_where p g xs = update_where p h xs"
proof -
  have "g y = h y" if "y \<in> set xs" "p y" for y
    using distinct_map_unique [OF assms(1) that(1) assms(2)] assms(4) [OF that(2)] assms(5) by auto
  then show ?thesis by (auto simp: update_where_def)
qed

lemma mark_target_le: "mark_target n l \<le> l"
  by (simp add: mark_target_def Let_def not_less)

lemma last_read_effect:
  assumes "distinct (map c_id (convs d))" "conv_get cid d = Inr c" "is_member uid c"
    and n_def: "n = max (read_cursor uid c) mid"
  shows "conv_update_last_read now cid uid mid d
    = Inr (d\<lparr>convs := update_where (\<lambda>x. c_id x = cid \<and> conv_live x) (with_cursor uid n now) (convs d)\<rparr>)"
proof -
  have c: "c \<in> set (convs d)" "c_id c = cid" "conv_live c" using conv_get_Inr [OF assms(2)] by auto
  note upd = update_where_single [OF assms(1) c(1), of "\<lambda>x. c_id x = cid \<and> conv_live x"]
  show ?thesis
  proof (cases "c_user1 c = uid")
    case True
    have "update_where (\<lambda>x. c_id x = cid \<and> conv_live x)
        (\<lambda>c. c\<lparr>c_read1 := (if c_read1 c > mid then c_read1 c else mid), c_updated := now\<rparr>) (convs d)
      = update_where (\<lambda>x. c_id x = cid \<and> conv_live x) (with_cursor uid n now) (convs d)"
      by (rule upd) (use c True in \<open>auto simp: with_cursor_def n_def read_cursor_def max_def\<close>)
    then show ?thesis by (simp add: conv_update_last_read_def assms(2) True)
  next
    case False
    then have u2: "c_user2 c = uid" using assms(3) by (simp add: is_member_def)
    have "update_where (\<lambda>x. c_id x = cid \<and> conv_live x)
        (\<lambda>c. c\<lparr>c_read2 := (if c_read2 c > mid then c_read2 c else mid), c_updated := now\<rparr>) (convs d)
      = update_where (\<lambda>x. c_id x = cid \<and> conv_live x) (with_cursor uid n now) (convs d)"
      by (rule upd) (use c False in \<open>auto simp: with_cursor_def n_def read_cursor_def max_def\<close>)
    then show ?thesis by (simp add: conv_update_last_read_def assms(2) False u2)
  qed
qed

lemma with_cursor_simps [simp]:
  "c_id (with_cursor uid n now c) = c_id c" "conv_live (with_cursor uid n now c) = conv_live c"
  "c_user1 (with_cursor uid n now c) = c_user1 c" "c_user2 (with_cursor uid n now c) = c_user2 c"
  "read_cursor uid (with_cursor uid n now c) = n"
  by (auto simp: with_cursor_def conv_live_def read_cursor_def)

lemma conv_get_update_live:
  assumes "distinct (map c_id (convs d))" "conv_get cid d = Inr c"
    and "\<And>x. c_id (f x) = c_id x" "\<And>x. conv_live (f x) = conv_live x"
  shows "conv_get cid (d\<lparr>convs := update_where (\<lambda>x. c_id x = cid \<and> conv_live x) f (convs d)\<rparr>) = Inr (f c)"
proof -
  have c: "c \<in> set (convs d)" "c_id c = cid" "conv_live c" using conv_get_Inr [OF assms(2)] by auto
  let ?d = "d\<lparr>convs := update_where (\<lambda>x. c_id x = cid \<and> conv_live x) f (convs d)\<rparr>"
  have "distinct (map c_id (convs ?d))" using assms(1,3) by (simp add: map_update_where)
  moreover have "f c \<in> set (convs ?d)" using c by (auto simp: set_update_where)
  moreover have "conv_live (f c)" using c assms(4) by simp
  ultimately have "conv_get (c_id (f c)) ?d = Inr (f c)" by (rule conv_get_ok)
  then show ?thesis using c assms(3) by simp
qed

lemma mark_read_update_ok:
  assumes "no_faults env" "fresh_ids env (sv_db s)"
  shows "\<exists>u. sv_db (mark_read_update env uid pl s) = (sv_db s)\<lparr>upds := upds (sv_db s) @ [u]\<rparr>
    \<and> u_user u = uid \<and> u_seq u = upd_latest_seq uid (sv_db s) + 1 \<and> u_payload u = pl
    \<and> u_type u = UpdateTypeMarkRead"
proof -
  let ?u = "\<lparr>u_id = e_uuid env 0, u_user = uid, u_seq = upd_latest_seq uid (sv_db s) + 1,
     u_type = UpdateTypeMarkRead, u_payload = pl, u_created = e_now env 1\<rparr>"
  have "upd_create [?u] (sv_db s) = Inr ((sv_db s)\<lparr>upds := upds (sv_db s) @ [?u]\<rparr>)"
    using assms(2) by (intro upd_create_ok) (simp_all add: fresh_ids_def)
  then have "sv_db (mark_read_update env uid pl s) = (sv_db s)\<lparr>upds := upds (sv_db s) @ [?u]\<rparr>"
    by (simp add: mark_read_update_def no_faults_db_try [OF assms(1)] Let_def)
  then show ?thesis by (intro exI [of _ ?u] conjI) simp_all
qed

text \<open>
  C10: marking as read moves the caller's own cursor to the requested message, clamped to the last
  one (0 meaning the last), but never backwards; the other member's cursor and all other data stay
  as they are; the answer reports the new cursor and the number of messages above it that are not
  deleted, and the caller alone gets an update that carries the cursor.
\<close>

theorem mark_as_read_effect:
  assumes "no_faults env" and "fresh_ids env (sv_db s)" and "distinct (map c_id (convs (sv_db s)))"
    and "mr_conversation_id p \<noteq> []" and "cl_user cl \<noteq> []" and "c_user1 conv \<noteq> c_user2 conv"
    and "conv_get (mr_conversation_id p) (sv_db s) = Inr conv" and "is_member (cl_user cl) conv"
    and "n = max (read_cursor (cl_user cl) conv) (mark_target (mr_message_id p) (c_last_msg conv))"
  shows "\<exists>s' u. mark_as_read env cl (Some p) s
      = (Inr \<lparr>mrr_unread = int (length (filter (\<lambda>m. m_conv m = c_id conv \<and> n < m_msg_id m \<and> msg_live m)
            (msgs (sv_db s)))), mrr_last_read = n\<rparr>, s')
    \<and> sv_db s' = (sv_db s)\<lparr>
        convs := update_where (\<lambda>x. c_id x = c_id conv \<and> conv_live x)
          (with_cursor (cl_user cl) n (e_now env 0)) (convs (sv_db s)),
        upds := upds (sv_db s) @ [u]\<rparr>
    \<and> u_user u = cl_user cl \<and> u_seq u = upd_latest_seq (cl_user cl) (sv_db s) + 1
    \<and> u_payload u = PMarkRead (c_id conv) n"
proof -
  let ?cid = "mr_conversation_id p" and ?uid = "cl_user cl" and ?now = "e_now env 0"
  let ?target = "mark_target (mr_message_id p) (c_last_msg conv)"
  have cid: "c_id conv = ?cid" using conv_get_Inr [OF assms(7)] by simp
  have member: "containsUser (conversationMembers conv) ?uid"
    using assms(5,8) by (auto simp: is_member_def set_conversationMembers)
  have get: "get_conversation_or_error env CallGetConversation ?cid (sv_db s) = Inr conv"
    using assms(1,7) by (intro get_conversation_or_error_ok) (simp_all add: no_faults_def)
  define d1 where "d1 = (sv_db s)\<lparr>convs := update_where (\<lambda>x. c_id x = ?cid \<and> conv_live x)
      (with_cursor ?uid n ?now) (convs (sv_db s))\<rparr>"
  have upd: "conv_update_last_read ?now ?cid ?uid ?target (sv_db s) = Inr d1"
    unfolding d1_def by (rule last_read_effect [OF assms(3,7,8,9)])
  let ?conv' = "with_cursor ?uid n ?now conv"
  have get': "conv_get ?cid d1 = Inr ?conv'"
    unfolding d1_def by (rule conv_get_update_live [OF assms(3,7)]) simp_all
  have cursor: "(if ?uid = c_user2 ?conv' then c_read2 ?conv' else c_read1 ?conv') = n"
  proof (cases "c_user1 conv = ?uid")
    case True
    then have "?uid \<noteq> c_user2 conv" using assms(6) by metis
    with True show ?thesis by (simp add: with_cursor_def)
  next
    case False
    then have "c_user2 conv = ?uid" using assms(8) by (simp add: is_member_def)
    with False show ?thesis by (simp add: with_cursor_def)
  qed
  define unread where "unread = msg_count_unread ?cid n d1"
  have unread: "unread = int (length (filter (\<lambda>m. m_conv m = c_id conv \<and> n < m_msg_id m \<and> msg_live m)
      (msgs (sv_db s))))"
    by (simp add: unread_def msg_count_unread_def Let_def count_where_def d1_def cid conj_assoc)
  define s' where "s' = mark_read_update env ?uid (PMarkRead ?cid n) (set_db d1 s)"
  have result: "mark_as_read env cl (Some p) s = (Inr \<lparr>mrr_unread = unread, mrr_last_read = n\<rparr>, s')"
    using assms(4) member
    by (simp only: mark_as_read_def option.case if_False get sum.case Let_def not_True_eq_False
        no_faults_db_try [OF assms(1)] upd get' cursor unread_def s'_def)
  have "fresh_ids env (sv_db (set_db d1 s))"
    using assms(2) by (simp add: d1_def fresh_ids_def map_update_where [of _ c_id] flip: set_map)
  then obtain u where u: "sv_db s' = d1\<lparr>upds := upds d1 @ [u]\<rparr>" "u_user u = ?uid"
    "u_seq u = upd_latest_seq ?uid d1 + 1" "u_payload u = PMarkRead ?cid n"
    unfolding s'_def using mark_read_update_ok [OF assms(1), of "set_db d1 s" ?uid "PMarkRead ?cid n"] by auto
  have latest: "upd_latest_seq ?uid d1 = upd_latest_seq ?uid (sv_db s)"
    by (simp add: d1_def upd_latest_seq_def)
  show ?thesis
    using result u unfolding unread latest cid by (intro exI [of _ s'] exI [of _ u]) (simp add: d1_def)
qed

subsection \<open>Paging through a conversation\<close>

text \<open>The messages of a conversation that are not deleted, in the order of their numbers.\<close>

definition messages_of :: "string \<Rightarrow> db \<Rightarrow> message list" where
  "messages_of cid d = select_asc m_msg_id (\<lambda>m. m_conv m = cid \<and> msg_live m) (msgs d)"

definition messages_after :: "u32 \<Rightarrow> string \<Rightarrow> db \<Rightarrow> message list" where
  "messages_after n cid d = filter (\<lambda>m. n < m_msg_id m) (messages_of cid d)"

lemma filter_above_nth:
  "sorted_wrt (\<lambda>x y. f x < f y) xs \<Longrightarrow> i < length xs \<Longrightarrow>
     filter (\<lambda>x. f (xs ! i) < f x) xs = drop (Suc i) xs" for f :: "'a \<Rightarrow> 'k::linorder"
proof (induction xs arbitrary: i)
  case Nil
  then show ?case by simp
next
  case (Cons x xs)
  show ?case
  proof (cases i)
    case 0
    then have "filter (\<lambda>y. f x < f y) xs = xs" using Cons.prems by (simp add: filter_True)
    with 0 show ?thesis by simp
  next
    case (Suc j)
    then have "f x < f (xs ! j)" using Cons.prems by simp
    then have "\<not> f (xs ! j) < f x" by (rule order_less_not_sym)
    with Suc Cons show ?thesis by simp
  qed
qed

lemma msg_list_after:
  "1 \<le> l \<Longrightarrow> l \<le> 201 \<Longrightarrow>
     msg_list_by_conversation cid n (int l) d = take l (messages_after n cid d)"
  by (simp add: msg_list_by_conversation_def Let_def messages_after_def messages_of_def
      select_asc_def filter_sort conj_ac)

lemma messages_limit_bounds: "1 \<le> messages_limit l \<and> messages_limit l \<le> 200"
  by (simp add: messages_limit_def)

lemma probe_page_take:
  "probe_page (int l) (take (Suc l) xs) = (take l xs, l < length xs)"
  by (auto simp: probe_page_def Let_def min_def)

text \<open>
  C9: a page of messages holds the first \<open>limit\<close> live messages after the cursor in the order of
  their numbers, and \<^verbatim>\<open>has_more\<close> says exactly whether there are more; nothing is changed.
\<close>

theorem get_messages_page:
  assumes "no_faults env" and "gm_conversation_id p \<noteq> []" and "cl_user cl \<noteq> []"
    and "conv_get (gm_conversation_id p) (sv_db s) = Inr conv" and "is_member (cl_user cl) conv"
  shows "get_messages env cl (Some p) s
    = (Inr \<lparr>ms_messages = take (nat (messages_limit (gm_limit p)))
              (messages_after (gm_after p) (gm_conversation_id p) (sv_db s)),
            ms_has_more = (nat (messages_limit (gm_limit p))
              < length (messages_after (gm_after p) (gm_conversation_id p) (sv_db s)))\<rparr>, s)"
proof -
  have cid: "c_id conv = gm_conversation_id p" using conv_get_Inr [OF assms(4)] by simp
  have member: "containsUser (conversationMembers conv) (cl_user cl)"
    using assms(3,5) by (auto simp: is_member_def set_conversationMembers)
  have get: "get_conversation_or_error env CallGetConversation (gm_conversation_id p) (sv_db s) = Inr conv"
    using assms(1,4) by (intro get_conversation_or_error_ok) (simp_all add: no_faults_def)
  define l where "l = nat (messages_limit (gm_limit p))"
  have l: "messages_limit (gm_limit p) = int l" "1 \<le> l" "l \<le> 200"
    using messages_limit_bounds [of "gm_limit p"] by (auto simp: l_def)
  have rows: "msg_list_by_conversation (c_id conv) (gm_after p) (messages_limit (gm_limit p) + 1) (sv_db s)
      = take (Suc l) (messages_after (gm_after p) (gm_conversation_id p) (sv_db s))"
    using msg_list_after [of "Suc l" "gm_conversation_id p" "gm_after p" "sv_db s"] l(2,3)
    by (simp add: cid l(1) add.commute)
  show ?thesis
    using assms(2) member
    by (simp only: get_messages_def option.case if_False get sum.case Let_def not_True_eq_False
        no_faults_db_try [OF assms(1)] rows [unfolded l(1)] probe_page_take l(1) nat_int prod.case)
qed

text \<open>A reader that follows the cursor: it asks again from the last message while there are more.\<close>

fun read_messages :: "nat \<Rightarrow> env \<Rightarrow> client_conn \<Rightarrow> getMessagesParams \<Rightarrow> srv \<Rightarrow> message list option" where
  "read_messages 0 env cl p s = None"
| "read_messages (Suc fuel) env cl p s =
     (case fst (get_messages env cl (Some p) s) of
        Inl e \<Rightarrow> None
      | Inr r \<Rightarrow>
          if ms_has_more r then
            map_option (\<lambda>rest. ms_messages r @ rest)
              (read_messages fuel env cl (p\<lparr>gm_after := m_msg_id (last (ms_messages r))\<rparr>) s)
          else Some (ms_messages r))"

lemma messages_after_strict:
  assumes "distinct (map (\<lambda>m. (m_conv m, m_msg_id m)) (msgs d))"
  shows "sorted_wrt (\<lambda>x y. m_msg_id x < m_msg_id y) (messages_after n cid d)"
proof -
  let ?ms = "filter (\<lambda>m. m_conv m = cid \<and> msg_live m) (msgs d)"
  have "distinct (map (\<lambda>m. (m_conv m, m_msg_id m)) ?ms)"
    using assms by (rule distinct_map_filter)
  then have "distinct (map m_msg_id ?ms)" by (auto simp: distinct_map inj_on_def)
  then have "distinct (map m_msg_id (messages_of cid d))"
    by (simp add: messages_of_def select_asc_def)
  moreover have "sorted (map m_msg_id (messages_of cid d))"
    by (simp add: messages_of_def sorted_select_asc)
  ultimately have "sorted_wrt (\<lambda>x y. m_msg_id x < m_msg_id y) (messages_of cid d)"
    using strict_sorted_iff [of "map m_msg_id (messages_of cid d)"] by (simp add: sorted_wrt_map)
  then show ?thesis by (simp add: messages_after_def sorted_wrt_filter)
qed

lemma messages_after_after:
  "n < k \<Longrightarrow> messages_after k cid d = filter (\<lambda>m. k < m_msg_id m) (messages_after n cid d)"
  unfolding messages_after_def filter_filter
  by (rule filter_cong [OF refl]) (auto intro: order_less_trans)

lemma messages_after_last:
  assumes "distinct (map (\<lambda>m. (m_conv m, m_msg_id m)) (msgs d))"
    and "0 < l" "l < length (messages_after n cid d)"
  shows "messages_after (m_msg_id (last (take l (messages_after n cid d)))) cid d
    = drop l (messages_after n cid d)"
proof -
  let ?M = "messages_after n cid d"
  have last: "last (take l ?M) = ?M ! (l - 1)" using assms(2,3) by (subst last_conv_nth) (auto simp: min_def)
  have "?M ! (l - 1) \<in> set ?M" using assms by (intro nth_mem) simp
  then have n: "n < m_msg_id (?M ! (l - 1))" by (simp add: messages_after_def)
  have "messages_after (m_msg_id (?M ! (l - 1))) cid d
      = filter (\<lambda>m. m_msg_id (?M ! (l - 1)) < m_msg_id m) ?M"
    using n by (rule messages_after_after)
  also have "\<dots> = drop l ?M"
    using filter_above_nth [OF messages_after_strict [OF assms(1), of n cid], of "l - 1"] assms(2,3) by simp
  finally show ?thesis by (simp only: last)
qed

text \<open>
  C8: following the cursor page by page reads every live message above the starting cursor exactly
  once and in order, in at most one request more than there are messages, whatever page size
  is asked for.
\<close>

theorem read_messages_complete:
  assumes "no_faults env" and "gm_conversation_id p \<noteq> []" and "cl_user cl \<noteq> []"
    and "conv_get (gm_conversation_id p) (sv_db s) = Inr conv" and "is_member (cl_user cl) conv"
    and "distinct (map (\<lambda>m. (m_conv m, m_msg_id m)) (msgs (sv_db s)))"
    and "length (messages_after (gm_after p) (gm_conversation_id p) (sv_db s)) < fuel"
  shows "read_messages fuel env cl p s
    = Some (messages_after (gm_after p) (gm_conversation_id p) (sv_db s))"
  using assms(2,4,7)
proof (induction fuel arbitrary: p)
  case 0
  then show ?case by simp
next
  case (Suc fuel)
  let ?M = "messages_after (gm_after p) (gm_conversation_id p) (sv_db s)"
  define l where "l = nat (messages_limit (gm_limit p))"
  have "0 < l" using messages_limit_bounds [of "gm_limit p"] by (simp add: l_def)
  have page: "get_messages env cl (Some p) s
      = (Inr \<lparr>ms_messages = take l ?M, ms_has_more = (l < length ?M)\<rparr>, s)"
    unfolding l_def using Suc.prems assms by (intro get_messages_page) auto
  show ?case
  proof (cases "l < length ?M")
    case True
    let ?p = "p\<lparr>gm_after := m_msg_id (last (take l ?M))\<rparr>"
    have rest: "messages_after (gm_after ?p) (gm_conversation_id ?p) (sv_db s) = drop l ?M"
      using messages_after_last [OF assms(6) \<open>0 < l\<close> True] by simp
    have "read_messages fuel env cl ?p s
        = Some (messages_after (gm_after ?p) (gm_conversation_id ?p) (sv_db s))"
      by (rule Suc.IH) (use Suc.prems True \<open>0 < l\<close> rest in auto)
    then show ?thesis using True messages_after_last [OF assms(6) \<open>0 < l\<close> True] by (simp add: page)
  next
    case False
    then show ?thesis by (simp add: page)
  qed
qed

end
