(* ===== verification/ConversationProps.thy ===== *)
theory ConversationProps
  imports MessageProps
begin

text \<open>
  What the conversation handlers do: creation and its idempotency, the cascade of deletion and
  restoration, deletion of single messages, and the contract they all share towards users that are
  not members of the conversation.
\<close>

subsection \<open>Deleting a message\<close>


subsection \<open>Creating a conversation\<close>

lemma conv_conflict_sym: "conv_conflict a b \<longleftrightarrow> conv_conflict b a"
  by (auto simp: conv_conflict_def)

lemma new_conversation_users:
  "{c_user1 (new_conversation env caller p), c_user2 (new_conversation env caller p)} = {caller, cc_user_id p}"
  "c_user1 (new_conversation env caller p) \<le> c_user2 (new_conversation env caller p)"
  "c_id (new_conversation env caller p) = e_uuid env 0" "c_deleted (new_conversation env caller p) = None"
  by (auto simp: new_conversation_def Let_def)

lemma conv_defaults_simps [simp]:
  "c_id (conv_defaults now c) = c_id c" "c_user1 (conv_defaults now c) = c_user1 c"
  "c_user2 (conv_defaults now c) = c_user2 c" "c_deleted (conv_defaults now c) = c_deleted c"
  by (simp_all add: conv_defaults_def)

definition pair_of :: "string \<Rightarrow> string \<Rightarrow> conversation \<Rightarrow> bool" where
  "pair_of u v c \<longleftrightarrow> (c_user1 c = u \<and> c_user2 c = v) \<or> (c_user1 c = v \<and> c_user2 c = u)"

lemma pair_of_sym: "pair_of u v = pair_of v u"
  by (auto simp: pair_of_def fun_eq_iff)

lemma conv_get_by_users_pair:
  "conv_get_by_users u v d =
     (case first_by c_id (\<lambda>c. pair_of u v c \<and> conv_live c) (convs d) of
        None \<Rightarrow> Inl ErrNotFound | Some c \<Rightarrow> Inr c)"
  by (simp add: conv_get_by_users_def pair_of_def)

lemma new_conversation_pair: "pair_of caller (cc_user_id p) (new_conversation env caller p)"
  using new_conversation_users(1) [of env caller p] by (auto simp: pair_of_def doubleton_eq_iff)

lemma pair_of_same:
  "pair_of u v a \<Longrightarrow> pair_of u v b \<Longrightarrow> c_user1 a \<le> c_user2 a \<Longrightarrow> c_user1 b \<le> c_user2 b \<Longrightarrow>
     c_user1 a = c_user1 b \<and> c_user2 a = c_user2 b"
  by (auto simp: pair_of_def)

lemma announce_convs [simp]: "convs (sv_db (announce_conversation env c s)) = convs (sv_db s)"
proof -
  have "store_transaction t (\<lambda>d. case upd_create (build d) d of Inl e \<Rightarrow> Inl e | Inr d' \<Rightarrow> Inr (build d, d')) d
      = Inr (us, d') \<Longrightarrow> convs d' = convs d" for t build d us d'
    by (drule store_transaction_Inr) (auto split: sum.splits dest: upd_create_Inr)
  then show ?thesis
    by (auto simp: announce_conversation_def Let_def split: sum.split)
qed

text \<open>
  C12: the first request of either user for a conversation with the other creates it with the two
  ids in order, and from then on a request by either of them returns that conversation, flagged as a
  duplicate, without changing anything.
\<close>

theorem create_conversation_idempotent:
  assumes "no_faults env" and "no_faults env'" and "fresh_ids env (sv_db s)"
    and "a \<noteq> []" "b \<noteq> []" "a \<noteq> b" and "\<forall>c \<in> set (convs (sv_db s)). \<not> pair_of a b c"
    and "cl_user cl = a" and "cc_user_id p = b"
    and "(cl_user cl', cc_user_id p') \<in> {(a, b), (b, a)}"
  shows "\<exists>conv s'. create_conversation env cl (Some p) s
      = (Inr \<lparr>ccr_conversation = conv, ccr_duplicate = False\<rparr>, s')
    \<and> convs (sv_db s') = convs (sv_db s) @ [conv]
    \<and> c_user1 conv = min a b \<and> c_user2 conv = max a b \<and> conv_live conv
    \<and> create_conversation env' cl' (Some p') s'
      = (Inr \<lparr>ccr_conversation = conv, ccr_duplicate = True\<rparr>, s')"
proof -
  let ?new = "new_conversation env a p"
  define conv where "conv = conv_defaults (e_now env 1) ?new"
  have pair: "pair_of a b conv"
    using new_conversation_pair [of a p env] assms(9) by (simp add: pair_of_def conv_def)
  have ordered: "c_user1 conv \<le> c_user2 conv"
    using new_conversation_users(2) by (simp add: conv_def)
  have live: "conv_live conv" by (simp add: conv_def conv_live_def new_conversation_users(4))
  have none: "first_by c_id (\<lambda>c. pair_of a b c \<and> conv_live c) (convs (sv_db s)) = None"
    using assms(7) by (simp add: first_by_None_iff)
  have look: "conv_get_by_users a b (sv_db s) = Inl ErrNotFound"
    by (simp add: conv_get_by_users_pair none)
  have "\<not> conv_conflict ?new c" if "c \<in> set (convs (sv_db s))" for c
  proof
    assume "conv_conflict ?new c"
    then have "c_user1 c = c_user1 ?new \<and> c_user2 c = c_user2 ?new"
      using fresh_ids_neq(2) [OF assms(3) that, of 0] by (auto simp: conv_conflict_def new_conversation_users(3))
    then have "pair_of a b c" using new_conversation_pair [of a p env] assms(9) by (simp add: pair_of_def)
    then show False using assms(7) that by blast
  qed
  then have create: "conv_create (e_now env 1) ?new (sv_db s)
      = Inr (conv, (sv_db s)\<lparr>convs := convs (sv_db s) @ [conv]\<rparr>)"
    by (auto simp: conv_create_def list_ex_iff conv_def Let_def)
  define s' where "s' = announce_conversation env conv (set_db ((sv_db s)\<lparr>convs := convs (sv_db s) @ [conv]\<rparr>) s)"
  have first: "create_conversation env cl (Some p) s
      = (Inr \<lparr>ccr_conversation = conv, ccr_duplicate = False\<rparr>, s')"
    using assms(5,6) create look
    by (simp add: create_conversation_def assms(8,9) no_faults_db_try [OF assms(1)] s'_def
        del: One_nat_def)
  have convs': "convs (sv_db s') = convs (sv_db s) @ [conv]" by (simp add: s'_def)
  have pair': "pair_of (cl_user cl') (cc_user_id p') = pair_of a b"
    using assms(10) by (auto simp: pair_of_sym)
  have "first_by c_id (\<lambda>c. pair_of a b c \<and> conv_live c) (convs (sv_db s')) = Some conv"
    by (rule first_by_unique) (use pair live assms(7) convs' in auto)
  then have look': "conv_get_by_users (cl_user cl') (cc_user_id p') (sv_db s') = Inr conv"
    by (simp add: conv_get_by_users_pair pair')
  have "cc_user_id p' \<noteq> []" "cc_user_id p' \<noteq> cl_user cl'" using assms(4-6,10) by auto
  then have second: "create_conversation env' cl' (Some p') s'
      = (Inr \<lparr>ccr_conversation = conv, ccr_duplicate = True\<rparr>, s')"
    by (simp add: create_conversation_def look' no_faults_db_try [OF assms(2)])
  have "c_user1 conv = min a b \<and> c_user2 conv = max a b"
    using pair ordered by (auto simp: pair_of_def)
  with first second convs' live show ?thesis by blast
qed

text \<open>
  C13: once the conversation of two users has been deleted, neither of them can create it again: the
  lookup does not see the soft-deleted row but the unique index does, so the request ends in an
  internal error and changes nothing.
\<close>

theorem create_after_delete_fails:
  assumes "no_faults env"
    and "cc_user_id p \<noteq> []" and "cc_user_id p \<noteq> cl_user cl"
    and "old \<in> set (convs (sv_db s))" and "\<not> conv_live old"
    and "pair_of (cl_user cl) (cc_user_id p) old" and "c_user1 old \<le> c_user2 old"
    and "\<forall>c \<in> set (convs (sv_db s)). pair_of (cl_user cl) (cc_user_id p) c \<longrightarrow> \<not> conv_live c"
  shows "create_conversation env cl (Some p) s
    = (Inl (NewInternalError ''create conversation: store: duplicate key''), s)"
proof -
  let ?new = "new_conversation env (cl_user cl) p"
  have "first_by c_id (\<lambda>c. pair_of (cl_user cl) (cc_user_id p) c \<and> conv_live c) (convs (sv_db s)) = None"
    using assms(8) by (simp add: first_by_None_iff)
  then have look: "conv_get_by_users (cl_user cl) (cc_user_id p) (sv_db s) = Inl ErrNotFound"
    by (simp add: conv_get_by_users_pair)
  have "conv_conflict ?new old"
    using pair_of_same [OF assms(6) new_conversation_pair assms(7) new_conversation_users(2)]
    by (simp add: conv_conflict_def)
  then have create: "conv_create (e_now env 1) ?new (sv_db s) = Inl ErrDuplicateKey"
    using assms(4) by (auto simp: conv_create_def list_ex_iff)
  show ?thesis
    using assms(2,3) by (simp add: create_conversation_def look create no_faults_db_try [OF assms(1)] del: One_nat_def)
qed

subsection \<open>Deleting and restoring a conversation\<close>

lemma live_only:
  assumes "distinct (map c_id (convs d))" "conv_get cid d = Inr c" "x \<in> set (convs d)" "c_id x = cid"
  shows "x = c"
  using conv_get_Inr [OF assms(2)] distinct_map_unique [OF assms(1,3), of c] assms(4) by simp

lemma delete_tx_result:
  assumes "conv_get cid d = Inr c"
  shows "store_transaction tx_ok (delete_conversation_tx now cid) d
    = Inr (count_where (\<lambda>m. m_conv m = cid \<and> msg_live m) (msgs d), d\<lparr>
        convs := update_where (\<lambda>c. c_id c = cid \<and> conv_live c) (\<lambda>c. c\<lparr>c_deleted := Some now\<rparr>) (convs d),
        msgs := update_where (\<lambda>m. m_conv m = cid \<and> msg_live m) (\<lambda>m. m\<lparr>m_deleted := Some now\<rparr>) (msgs d)\<rparr>)"
proof -
  have "delete_conversation_tx now cid d
    = Inr (count_where (\<lambda>m. m_conv m = cid \<and> msg_live m) (msgs d), d\<lparr>
        convs := update_where (\<lambda>c. c_id c = cid \<and> conv_live c) (\<lambda>c. c\<lparr>c_deleted := Some now\<rparr>) (convs d),
        msgs := update_where (\<lambda>m. m_conv m = cid \<and> msg_live m) (\<lambda>m. m\<lparr>m_deleted := Some now\<rparr>) (msgs d)\<rparr>)"
    using conv_get_Inr [OF assms]
    by (auto simp: delete_conversation_tx_def conv_delete_def msg_delete_by_conversation_def Let_def
        count_where_zero)
  then show ?thesis by (simp add: store_transaction_ok)
qed

lemma update_where_kills:
  "(\<And>x. p x \<Longrightarrow> \<not> p (f x)) \<Longrightarrow> y \<in> set (update_where p f xs) \<Longrightarrow> \<not> p y"
  by (auto simp: update_where_def split: if_splits)

text \<open>What restoring sets on the conversation's row.\<close>

definition restored_row :: "time \<Rightarrow> message option \<Rightarrow> conversation \<Rightarrow> conversation" where
  "restored_row now latest c =
     (case latest of
        None \<Rightarrow> c\<lparr>c_updated := now\<rparr>
      | Some m \<Rightarrow> c\<lparr>c_last_msg := m_msg_id m, c_last_at := m_created m, c_updated := now\<rparr>)"

lemma restored_row_simps [simp]:
  "c_id (restored_row now l c) = c_id c" "conv_live (restored_row now l c) = conv_live c"
  by (auto simp: restored_row_def conv_live_def split: option.splits)

lemma count_where_update:
  "(\<And>x. x \<in> set xs \<Longrightarrow> q (if p x then f x else x) = p x) \<Longrightarrow>
     count_where q (update_where p f xs) = count_where p xs"
  by (induction xs) auto

text \<open>The cascade of restoring undoes the cascade of deleting.\<close>

lemma restore_tx_undoes:
  assumes ids: "distinct (map c_id (convs d))" and get: "conv_get cid d = Inr c"
    and fresh: "\<forall>m \<in> set (msgs d). m_conv m = cid \<longrightarrow> m_deleted m \<noteq> Some t"
    and d1: "convs d1 = update_where (\<lambda>c. c_id c = cid \<and> conv_live c) (\<lambda>c. c\<lparr>c_deleted := Some t\<rparr>) (convs d)"
      "msgs d1 = update_where (\<lambda>m. m_conv m = cid \<and> msg_live m) (\<lambda>m. m\<lparr>m_deleted := Some t\<rparr>) (msgs d)"
  shows "store_transaction tx_ok (restore_conversation_tx now cid t) d1
    = Inr (count_where (\<lambda>m. m_conv m = cid \<and> msg_live m) (msgs d), d1\<lparr>msgs := msgs d,
        convs := update_where (\<lambda>c. c_id c = cid \<and> conv_live c)
          (restored_row now (first_by desc_msg_id (\<lambda>m. m_conv m = cid) (msgs d))) (convs d)\<rparr>)"
proof -
  let ?p = "\<lambda>c. c_id c = cid \<and> conv_live c"
  let ?latest = "first_by desc_msg_id (\<lambda>m. m_conv m = cid) (msgs d)"
  have c: "c \<in> set (convs d)" "c_id c = cid" "conv_live c" using conv_get_Inr [OF get] by auto
  note single = update_where_single [OF ids c(1), of ?p]
  have undone: "update_where (\<lambda>c. c_id c = cid \<and> \<not> conv_live c)
      (\<lambda>c. c\<lparr>c_deleted := None, c_updated := now\<rparr>) (convs d1)
    = update_where ?p (\<lambda>c. c\<lparr>c_updated := now\<rparr>) (convs d)" (is "?l = _")
  proof -
    have "?l = update_where ?p ((\<lambda>c. c\<lparr>c_deleted := None, c_updated := now\<rparr>)
        \<circ> (\<lambda>c. c\<lparr>c_deleted := Some t\<rparr>)) (convs d)"
      unfolding d1
    proof (rule update_where_comp)
      fix x assume x: "x \<in> set (convs d)" "\<not> ?p x"
      have "x = c" if "c_id x = cid" using live_only [OF ids get x(1) that] .
      then show "\<not> (c_id x = cid \<and> \<not> conv_live x)" using x(2) c by metis
    qed (simp add: conv_live_def)
    also have "\<dots> = update_where ?p (\<lambda>c. c\<lparr>c_updated := now\<rparr>) (convs d)"
      by (rule single) (use c in \<open>auto simp: conv_live_def\<close>)
    finally show ?thesis .
  qed
  have conv: "conv_restore now cid d1
      = Inr (d1\<lparr>convs := update_where ?p (\<lambda>c. c\<lparr>c_updated := now\<rparr>) (convs d)\<rparr>)"
  proof -
    have "c\<lparr>c_deleted := Some t\<rparr> \<in> set (convs d1)"
      using c unfolding d1 set_update_where by force
    then have "count_where (\<lambda>c. c_id c = cid \<and> \<not> conv_live c) (convs d1) \<noteq> 0"
      using c(2) unfolding count_where_zero
      by (auto simp: conv_live_def intro!: bexI [of _ "c\<lparr>c_deleted := Some t\<rparr>"])
    then show ?thesis by (simp add: conv_restore_def Let_def undone)
  qed
  have msgs: "update_where (\<lambda>m. m_conv m = cid \<and> m_deleted m = Some t) (\<lambda>m. m\<lparr>m_deleted := None\<rparr>) (msgs d1) = msgs d"
  proof -
    have "update_where (\<lambda>m. m_conv m = cid \<and> m_deleted m = Some t) (\<lambda>m. m\<lparr>m_deleted := None\<rparr>) (msgs d1)
      = update_where (\<lambda>m. m_conv m = cid \<and> msg_live m) ((\<lambda>m. m\<lparr>m_deleted := None\<rparr>)
          \<circ> (\<lambda>m. m\<lparr>m_deleted := Some t\<rparr>)) (msgs d)"
      unfolding d1 by (rule update_where_comp) (use fresh in auto)
    also have "\<dots> = msgs d" by (auto simp: update_where_def msg_live_def intro!: map_idI)
    finally show ?thesis .
  qed
  have count: "count_where (\<lambda>m. m_conv m = cid \<and> m_deleted m = Some t) (msgs d1)
      = count_where (\<lambda>m. m_conv m = cid \<and> msg_live m) (msgs d)"
    unfolding d1 by (rule count_where_update) (use fresh in auto)
  have final: "update_where ?p (\<lambda>c. c\<lparr>c_last_msg := m_msg_id m, c_last_at := m_created m, c_updated := now\<rparr>)
      (update_where ?p (\<lambda>c. c\<lparr>c_updated := now\<rparr>) (convs d))
    = update_where ?p (restored_row now (Some m)) (convs d)" for m
  proof -
    have "update_where ?p (\<lambda>c. c\<lparr>c_last_msg := m_msg_id m, c_last_at := m_created m, c_updated := now\<rparr>)
        (update_where ?p (\<lambda>c. c\<lparr>c_updated := now\<rparr>) (convs d))
      = update_where ?p ((\<lambda>c. c\<lparr>c_last_msg := m_msg_id m, c_last_at := m_created m, c_updated := now\<rparr>)
          \<circ> (\<lambda>c. c\<lparr>c_updated := now\<rparr>)) (convs d)"
      by (rule update_where_comp) (auto simp: conv_live_def)
    also have "\<dots> = update_where ?p (restored_row now (Some m)) (convs d)"
      by (rule single) (use c in \<open>auto simp: restored_row_def\<close>)
    finally show ?thesis .
  qed
  have none: "restored_row now None = (\<lambda>c. c\<lparr>c_updated := now\<rparr>)"
    by (auto simp: restored_row_def fun_eq_iff)
  have "restore_conversation_tx now cid t d1
    = Inr (count_where (\<lambda>m. m_conv m = cid \<and> msg_live m) (msgs d), d1\<lparr>msgs := msgs d,
        convs := update_where ?p (restored_row now ?latest) (convs d)\<rparr>)"
    by (cases ?latest)
      (simp_all add: restore_conversation_tx_def conv Let_def msgs count final none)
  then show ?thesis by (simp add: store_transaction_ok)
qed


end
