(* ===== verification/Invariants.thy ===== *)
theory Invariants
  imports Api ConversationProps
begin

text \<open>
  The invariant of the database and its preservation by every method call: keys are unique,
  conversations have two different members, message numbers are unique within their conversation and
  never above its counter, and the numbers of each user's update log are unique.  The part of a row
  that the invariant reads is a \<open>view\<close> of it, so that an operation that keeps the views keeps the
  invariant.
\<close>

definition conv_view :: "conversation \<Rightarrow> string \<times> string \<times> string \<times> u32" where
  "conv_view c = (c_id c, c_user1 c, c_user2 c, c_last_msg c)"

definition msg_view :: "message \<Rightarrow> string \<times> string \<times> string \<times> string \<times> u32" where
  "msg_view m = (m_id m, m_client_id m, m_sender m, m_conv m, m_msg_id m)"

definition convs_ok :: "(string \<times> string \<times> string \<times> u32) list \<Rightarrow> bool" where
  "convs_ok cs \<longleftrightarrow> distinct (map (\<lambda>(i, u, v, n). i) cs) \<and> distinct (map (\<lambda>(i, u, v, n). (u, v)) cs)
     \<and> (\<forall>(i, u, v, n) \<in> set cs. u \<noteq> v)"

definition msgs_ok :: "(string \<times> string \<times> string \<times> string \<times> u32) list \<Rightarrow> bool" where
  "msgs_ok ms \<longleftrightarrow> distinct (map (\<lambda>(i, k, s, c, n). i) ms) \<and> distinct (map (\<lambda>(i, k, s, c, n). (k, s)) ms)
     \<and> distinct (map (\<lambda>(i, k, s, c, n). (c, n)) ms)"

text \<open>Every message belongs to a conversation and is at most its counter.\<close>

definition counted :: "(string \<times> string \<times> string \<times> u32) list
    \<Rightarrow> (string \<times> string \<times> string \<times> string \<times> u32) list \<Rightarrow> bool" where
  "counted cs ms \<longleftrightarrow> (\<forall>(i, k, s, c, n) \<in> set ms. \<exists>(j, u, v, l) \<in> set cs. j = c \<and> n \<le> l)"

definition db_ok :: "db \<Rightarrow> bool" where
  "db_ok d \<longleftrightarrow> convs_ok (map conv_view (convs d)) \<and> msgs_ok (map msg_view (msgs d))
     \<and> counted (map conv_view (convs d)) (map msg_view (msgs d)) \<and> upd_log.numbered d"

lemma convs_ok_iff:
  "convs_ok (map conv_view cs) \<longleftrightarrow> distinct (map c_id cs) \<and> distinct (map (\<lambda>c. (c_user1 c, c_user2 c)) cs)
     \<and> (\<forall>c \<in> set cs. c_user1 c \<noteq> c_user2 c)"
  by (simp add: convs_ok_def conv_view_def comp_def)

lemma msgs_ok_iff:
  "msgs_ok (map msg_view ms) \<longleftrightarrow> distinct (map m_id ms) \<and> distinct (map (\<lambda>m. (m_client_id m, m_sender m)) ms)
     \<and> distinct (map (\<lambda>m. (m_conv m, m_msg_id m)) ms)"
  by (simp add: msgs_ok_def msg_view_def comp_def)

lemma counted_iff:
  "counted (map conv_view cs) (map msg_view ms)
     \<longleftrightarrow> (\<forall>m \<in> set ms. \<exists>c \<in> set cs. c_id c = m_conv m \<and> m_msg_id m \<le> c_last_msg c)"
  by (auto simp: counted_def conv_view_def msg_view_def)

lemma db_ok_facts:
  assumes "db_ok d"
  shows "distinct (map c_id (convs d))" "distinct (map (\<lambda>m. (m_client_id m, m_sender m)) (msgs d))"
    "distinct (map (\<lambda>m. (m_conv m, m_msg_id m)) (msgs d))" "upd_log.numbered d"
    "\<And>c. c \<in> set (convs d) \<Longrightarrow> c_user1 c \<noteq> c_user2 c"
    "\<And>m. m \<in> set (msgs d) \<Longrightarrow> \<exists>c \<in> set (convs d). c_id c = m_conv m \<and> m_msg_id m \<le> c_last_msg c"
  using assms by (auto simp: db_ok_def convs_ok_iff msgs_ok_iff counted_iff)

lemma numbered_upds: "upds d' = upds d \<Longrightarrow> upd_log.numbered d' = upd_log.numbered d"
  by (simp add: upd_log.numbered_def)

text \<open>The frame rule.\<close>

lemma db_ok_frame:
  assumes "db_ok d" "map conv_view (convs d') = map conv_view (convs d)"
    and "map msg_view (msgs d') = map msg_view (msgs d)" "upds d' = upds d"
  shows "db_ok d'"
  using assms by (simp add: db_ok_def numbered_upds [OF assms(4)])

subsection \<open>Appending to the log\<close>

text \<open>There is room for one more entry in every log and for one more message in every conversation.\<close>

definition room :: "db \<Rightarrow> bool" where
  "room d \<longleftrightarrow> (\<forall>c \<in> set (convs d). c_last_msg c \<noteq> - 1) \<and> (\<forall>u \<in> set (upds d). u_seq u \<noteq> - 1)"

lemma room_latest: "room d \<Longrightarrow> upd_latest_seq u d \<noteq> - 1"
proof
  assume r: "room d" and m: "upd_latest_seq u d = - 1"
  then have "max_where (\<lambda>x. u_user x = u) u_seq (upds d) \<noteq> 0" by (simp add: upd_latest_seq_def)
  then obtain x where "x \<in> set (upds d)" "u_seq x = - 1"
    using max_where_in [of "\<lambda>x. u_user x = u" u_seq "upds d"] m by (auto simp: upd_latest_seq_def)
  then show False using r by (auto simp: room_def)
qed

lemma numbered_append_next:
  assumes "upd_log.numbered d" "room d" "distinct (map u_user us)"
    and "\<And>u. u \<in> set us \<Longrightarrow> u_seq u = upd_latest_seq (u_user u) d + 1"
  shows "upd_log.numbered (d\<lparr>upds := upds d @ us\<rparr>)"
proof -
  have "distinct (map (\<lambda>u. (u_user u, u_seq u)) us)"
    using assms(3) by (auto simp: distinct_map inj_on_def)
  moreover have "(u_user x, u_seq x) \<noteq> (u_user u, u_seq u)" if "x \<in> set (upds d)" "u \<in> set us" for x u
    using upd_log.fresh_number [of u d x] assms(4) [OF that(2)] room_latest [OF assms(2)] that(1) by auto
  ultimately show ?thesis
    using assms(1) by (auto simp: upd_log.numbered_def)
qed

lemma db_ok_append:
  assumes "db_ok d" "room d" "distinct (map u_user us)"
    and "\<And>u. u \<in> set us \<Longrightarrow> u_seq u = upd_latest_seq (u_user u) d + 1"
  shows "db_ok (d\<lparr>upds := upds d @ us\<rparr>)"
  using assms numbered_append_next [OF _ assms(2-4)] by (simp add: db_ok_def)

lemma distinct_fanout:
  "distinct members \<Longrightarrow> distinct (map u_user (fanout_updates env now ty pl i members d))"
proof (induction members arbitrary: i)
  case (Cons u us)
  then show ?case
    by (auto simp: db_try_def dest: set_fanout split: option.splits sum.splits)
qed simp

lemma persist_ok:
  assumes "db_ok (sv_db s)" "room (sv_db s)" "distinct members"
  shows "db_ok (sv_db (persist_and_broadcast env k now ty pl members s))"
proof -
  obtain us where us: "sv_db (persist_and_broadcast env k now ty pl members s)
      = (sv_db s)\<lparr>upds := upds (sv_db s) @ us\<rparr>"
    "us = [] \<or> us = fanout_updates env now ty pl 0 members (sv_db s)"
    using persist_and_broadcast_appends [of env k now ty pl members s] by blast
  have "distinct (map u_user us)" using us(2) distinct_fanout [OF assms(3)] by auto
  moreover have "u_seq u = upd_latest_seq (u_user u) (sv_db s) + 1" if "u \<in> set us" for u
    using us(2) that by (auto dest: set_fanout)
  ultimately show ?thesis unfolding us(1) by (rule db_ok_append [OF assms(1,2)])
qed

lemma transaction_append_ok:
  assumes "db_ok d" "room d" "distinct members"
    and "store_transaction t (\<lambda>d. case upd_create (build_updates uuid now ty pl members d) d of
           Inl e \<Rightarrow> Inl e | Inr d' \<Rightarrow> Inr (build_updates uuid now ty pl members d, d')) d = Inr (us, d')"
  shows "db_ok d'"
proof -
  from store_transaction_Inr [OF assms(4)]
  have "upd_create (build_updates uuid now ty pl members d) d = Inr d'" by (auto split: sum.splits)
  then have d': "d' = d\<lparr>upds := upds d @ build_updates uuid now ty pl members d\<rparr>" by (rule upd_create_Inr)
  show ?thesis unfolding d'
    by (rule db_ok_append [OF assms(1,2)]) (use assms(3) in \<open>auto dest: set_build_updates\<close>)
qed

lemma broadcast_members_ok:
  assumes "db_ok (sv_db s)" "room (sv_db s)" "distinct members"
  shows "db_ok (sv_db (snd (broadcastConversationUpdateToMembers env t k now cid members action s)))"
  using assms(1)
  by (auto simp: broadcastConversationUpdateToMembers_def Let_def simp del: UpdateTypeConversation_def
      split: sum.split dest: transaction_append_ok [OF assms])

subsection \<open>Each handler keeps the invariant\<close>

lemma members_distinct:
  assumes "db_ok d" "c \<in> set (convs d)"
  shows "distinct (conversationMembers c)"
  using db_ok_facts(5) [OF assms] by (rule distinct_conversationMembers)

lemma conv_get_in: "conv_get cid d = Inr c \<Longrightarrow> c \<in> set (convs d)"
  by (drule conv_get_Inr) simp

lemma views_update:
  "(\<And>c. p c \<Longrightarrow> conv_view (f c) = conv_view c) \<Longrightarrow> map conv_view (update_where p f cs) = map conv_view cs"
  by (rule map_update_where)

lemma msg_views_update:
  "(\<And>m. p m \<Longrightarrow> msg_view (f m) = msg_view m) \<Longrightarrow> map msg_view (update_where p f ms) = map msg_view ms"
  by (rule map_update_where)

lemma room_frame:
  assumes "room d" "map conv_view (convs d') = map conv_view (convs d)" "upds d' = upds d"
  shows "room d'"
proof -
  have "c_last_msg ` set (convs d') = c_last_msg ` set (convs d)"
  proof -
    have "map c_last_msg cs = map (\<lambda>(i, u, v, n). n) (map conv_view cs)" for cs
      by (simp add: conv_view_def comp_def)
    then show ?thesis using assms(2) by (metis set_map)
  qed
  then show ?thesis using assms(1,3) unfolding room_def by (metis (no_types, lifting) imageE image_eqI)
qed

lemma send_keeps:
  assumes ok: "db_ok d" and room: "room d"
    and members: "distinct members"
    and send: "store_send_message t uuid now msg0 members d = Inr ((msg, us), d')"
  shows "db_ok d'"
proof -
  from send have "send_message_tx uuid now msg0 members d = Inr ((msg, us), d')"
    by (auto simp: store_send_message_def dest: store_transaction_Inr split: if_splits)
  then obtain conv where c: "conv_get (m_conv msg0) d = Inr conv"
    and m: "msg = msg_defaults now (msg0\<lparr>m_msg_id := c_last_msg conv + 1\<rparr>)"
    and us: "us = build_updates uuid now UpdateTypeMessage
           (PMessage (msg0\<lparr>m_msg_id := c_last_msg conv + 1\<rparr>)) members d"
    and nc: "\<not> list_ex (msg_conflict msg0) (msgs d)"
    and d': "d' = d\<lparr>msgs := msgs d @ [msg], upds := upds d @ us,
                convs := update_where (\<lambda>c. c_id c = m_conv msg0 \<and> conv_live c)
                  (\<lambda>c. c\<lparr>c_last_at := m_created msg0, c_last_msg := c_last_msg conv + 1,
                        c_updated := now\<rparr>) (convs d)\<rparr>"
    by (rule send_message_tx_Inr)
  have conv: "conv \<in> set (convs d)" "c_id conv = m_conv msg0" "conv_live conv"
    using conv_get_Inr [OF c] by auto
  have below: "n \<le> c_last_msg conv" if "x \<in> set (msgs d)" "m_conv x = m_conv msg0" "n = m_msg_id x" for x n
  proof -
    note x = that
    have "\<exists>c \<in> set (convs d). c_id c = m_conv x \<and> m_msg_id x \<le> c_last_msg c"
      by (rule db_ok_facts(6) [OF ok x(1)])
    then obtain c' where "c' \<in> set (convs d)" "c_id c' = m_conv x" "m_msg_id x \<le> c_last_msg c'" by blast
    moreover then have "c' = conv"
      using distinct_map_unique [OF db_ok_facts(1) [OF ok] _ conv(1), of c'] x(2) conv(2) by simp
    ultimately show ?thesis using x(3) by simp
  qed
  have lt: "c_last_msg conv < c_last_msg conv + 1"
    using room conv(1) by (intro word_succ_gt) (auto simp: room_def)
  have mf: "m_id msg = m_id msg0" "m_client_id msg = m_client_id msg0" "m_sender msg = m_sender msg0"
    "m_conv msg = m_conv msg0" "m_msg_id msg = c_last_msg conv + 1"
    by (simp_all add: m msg_defaults_def)
  have convs': "convs_ok (map conv_view (convs d'))"
  proof -
    have "map c_id (convs d') = map c_id (convs d)"
      "map (\<lambda>c. (c_user1 c, c_user2 c)) (convs d') = map (\<lambda>c. (c_user1 c, c_user2 c)) (convs d)"
      by (simp_all add: d' map_update_where)
    moreover have "c_user1 x \<noteq> c_user2 x" if "x \<in> set (convs d')" for x
      using that db_ok_facts(5) [OF ok] by (auto simp: d' set_update_where split: if_splits)
    ultimately show ?thesis using ok by (simp add: db_ok_def convs_ok_iff)
  qed
  have "\<forall>x \<in> set (msgs d). m_id x \<noteq> m_id msg
      \<and> (m_client_id x, m_sender x) \<noteq> (m_client_id msg, m_sender msg)
      \<and> (m_conv x, m_msg_id x) \<noteq> (m_conv msg, m_msg_id msg)"
    using nc below lt by (fastforce simp: list_ex_iff msg_conflict_def mf)
  then have msgs': "msgs_ok (map msg_view (msgs d'))"
    using ok unfolding db_ok_def msgs_ok_iff by (auto simp: d')
  have counted': "counted (map conv_view (convs d')) (map msg_view (msgs d'))"
    unfolding counted_iff
  proof
    fix x assume x: "x \<in> set (msgs d')"
    let ?conv' = "conv\<lparr>c_last_at := m_created msg0, c_last_msg := c_last_msg conv + 1, c_updated := now\<rparr>"
    have conv': "?conv' \<in> set (convs d')" using conv by (auto simp: d' set_update_where)
    show "\<exists>c \<in> set (convs d'). c_id c = m_conv x \<and> m_msg_id x \<le> c_last_msg c"
    proof (cases "m_conv x = m_conv msg0")
      case True
      then have "m_msg_id x \<le> c_last_msg conv + 1"
        using x below [of x] lt by (auto simp: d' mf)
      then show ?thesis using True conv' conv(2) by (intro bexI [of _ ?conv']) auto
    next
      case False
      then have "x \<in> set (msgs d)" using x mf by (auto simp: d')
      then obtain c' where c': "c' \<in> set (convs d)" "c_id c' = m_conv x" "m_msg_id x \<le> c_last_msg c'"
        using db_ok_facts(6) [OF ok] by blast
      then have "c' \<in> set (convs d')" using False unfolding d' by (simp add: set_update_where) (metis conv(2))
      then show ?thesis using c' by blast
    qed
  qed
  have "upd_log.numbered (d\<lparr>upds := upds d @ us\<rparr>)"
    by (rule numbered_append_next [OF db_ok_facts(4) [OF ok] room]) (use members us in \<open>auto dest: set_build_updates\<close>)
  then have "upd_log.numbered d'" by (simp add: upd_log.numbered_def d')
  with convs' msgs' counted' show ?thesis by (simp add: db_ok_def)
qed

lemma trigger_db [simp]: "sv_db (trigger_agent reg env cl conv mid s) = sv_db s"
  by (simp add: trigger_agent_def Let_def split: option.split)

lemma get_conversation_in:
  "get_conversation_or_error env call cid d = Inr c \<Longrightarrow> c \<in> set (convs d) \<and> conv_get cid d = Inr c"
  by (auto simp: get_conversation_or_error_Inr dest: conv_get_Inr)

lemma send_message_ok:
  assumes "db_ok (sv_db s)" "room (sv_db s)"
  shows "db_ok (sv_db (snd (send_message reg env cl p s)))"
  using assms
  by (auto simp: send_message_def Let_def split: option.split sum.split prod.split
      dest!: get_conversation_in intro: send_keeps members_distinct)

lemma db_try_Inr: "db_try env call x = Inr y \<Longrightarrow> x = Inr y"
  by (auto simp: db_try_def split: option.splits)

lemma delete_message_ok:
  assumes "db_ok (sv_db s)" "room (sv_db s)"
  shows "db_ok (sv_db (snd (delete_message env cl p s)))"
proof -
  have "db_ok (sv_db (persist_and_broadcast env k now ty pl (conversationMembers c) (set_db d s)))"
    if "msg_delete t mid (sv_db s) = Inr d" "get_conversation_or_error env call cid (sv_db s) = Inr c"
    for k now ty pl c d t mid call cid
  proof -
    have d: "convs d = convs (sv_db s)" "upds d = upds (sv_db s)"
      "map msg_view (msgs d) = map msg_view (msgs (sv_db s))"
      using that(1) by (auto simp: msg_delete_def Let_def msg_view_def map_update_where split: if_splits)
    have "db_ok d" "room d"
      using d by (auto intro: db_ok_frame [OF assms(1)] room_frame [OF assms(2)])
    moreover have "distinct (conversationMembers c)"
      using get_conversation_in [OF that(2)] members_distinct [OF assms(1)] by blast
    ultimately show ?thesis by (intro persist_ok) simp_all
  qed
  then show ?thesis
    using assms(1) by (auto simp: delete_message_def Let_def dest!: db_try_Inr
        split: option.split sum.split store_error.split)
qed

lemma mark_read_update_db_ok:
  assumes "db_ok (sv_db s)" "room (sv_db s)"
  shows "db_ok (sv_db (mark_read_update env uid pl s))"
proof -
  have "db_ok d" if "upd_create [u] (sv_db s) = Inr d" "u_user u = uid"
    "u_seq u = upd_latest_seq uid (sv_db s) + 1" for u d
    unfolding upd_create_Inr [OF that(1)]
    by (rule db_ok_append [OF assms]) (use that in auto)
  then show ?thesis
    using assms(1) by (auto simp: mark_read_update_def Let_def dest!: db_try_Inr split: sum.split)
qed

lemma last_read_views:
  assumes "conv_update_last_read now cid uid mid d = Inr d'"
  shows "map conv_view (convs d') = map conv_view (convs d) \<and> msgs d' = msgs d \<and> upds d' = upds d"
  using assms
  by (auto simp: conv_update_last_read_def conv_view_def map_update_where split: sum.splits if_splits)

lemma mark_as_read_ok:
  assumes "db_ok (sv_db s)" "room (sv_db s)"
  shows "db_ok (sv_db (snd (mark_as_read env cl p s)))"
proof -
  have "db_ok d \<and> room d" if "conv_update_last_read now cid uid mid (sv_db s) = Inr d" for now cid uid mid d
    using last_read_views [OF that] db_ok_frame [OF assms(1)] room_frame [OF assms(2)] by auto
  then show ?thesis
    using assms(1) by (auto simp: mark_as_read_def Let_def dest!: db_try_Inr
        intro!: mark_read_update_db_ok split: option.split sum.split)
qed

lemma create_ok:
  assumes "db_ok d" "conv_create now c d = Inr (c', d')" "c_user1 c \<noteq> c_user2 c"
  shows "db_ok d'"
proof -
  from assms(2) have nc: "\<not> list_ex (conv_conflict c) (convs d)" and c': "c' = conv_defaults now c"
    and d': "d' = d\<lparr>convs := convs d @ [c']\<rparr>"
    by (auto simp: conv_create_def Let_def split: if_splits)
  have new: "\<forall>x \<in> set (convs d). c_id x \<noteq> c_id c' \<and> (c_user1 x, c_user2 x) \<noteq> (c_user1 c', c_user2 c')"
    using nc by (auto simp: list_ex_iff conv_conflict_def c')
  have convs': "convs d' = convs d @ [c']" "msgs d' = msgs d" "upds d' = upds d" by (simp_all add: d')
  have ne: "c_user1 c' \<noteq> c_user2 c'" using assms(3) by (simp add: c')
  have "convs_ok (map conv_view (convs d'))"
  proof -
    have "c_id c' \<notin> c_id ` set (convs d)" using new by (metis imageE)
    moreover have "(c_user1 c', c_user2 c') \<notin> (\<lambda>c. (c_user1 c, c_user2 c)) ` set (convs d)"
      using new by (metis (no_types, lifting) imageE)
    moreover have "distinct (map c_id (convs d))" "distinct (map (\<lambda>c. (c_user1 c, c_user2 c)) (convs d))"
      "\<forall>c \<in> set (convs d). c_user1 c \<noteq> c_user2 c"
      using assms(1) by (simp_all add: db_ok_def convs_ok_iff)
    ultimately show ?thesis using ne unfolding convs_ok_iff convs' by simp
  qed
  moreover have "counted (map conv_view (convs d')) (map msg_view (msgs d'))"
    unfolding counted_iff convs'
  proof
    fix m assume "m \<in> set (msgs d)"
    from db_ok_facts(6) [OF assms(1) this]
    obtain c where c: "c \<in> set (convs d)" "c_id c = m_conv m \<and> m_msg_id m \<le> c_last_msg c" by blast
    show "\<exists>c \<in> set (convs d @ [c']). c_id c = m_conv m \<and> m_msg_id m \<le> c_last_msg c"
      by (rule bexI [of _ c]) (use c in simp_all)
  qed
  ultimately show ?thesis
    using assms(1) numbered_upds [OF convs'(3)] by (simp add: db_ok_def convs'(2))
qed

lemma announce_ok:
  assumes "db_ok (sv_db s)" "room (sv_db s)" "c_user1 c \<noteq> c_user2 c"
  shows "db_ok (sv_db (announce_conversation env c s))"
proof -
  have "distinct [c_user1 c, c_user2 c]" using assms(3) by simp
  from transaction_append_ok [OF assms(1,2) this]
  show ?thesis
    using assms(1) by (auto simp: announce_conversation_def Let_def simp del: UpdateTypeConversation_def
        split: sum.split)
qed

lemma create_conversation_ok:
  assumes "db_ok (sv_db s)" "room (sv_db s)"
  shows "db_ok (sv_db (snd (create_conversation env cl p s)))"
proof -
  have "db_ok (sv_db (announce_conversation env c (set_db d s)))"
    if "conv_create now (new_conversation env (cl_user cl) q) (sv_db s) = Inr (c, d)"
      "cc_user_id q \<noteq> cl_user cl" for now q c d
  proof -
    let ?new = "new_conversation env (cl_user cl) q"
    have ne: "c_user1 ?new \<noteq> c_user2 ?new"
      using that(2) by (auto simp: new_conversation_def Let_def)
    have d: "c = conv_defaults now ?new" "d = (sv_db s)\<lparr>convs := convs (sv_db s) @ [c]\<rparr>"
      using that(1) by (auto simp: conv_create_def Let_def split: if_splits)
    have "c_last_msg c = 0" by (simp add: d(1) conv_defaults_def new_conversation_def Let_def)
    then have "room d" using assms(2) by (auto simp: room_def d(2))
    moreover have "db_ok d" by (rule create_ok [OF assms(1) that(1) ne])
    moreover have "c_user1 c \<noteq> c_user2 c" using ne by (simp add: d(1))
    ultimately show ?thesis by (intro announce_ok) simp_all
  qed
  then show ?thesis
    using assms(1) by (auto simp: create_conversation_def dest!: db_try_Inr
        split: option.split sum.split prod.split)
qed

lemma first_by_least:
  assumes "first_by k p xs = Some x" "y \<in> set xs" "p y"
  shows "k x \<le> k y"
proof -
  obtain zs where z: "select_asc k p xs = x # zs"
    using assms(1) by (auto simp: first_by_def split: list.splits)
  have "y \<in> set (x # zs)" using assms(2,3) unfolding z [symmetric] by simp
  moreover have "sorted (map k (x # zs))" unfolding z [symmetric] by (rule sorted_select_asc)
  ultimately show ?thesis by auto
qed

lemma transaction_keeps:
  assumes "store_transaction t f d = Inr (r, d')" "\<And>r d'. f d = Inr (r, d') \<Longrightarrow> P d'"
  shows "P d'"
  using assms store_transaction_Inr by blast

lemma delete_conversation_ok:
  assumes "db_ok (sv_db s)" "room (sv_db s)"
  shows "db_ok (sv_db (snd (delete_conversation env cl p s)))"
proof -
  have tx: "db_ok d \<and> room d" if "delete_conversation_tx now cid (sv_db s) = Inr (n, d)" for now cid n d
  proof -
    have "map conv_view (convs d) = map conv_view (convs (sv_db s))" "upds d = upds (sv_db s)"
      "map msg_view (msgs d) = map msg_view (msgs (sv_db s))"
      using that by (auto simp: delete_conversation_tx_def conv_delete_def msg_delete_by_conversation_def
          Let_def conv_view_def msg_view_def map_update_where split: if_splits)
    then show ?thesis by (auto intro: db_ok_frame [OF assms(1)] room_frame [OF assms(2)])
  qed
  have "db_ok (sv_db (persist_and_broadcast env k now ty pl (conversationMembers c) (set_db d s)))"
    if "store_transaction t (delete_conversation_tx now' cid) (sv_db s) = Inr (n, d)"
      "get_conversation_or_error env call cid (sv_db s) = Inr c" for k now ty pl c d t now' cid n call
  proof -
    have "db_ok d \<and> room d" by (rule transaction_keeps [OF that(1)]) (rule tx)
    moreover have "distinct (conversationMembers c)"
      using get_conversation_in [OF that(2)] members_distinct [OF assms(1)] by blast
    ultimately show ?thesis by (intro persist_ok) simp_all
  qed
  then show ?thesis
    using assms(1) by (auto simp: delete_conversation_def Let_def split: option.split sum.split store_error.split)
qed

text \<open>Taking the counter from the latest message keeps it above all of them.\<close>

lemma reset_counter_ok:
  assumes ok: "db_ok d" and room: "room d" and conv: "convs d' = update_where (\<lambda>c. c_id c = cid \<and> conv_live c)
      (\<lambda>c. c\<lparr>c_last_msg := m_msg_id latest, c_last_at := m_created latest, c_updated := now\<rparr>) (convs d)"
    and latest: "first_by desc_msg_id (\<lambda>m. m_conv m = cid) (msgs d) = Some latest"
    and rest: "msgs d' = msgs d" "upds d' = upds d"
  shows "db_ok d' \<and> room d'"
proof -
  let ?p = "\<lambda>c. c_id c = cid \<and> conv_live c"
  let ?f = "\<lambda>c. c\<lparr>c_last_msg := m_msg_id latest, c_last_at := m_created latest, c_updated := now\<rparr>"
  have l: "latest \<in> set (msgs d)" "m_conv latest = cid" using first_by_SomeD [OF latest] by auto
  have top: "m_msg_id m \<le> m_msg_id latest" if "m \<in> set (msgs d)" "m_conv m = cid" for m
    using first_by_least [OF latest that(1)] that(2) by (simp add: desc_msg_id_def word_le_def)
  obtain c0 where c0: "c0 \<in> set (convs d)" "c_id c0 = cid" "m_msg_id latest \<le> c_last_msg c0"
    using db_ok_facts(6) [OF ok l(1)] l(2) by blast
  have "c_last_msg c0 \<noteq> - 1" using room c0(1) by (auto simp: room_def)
  then have not_max: "m_msg_id latest \<noteq> - 1" using c0(3) by (auto simp: word_order.extremum_uniqueI)
  have rows: "y \<in> set (convs d') \<Longrightarrow> \<exists>x \<in> set (convs d). y = (if ?p x then ?f x else x)" for y
    by (simp add: conv set_update_where)
  have "room d'"
    unfolding room_def
  proof (intro conjI ballI)
    fix y assume "y \<in> set (convs d')"
    from rows [OF this] obtain x where "x \<in> set (convs d)" "y = (if ?p x then ?f x else x)" by blast
    then show "c_last_msg y \<noteq> - 1" using room not_max by (auto simp: room_def split: if_splits)
  qed (use room rest in \<open>simp add: room_def\<close>)
  moreover have "convs_ok (map conv_view (convs d'))"
  proof -
    have "map c_id (convs d') = map c_id (convs d)"
      "map (\<lambda>c. (c_user1 c, c_user2 c)) (convs d') = map (\<lambda>c. (c_user1 c, c_user2 c)) (convs d)"
      by (simp_all add: conv map_update_where)
    moreover have "c_user1 y \<noteq> c_user2 y" if "y \<in> set (convs d')" for y
      using rows [OF that] db_ok_facts(5) [OF ok] by (auto split: if_splits)
    ultimately show ?thesis using ok by (simp add: db_ok_def convs_ok_iff)
  qed
  moreover have "counted (map conv_view (convs d')) (map msg_view (msgs d'))"
    unfolding counted_iff rest(1)
  proof
    fix m assume m: "m \<in> set (msgs d)"
    obtain c where c: "c \<in> set (convs d)" "c_id c = m_conv m" "m_msg_id m \<le> c_last_msg c"
      using db_ok_facts(6) [OF ok m] by blast
    have "(if ?p c then ?f c else c) \<in> set (convs d')" using c(1) unfolding conv set_update_where by blast
    moreover have "m_msg_id m \<le> m_msg_id latest" if "?p c" using top [OF m] that c(2) by simp
    ultimately show "\<exists>c \<in> set (convs d'). c_id c = m_conv m \<and> m_msg_id m \<le> c_last_msg c"
      using c(2,3) by (intro bexI [of _ "if ?p c then ?f c else c"]) auto
  qed
  ultimately show ?thesis
    using ok numbered_upds [OF rest(2)] rest(1) by (simp add: db_ok_def)
qed

lemma restore_tx_ok:
  assumes "db_ok d" "room d" "restore_conversation_tx now cid t d = Inr (n, d')"
  shows "db_ok d' \<and> room d'"
proof -
  from assms(3) obtain d1 where d1: "conv_restore now cid d = Inr d1"
    by (auto simp: restore_conversation_tx_def split: sum.splits)
  define d2 where "d2 = d1\<lparr>msgs := update_where (\<lambda>m. m_conv m = cid \<and> m_deleted m = Some t)
    (\<lambda>m. m\<lparr>m_deleted := None\<rparr>) (msgs d1)\<rparr>"
  have "map conv_view (convs d2) = map conv_view (convs d)" "upds d2 = upds d"
      "map msg_view (msgs d2) = map msg_view (msgs d)"
    using d1 by (auto simp: d2_def conv_restore_def Let_def conv_view_def msg_view_def map_update_where
        split: if_splits)
  then have ok2: "db_ok d2" "room d2"
    by (auto intro: db_ok_frame [OF assms(1)] room_frame [OF assms(2)])
  show ?thesis
  proof (cases "first_by desc_msg_id (\<lambda>m. m_conv m = cid) (msgs d2)")
    case None
    then have "d' = d2" using assms(3) by (simp add: restore_conversation_tx_def d1 Let_def d2_def)
    with ok2 show ?thesis by simp
  next
    case (Some latest)
    then have "d' = d2\<lparr>convs := update_where (\<lambda>c. c_id c = cid \<and> conv_live c)
      (\<lambda>c. c\<lparr>c_last_msg := m_msg_id latest, c_last_at := m_created latest, c_updated := now\<rparr>) (convs d2)\<rparr>"
      using assms(3) by (simp add: restore_conversation_tx_def d1 Let_def d2_def)
    then show ?thesis by (intro reset_counter_ok [OF ok2 _ Some]) simp_all
  qed
qed

lemma restore_conversation_ok:
  assumes "db_ok (sv_db s)" "room (sv_db s)"
  shows "db_ok (sv_db (snd (restore_conversation env cl p s)))"
proof -
  have "db_ok (sv_db (persist_and_broadcast env k now ty pl (conversationMembers c) (set_db d s)))"
    if "store_transaction t (restore_conversation_tx now' cid at) (sv_db s) = Inr (n, d)"
      "db_try env call (conv_get_unscoped cid (sv_db s)) = Inr c" for k now ty pl c d t now' cid at n call
  proof -
    have "db_ok d \<and> room d" by (rule transaction_keeps [OF that(1)]) (rule restore_tx_ok [OF assms])
    moreover have "c \<in> set (convs (sv_db s))"
      using conv_get_unscoped_Inr [OF db_try_Inr [OF that(2)]] by simp
    then have "distinct (conversationMembers c)" by (rule members_distinct [OF assms(1)])
    ultimately show ?thesis by (intro persist_ok) simp_all
  qed
  then show ?thesis
    using assms(1) by (auto simp: restore_conversation_def Let_def
        split: option.split sum.split store_error.split)
qed

text \<open>Changing remote callings touches nothing the invariant reads.\<close>

lemma rcs_frame:
  assumes "db_ok d" "room d" "convs d' = convs d" "msgs d' = msgs d" "upds d' = upds d"
  shows "db_ok d' \<and> room d'"
  using assms by (auto intro: db_ok_frame room_frame)

lemma resume_broadcast_ok:
  assumes "db_ok (sv_db s)" "room (sv_db s)"
  shows "db_ok (sv_db (resume_broadcast env rc s))"
  using assms
  by (auto simp: resume_broadcast_def dest!: db_try_Inr conv_get_in intro!: broadcast_members_ok
      members_distinct split: sum.split)

definition same_rest :: "db \<Rightarrow> db \<Rightarrow> bool" where
  "same_rest d d' \<longleftrightarrow> convs d' = convs d \<and> msgs d' = msgs d \<and> upds d' = upds d"

lemma same_rest_rcs [simp]: "same_rest d (d\<lparr>rcs := x\<rparr>)"
  by (simp add: same_rest_def)

lemma same_rest_ok: "same_rest d d' \<Longrightarrow> db_ok d \<Longrightarrow> room d \<Longrightarrow> db_ok d' \<and> room d'"
  by (rule rcs_frame) (simp_all add: same_rest_def)

lemma same_rest_trans: "same_rest d e \<Longrightarrow> same_rest e f \<Longrightarrow> same_rest d f"
  by (simp add: same_rest_def)

lemma same_rest_mark_expired: "rc_mark_expired i d = Inr d' \<Longrightarrow> same_rest d d'"
  by (auto simp: rc_mark_expired_def Let_def split: if_splits option.splits)

lemma same_rest_resolve: "resume_resolve env p r d = Inr d' \<Longrightarrow> same_rest d d'"
  unfolding resume_resolve_def
  by (drule db_try_Inr) (auto simp: rc_resolve_result_def rc_resolve_error_def Let_def split: if_splits)

lemma same_rest_expire: "same_rest d (snd (rc_mark_expired_by_checkpoint cp now d))"
  by (simp add: rc_mark_expired_by_checkpoint_def Let_def)

lemma same_rest_cancel: "rc_cancel_by_checkpoint now cp reason by d = (r, d') \<Longrightarrow> same_rest d d'"
  by (auto simp: rc_cancel_by_checkpoint_def Let_def same_rest_def split: option.splits)

definition fine :: "srv \<Rightarrow> bool" where
  "fine s \<longleftrightarrow> db_ok (sv_db s) \<and> room (sv_db s)"

lemma fine_set_db: "same_rest (sv_db s) d \<Longrightarrow> fine s \<Longrightarrow> fine (set_db d s)"
  using same_rest_ok by (simp add: fine_def)

lemma fine_enqueue: "enqueue env k t s = (b, s') \<Longrightarrow> fine s \<Longrightarrow> fine s'"
  by (auto simp: fine_def enqueue_def split: if_splits)

lemma fine_db_ok: "fine s \<Longrightarrow> db_ok (sv_db s)"
  by (simp add: fine_def)

lemma resume_broadcast_fine: "fine s \<Longrightarrow> db_ok (sv_db (resume_broadcast env rc s))"
  by (simp add: fine_def resume_broadcast_ok)

lemma fine_expired:
  assumes "fine s" "resume_resolve env p rc (sv_db s) = Inr d1"
  shows "fine (set_db (case db_try env call (Inr (rc_mark_expired_by_checkpoint cp now d1)) of
      Inl e \<Rightarrow> d1 | Inr (n, d) \<Rightarrow> d) s)"
proof (rule fine_set_db [OF _ assms(1)])
  have "same_rest (sv_db s) d1" by (rule same_rest_resolve [OF assms(2)])
  then show "same_rest (sv_db s) (case db_try env call (Inr (rc_mark_expired_by_checkpoint cp now d1)) of
      Inl e \<Rightarrow> d1 | Inr (n, d) \<Rightarrow> d)"
    using same_rest_expire [of d1 cp now]
    by (auto dest!: db_try_Inr intro: same_rest_trans split: sum.split prod.split)
qed

lemma resume_finish_ok:
  assumes "fine s" "resume_resolve env p rc (sv_db s) = Inr d1"
  shows "db_ok (sv_db (snd (resume_finish env cl rc d1 s)))"
proof -
  define s2 where "s2 = set_db (case db_try env CallMarkExpiredByCheckpoint
    (Inr (rc_mark_expired_by_checkpoint (rc_checkpoint rc) (e_now env 2) d1)) of
      Inl e \<Rightarrow> d1 | Inr (n, d) \<Rightarrow> d) s"
  have "fine s2" unfolding s2_def by (rule fine_expired [OF assms])
  then show ?thesis
    unfolding resume_finish_def Let_def s2_def [symmetric]
    by (auto intro: fine_db_ok resume_broadcast_fine fine_enqueue split: sum.split prod.split)
qed

lemma agent_resume_ok:
  assumes "fine s"
  shows "db_ok (sv_db (snd (agent_resume env cl p s)))"
  using resume_finish_ok [OF assms] fine_db_ok [OF assms]
    fine_db_ok [OF fine_set_db [OF same_rest_mark_expired assms]]
  unfolding agent_resume_def
  by (auto simp del: sv_db_set dest!: db_try_Inr split: option.split sum.split store_error.split)

lemma cancel_ok:
  assumes "fine s"
  shows "db_ok (sv_db (snd (cancel_remote_calls env cl p s)))"
proof -
  have b: "db_ok (sv_db (snd (broadcastConversationUpdateToMembers env t k now cid (conversationMembers c)
      action (set_db d s))))"
    if "rc_cancel_by_checkpoint now' cp reason by (sv_db s) = (r, d)" "conv_get cid' (sv_db s) = Inr c"
    for t k now cid c action d now' cp reason "by" r cid'
  proof -
    have "fine (set_db d s)" by (rule fine_set_db [OF same_rest_cancel [OF that(1)] assms])
    moreover have "distinct (conversationMembers c)"
      using members_distinct [OF fine_db_ok [OF assms] conv_get_in [OF that(2)]] .
    ultimately show ?thesis by (intro broadcast_members_ok) (simp_all add: fine_def)
  qed
  have e: "db_ok (sv_db s') \<Longrightarrow> enqueue env k t s' = (q, s2) \<Longrightarrow> db_ok (sv_db s2)" for s' k t q s2
    by (auto simp: enqueue_def split: if_splits)
  show ?thesis
    using fine_db_ok [OF assms] unfolding cancel_remote_calls_def
    by (auto simp: Let_def dest!: db_try_Inr dest: b intro: e
        split: option.split sum.split store_error.split list.split prod.split)
qed

subsection \<open>Every method call keeps the invariant\<close>

lemma reads_change_nothing [simp]:
  "snd (get_messages env cl p1 s) = s" "snd (search_messages eqc env cl p2 s) = s"
  "snd (list_conversations env cl p3 s) = s" "snd (get_conversation env cl p4 s) = s"
  "snd (get_remote_callings env cl p4 s) = s"
  by (auto simp: get_messages_def search_messages_def list_conversations_def get_conversation_def
      get_remote_callings_def Let_def split: option.split sum.split prod.split store_error.split)

lemma lift_srv: "lift f x a = Some (r, a') \<Longrightarrow> st_srv a' = snd x"
  by (auto simp: lift_def)

lemma call_method_ok:
  assumes "fine (st_srv a)" "call_method dp env cl req a = Some (r, a')"
  shows "db_ok (sv_db (st_srv a'))"
proof -
  note ok = send_message_ok delete_message_ok mark_as_read_ok create_conversation_ok
    delete_conversation_ok restore_conversation_ok
  have f: "db_ok (sv_db (st_srv a))" "room (sv_db (st_srv a))" using assms(1) by (simp_all add: fine_def)
  show ?thesis
  proof (cases req)
    case (ReqAgentResume p)
    then show ?thesis
      using assms(2) agent_resume_ok [OF assms(1), of env cl p]
      by (cases "agent_resume env cl p (st_srv a)") (auto simp: call_method_def Let_def)
  next
    case ReqReloadAgents
    then show ?thesis
      using assms(2) f by (auto simp: call_method_def Let_def split: prod.splits)
  next
    case (ReqCancelRemoteCalls p)
    then show ?thesis
      using assms(2) cancel_ok [OF assms(1), of env cl p]
      by (auto simp: call_method_def Let_def dest!: lift_srv)
  qed (use assms(2) f in \<open>auto simp: call_method_def Let_def ok dest!: lift_srv split: option.splits\<close>)
qed

text \<open>
  The steps of a running server: a method call, whatever its environment does to it, while no counter
  has reached its maximum, and a tick of the update cleaner.
\<close>

inductive server_step :: "deps \<Rightarrow> api_state \<Rightarrow> api_state \<Rightarrow> bool" for dp where
  call: "room (sv_db (st_srv a)) \<Longrightarrow> call_method dp env cl req a = Some (r, a') \<Longrightarrow> server_step dp a a'"
| clean: "cleaner_run_once fault now (sv_db (st_srv a)) = (l, d) \<Longrightarrow>
    server_step dp a (a\<lparr>st_srv := set_db d (st_srv a)\<rparr>)"

inductive_cases server_stepE: "server_step dp a a'"

lemma numbered_filter: "upd_log.numbered d \<Longrightarrow> upd_log.numbered (d\<lparr>upds := filter p (upds d)\<rparr>)"
  by (simp add: upd_log.numbered_def distinct_map_filter)

lemma cleaner_ok: "cleaner_run_once fault now d = (l, d') \<Longrightarrow> db_ok d \<Longrightarrow> db_ok d'"
  by (auto simp: cleaner_run_once_def upd_cleanup_expired_def upd_cleanup_expired_before_def db_ok_def
      numbered_filter split: option.splits)

lemma server_step_ok: "server_step dp a a' \<Longrightarrow> db_ok (sv_db (st_srv a)) \<Longrightarrow> db_ok (sv_db (st_srv a'))"
  by (induction rule: server_step.induct) (auto intro: call_method_ok cleaner_ok simp: fine_def)

lemma server_run_ok: "(server_step dp)\<^sup>*\<^sup>* a a' \<Longrightarrow> db_ok (sv_db (st_srv a)) \<Longrightarrow> db_ok (sv_db (st_srv a'))"
  by (induction rule: rtranclp_induct) (auto intro: server_step_ok)

definition empty_db :: db where
  "empty_db = \<lparr>convs = [], msgs = [], upds = [], rcs = []\<rparr>"

definition start_state :: "registry option \<Rightarrow> api_state" where
  "start_state reg = \<lparr>st_srv = \<lparr>sv_db = empty_db, sv_queue = []\<rparr>, st_agents = reg\<rparr>"

lemma empty_db_ok [simp]: "db_ok empty_db"
  by (simp add: db_ok_def empty_db_def convs_ok_def msgs_ok_def counted_def upd_log.numbered_def)


subsection \<open>The dispatcher\<close>


end
