(* ===== verification/AgentProps.thy ===== *)
theory AgentProps
  imports AgentHandlers ConversationProps
begin

text \<open>
  What the remote-calling handlers do: an answer settles exactly one call and resumes the agent exactly
  when it was the last one, a repeated answer changes nothing, cancelling settles every pending call
  of a checkpoint, and an answer that comes too late strands the checkpoint.
\<close>

lemma count_where_update_eq:
  "count_where q (update_where p f xs) = count_where (\<lambda>x. q (if p x then f x else x)) xs"
  by (induction xs) auto

lemma count_where_cong:
  "(\<And>x. x \<in> set xs \<Longrightarrow> p x = q x) \<Longrightarrow> count_where p xs = count_where q xs"
  by (induction xs) auto

lemma rc_get_by_id_ok:
  assumes "distinct (map rc_id (rcs d))" "r \<in> set (rcs d)"
  shows "rc_get_by_id (rc_id r) d = Inr r"
proof -
  have "first_by rc_id (\<lambda>x. rc_id x = rc_id r) (rcs d) = Some r"
    by (rule first_by_key [OF assms]) auto
  then show ?thesis by (simp add: rc_get_by_id_def)
qed

definition rc_open :: "remote_calling \<Rightarrow> bool" where
  "rc_open r \<longleftrightarrow> rc_stat r = RcPending \<and> rc_live r"

text \<open>The row of an answered call.\<close>

definition rc_answered :: "time \<Rightarrow> agentResumeParams \<Rightarrow> remote_calling \<Rightarrow> remote_calling" where
  "rc_answered now p r =
     (if rs_success p
      then r\<lparr>rc_stat := RcResolved, rc_result := rs_result p, rc_success := True, rc_resolved_at := Some now\<rparr>
      else r\<lparr>rc_stat := RcResolved, rc_error := rs_error_message p, rc_success := False,
             rc_resolved_at := Some now\<rparr>)"

lemma rc_answered_simps [simp]:
  "rc_id (rc_answered now p r) = rc_id r" "rc_stat (rc_answered now p r) = RcResolved"
  "rc_checkpoint (rc_answered now p r) = rc_checkpoint r"
  "rc_live (rc_answered now p r) = rc_live r" "rc_overdue t (rc_answered now p r) = rc_overdue t r"
  by (simp_all add: rc_answered_def rc_live_def rc_overdue_def)

lemma resume_resolve_ok:
  assumes "no_faults env" "r \<in> set (rcs d)" "rc_open r"
  shows "resume_resolve env p r d = Inr (d\<lparr>rcs := update_where
     (\<lambda>x. (rc_id x = rc_id r \<and> rc_stat x = RcPending) \<and> rc_live x) (rc_answered (e_now env 1) p) (rcs d)\<rparr>)"
proof -
  have "count_where (\<lambda>x. (rc_id x = rc_id r \<and> rc_stat x = RcPending) \<and> rc_live x) (rcs d) \<noteq> 0"
    using assms(2,3) unfolding count_where_zero rc_open_def by blast
  moreover have "rc_answered now p = (if rs_success p
      then (\<lambda>r. r\<lparr>rc_stat := RcResolved, rc_result := rs_result p, rc_success := True,
        rc_resolved_at := Some now\<rparr>)
      else (\<lambda>r. r\<lparr>rc_stat := RcResolved, rc_error := rs_error_message p, rc_success := False,
        rc_resolved_at := Some now\<rparr>))" for now
    by (auto simp: rc_answered_def fun_eq_iff)
  ultimately show ?thesis
    by (simp add: resume_resolve_def no_faults_db_try [OF assms(1)] rc_resolve_result_def
        rc_resolve_error_def Let_def del: One_nat_def)
qed

text \<open>The database after the answer and after expiring overdue siblings.\<close>

definition db_answered :: "env \<Rightarrow> agentResumeParams \<Rightarrow> remote_calling \<Rightarrow> db \<Rightarrow> db" where
  "db_answered env p rc d = snd (rc_mark_expired_by_checkpoint (rc_checkpoint rc) (e_now env 2)
     (d\<lparr>rcs := update_where (\<lambda>x. (rc_id x = rc_id rc \<and> rc_stat x = RcPending) \<and> rc_live x)
        (rc_answered (e_now env 1) p) (rcs d)\<rparr>))"

text \<open>The other calls of the checkpoint that still wait for an answer.\<close>

definition still_waiting :: "time \<Rightarrow> remote_calling \<Rightarrow> db \<Rightarrow> nat" where
  "still_waiting now rc d = count_where (\<lambda>r. rc_checkpoint r = rc_checkpoint rc \<and> rc_open r
     \<and> rc_id r \<noteq> rc_id rc \<and> \<not> rc_overdue now r) (rcs d)"

lemma pending_after_answer:
  "rc_count_pending_by_checkpoint (rc_checkpoint rc) (db_answered env p rc d) = still_waiting (e_now env 2) rc d"
proof -
  let ?p1 = "\<lambda>x. (rc_id x = rc_id rc \<and> rc_stat x = RcPending) \<and> rc_live x"
  let ?p2 = "\<lambda>r. (rc_checkpoint r = rc_checkpoint rc \<and> rc_stat r = RcPending \<and> rc_overdue (e_now env 2) r) \<and> rc_live r"
  let ?q = "\<lambda>r. (rc_checkpoint r = rc_checkpoint rc \<and> rc_stat r = RcPending) \<and> rc_live r"
  have live: "rc_live (r\<lparr>rc_stat := x\<rparr>) = rc_live r" for r x by (simp add: rc_live_def)
  have inner: "?q (if ?p2 r then r\<lparr>rc_stat := RcExpired\<rparr> else r)
      \<longleftrightarrow> ?q r \<and> \<not> rc_overdue (e_now env 2) r" for r
    by (auto simp: live)
  have rows: "rcs (db_answered env p rc d) = update_where ?p2 (\<lambda>r. r\<lparr>rc_stat := RcExpired\<rparr>)
      (update_where ?p1 (rc_answered (e_now env 1) p) (rcs d))"
    by (simp add: db_answered_def rc_mark_expired_by_checkpoint_def Let_def del: One_nat_def)
  have "rc_count_pending_by_checkpoint (rc_checkpoint rc) (db_answered env p rc d)
      = count_where (\<lambda>r. ?q r \<and> \<not> rc_overdue (e_now env 2) r)
          (update_where ?p1 (rc_answered (e_now env 1) p) (rcs d))"
    unfolding rc_count_pending_by_checkpoint_def rows count_where_update_eq [of ?q ?p2] inner ..
  also have "\<dots> = still_waiting (e_now env 2) rc d"
    unfolding count_where_update_eq still_waiting_def
    by (rule count_where_cong) (auto simp: rc_open_def)
  finally show ?thesis .
qed

text \<open>
  C15: answering a pending call settles exactly that call.  If other calls of its checkpoint are still
  waiting the answer reports how many and the agent is not resumed; if it was the last one, one resume
  task with the agent stored in the row (not the one named by the caller) is enqueued.  No
  property of the caller is looked at: whoever knows the id of a call can answer it, member of the
  conversation or not.
\<close>

theorem agent_resume_resumes_with_last_answer:
  assumes "no_faults env" "e_enqueue_ok env 0" and "distinct (map rc_id (rcs (sv_db s)))"
    and "rc \<in> set (rcs (sv_db s))" "rc_open rc" "\<not> rc_overdue (e_now env 0) rc"
    and "rs_id p = rc_id rc" "rc_id rc \<noteq> []" "rs_agent_id p \<noteq> []"
    and "length (rs_result p) \<le> maxResultSize" "length (rs_error_message p) \<le> maxErrorMessageSize"
  shows "if 0 < still_waiting (e_now env 2) rc (sv_db s)
    then agent_resume env cl (Some p) s
      = (Inr (PartialPending (still_waiting (e_now env 2) rc (sv_db s)), []),
         set_db (db_answered env p rc (sv_db s)) s)
    else \<exists>s'. agent_resume env cl (Some p) s = (Inr (Queued, [resume_sidecar env rc]), s')
      \<and> rcs (sv_db s') = rcs (db_answered env p rc (sv_db s))
      \<and> (\<exists>more. sv_queue s' = sv_queue s @ resume_task cl rc # more \<and> (\<forall>t \<in> set more. \<exists>us. t = TaskSendMessage us))"
proof -
  let ?d = "sv_db s" and ?n = "still_waiting (e_now env 2) rc (sv_db s)"
  have get: "rc_get_by_id (rs_id p) ?d = Inr rc"
    using rc_get_by_id_ok [OF assms(3,4)] assms(7) by simp
  have pend: "\<not> rc_stat rc \<noteq> RcPending" using assms(5) by (simp add: rc_open_def)
  have guards: "\<not> (rs_id p = [] \<or> rs_agent_id p = [])" "\<not> maxResultSize < length (rs_result p)"
    "\<not> maxErrorMessageSize < length (rs_error_message p)"
    using assms(7-11) by auto
  define s2 where "s2 = set_db (db_answered env p rc ?d) s"
  have d2: "(case x of (n, d) \<Rightarrow> d) = snd x" for x :: "nat \<times> db"
    by (simp add: case_prod_unfold)
  have run: "agent_resume env cl (Some p) s =
    (if ?n > 0 then (Inr (PartialPending ?n, []), s2)
     else (let (queued, s3) = enqueue env 0 (resume_task cl rc) s2
           in if \<not> queued then (Inl (NewInternalError ''agent_resume: enqueue task''), s3)
              else (Inr (Queued, [resume_sidecar env rc]), resume_broadcast env rc s3)))"
    by (simp only: agent_resume_def resume_finish_def option.case guards if_False get sum.case pend assms(6)
        resume_resolve_ok [OF assms(1,4,5)] no_faults_db_try [OF assms(1)] d2 Let_def
        pending_after_answer s2_def flip: db_answered_def)
  define s3 where "s3 = s2\<lparr>sv_queue := sv_queue s2 @ [resume_task cl rc]\<rparr>"
  have last: "agent_resume env cl (Some p) s = (Inr (Queued, [resume_sidecar env rc]), resume_broadcast env rc s3)"
    if "\<not> 0 < ?n"
    using that by (simp add: run enqueue_def assms(2) s3_def)
  have tx: "rcs d' = rcs d" if "store_transaction t (\<lambda>d. case upd_create (b d) d of Inl e \<Rightarrow> Inl e
      | Inr d' \<Rightarrow> Inr (b d, d')) d = Inr (us, d')" for t b d us d'
    using store_transaction_Inr [OF that] by (auto split: sum.splits dest: upd_create_Inr)
  have bc: "rcs (sv_db (resume_broadcast env rc s3)) = rcs (sv_db s3)
    \<and> (\<exists>more. sv_queue (resume_broadcast env rc s3) = sv_queue s3 @ more
        \<and> (\<forall>t \<in> set more. \<exists>us. t = TaskSendMessage us))"
    by (auto simp: resume_broadcast_def broadcastConversationUpdateToMembers_def Let_def
        broadcast_updates_def enqueue_def dest: tx split: sum.split)
  show ?thesis
  proof (cases "0 < ?n")
    case True
    then show ?thesis by (simp add: run s2_def)
  next
    case False
    have "sv_queue s3 = sv_queue s @ [resume_task cl rc]" "rcs (sv_db s3) = rcs (db_answered env p rc ?d)"
      by (simp_all add: s3_def s2_def)
    then show ?thesis
      unfolding if_not_P [OF False] using last [OF False] bc by auto
  qed
qed

text \<open>
  answering a call that has been settled before reports its status and changes neither the
  database nor the queue, whatever the answer says.
\<close>

theorem agent_resume_idempotent:
  assumes "no_faults env" and "distinct (map rc_id (rcs (sv_db s)))"
    and "rc \<in> set (rcs (sv_db s))" "rc_stat rc \<noteq> RcPending"
    and "rs_id p = rc_id rc" "rc_id rc \<noteq> []" "rs_agent_id p \<noteq> []"
    and "length (rs_result p) \<le> maxResultSize" "length (rs_error_message p) \<le> maxErrorMessageSize"
  shows "agent_resume env cl (Some p) s = (Inr (AlreadyProcessed (rc_stat rc), []), s)"
proof -
  have get: "rc_get_by_id (rs_id p) (sv_db s) = Inr rc"
    using rc_get_by_id_ok [OF assms(2,3)] assms(5) by simp
  have guards: "\<not> (rs_id p = [] \<or> rs_agent_id p = [])" "\<not> maxResultSize < length (rs_result p)"
    "\<not> maxErrorMessageSize < length (rs_error_message p)"
    using assms(5-9) by auto
  show ?thesis
    using assms(4) by (simp only: agent_resume_def option.case guards if_False get sum.case if_True
        no_faults_db_try [OF assms(1)] simp_thms)
qed


text \<open>
  C17: cancelling a checkpoint settles all of its pending calls as cancelled by the caller and
  reports how many there were, leaves every other call alone, and enqueues one resume task for the agent
  that waits.
\<close>

theorem cancel_leaves_no_pending_call:
  assumes "no_faults env" "e_enqueue_ok env 1"
    and "cr_checkpoint_id p \<noteq> []" "cr_reason p \<noteq> []" "length (cr_reason p) \<le> maxReasonLength"
    and "rc \<in> set (rcs (sv_db s))" "rc_open rc" "rc_checkpoint rc = cr_checkpoint_id p"
    and "\<forall>r \<in> set (rcs (sv_db s)). rc_checkpoint r = cr_checkpoint_id p \<longrightarrow>
           rc_conv r = cid \<and> rc_agent r = agent"
    and "conv_get cid (sv_db s) = Inr conv" "cid \<noteq> []"
    and "containsUserOrAgentBase (conversationMembers conv) (cl_user cl)"
  shows "\<exists>s' front. cancel_remote_calls env cl (Some p) s
      = (Inr (rc_count_pending_by_checkpoint (cr_checkpoint_id p) (sv_db s)), s')
    \<and> rcs (sv_db s') = update_where (\<lambda>r. (rc_checkpoint r = cr_checkpoint_id p \<and> rc_stat r = RcPending) \<and> rc_live r)
        (\<lambda>r. r\<lparr>rc_stat := RcCancelled, rc_cancelled_at := Some (e_now env 0), rc_cancelled_by := cl_user cl,
              rc_cancel_reason := cr_reason p\<rparr>) (rcs (sv_db s))
    \<and> rc_count_pending_by_checkpoint (cr_checkpoint_id p) (sv_db s') = 0
    \<and> sv_queue s' = sv_queue s @ front @ [TaskAgentResume
          \<lparr>ar_conversation_id = cid, ar_checkpoint_id = cr_checkpoint_id p, ar_agent_id = agent,
           ar_sender_id = cl_user cl, ar_device_id = cl_device cl, ar_cancelled_by = cl_user cl,
           ar_message_id = 0\<rparr>]
    \<and> (\<forall>t \<in> set front. \<exists>us. t = TaskSendMessage us)"
proof -
  let ?d = "sv_db s" and ?cp = "cr_checkpoint_id p"
  let ?q = "\<lambda>r. (rc_checkpoint r = ?cp \<and> rc_stat r = RcPending) \<and> rc_live r"
  let ?f = "\<lambda>r. r\<lparr>rc_stat := RcCancelled, rc_cancelled_at := Some (e_now env 0), rc_cancelled_by := cl_user cl,
              rc_cancel_reason := cr_reason p\<rparr>"
  let ?d1 = "?d\<lparr>rcs := update_where ?q ?f (rcs ?d)\<rparr>"
  have open_rc: "?q rc" using assms(7,8) by (simp add: rc_open_def)
  have "rc \<in> set (rc_get_pending_by_checkpoint ?cp ?d)"
    using assms(6) open_rc by (simp add: rc_get_pending_by_checkpoint_def)
  then obtain r rest where list: "rc_get_pending_by_checkpoint ?cp ?d = r # rest"
    by (cases "rc_get_pending_by_checkpoint ?cp ?d") auto
  then have "r \<in> set (rc_get_pending_by_checkpoint ?cp ?d)" by simp
  then have r: "rc_conv r = cid" using assms(9) by (simp add: rc_get_pending_by_checkpoint_def)
  obtain r' where r': "first_by rc_id ?q (rcs ?d) = Some r'"
    using first_by_exists [OF assms(6), of ?q rc_id] open_rc by blast
  then have ids: "rc_conv r' = cid" "rc_agent r' = agent" using assms(9) first_by_SomeD [OF r'] by auto
  have cancel: "rc_cancel_by_checkpoint (e_now env 0) ?cp (cr_reason p) (cl_user cl) ?d
      = ((rc_count_pending_by_checkpoint ?cp ?d, cid, agent), ?d1)"
    by (simp only: rc_cancel_by_checkpoint_def Let_def r' option.case ids rc_count_pending_by_checkpoint_def)
  define s1 where "s1 = snd (broadcastConversationUpdateToMembers env (e_tx env) 0 (e_now env 1) cid
     (conversationMembers conv) ''update'' (set_db ?d1 s))"
  have tx: "rcs d' = rcs d" if "store_transaction t (\<lambda>d. case upd_create (b d) d of Inl e \<Rightarrow> Inl e
      | Inr d' \<Rightarrow> Inr (b d, d')) d = Inr (us, d')" for t b d us d'
    using store_transaction_Inr [OF that] by (auto split: sum.splits dest: upd_create_Inr)
  have rcs1: "rcs (sv_db s1) = update_where ?q ?f (rcs ?d)"
    by (auto simp: s1_def broadcastConversationUpdateToMembers_def Let_def dest: tx split: sum.split)
  obtain front where front: "sv_queue s1 = sv_queue s @ front" "\<forall>t \<in> set front. \<exists>us. t = TaskSendMessage us"
  proof -
    have "\<exists>front. sv_queue s1 = sv_queue s @ front \<and> (\<forall>t \<in> set front. \<exists>us. t = TaskSendMessage us)"
      by (auto simp: s1_def broadcastConversationUpdateToMembers_def Let_def broadcast_updates_def
          enqueue_def split: sum.split)
    then show thesis using that by blast
  qed
  have none: "rc_count_pending_by_checkpoint ?cp (sv_db s1) = 0"
    unfolding rc_count_pending_by_checkpoint_def rcs1 count_where_zero
    by (intro ballI, rule update_where_kills) simp_all
  define task where "task = TaskAgentResume
          \<lparr>ar_conversation_id = cid, ar_checkpoint_id = ?cp, ar_agent_id = agent,
           ar_sender_id = cl_user cl, ar_device_id = cl_device cl, ar_cancelled_by = cl_user cl,
           ar_message_id = 0\<rparr>"
  have guards: "\<not> (?cp = [] \<or> cr_reason p = [])" "\<not> maxReasonLength < length (cr_reason p)"
    using assms(3-5) by auto
  have m: "\<not> \<not> containsUserOrAgentBase (conversationMembers conv) (cl_user cl)" using assms(12) by simp
  have run: "cancel_remote_calls env cl (Some p) s
      = (Inr (rc_count_pending_by_checkpoint ?cp ?d), s1\<lparr>sv_queue := sv_queue s1 @ [task]\<rparr>)"
    using assms(11)
    by (simp only: cancel_remote_calls_def option.case guards if_False no_faults_db_try [OF assms(1)] list
        list.case sum.case r assms(10) Let_def m cancel prod.case none if_True enqueue_def assms(2)
        simp_thms task_def flip: s1_def)
  show ?thesis
    unfolding task_def [symmetric]
    by (intro exI [of _ "s1\<lparr>sv_queue := sv_queue s1 @ [task]\<rparr>"] exI [of _ front])
      (use run rcs1 none front in simp)
qed

end
