(* ===== verification/Examples.thy ===== *)
theory Examples
  imports Invariants AgentProps
begin

text \<open>
  A small concrete server: two users with one conversation of two messages, an agent call of a
  checkpoint with two calls, a request environment in which nothing fails.  The closed theorems
  below it apply the properties of the server side to this state.
\<close>

definition ex_env :: env where
  "ex_env = \<lparr>e_fault = (\<lambda>_. None), e_tx = tx_ok, e_tx2 = tx_ok, e_now = (\<lambda>n. 5000000 + int n),
     e_uuid = (\<lambda>i. replicate (Suc i) CHR ''u''), e_broker = True, e_enqueue_ok = (\<lambda>_. True)\<rparr>"

definition ex_env2 :: env where
  "ex_env2 = ex_env\<lparr>e_uuid := (\<lambda>i. replicate (Suc i) CHR ''v'')\<rparr>"

definition ex_client :: client_conn where
  "ex_client = \<lparr>cl_user = ''a'', cl_device = ''d''\<rparr>"

definition ex_peer :: client_conn where
  "ex_peer = \<lparr>cl_user = ''b'', cl_device = ''e''\<rparr>"

definition ex_conv :: conversation where
  "ex_conv = \<lparr>c_id = ''c1'', c_user1 = ''a'', c_user2 = ''b'', c_type = ''1-on-1'', c_title = ''t'',
     c_pinned = False, c_muted = False, c_avatar = [], c_desc = [], c_last_msg = 2, c_created = 1,
     c_updated = 1, c_last_at = 2, c_read1 = 1, c_read2 = 0, c_agent_status = ''idle'', c_agent_id = [],
     c_checkpoint = [], c_agent_act = 0, c_deleted = None\<rparr>"

definition ex_msg :: "string \<Rightarrow> string \<Rightarrow> u32 \<Rightarrow> string \<Rightarrow> message" where
  "ex_msg i k n u = \<lparr>m_id = i, m_client_id = k, m_conv = ''c1'', m_msg_id = n, m_sender = u, m_content = ''hi'',
     m_type = ''text'', m_reply_to = 0, m_status = ''sent'', m_summarized = False, m_created = 2,
     m_deleted = None\<rparr>"

definition ex_update :: "string \<Rightarrow> string \<Rightarrow> u32 \<Rightarrow> user_update" where
  "ex_update i u n = \<lparr>u_id = i, u_user = u, u_seq = n, u_type = ''message'', u_payload = PNull, u_created = 2\<rparr>"

definition ex_rc :: "string \<Rightarrow> remote_calling" where
  "ex_rc i = \<lparr>rc_id = i, rc_conv = ''c1'', rc_checkpoint = ''cp'', rc_agent = ''agent/x'', rc_msg_id = 2,
     rc_method = ''ask'', rc_params = [], rc_interrupt = [], rc_device = [], rc_stat = RcPending,
     rc_result = [], rc_error = [], rc_success = False, rc_created = 2, rc_resolved_at = None,
     rc_expires_at = Some 9000000, rc_cancelled_at = None, rc_cancelled_by = [], rc_cancel_reason = [],
     rc_deleted = None\<rparr>"

definition ex_db :: db where
  "ex_db = \<lparr>convs = [ex_conv], msgs = [ex_msg ''m1'' ''k1'' 1 ''a'', ex_msg ''m2'' ''k2'' 2 ''b''],
     upds = [ex_update ''w1'' ''a'' 1, ex_update ''w2'' ''b'' 1, ex_update ''w3'' ''a'' 3],
     rcs = [ex_rc ''r1'']\<rparr>"

definition ex_srv :: srv where
  "ex_srv = \<lparr>sv_db = ex_db, sv_queue = []\<rparr>"

lemmas ex_defs = ex_env_def ex_env2_def ex_client_def ex_peer_def ex_conv_def ex_msg_def ex_update_def
  ex_rc_def ex_db_def ex_srv_def tx_ok_def

subsection \<open>The premises of the properties on this state\<close>

lemma ex_no_faults [simp]: "no_faults ex_env" "no_faults ex_env2"
  by (simp_all add: no_faults_def ex_env_def ex_env2_def)

lemma ex_tx [simp]: "e_tx ex_env = tx_ok" "e_tx ex_env2 = tx_ok" "e_enqueue_ok ex_env n"
  by (simp_all add: ex_env_def ex_env2_def)

lemma ex_fresh [simp]: "fresh_ids ex_env ex_db"
  by (auto simp: fresh_ids_def ex_env_def ex_db_def ex_conv_def ex_msg_def ex_update_def inj_def)

lemma ex_now: "e_now ex_env n = 5000000 + int n"
  by (simp add: ex_env_def)

lemma ex_now_nonzero [simp]: "e_now ex_env n \<noteq> zero_time"
  by (simp add: ex_now zero_time_def)

lemma ex_get [simp]: "conv_get ''c1'' ex_db = Inr ex_conv"
proof -
  have "conv_get (c_id ex_conv) ex_db = Inr ex_conv"
    by (rule conv_get_ok) (simp_all add: ex_db_def ex_conv_def conv_live_def)
  then show ?thesis by (simp add: ex_conv_def)
qed

lemma ex_simps [simp]:
  "sv_db ex_srv = ex_db" "cl_user ex_client = ''a''" "cl_user ex_peer = ''b''"
  "is_member ''a'' ex_conv" "is_member ''b'' ex_conv" "c_id ex_conv = ''c1''"
  "c_user1 ex_conv = ''a''" "c_user2 ex_conv = ''b''"
  "distinct (map c_id (convs ex_db))" "distinct (map rc_id (rcs ex_db))"
  "distinct (map (\<lambda>m. (m_client_id m, m_sender m)) (msgs ex_db))"
  "distinct (map (\<lambda>m. (m_conv m, m_msg_id m)) (msgs ex_db))"
  by (simp_all add: ex_srv_def ex_client_def ex_peer_def is_member_def ex_conv_def ex_db_def ex_msg_def
      ex_rc_def)

lemma ex_numbered [simp]: "upd_log.numbered ex_db"
  by (simp add: upd_log.numbered_def ex_db_def ex_update_def)

definition ex_send :: "string \<Rightarrow> sendMessageParams" where
  "ex_send k = \<lparr>sm_conversation_id = ''c1'', sm_client_message_id = k, sm_content = ''yo'', sm_type = [],
     sm_reply_to = 0\<rparr>"

lemma ex_send_simps [simp]:
  "sm_conversation_id (ex_send k) = ''c1''" "sm_client_message_id (ex_send k) = k"
  by (simp_all add: ex_send_def)

subsection \<open>The properties applied\<close>

theorem send_message_effect_witness:
  "fst (send_message None ex_env ex_client (Some (ex_send ''k9'')) ex_srv)
     = Inr \<lparr>smr_message = sent_message ex_env ex_client (ex_send ''k9'') ex_conv, smr_duplicate = False\<rparr>"
proof -
  have "\<forall>m \<in> set (msgs ex_db). m_client_id m = ''k9'' \<longrightarrow> m_sender m \<noteq> ''a''"
    by (simp add: ex_db_def ex_msg_def)
  then show ?thesis
    using send_message_effect [of ex_env ex_srv "ex_send ''k9''" ex_conv ex_client None] by auto
qed

theorem send_message_idempotent_witness:
  "send_message None ex_env ex_client (Some (ex_send ''k1'')) ex_srv
     = (Inr \<lparr>smr_message = ex_msg ''m1'' ''k1'' 1 ''a'', smr_duplicate = True\<rparr>, ex_srv)"
proof -
  have "ex_msg ''m1'' ''k1'' 1 ''a'' \<in> set (msgs ex_db)" by (simp add: ex_db_def)
  then show ?thesis
    by (intro send_message_idempotent [of ex_env "ex_send ''k1''" ex_srv ex_conv]) 
      (simp_all add: msg_live_def ex_msg_def)
qed

definition ex_srv_deleted :: srv where
  "ex_srv_deleted = ex_srv\<lparr>sv_db := ex_db\<lparr>msgs := [(ex_msg ''m1'' ''k1'' 1 ''a'')\<lparr>m_deleted := Some 3\<rparr>]\<rparr>\<rparr>"

theorem send_message_retry_after_delete_fails_witness:
  "send_message None ex_env ex_client (Some (ex_send ''k1'')) ex_srv_deleted
     = (Inl (NewInternalError ''send message: store: duplicate key''), ex_srv_deleted)"
proof -
  have "conv_get ''c1'' (sv_db ex_srv_deleted) = Inr ex_conv"
    using ex_get by (simp add: ex_srv_deleted_def conv_get_def)
  then show ?thesis
    by (intro send_message_retry_after_delete_fails
        [of ex_env "ex_send ''k1''" ex_srv_deleted ex_conv _ "(ex_msg ''m1'' ''k1'' 1 ''a'')\<lparr>m_deleted := Some 3\<rparr>"])
      (simp_all add: ex_srv_deleted_def msg_live_def ex_msg_def)
qed

theorem mark_as_read_effect_witness:
  "fst (mark_as_read ex_env ex_client (Some \<lparr>mr_conversation_id = ''c1'', mr_message_id = 9\<rparr>) ex_srv)
     = Inr \<lparr>mrr_unread = 0, mrr_last_read = 2\<rparr>"
proof -
  let ?p = "\<lparr>mr_conversation_id = ''c1'', mr_message_id = 9\<rparr>"
  have n: "(2 :: u32) = max (read_cursor (cl_user ex_client) ex_conv)
      (mark_target (mr_message_id ?p) (c_last_msg ex_conv))"
    by (simp add: read_cursor_def mark_target_def) (simp add: ex_conv_def)
  have none: "filter (\<lambda>m. m_conv m = ''c1'' \<and> 2 < m_msg_id m \<and> msg_live m) (msgs ex_db) = []"
    by (simp add: ex_db_def ex_msg_def)
  have "\<exists>s'. mark_as_read ex_env ex_client (Some ?p) ex_srv
    = (Inr \<lparr>mrr_unread = int (length (filter (\<lambda>m. m_conv m = ''c1'' \<and> 2 < m_msg_id m \<and> msg_live m) (msgs ex_db))),
        mrr_last_read = 2\<rparr>, s')"
    using mark_as_read_effect [OF _ _ _ _ _ _ _ _ n, of ex_env ex_srv] by auto
  then show ?thesis by (auto simp: none)
qed

lemma ex_messages_after:
  "messages_after 0 ''c1'' ex_db = [ex_msg ''m1'' ''k1'' 1 ''a'', ex_msg ''m2'' ''k2'' 2 ''b'']"
  by (simp add: messages_after_def messages_of_def select_asc_def ex_db_def ex_msg_def msg_live_def)

theorem get_messages_page_witness:
  "get_messages ex_env ex_client (Some \<lparr>gm_conversation_id = ''c1'', gm_after = 0, gm_limit = 1\<rparr>) ex_srv
     = (Inr \<lparr>ms_messages = [ex_msg ''m1'' ''k1'' 1 ''a''], ms_has_more = True\<rparr>, ex_srv)"
  using get_messages_page [of ex_env "\<lparr>gm_conversation_id = ''c1'', gm_after = 0, gm_limit = 1\<rparr>" ex_client ex_srv ex_conv]
  by (simp add: ex_messages_after messages_limit_def)

theorem read_messages_complete_witness:
  "read_messages 3 ex_env ex_client \<lparr>gm_conversation_id = ''c1'', gm_after = 0, gm_limit = 1\<rparr> ex_srv
     = Some [ex_msg ''m1'' ''k1'' 1 ''a'', ex_msg ''m2'' ''k2'' 2 ''b'']"
  using read_messages_complete [of ex_env "\<lparr>gm_conversation_id = ''c1'', gm_after = 0, gm_limit = 1\<rparr>" ex_client ex_srv ex_conv 3]
  by (simp add: ex_messages_after)

lemma ex_msg_get: "msg_get ''m1'' ex_db = Inr (ex_msg ''m1'' ''k1'' 1 ''a'')"
  by (simp add: msg_get_def first_by_def select_asc_def ex_db_def ex_msg_def msg_live_def)


definition ex_create :: createConversationParams where
  "ex_create = \<lparr>cc_user_id = ''z'', cc_title = []\<rparr>"

definition ex_create_back :: createConversationParams where
  "ex_create_back = \<lparr>cc_user_id = ''a'', cc_title = []\<rparr>"

definition ex_other :: client_conn where
  "ex_other = \<lparr>cl_user = ''z'', cl_device = []\<rparr>"

theorem create_conversation_idempotent_witness:
  "\<exists>conv s'. create_conversation ex_env ex_client (Some ex_create) ex_srv
      = (Inr \<lparr>ccr_conversation = conv, ccr_duplicate = False\<rparr>, s')
    \<and> create_conversation ex_env2 ex_other (Some ex_create_back) s'
      = (Inr \<lparr>ccr_conversation = conv, ccr_duplicate = True\<rparr>, s')"
proof -
  have "\<forall>c \<in> set (convs ex_db). \<not> pair_of ''a'' ''z'' c"
    by (simp add: ex_db_def pair_of_def)
  then show ?thesis
    using create_conversation_idempotent [of ex_env ex_env2 ex_srv "''a''" "''z''" ex_client ex_create ex_other ex_create_back]
    by (auto simp: ex_create_def ex_create_back_def ex_other_def)
qed

definition ex_gone :: srv where
  "ex_gone = ex_srv\<lparr>sv_db := ex_db\<lparr>convs := [ex_conv\<lparr>c_deleted := Some 3\<rparr>]\<rparr>\<rparr>"

definition ex_create_again :: createConversationParams where
  "ex_create_again = \<lparr>cc_user_id = ''b'', cc_title = []\<rparr>"

theorem create_after_delete_fails_witness:
  "create_conversation ex_env ex_client (Some ex_create_again) ex_gone
     = (Inl (NewInternalError ''create conversation: store: duplicate key''), ex_gone)"
  by (rule create_after_delete_fails [of _ _ _ "ex_conv\<lparr>c_deleted := Some 3\<rparr>"])
    (simp_all add: ex_gone_def ex_create_again_def pair_of_def conv_live_def)

lemma fresh_ids_v:
  assumes "\<And>c. c \<in> set (convs d) \<Longrightarrow> hd (c_id c) \<noteq> CHR ''v''"
    and "\<And>m. m \<in> set (msgs d) \<Longrightarrow> hd (m_id m) \<noteq> CHR ''v''"
    and "\<And>u. u \<in> set (upds d) \<Longrightarrow> hd (u_id u) \<noteq> CHR ''v''"
  shows "fresh_ids ex_env2 d"
proof -
  have e: "e_uuid ex_env2 = (\<lambda>i. replicate (Suc i) CHR ''v'')" by (simp add: ex_env2_def)
  have h: "hd (e_uuid ex_env2 i) = CHR ''v''" for i by (simp add: e)
  have "e_uuid ex_env2 i \<notin> c_id ` set (convs d)" "e_uuid ex_env2 i \<notin> m_id ` set (msgs d)"
    "e_uuid ex_env2 i \<notin> u_id ` set (upds d)" for i
    using h [of i] assms by (metis imageE)+
  moreover have "inj (e_uuid ex_env2)" by (auto simp: e inj_def)
  ultimately show ?thesis by (simp add: fresh_ids_def)
qed

lemma ex_delete_fresh:
  "fresh_ids ex_env2 (sv_db (snd (delete_conversation ex_env ex_client (Some ''c1'') ex_srv)))"
proof (rule fresh_ids_v)
  let ?d = "sv_db (snd (delete_conversation ex_env ex_client (Some ''c1'') ex_srv))"
  define d1 where "d1 = ex_db\<lparr>
        convs := update_where (\<lambda>c. c_id c = ''c1'' \<and> conv_live c) (\<lambda>c. c\<lparr>c_deleted := Some (truncate_ms (e_now ex_env 0))\<rparr>) (convs ex_db),
        msgs := update_where (\<lambda>m. m_conv m = ''c1'' \<and> msg_live m) (\<lambda>m. m\<lparr>m_deleted := Some (truncate_ms (e_now ex_env 0))\<rparr>) (msgs ex_db)\<rparr>"
  have get: "get_conversation_or_error ex_env CallGetConversation ''c1'' ex_db = Inr ex_conv"
    by (rule get_conversation_or_error_ok) (simp_all add: ex_env_def)
  obtain n where tx: "store_transaction tx_ok (delete_conversation_tx (truncate_ms (e_now ex_env 0)) ''c1'') ex_db = Inr (n, d1)"
    using delete_tx_result [OF ex_get] unfolding d1_def by blast
  have del: "?d = sv_db (persist_and_broadcast ex_env 0 (truncate_ms (e_now ex_env 0)) UpdateTypeConversation
    (PConvAction ''c1'' ''delete'' None) (conversationMembers ex_conv) (set_db d1 ex_srv))"
    by (simp add: delete_conversation_def get Let_def tx set_conversationMembers)
  have "fresh_ids ex_env d1"
    using ex_fresh by (simp add: d1_def fresh_ids_def map_update_where [of _ c_id] map_update_where [of _ m_id] flip: set_map)
  then have d: "?d = d1\<lparr>upds := upds d1 @ build_updates (e_uuid ex_env) (truncate_ms (e_now ex_env 0)) UpdateTypeConversation
    (PConvAction ''c1'' ''delete'' None) (conversationMembers ex_conv) d1\<rparr>"
    unfolding del using persist_and_broadcast_db [OF ex_no_faults(1), of "set_db d1 ex_srv"] by simp
  have hd: "hd ` c_id ` set (convs ?d) = {CHR ''c''}" "hd ` m_id ` set (msgs ?d) = {CHR ''m''}"
    unfolding d d1_def
    by (simp_all add: map_update_where [of _ c_id] map_update_where [of _ m_id] flip: set_map)
      (simp_all add: ex_db_def ex_msg_def)
  show "hd (c_id c) \<noteq> CHR ''v''" if "c \<in> set (convs ?d)" for c
  proof -
    have "hd (c_id c) \<in> hd ` c_id ` set (convs ?d)" using that by (intro imageI)
    then show ?thesis unfolding hd(1) by simp
  qed
  show "hd (m_id m) \<noteq> CHR ''v''" if "m \<in> set (msgs ?d)" for m
  proof -
    have "hd (m_id m) \<in> hd ` m_id ` set (msgs ?d)" using that by (intro imageI)
    then show ?thesis unfolding hd(2) by simp
  qed
  fix u assume "u \<in> set (upds ?d)"
  then have "u_id u \<in> set (map u_id (upds ?d))" by simp
  also have "map u_id (upds ?d) = map u_id (upds ex_db) @ map (e_uuid ex_env) [0..<length (conversationMembers ex_conv)]"
    unfolding d by (simp add: d1_def map_u_id_build)
  finally show "hd (u_id u) \<noteq> CHR ''v''"
    by (auto simp: ex_db_def ex_update_def ex_env_def)
qed


subsection \<open>Remote callings\<close>

definition ex_answer :: agentResumeParams where
  "ex_answer = \<lparr>rs_id = ''r1'', rs_success = True, rs_result = ''yes'', rs_error_message = [], rs_agent_id = ''z''\<rparr>"

lemma ex_rc_facts [simp]:
  "rc_id (ex_rc i) = i" "rc_stat (ex_rc i) = RcPending" "rc_open (ex_rc i)" "rc_checkpoint (ex_rc i) = ''cp''"
  "rc_conv (ex_rc i) = ''c1''" "rc_agent (ex_rc i) = ''agent/x''"
  "rcs ex_db = [ex_rc ''r1'']" "\<not> rc_overdue (e_now ex_env 0) (ex_rc i)"
  by (simp_all add: ex_rc_def rc_open_def rc_live_def ex_db_def rc_overdue_def ex_now)

lemma ex_answer_facts [simp]:
  "rs_id ex_answer = ''r1''" "rs_agent_id ex_answer = ''z''"
  "length (rs_result ex_answer) \<le> maxResultSize" "length (rs_error_message ex_answer) \<le> maxErrorMessageSize"
  by (simp_all add: ex_answer_def maxResultSize_def maxErrorMessageSize_def)

text \<open>The caller here is not a member of the conversation.\<close>

theorem agent_resume_resumes_with_last_answer_witness:
  "fst (agent_resume ex_env ex_other (Some ex_answer) ex_srv)
     = Inr (Queued, [resume_sidecar ex_env (ex_rc ''r1'')]) \<and> \<not> is_member (cl_user ex_other) ex_conv"
proof -
  have "still_waiting (e_now ex_env 2) (ex_rc ''r1'') ex_db = 0"
    by (simp add: still_waiting_def)
  then show ?thesis
    using agent_resume_resumes_with_last_answer [of ex_env ex_srv "ex_rc ''r1''" ex_answer ex_other]
    by (auto simp: ex_other_def is_member_def)
qed

definition ex_settled :: srv where
  "ex_settled = ex_srv\<lparr>sv_db := ex_db\<lparr>rcs := [(ex_rc ''r1'')\<lparr>rc_stat := RcCancelled\<rparr>]\<rparr>\<rparr>"

theorem agent_resume_idempotent_witness:
  "agent_resume ex_env ex_client (Some ex_answer) ex_settled
     = (Inr (AlreadyProcessed RcCancelled, []), ex_settled)"
  using agent_resume_idempotent [of ex_env ex_settled "(ex_rc ''r1'')\<lparr>rc_stat := RcCancelled\<rparr>" ex_answer ex_client]
  by (simp add: ex_settled_def)

definition ex_late :: env where
  "ex_late = ex_env\<lparr>e_now := (\<lambda>n. 9000001)\<rparr>"


definition ex_cancel :: cancelRemoteCallsParams where
  "ex_cancel = \<lparr>cr_checkpoint_id = ''cp'', cr_reason = ''stop''\<rparr>"

theorem cancel_leaves_no_pending_call_witness:
  "\<exists>s'. cancel_remote_calls ex_env ex_client (Some ex_cancel) ex_srv = (Inr 1, s')
    \<and> rc_count_pending_by_checkpoint ''cp'' (sv_db s') = 0"
proof -
  have p: "cr_checkpoint_id ex_cancel = ''cp''" "cr_reason ex_cancel = ''stop''"
    by (simp_all add: ex_cancel_def)
  have "containsUserOrAgentBase (conversationMembers ex_conv) ''a''"
    by (simp add: containsUserOrAgentBase_iff set_conversationMembers)
  moreover have "rc_count_pending_by_checkpoint ''cp'' ex_db = 1"
    by (simp add: rc_count_pending_by_checkpoint_def ex_db_def) (simp add: ex_rc_def rc_live_def)
  ultimately show ?thesis
    using cancel_leaves_no_pending_call [of ex_env ex_cancel "ex_rc ''r1''" ex_srv "''c1''" "''agent/x''" ex_conv ex_client]
    by (auto simp: p maxReasonLength_def)
qed

subsection \<open>Pulling updates\<close>

lemma ex_latest: "upd_latest_seq ''a'' ex_db = 3"
  by (simp add: upd_latest_seq_def ex_db_def ex_update_def)

theorem sync_updates_contiguous_page_witness:
  "\<exists>us. sync_updates ex_env ex_client (Some \<lparr>su_after_seq = 0, su_limit = 0\<rparr>) ex_srv
      = Some (Inr \<lparr>sur_updates = us, sur_has_more = False, sur_latest_seq = 3\<rparr>)
    \<and> map (unat \<circ> du_seq) us = [1, 2, 3]"
proof -
  have e: "sync_page_end 0 0 3 = 3" "sync_limit 0 = 100"
    by (simp_all add: sync_page_end_def sync_limit_def)
  have l: "[Suc 0..<Suc 3] = [1, 2, 3]" by (simp add: upt_rec)
  have prems: "(0 :: u32) < 3" "3 = upd_latest_seq ''a'' ex_db" "(3 :: u32) \<noteq> - 1"
    "0 + nat 100 < (2 :: nat) ^ 32"
    by (simp_all add: ex_latest)
  note page = sync_updates_contiguous_page
    [of ex_env ex_srv "\<lparr>su_after_seq = 0, su_limit = 0\<rparr>" 3 ex_client,
      unfolded ex_simps syncUpdatesParams.simps e l unat_0, OF ex_no_faults(1) ex_numbered prems]
  then have "\<exists>us. sync_updates ex_env ex_client (Some \<lparr>su_after_seq = 0, su_limit = 0\<rparr>) ex_srv
      = Some (Inr \<lparr>sur_updates = us, sur_has_more = (3 < unat (3 :: u32)), sur_latest_seq = 3\<rparr>)
    \<and> map (unat \<circ> du_seq) us = [1, 2, 3]"
    by (elim exE conjE) (intro exI conjI, assumption, assumption)
  then show ?thesis by simp
qed

definition ex_full :: srv where
  "ex_full = ex_srv\<lparr>sv_db := ex_db\<lparr>upds := [ex_update ''w1'' ''a'' (- 1)]\<rparr>\<rparr>"

lemma ex_full_latest: "upd_latest_seq ''a'' (sv_db ex_full) = - 1"
  by (simp add: upd_latest_seq_def ex_full_def ex_update_def)

theorem sync_updates_wraparound_witness:
  "sync_updates ex_env ex_client (Some \<lparr>su_after_seq = - 3, su_limit = 0\<rparr>) ex_full
     = Some (Inr \<lparr>sur_updates = [], sur_has_more = True, sur_latest_seq = - 1\<rparr>)"
proof -
  have "2 ^ 32 \<le> unat (- 3 :: u32) + nat (sync_limit 0)"
    by (simp add: sync_limit_def)
  then show ?thesis
    using sync_updates_wraparound [of ex_env "\<lparr>su_after_seq = - 3, su_limit = 0\<rparr>" ex_client ex_full]
    by (simp add: ex_full_latest)
qed

theorem sync_updates_diverges_at_max_witness:
  "sync_updates ex_env ex_client (Some \<lparr>su_after_seq = - 101, su_limit = 100\<rparr>) ex_full = None"
  using sync_updates_diverges_at_max [of ex_env ex_client ex_full "\<lparr>su_after_seq = - 101, su_limit = 100\<rparr>"]
  by (simp add: ex_full_latest sync_limit_def)

subsection \<open>Store operations\<close>

theorem get_by_user_exact_page_witness:
  "conv_get_by_user ''a'' 0 10 ex_db = [ex_conv]"
proof -
  have "conversations_newest_first ''a'' ex_db = [ex_conv]"
    by (simp add: conversations_newest_first_def ex_db_def as_user1_def as_user2_def conv_live_def)
      (simp add: ex_conv_def)
  then show ?thesis
    using get_by_user_exact_page [of ex_db "''a''" 0 10] by (auto simp: norm_list_limit_def ex_db_def)
qed

definition ex_rc_done :: remote_calling where
  "ex_rc_done = (ex_rc ''r1'')\<lparr>rc_stat := RcResolved, rc_result := ''ok''\<rparr>"

theorem remote_calling_final_states_stable_witness:
  "rc_outcome (rcs (rc_delete_by_checkpoint 7 ''cp'' (ex_db\<lparr>rcs := [ex_rc_done]\<rparr>)) ! 0) = rc_outcome ex_rc_done"
proof -
  have "rc_step\<^sup>*\<^sup>* (ex_db\<lparr>rcs := [ex_rc_done]\<rparr>) (rc_delete_by_checkpoint 7 ''cp'' (ex_db\<lparr>rcs := [ex_rc_done]\<rparr>))"
    by (rule r_into_rtranclp, rule rc_step.delete_checkpoint [OF refl])
  moreover have "rc_stat ex_rc_done \<noteq> RcPending" by (simp add: ex_rc_done_def)
  ultimately show ?thesis
    using remote_calling_final_states_stable [of "ex_db\<lparr>rcs := [ex_rc_done]\<rparr>" _ 0] by simp
qed

subsection \<open>Agent definitions\<close>

definition ex_config :: AgentConfig where
  "ex_config = \<lparr>ac_id = ''x'', ac_name = ''X'', ac_description = [], ac_model = ''m'', ac_api_key_env = ''K'',
     ac_base_url = [], ac_max_tokens = 0, ac_max_messages = 0, ac_tools = [], ac_dynamic_tools = [],
     ac_enable_summarization = False, ac_summarization_tokens = 0,
     ac_enable_tool_reduction = False, ac_tool_reduction_max = 0, ac_enable_patch_tool_calls = False,
     ac_enable_client_tools = False,
     ac_client_tools = \<lparr>ct_function_tags = [], ct_excluded = [], ct_call_timeout = 0\<rparr>,
     ac_sub_agents = [], ac_mcp_servers = [], ac_system_prompt = []\<rparr>"

theorem parse_front_matter_layout_witness:
  "ParseFrontMatter (\<lambda>_. Inr ex_config) (join_lines [''---'', ''id: x'', ''---'', '' be kind ''])
     = Inr (ex_config\<lparr>ac_system_prompt := ''be kind''\<rparr>)"
proof -
  have "\<not> is_dashes ''id: x''" by (simp add: is_dashes_def trim_space_def is_space_def)
  moreover have "trim_space '' be kind '' = ''be kind''" by (simp add: trim_space_def is_space_def)
  ultimately show ?thesis
    using parse_front_matter_layout [of "[]" "[''id: x'']" "['' be kind '']" "\<lambda>_. Inr ex_config"]
    by (simp add: Validate_def ex_config_def)
qed

definition ex_file :: string where
  "ex_file = join_lines [''---'', ''id: x'', ''---'', ''be kind'']"

theorem load_first_valid_wins_witness:
  "Get ''x'' (snd (Load (\<lambda>_. Inr ex_config) (\<lambda>_. DirEntries
      [\<lparr>de_name = ''a.txt'', de_is_dir = False, de_data = None\<rparr>]) ''agents'' NewRegistry)) = None"
proof -
  have "entry_config (\<lambda>_. Inr ex_config) \<lparr>de_name = ''a.txt'', de_is_dir = False, de_data = None\<rparr> = None"
    by (simp add: entry_config_def)
  then show ?thesis
    using load_first_valid_wins [of "\<lambda>_. DirEntries
      [\<lparr>de_name = ''a.txt'', de_is_dir = False, de_data = None\<rparr>]" "''agents''"
      "[\<lparr>de_name = ''a.txt'', de_is_dir = False, de_data = None\<rparr>]" "''x''" "\<lambda>_. Inr ex_config" NewRegistry]
    by (simp add: List.map_filter_def)
qed

subsection \<open>The running server\<close>

definition ex_deps :: deps where
  "ex_deps = \<lparr>dp_eqc = (=), dp_yaml = (\<lambda>_. Inr ex_config), dp_read_dir = (\<lambda>_. DirNotExist)\<rparr>"



end
