(* ===== verification/ClientStore.thy ===== *)
theory ClientStore
  imports Store
begin

text \<open>
  The client's local database (\<^verbatim>\<open>pkg/store\<close>): one SQLite file per user with the mirrored
  conversations, messages and remote callings, the log of notifications seen, the key-value table of
  the synchronisation state, the retry queue, and the drafts.  Rows have the shape of the
  server's models (the client's models leave out \<^verbatim>\<open>Message.summarized\<close> and
  \<^verbatim>\<open>RemoteCalling.message_id\<close>, which no operation here reads); update payloads are the JSON
  documents of theory \<open>Models\<close>.
\<close>

datatype client_store_error =
    LErrNotFound
  | LErrDuplicateKey
  | LErrForeignKeyViolation
  | LErrConnectionFailed
  | LErrContextDeadlineExceeded
  | LErrDatabaseLocked
  | LErrOther string

definition client_classifyError :: "bool \<Rightarrow> string \<Rightarrow> client_store_error" where
  "client_classifyError not_found m =
    (if not_found then LErrNotFound
     else if contains m ''UNIQUE constraint failed'' \<or> contains m ''duplicate key'' then LErrDuplicateKey
     else if contains m ''FOREIGN KEY constraint failed'' then LErrForeignKeyViolation
     else if contains m ''database is locked'' then LErrDatabaseLocked
     else if contains m ''connection refused'' \<or> contains m ''connection reset''
          \<or> contains m ''broken pipe'' \<or> contains m ''no such host''
          \<or> contains m ''dial tcp'' then LErrConnectionFailed
     else if contains m ''context deadline exceeded'' \<or> contains m ''Query timed out''
          then LErrContextDeadlineExceeded
     else LErrOther m)"

record notification_log =
  n_id :: string
  n_seq :: u32
  n_type :: string
  n_payload :: payload
  n_created :: time

record sync_state =
  ss_key :: string
  ss_value :: string
  ss_updated :: time

record retry_task =
  q_id :: string
  q_method :: string
  q_params :: string
  q_attempt :: int
  q_max_attempts :: int
  q_next :: time
  q_status :: string
  q_last_error :: string
  q_created :: time

record draft =
  dr_id :: string
  dr_conv :: string
  dr_content :: string
  dr_created :: time
  dr_updated :: time

record local_db =
  l_convs :: "conversation list"
  l_msgs :: "message list"
  l_upds :: "user_update list"
  l_sync :: "sync_state list"
  l_drafts :: "draft list"
  l_queue :: "retry_task list"
  l_log :: "notification_log list"
  l_rcs :: "remote_calling list"

subsection \<open>Decimal numbers\<close>

text \<open>
  \<^verbatim>\<open>strconv.FormatUint(n, 10)\<close> and \<^verbatim>\<open>strconv.ParseUint(s, 10, 32)\<close> of the standard library: digits
  only, no sign, an empty string and a value above the largest 32-bit number are errors.
\<close>

definition digit_char :: "nat \<Rightarrow> char" where
  "digit_char k = char_of (k + 48)"

definition char_digit :: "char \<Rightarrow> nat option" where
  "char_digit c = (let n = (of_char c :: nat) in if 48 \<le> n \<and> n \<le> 57 then Some (n - 48) else None)"

fun format_uint :: "nat \<Rightarrow> string" where
  "format_uint n = (if n < 10 then [digit_char n] else format_uint (n div 10) @ [digit_char (n mod 10)])"

declare format_uint.simps [simp del]

fun digits_value :: "nat \<Rightarrow> string \<Rightarrow> nat option" where
  "digits_value acc [] = Some acc"
| "digits_value acc (c # cs) =
     (case char_digit c of None \<Rightarrow> None | Some k \<Rightarrow> digits_value (acc * 10 + k) cs)"

definition parse_uint32 :: "string \<Rightarrow> u32 option" where
  "parse_uint32 s =
     (if s = [] then None
      else case digits_value 0 s of
             None \<Rightarrow> None
           | Some n \<Rightarrow> if n < 2 ^ 32 then Some (word_of_nat n) else None)"

lemma char_digit_digit_char [simp]: "k < 10 \<Longrightarrow> char_digit (digit_char k) = Some k"
  by (simp add: char_digit_def digit_char_def Let_def)

lemma digits_value_append:
  "digits_value acc (xs @ ys) = Option.bind (digits_value acc xs) (\<lambda>a. digits_value a ys)"
  by (induction acc xs rule: digits_value.induct) (auto split: option.splits)

lemma digits_value_format: "digits_value 0 (format_uint n) = Some n"
proof (induction n rule: format_uint.induct)
  case (1 n)
  then show ?case
    by (subst format_uint.simps) (simp add: digits_value_append)
qed

lemma format_uint_not_Nil [simp]: "format_uint n \<noteq> []"
  by (subst format_uint.simps) simp

lemma parse_format_uint [simp]: "parse_uint32 (format_uint (unat (w :: u32))) = Some w"
  using unat_lt32 [of w] by (simp add: parse_uint32_def digits_value_format)

subsection \<open>The synchronisation state\<close>

definition ls_get :: "string \<Rightarrow> local_db \<Rightarrow> client_store_error + string" where
  "ls_get k d =
     (case first_by ss_key (\<lambda>r. ss_key r = k) (l_sync d) of
        None \<Rightarrow> Inl LErrNotFound | Some r \<Rightarrow> Inr (ss_value r))"

text \<open>\<^verbatim>\<open>INSERT ... ON CONFLICT (key) DO UPDATE SET value, updated_at\<close>\<close>

definition ls_set :: "time \<Rightarrow> string \<Rightarrow> string \<Rightarrow> local_db \<Rightarrow> local_db" where
  "ls_set now k v d =
     (if list_ex (\<lambda>r. ss_key r = k) (l_sync d) then
        d\<lparr>l_sync := update_where (\<lambda>r. ss_key r = k) (\<lambda>r. r\<lparr>ss_value := v, ss_updated := now\<rparr>) (l_sync d)\<rparr>
      else d\<lparr>l_sync := l_sync d @ [\<lparr>ss_key = k, ss_value = v, ss_updated = now\<rparr>]\<rparr>)"

definition syncKeyLocalMaxSeq :: string where "syncKeyLocalMaxSeq = ''local_max_seq''"
definition syncKeyLatestSeq :: string where "syncKeyLatestSeq = ''latest_seq''"

definition get_local_max_seq :: "local_db \<Rightarrow> client_store_error + u32" where
  "get_local_max_seq d =
     (case ls_get syncKeyLocalMaxSeq d of
        Inl LErrNotFound \<Rightarrow> Inr 0
      | Inl e \<Rightarrow> Inl e
      | Inr v \<Rightarrow> (case parse_uint32 v of
                   None \<Rightarrow> Inl (LErrOther ''store: parse local_max_seq'')
                 | Some n \<Rightarrow> Inr n))"

definition set_local_max_seq :: "time \<Rightarrow> u32 \<Rightarrow> local_db \<Rightarrow> local_db" where
  "set_local_max_seq now n d = ls_set now syncKeyLocalMaxSeq (format_uint (unat n)) d"

definition get_latest_seq :: "local_db \<Rightarrow> client_store_error + u32" where
  "get_latest_seq d =
     (case ls_get syncKeyLatestSeq d of
        Inl LErrNotFound \<Rightarrow> Inr 0
      | Inl e \<Rightarrow> Inl e
      | Inr v \<Rightarrow> (case parse_uint32 v of
                   None \<Rightarrow> Inl (LErrOther ''store: parse latest_seq'')
                 | Some n \<Rightarrow> Inr n))"

definition set_latest_seq :: "time \<Rightarrow> u32 \<Rightarrow> local_db \<Rightarrow> local_db" where
  "set_latest_seq now n d = ls_set now syncKeyLatestSeq (format_uint (unat n)) d"

text \<open>
  What the synchronisation code relies on: a counter that starts at zero, reads back what was
  written, and is not touched by writing the other one.
\<close>

locale counters =
  fixes get :: "'k \<Rightarrow> 's \<Rightarrow> 'e + u32"
    and put :: "'k \<Rightarrow> time \<Rightarrow> u32 \<Rightarrow> 's \<Rightarrow> 's"
    and initial :: "'s \<Rightarrow> bool"
  assumes get_initial: "initial s \<Longrightarrow> get k s = Inr 0"
    and get_put: "get k (put k t n s) = Inr n"
    and get_put_other: "k \<noteq> k' \<Longrightarrow> get k (put k' t n s) = get k s"
begin

lemma get_after_puts:
  "get k (foldl (\<lambda>s (k, t, n). put k t n s) s (ws @ [(k, t, n)])) = Inr n"
  by (simp add: get_put)

lemma get_after_other_puts:
  "(\<And>w. w \<in> set ws \<Longrightarrow> fst w \<noteq> k) \<Longrightarrow>
     get k (foldl (\<lambda>s (k, t, n). put k t n s) s ws) = get k s"
proof (induction ws arbitrary: s)
  case (Cons w ws)
  obtain k' t n where w: "w = (k', t, n)" by (cases w) auto
  then have "k' \<noteq> k" using Cons.prems [of w] by simp
  then show ?case using Cons.IH [of "put k' t n s"] Cons.prems w by (simp add: get_put_other)
qed simp

end

lemma ls_set_keys: "set (map ss_key (l_sync (ls_set now k v d))) = insert k (set (map ss_key (l_sync d)))"
proof (cases "list_ex (\<lambda>r. ss_key r = k) (l_sync d)")
  case True
  then have k: "k \<in> set (map ss_key (l_sync d))" by (auto simp: list_ex_iff)
  have "map ss_key (update_where (\<lambda>r. ss_key r = k) (\<lambda>r. r\<lparr>ss_value := v, ss_updated := now\<rparr>) (l_sync d))
      = map ss_key (l_sync d)"
    by (rule map_update_where) simp
  with True have "map ss_key (l_sync (ls_set now k v d)) = map ss_key (l_sync d)"
    by (simp add: ls_set_def)
  then show ?thesis using k by (simp only: insert_absorb)
next
  case False
  then show ?thesis by (simp add: ls_set_def)
qed

lemma ls_set_values:
  assumes "r \<in> set (l_sync (ls_set now k v d))" "ss_key r = k"
  shows "ss_value r = v"
proof (cases "list_ex (\<lambda>r. ss_key r = k) (l_sync d)")
  case True
  with assms(1) obtain r' where
    "r = (if ss_key r' = k then r'\<lparr>ss_value := v, ss_updated := now\<rparr> else r')"
    by (auto simp: ls_set_def set_update_where)
  then show ?thesis using assms(2) by (cases "ss_key r' = k") simp_all
next
  case False
  then have "r \<notin> set (l_sync d)" using assms(2) by (auto simp: list_ex_iff)
  then show ?thesis using assms(1) False by (simp add: ls_set_def)
qed

lemma ls_get_set_same: "ls_get k (ls_set now k v d) = Inr v"
proof -
  let ?rows = "l_sync (ls_set now k v d)"
  have "k \<in> ss_key ` set ?rows" using ls_set_keys [of now k v d] by simp
  then obtain r0 where "r0 \<in> set ?rows" "ss_key r0 = k" by auto
  then obtain r where r: "first_by ss_key (\<lambda>r. ss_key r = k) ?rows = Some r"
    using first_by_exists [of r0 ?rows "\<lambda>r. ss_key r = k" ss_key] by auto
  then have "r \<in> set ?rows" "ss_key r = k" by (auto dest: first_by_SomeD)
  then have "ss_value r = v" by (rule ls_set_values)
  then show ?thesis using r by (simp add: ls_get_def)
qed

lemma filter_update_other:
  assumes "\<And>x. p x \<Longrightarrow> \<not> q x \<and> \<not> q (f x)"
  shows "filter q (update_where p f xs) = filter q xs"
  using assms by (induction xs) simp_all

lemma ls_get_set_other:
  assumes "k \<noteq> k'"
  shows "ls_get k (ls_set now k' v d) = ls_get k d"
proof -
  have "filter (\<lambda>r. ss_key r = k) (l_sync (ls_set now k' v d)) = filter (\<lambda>r. ss_key r = k) (l_sync d)"
  proof (cases "list_ex (\<lambda>r. ss_key r = k') (l_sync d)")
    case True
    have "filter (\<lambda>r. ss_key r = k) (update_where (\<lambda>r. ss_key r = k')
        (\<lambda>r. r\<lparr>ss_value := v, ss_updated := now\<rparr>) (l_sync d)) = filter (\<lambda>r. ss_key r = k) (l_sync d)"
      by (rule filter_update_other) (use assms in simp)
    then show ?thesis using True by (simp add: ls_set_def)
  next
    case False
    then show ?thesis using assms by (simp add: ls_set_def)
  qed
  from first_by_cong [OF this, of ss_key] show ?thesis by (simp add: ls_get_def)
qed

datatype sync_key = LocalMaxSeq | LatestSeq

definition read_counter :: "sync_key \<Rightarrow> local_db \<Rightarrow> client_store_error + u32" where
  "read_counter k = (case k of LocalMaxSeq \<Rightarrow> get_local_max_seq | LatestSeq \<Rightarrow> get_latest_seq)"

definition write_counter :: "sync_key \<Rightarrow> time \<Rightarrow> u32 \<Rightarrow> local_db \<Rightarrow> local_db" where
  "write_counter k = (case k of LocalMaxSeq \<Rightarrow> set_local_max_seq | LatestSeq \<Rightarrow> set_latest_seq)"

lemma sync_keys_differ [simp]: "syncKeyLocalMaxSeq \<noteq> syncKeyLatestSeq" "syncKeyLatestSeq \<noteq> syncKeyLocalMaxSeq"
  by (simp_all add: syncKeyLocalMaxSeq_def syncKeyLatestSeq_def)

interpretation sync_counters: counters read_counter write_counter "\<lambda>d. l_sync d = []"
proof
  show "read_counter k s = Inr 0" if "l_sync s = []" for k s
    using that by (cases k) (simp_all add: read_counter_def get_local_max_seq_def get_latest_seq_def
        ls_get_def first_by_def select_asc_def)
  show "read_counter k (write_counter k t n s) = Inr n" for k t n s
    by (cases k) (simp_all add: read_counter_def write_counter_def get_local_max_seq_def
        get_latest_seq_def set_local_max_seq_def set_latest_seq_def ls_get_set_same)
  show "read_counter k (write_counter k' t n s) = read_counter k s" if "k \<noteq> k'" for k k' t n s
    using that by (cases k; cases k') (simp_all add: read_counter_def write_counter_def
        get_local_max_seq_def get_latest_seq_def set_local_max_seq_def set_latest_seq_def
        ls_get_set_other)
qed

lemma get_set_local_max [simp]: "get_local_max_seq (set_local_max_seq now n d) = Inr n"
  using sync_counters.get_put [of LocalMaxSeq now n d] by (simp add: read_counter_def write_counter_def)

lemma get_local_max_set_latest [simp]: "get_local_max_seq (set_latest_seq now n d) = get_local_max_seq d"
  using sync_counters.get_put_other [of LocalMaxSeq LatestSeq now n d]
  by (simp add: read_counter_def write_counter_def)

lemma get_set_latest [simp]: "get_latest_seq (set_latest_seq now n d) = Inr n"
  using sync_counters.get_put [of LatestSeq now n d] by (simp add: read_counter_def write_counter_def)

end
