(* ===== verification/ClientTables.thy ===== *)
theory ClientTables
  imports ClientStore
begin

text \<open>
  The operations on the mirrored tables of the client (\<^verbatim>\<open>pkg/store/conversation_store.go\<close>,
  \<^verbatim>\<open>message_store.go\<close>, \<^verbatim>\<open>notification_log_store.go\<close>, \<^verbatim>\<open>queue_store.go\<close>,
  \<^verbatim>\<open>remote_calling_store.go\<close>, \<^verbatim>\<open>draft_store.go\<close>).  The variants with suffix \<^verbatim>\<open>Tx\<close> issue the same
  statements on the transaction's handle.  GORM stamps \<open>updated_at\<close> on every update of a
  conversation, whatever value the caller supplies.
\<close>

subsection \<open>Conversations\<close>

definition lc_get :: "string \<Rightarrow> local_db \<Rightarrow> client_store_error + conversation" where
  "lc_get cid d =
     (case first_by c_id (\<lambda>c. c_id c = cid \<and> conv_live c) (l_convs d) of
        None \<Rightarrow> Inl LErrNotFound | Some c \<Rightarrow> Inr c)"

definition lc_get_unscoped :: "string \<Rightarrow> local_db \<Rightarrow> client_store_error + conversation" where
  "lc_get_unscoped cid d =
     (case first_by c_id (\<lambda>c. c_id c = cid) (l_convs d) of
        None \<Rightarrow> Inl LErrNotFound | Some c \<Rightarrow> Inr c)"

definition lc_get_by_users :: "string \<Rightarrow> string \<Rightarrow> local_db \<Rightarrow> client_store_error + conversation" where
  "lc_get_by_users u1 u2 d =
     (case first_by c_id
        (\<lambda>c. ((c_user1 c = u1 \<and> c_user2 c = u2) \<or> (c_user1 c = u2 \<and> c_user2 c = u1)) \<and> conv_live c)
        (l_convs d) of
        None \<Rightarrow> Inl LErrNotFound | Some c \<Rightarrow> Inr c)"

definition lc_get_by_user :: "string \<Rightarrow> int \<Rightarrow> int \<Rightarrow> local_db \<Rightarrow> conversation list" where
  "lc_get_by_user uid offset0 limit0 d =
     (let limit = norm_list_limit limit0;
          offset = (if offset0 < 0 then 0 else offset0)
      in take (nat limit) (drop (nat offset) (select_asc (\<lambda>c. - c_last_at c)
           (\<lambda>c. ((c_user1 c = uid \<or> c_user2 c = uid) \<and> c_user2 c \<noteq> []) \<and> conv_live c) (l_convs d))))"

definition lc_create :: "time \<Rightarrow> conversation \<Rightarrow> local_db \<Rightarrow> client_store_error + local_db" where
  "lc_create now c d =
     (if list_ex (conv_conflict c) (l_convs d) then Inl LErrDuplicateKey
      else Inr (d\<lparr>l_convs := l_convs d @ [conv_defaults now c]\<rparr>))"

text \<open>
  \<^verbatim>\<open>Unscoped().Save(conv)\<close>: every column of the row with this primary key is overwritten.  When no
  such row exists GORM inserts it, on conflict of the primary key with all columns updated; a
  conflict on the pair of users is then an error.
\<close>

definition lc_update :: "time \<Rightarrow> conversation \<Rightarrow> local_db \<Rightarrow> client_store_error + local_db" where
  "lc_update now c d =
     (if list_ex (\<lambda>c'. c_id c' \<noteq> c_id c \<and> c_user1 c' = c_user1 c \<and> c_user2 c' = c_user2 c) (l_convs d)
      then Inl LErrDuplicateKey
      else if list_ex (\<lambda>c'. c_id c' = c_id c) (l_convs d) then
        Inr (d\<lparr>l_convs := update_where (\<lambda>c'. c_id c' = c_id c) (\<lambda>_. c\<lparr>c_updated := now\<rparr>) (l_convs d)\<rparr>)
      else Inr (d\<lparr>l_convs := l_convs d @ [conv_defaults now c]\<rparr>))"

definition lc_upsert :: "time \<Rightarrow> conversation \<Rightarrow> local_db \<Rightarrow> client_store_error + local_db" where
  "lc_upsert now c d =
     (case lc_get_unscoped (c_id c) d of
        Inl LErrNotFound \<Rightarrow>
          (case lc_create now c d of
             Inl LErrDuplicateKey \<Rightarrow> lc_update now c d
           | r \<Rightarrow> r)
      | Inl e \<Rightarrow> Inl e
      | Inr _ \<Rightarrow> lc_update now c d)"

text \<open>
  The cascading soft delete: the conversation is stamped with one clock reading, its messages with a
  later one.
\<close>

definition lc_soft_delete :: "time \<Rightarrow> time \<Rightarrow> string \<Rightarrow> local_db \<Rightarrow> client_store_error + local_db" where
  "lc_soft_delete now1 now2 cid d =
     (let p = (\<lambda>c. c_id c = cid \<and> conv_live c)
      in if count_where p (l_convs d) = 0 then Inl LErrNotFound
         else Inr (d\<lparr>l_convs := update_where p (\<lambda>c. c\<lparr>c_deleted := Some now1\<rparr>) (l_convs d),
                l_msgs := update_where (\<lambda>m. m_conv m = cid \<and> msg_live m)
                            (\<lambda>m. m\<lparr>m_deleted := Some now2\<rparr>) (l_msgs d)\<rparr>))"

definition lc_delete :: "time \<Rightarrow> time \<Rightarrow> string \<Rightarrow> local_db \<Rightarrow> client_store_error + local_db" where
  "lc_delete now1 now2 cid d = lc_soft_delete now1 now2 cid d"

text \<open>
  The cascading restore: every deleted message of the conversation comes back, whenever it was
  deleted.
\<close>

definition lc_restore_tx :: "time \<Rightarrow> string \<Rightarrow> local_db \<Rightarrow> client_store_error + local_db" where
  "lc_restore_tx now cid d =
     (let p = (\<lambda>c. c_id c = cid \<and> \<not> conv_live c)
      in if count_where (\<lambda>c. c_id c = cid) (l_convs d) = 0 then Inl LErrNotFound
         else if count_where p (l_convs d) = 0 then Inr d
         else Inr (d\<lparr>l_convs := update_where p (\<lambda>c. c\<lparr>c_deleted := None, c_updated := now\<rparr>) (l_convs d),
                l_msgs := update_where (\<lambda>m. m_conv m = cid \<and> \<not> msg_live m)
                            (\<lambda>m. m\<lparr>m_deleted := None\<rparr>) (l_msgs d)\<rparr>))"

definition lc_restore :: "time \<Rightarrow> string \<Rightarrow> local_db \<Rightarrow> client_store_error + local_db" where
  "lc_restore now cid d = lc_restore_tx now cid d"

definition lc_update_last_message_tx ::
  "time \<Rightarrow> string \<Rightarrow> time \<Rightarrow> u32 \<Rightarrow> local_db \<Rightarrow> client_store_error + local_db" where
  "lc_update_last_message_tx now cid at mid d =
     (let p = (\<lambda>c. c_id c = cid \<and> conv_live c)
      in if count_where p (l_convs d) = 0 then Inl LErrNotFound
         else Inr (d\<lparr>l_convs := update_where p
                (\<lambda>c. c\<lparr>c_last_at := at, c_last_msg := mid, c_updated := now\<rparr>) (l_convs d)\<rparr>))"

definition lc_update_last_message ::
  "time \<Rightarrow> string \<Rightarrow> time \<Rightarrow> u32 \<Rightarrow> local_db \<Rightarrow> client_store_error + local_db" where
  "lc_update_last_message now cid at mid d = lc_update_last_message_tx now cid at mid d"

text \<open>One statement with a \<^verbatim>\<open>CASE WHEN\<close> per column.\<close>

definition advance_cursors :: "string \<Rightarrow> u32 \<Rightarrow> conversation \<Rightarrow> conversation" where
  "advance_cursors uid mid c =
     c\<lparr>c_read1 := (if c_user1 c = uid \<and> mid > c_read1 c then mid else c_read1 c),
       c_read2 := (if c_user2 c = uid \<and> mid > c_read2 c then mid else c_read2 c)\<rparr>"

definition lc_update_last_read_tx ::
  "time \<Rightarrow> string \<Rightarrow> string \<Rightarrow> u32 \<Rightarrow> local_db \<Rightarrow> client_store_error + local_db" where
  "lc_update_last_read_tx now cid uid mid d =
     (let p = (\<lambda>c. (c_id c = cid \<and> (c_user1 c = uid \<or> c_user2 c = uid)) \<and> conv_live c)
      in if count_where p (l_convs d) = 0 then Inl LErrNotFound
         else Inr (d\<lparr>l_convs := update_where p
                (\<lambda>c. (advance_cursors uid mid c)\<lparr>c_updated := now\<rparr>) (l_convs d)\<rparr>))"

definition lc_update_last_read ::
  "time \<Rightarrow> string \<Rightarrow> string \<Rightarrow> u32 \<Rightarrow> local_db \<Rightarrow> client_store_error + local_db" where
  "lc_update_last_read now cid uid mid d = lc_update_last_read_tx now cid uid mid d"

definition lc_search_by_title :: "string \<Rightarrow> string \<Rightarrow> int \<Rightarrow> (char \<Rightarrow> char \<Rightarrow> bool) \<Rightarrow> local_db \<Rightarrow> conversation list" where
  "lc_search_by_title uid title limit0 eqc d =
     (let limit = norm_list_limit limit0
      in if title = [] then []
         else take (nat limit) (select_asc (\<lambda>c. - c_last_at c)
           (\<lambda>c. ((c_user1 c = uid \<or> c_user2 c = uid) \<and> like_substring eqc title (c_title c))
                \<and> conv_live c) (l_convs d)))"

subsection \<open>Messages\<close>

definition lm_get :: "string \<Rightarrow> local_db \<Rightarrow> client_store_error + message" where
  "lm_get mid d =
     (case first_by m_id (\<lambda>m. m_id m = mid \<and> msg_live m) (l_msgs d) of
        None \<Rightarrow> Inl LErrNotFound | Some m \<Rightarrow> Inr m)"

definition lm_get_by_client_message_id :: "string \<Rightarrow> string \<Rightarrow> local_db \<Rightarrow> client_store_error + message" where
  "lm_get_by_client_message_id cmid sender d =
     (case first_by m_id (\<lambda>m. (m_client_id m = cmid \<and> m_sender m = sender) \<and> msg_live m) (l_msgs d) of
        None \<Rightarrow> Inl LErrNotFound | Some m \<Rightarrow> Inr m)"

definition lm_list_by_conversation :: "string \<Rightarrow> u32 \<Rightarrow> int \<Rightarrow> local_db \<Rightarrow> message list" where
  "lm_list_by_conversation cid after limit0 d =
     (let limit = (if limit0 \<le> 0 \<or> limit0 > 200 then 50 else limit0)
      in take (nat limit) (select_asc m_msg_id
           (\<lambda>m. (m_conv m = cid \<and> m_msg_id m > after) \<and> msg_live m) (l_msgs d)))"

definition lm_search_by_conversation ::
  "(char \<Rightarrow> char \<Rightarrow> bool) \<Rightarrow> string \<Rightarrow> string \<Rightarrow> u32 \<Rightarrow> int \<Rightarrow> local_db \<Rightarrow> message list" where
  "lm_search_by_conversation eqc cid content after limit0 d =
     (let limit = (if limit0 \<le> 0 \<or> limit0 > 201 then 50 else limit0)
      in if content = [] then []
         else take (nat limit) (select_asc desc_msg_id
           (\<lambda>m. ((m_conv m = cid \<and> like_substring eqc content (m_content m))
                 \<and> (after > 0 \<longrightarrow> m_msg_id m < after)) \<and> msg_live m) (l_msgs d)))"

definition lm_list_by_time_range :: "string \<Rightarrow> time \<Rightarrow> time \<Rightarrow> int \<Rightarrow> local_db \<Rightarrow> message list" where
  "lm_list_by_time_range cid t1 t2 limit0 d =
     (let limit = (if limit0 \<le> 0 \<or> limit0 > 200 then 50 else limit0)
      in take (nat limit) (select_asc m_msg_id
           (\<lambda>m. (m_conv m = cid \<and> t1 \<le> m_created m \<and> m_created m \<le> t2) \<and> msg_live m) (l_msgs d)))"

definition lm_list_recent :: "string \<Rightarrow> int \<Rightarrow> local_db \<Rightarrow> message list" where
  "lm_list_recent cid limit0 d =
     (let limit = (if limit0 \<le> 0 \<or> limit0 > 500 then 50 else limit0)
      in take (nat limit) (select_asc desc_msg_id (\<lambda>m. m_conv m = cid \<and> msg_live m) (l_msgs d)))"

definition lm_count_unread :: "string \<Rightarrow> u32 \<Rightarrow> local_db \<Rightarrow> nat" where
  "lm_count_unread cid after d =
     count_where (\<lambda>m. (m_conv m = cid \<and> m_msg_id m > after) \<and> msg_live m) (l_msgs d)"

definition lm_soft_delete_tx :: "time \<Rightarrow> string \<Rightarrow> local_db \<Rightarrow> client_store_error + local_db" where
  "lm_soft_delete_tx now mid d =
     (let p = (\<lambda>m. m_id m = mid \<and> msg_live m)
      in if count_where p (l_msgs d) = 0 then Inl LErrNotFound
         else Inr (d\<lparr>l_msgs := update_where p (\<lambda>m. m\<lparr>m_deleted := Some now\<rparr>) (l_msgs d)\<rparr>))"

definition lm_delete :: "time \<Rightarrow> string \<Rightarrow> local_db \<Rightarrow> client_store_error + local_db" where
  "lm_delete now mid d = lm_soft_delete_tx now mid d"

definition lm_restore :: "string \<Rightarrow> local_db \<Rightarrow> client_store_error + local_db" where
  "lm_restore mid d =
     (let p = (\<lambda>m. m_id m = mid \<and> \<not> msg_live m)
      in if count_where p (l_msgs d) = 0 then Inl LErrNotFound
         else Inr (d\<lparr>l_msgs := update_where p (\<lambda>m. m\<lparr>m_deleted := None\<rparr>) (l_msgs d)\<rparr>))"

definition lm_delete_by_conversation :: "time \<Rightarrow> string \<Rightarrow> local_db \<Rightarrow> local_db" where
  "lm_delete_by_conversation now cid d =
     d\<lparr>l_msgs := update_where (\<lambda>m. m_conv m = cid \<and> msg_live m) (\<lambda>m. m\<lparr>m_deleted := Some now\<rparr>) (l_msgs d)\<rparr>"

definition lm_restore_by_conversation :: "string \<Rightarrow> local_db \<Rightarrow> nat \<times> local_db" where
  "lm_restore_by_conversation cid d =
     (let p = (\<lambda>m. m_conv m = cid \<and> \<not> msg_live m)
      in (count_where p (l_msgs d),
          d\<lparr>l_msgs := update_where p (\<lambda>m. m\<lparr>m_deleted := None\<rparr>) (l_msgs d)\<rparr>))"

definition lm_create :: "time \<Rightarrow> message \<Rightarrow> local_db \<Rightarrow> client_store_error + local_db" where
  "lm_create now m d =
     (if list_ex (msg_conflict m) (l_msgs d) then Inl LErrDuplicateKey
      else Inr (d\<lparr>l_msgs := l_msgs d @ [msg_defaults now m]\<rparr>))"

text \<open>\<^verbatim>\<open>updateByID\<close>: content, type and status of the live row with this id; no row is no error.\<close>

definition lm_update_by_id :: "message \<Rightarrow> local_db \<Rightarrow> local_db" where
  "lm_update_by_id m d =
     d\<lparr>l_msgs := update_where (\<lambda>x. m_id x = m_id m \<and> msg_live x)
        (\<lambda>x. x\<lparr>m_content := m_content m, m_type := m_type m, m_status := m_status m\<rparr>) (l_msgs d)\<rparr>"

definition lm_create_or_update_tx :: "time \<Rightarrow> message \<Rightarrow> local_db \<Rightarrow> client_store_error + local_db" where
  "lm_create_or_update_tx now m d =
     (case lm_get (m_id m) d of
        Inl LErrNotFound \<Rightarrow>
          (case lm_create now m d of
             Inl LErrDuplicateKey \<Rightarrow> Inr (lm_update_by_id m d)
           | r \<Rightarrow> r)
      | Inl e \<Rightarrow> Inl e
      | Inr _ \<Rightarrow> Inr (lm_update_by_id m d))"

definition lm_update_by_composite_key :: "message \<Rightarrow> local_db \<Rightarrow> client_store_error + local_db" where
  "lm_update_by_composite_key m d =
     (case lm_get_by_client_message_id (m_client_id m) (m_sender m) d of
        Inl e \<Rightarrow> Inl e
      | Inr x0 \<Rightarrow>
          Inr (d\<lparr>l_msgs := update_where (\<lambda>x. m_id x = m_id x0 \<and> msg_live x)
            (\<lambda>x. x\<lparr>m_conv := m_conv m, m_msg_id := m_msg_id m, m_content := m_content m,
                  m_type := m_type m, m_reply_to := m_reply_to m, m_status := m_status m\<rparr>) (l_msgs d)\<rparr>))"

definition lm_upsert :: "time \<Rightarrow> message \<Rightarrow> local_db \<Rightarrow> client_store_error + local_db" where
  "lm_upsert now m d =
     (case lm_get_by_client_message_id (m_client_id m) (m_sender m) d of
        Inl LErrNotFound \<Rightarrow>
          (case lm_create now m d of
             Inl LErrDuplicateKey \<Rightarrow> lm_update_by_composite_key m d
           | r \<Rightarrow> r)
      | Inl e \<Rightarrow> Inl e
      | Inr _ \<Rightarrow> lm_update_by_composite_key m d)"

subsection \<open>Notification log\<close>

text \<open>Primary key \<open>id\<close>, unique index on \<open>seq\<close>.\<close>

definition ln_save :: "time \<Rightarrow> notification_log \<Rightarrow> local_db \<Rightarrow> client_store_error + local_db" where
  "ln_save now n d =
     (if list_ex (\<lambda>x. n_id x = n_id n \<or> n_seq x = n_seq n) (l_log d) then Inl LErrDuplicateKey
      else Inr (d\<lparr>l_log := l_log d @ [n\<lparr>n_created := (if n_created n = zero_time then now else n_created n)\<rparr>]\<rparr>))"

record notification_filter =
  nf_start :: "time option"
  nf_end :: "time option"
  nf_type :: string
  nf_limit :: int

definition ln_list :: "notification_filter \<Rightarrow> local_db \<Rightarrow> notification_log list" where
  "ln_list f d =
     (let limit = (if nf_limit f \<le> 0 \<or> nf_limit f > 1000 then 100 else nf_limit f)
      in take (nat limit) (select_asc (\<lambda>n. - n_created n)
           (\<lambda>n. (case nf_start f of None \<Rightarrow> True | Some t \<Rightarrow> t \<le> n_created n)
              \<and> (case nf_end f of None \<Rightarrow> True | Some t \<Rightarrow> n_created n \<le> t)
              \<and> (nf_type f \<noteq> [] \<longrightarrow> n_type n = nf_type f)) (l_log d)))"

definition ln_list_by_seq_range :: "u32 \<Rightarrow> u32 \<Rightarrow> local_db \<Rightarrow> notification_log list" where
  "ln_list_by_seq_range a b d = select_asc n_seq (\<lambda>n. a \<le> n_seq n \<and> n_seq n \<le> b) (l_log d)"

definition ln_cleanup_before :: "time \<Rightarrow> local_db \<Rightarrow> nat \<times> local_db" where
  "ln_cleanup_before t d =
     (count_where (\<lambda>n. n_created n < t) (l_log d),
      d\<lparr>l_log := filter (\<lambda>n. \<not> n_created n < t) (l_log d)\<rparr>)"

definition ln_count_before :: "time \<Rightarrow> local_db \<Rightarrow> nat" where
  "ln_count_before t d = count_where (\<lambda>n. n_created n < t) (l_log d)"

definition ln_latest_seq :: "local_db \<Rightarrow> u32" where
  "ln_latest_seq d = max_where (\<lambda>_. True) n_seq (l_log d)"

subsection \<open>Retry queue\<close>

text \<open>Inserting fills in the column defaults of zero values.\<close>

definition lq_save :: "time \<Rightarrow> retry_task \<Rightarrow> local_db \<Rightarrow> client_store_error + local_db" where
  "lq_save now t d =
     (if list_ex (\<lambda>x. q_id x = q_id t) (l_queue d) then Inl LErrDuplicateKey
      else Inr (d\<lparr>l_queue := l_queue d @
        [t\<lparr>q_max_attempts := (if q_max_attempts t = 0 then 5 else q_max_attempts t),
           q_status := (if q_status t = [] then ''pending'' else q_status t),
           q_created := (if q_created t = zero_time then now else q_created t)\<rparr>]\<rparr>))"

definition lq_list_pending :: "time \<Rightarrow> int \<Rightarrow> local_db \<Rightarrow> retry_task list" where
  "lq_list_pending now limit0 d =
     (let limit = (if limit0 \<le> 0 then 50 else limit0)
      in take (nat limit) (select_asc q_next
           (\<lambda>t. q_status t = ''pending'' \<and> q_next t \<le> now) (l_queue d)))"

text \<open>\<^verbatim>\<open>Save(task)\<close> overwrites the row with this id, or inserts it.\<close>

definition lq_update :: "retry_task \<Rightarrow> local_db \<Rightarrow> local_db" where
  "lq_update t d =
     (if list_ex (\<lambda>x. q_id x = q_id t) (l_queue d) then
        d\<lparr>l_queue := update_where (\<lambda>x. q_id x = q_id t) (\<lambda>_. t) (l_queue d)\<rparr>
      else d\<lparr>l_queue := l_queue d @ [t]\<rparr>)"

definition lq_mark_failed :: "string \<Rightarrow> string \<Rightarrow> local_db \<Rightarrow> client_store_error + local_db" where
  "lq_mark_failed i err d =
     (if count_where (\<lambda>x. q_id x = i) (l_queue d) = 0 then Inl LErrNotFound
      else Inr (d\<lparr>l_queue := update_where (\<lambda>x. q_id x = i)
             (\<lambda>x. x\<lparr>q_status := ''failed'', q_last_error := err\<rparr>) (l_queue d)\<rparr>))"

definition lq_delete :: "string \<Rightarrow> local_db \<Rightarrow> client_store_error + local_db" where
  "lq_delete i d =
     (if count_where (\<lambda>x. q_id x = i) (l_queue d) = 0 then Inl LErrNotFound
      else Inr (d\<lparr>l_queue := filter (\<lambda>x. q_id x \<noteq> i) (l_queue d)\<rparr>))"

definition lq_count :: "string \<Rightarrow> local_db \<Rightarrow> nat" where
  "lq_count status d = count_where (\<lambda>t. q_status t = status) (l_queue d)"

subsection \<open>Remote callings\<close>

text \<open>
  \<^verbatim>\<open>Save(rc)\<close>: the row with this id is overwritten, a soft-deleted one included (the update that
  matches no live row is followed by an insertion with all columns updated on conflict).
\<close>

definition lr_upsert :: "time \<Rightarrow> remote_calling \<Rightarrow> local_db \<Rightarrow> local_db" where
  "lr_upsert now rc d =
     (if list_ex (\<lambda>x. rc_id x = rc_id rc) (l_rcs d) then
        d\<lparr>l_rcs := update_where (\<lambda>x. rc_id x = rc_id rc) (\<lambda>_. rc) (l_rcs d)\<rparr>
      else d\<lparr>l_rcs := l_rcs d @
        [rc\<lparr>rc_created := (if rc_created rc = zero_time then now else rc_created rc)\<rparr>]\<rparr>)"

definition lr_get_by_conversation :: "string \<Rightarrow> local_db \<Rightarrow> remote_calling list" where
  "lr_get_by_conversation cid d = select_asc rc_created (\<lambda>r. rc_conv r = cid \<and> rc_live r) (l_rcs d)"

definition lr_get_pending_by_conversation :: "string \<Rightarrow> local_db \<Rightarrow> remote_calling list" where
  "lr_get_pending_by_conversation cid d =
     select_asc rc_created (\<lambda>r. (rc_conv r = cid \<and> rc_stat r = RcPending) \<and> rc_live r) (l_rcs d)"

definition lr_delete_by_conversation :: "time \<Rightarrow> string \<Rightarrow> local_db \<Rightarrow> local_db" where
  "lr_delete_by_conversation now cid d =
     d\<lparr>l_rcs := update_where (\<lambda>r. rc_conv r = cid \<and> rc_live r) (\<lambda>r. r\<lparr>rc_deleted := Some now\<rparr>) (l_rcs d)\<rparr>"

subsection \<open>Drafts\<close>

text \<open>\<^verbatim>\<open>INSERT ... ON CONFLICT (conversation_id) DO UPDATE SET content, updated_at\<close>\<close>

definition ld_save :: "time \<Rightarrow> draft \<Rightarrow> local_db \<Rightarrow> client_store_error + local_db" where
  "ld_save now x d =
     (let x' = x\<lparr>dr_created := (if dr_created x = zero_time then now else dr_created x),
                 dr_updated := (if dr_updated x = zero_time then now else dr_updated x)\<rparr>
      in if list_ex (\<lambda>y. dr_conv y = dr_conv x) (l_drafts d) then
           Inr (d\<lparr>l_drafts := update_where (\<lambda>y. dr_conv y = dr_conv x)
             (\<lambda>y. y\<lparr>dr_content := dr_content x', dr_updated := dr_updated x'\<rparr>) (l_drafts d)\<rparr>)
         else if list_ex (\<lambda>y. dr_id y = dr_id x) (l_drafts d) then Inl LErrDuplicateKey
         else Inr (d\<lparr>l_drafts := l_drafts d @ [x']\<rparr>))"

definition ld_get_by_conversation :: "string \<Rightarrow> local_db \<Rightarrow> client_store_error + draft" where
  "ld_get_by_conversation cid d =
     (case first_by dr_id (\<lambda>x. dr_conv x = cid) (l_drafts d) of
        None \<Rightarrow> Inl LErrNotFound | Some x \<Rightarrow> Inr x)"

definition ld_delete :: "string \<Rightarrow> local_db \<Rightarrow> client_store_error + local_db" where
  "ld_delete i d =
     (if count_where (\<lambda>x. dr_id x = i) (l_drafts d) = 0 then Inl LErrNotFound
      else Inr (d\<lparr>l_drafts := filter (\<lambda>x. dr_id x \<noteq> i) (l_drafts d)\<rparr>))"

definition ld_delete_by_conversation :: "string \<Rightarrow> local_db \<Rightarrow> client_store_error + local_db" where
  "ld_delete_by_conversation cid d =
     (if count_where (\<lambda>x. dr_conv x = cid) (l_drafts d) = 0 then Inl LErrNotFound
      else Inr (d\<lparr>l_drafts := filter (\<lambda>x. dr_conv x \<noteq> cid) (l_drafts d)\<rparr>))"

definition ld_list :: "local_db \<Rightarrow> draft list" where
  "ld_list d = select_asc (\<lambda>x. - dr_updated x) (\<lambda>_. True) (l_drafts d)"

end
