(* ===== verification/ClientSync.thy ===== *)
theory ClientSync
  imports ClientTables SyncHandler
begin

text \<open>
  The client's synchronisation manager (\<^verbatim>\<open>pkg/client/sync.go\<close>): applying one update in a
  transaction, applying a batch, the debounced pull and the full synchronisation.  The remote
  calls it makes are arguments; \<open>None\<close> stands for a call that does not return before the context is
  cancelled.  The database has a single connection (\<^verbatim>\<open>SetMaxOpenConns(1)\<close>), so a statement that is
  issued on the database handle while the transaction holds the connection does not return either.
\<close>

subsection \<open>Decoding payloads\<close>

text \<open>
  \<^verbatim>\<open>json.Unmarshal\<close> into a struct sets the fields the document has under the field's name, leaves
  the others zero, and fails on a document that does not parse or has a member of another JSON
  type.  The null document changes nothing.
\<close>

definition zero_message :: message where
  "zero_message = \<lparr>m_id = [], m_client_id = [], m_conv = [], m_msg_id = 0, m_sender = [], m_content = [],
     m_type = [], m_reply_to = 0, m_status = [], m_summarized = False, m_created = zero_time,
     m_deleted = None\<rparr>"

definition zero_conversation :: conversation where
  "zero_conversation = \<lparr>c_id = [], c_user1 = [], c_user2 = [], c_type = [], c_title = [], c_pinned = False,
     c_muted = False, c_avatar = [], c_desc = [], c_last_msg = 0, c_created = zero_time,
     c_updated = zero_time, c_last_at = zero_time, c_read1 = 0, c_read2 = 0, c_agent_status = [],
     c_agent_id = [], c_checkpoint = [], c_agent_act = zero_time, c_deleted = None\<rparr>"

fun as_message :: "payload \<Rightarrow> message option" where
  "as_message (PMessage m) = Some (m\<lparr>m_summarized := False\<rparr>)"
| "as_message (PDeleteMessage mid cid n) = None"
| "as_message (PMarkRead cid n) = Some (zero_message\<lparr>m_conv := cid\<rparr>)"
| "as_message (PConvAction cid act u) = Some (zero_message\<lparr>m_conv := cid\<rparr>)"
| "as_message (PConvCreate act c) = Some zero_message"
| "as_message (PConversation c) = Some (zero_message\<lparr>m_id := c_id c, m_type := c_type c,
     m_created := c_created c, m_deleted := c_deleted c\<rparr>)"
| "as_message (PTyping u cid t a ts) = Some (zero_message\<lparr>m_conv := cid\<rparr>)"
| "as_message (PStreaming st u cid t dn a ts) = Some (zero_message\<lparr>m_conv := cid\<rparr>)"
| "as_message (PAgentStatus u cid st ts) = Some (zero_message\<lparr>m_conv := cid, m_status := st\<rparr>)"
| "as_message (PAgentTimeout u cid r ts) = Some (zero_message\<lparr>m_conv := cid\<rparr>)"
| "as_message (PFunctionCall u cid n ar r er ms dn ts) = Some (zero_message\<lparr>m_conv := cid\<rparr>)"
| "as_message PNull = Some zero_message"
| "as_message PMalformed = None"

text \<open>The member \<^verbatim>\<open>conversation_id\<close> of a document, empty where there is none.\<close>

fun payload_conversation :: "payload \<Rightarrow> string" where
  "payload_conversation (PMessage m) = m_conv m"
| "payload_conversation (PDeleteMessage mid cid n) = cid"
| "payload_conversation (PMarkRead cid n) = cid"
| "payload_conversation (PConvAction cid act u) = cid"
| "payload_conversation (PTyping u cid t a ts) = cid"
| "payload_conversation (PStreaming st u cid t dn a ts) = cid"
| "payload_conversation (PAgentStatus u cid st ts) = cid"
| "payload_conversation (PAgentTimeout u cid r ts) = cid"
| "payload_conversation (PFunctionCall u cid n ar r er ms dn ts) = cid"
| "payload_conversation _ = []"

fun payload_user :: "payload \<Rightarrow> string" where
  "payload_user (PTyping u cid t a ts) = u"
| "payload_user (PStreaming st u cid t dn a ts) = u"
| "payload_user (PAgentStatus u cid st ts) = u"
| "payload_user (PAgentTimeout u cid r ts) = u"
| "payload_user (PFunctionCall u cid n ar r er ms dn ts) = u"
| "payload_user _ = []"

fun payload_is_agent :: "payload \<Rightarrow> bool" where
  "payload_is_agent (PTyping u cid t a ts) = a"
| "payload_is_agent (PStreaming st u cid t dn a ts) = a"
| "payload_is_agent _ = False"

fun payload_status :: "payload \<Rightarrow> string" where
  "payload_status (PMessage m) = m_status m"
| "payload_status (PAgentStatus u cid st ts) = st"
| "payload_status _ = []"

definition as_typing :: "payload \<Rightarrow> (string \<times> string \<times> bool \<times> bool) option" where
  "as_typing pl =
     (if pl = PMalformed then None
      else Some (payload_user pl, payload_conversation pl,
                 (case pl of PTyping _ _ t _ _ \<Rightarrow> t | _ \<Rightarrow> False), payload_is_agent pl))"

definition as_streaming :: "payload \<Rightarrow> (string \<times> string \<times> string \<times> string \<times> bool \<times> bool) option" where
  "as_streaming pl =
     (if pl = PMalformed then None
      else Some (payload_user pl, payload_conversation pl,
                 (case pl of PStreaming st _ _ _ _ _ _ \<Rightarrow> st | _ \<Rightarrow> []),
                 (case pl of PStreaming _ _ _ t _ _ _ \<Rightarrow> t | _ \<Rightarrow> []),
                 (case pl of PStreaming _ _ _ _ dn _ _ \<Rightarrow> dn
                  | PFunctionCall _ _ _ _ _ _ _ dn _ \<Rightarrow> dn | _ \<Rightarrow> False), payload_is_agent pl))"

definition as_agent_status :: "payload \<Rightarrow> (string \<times> string \<times> string) option" where
  "as_agent_status pl =
     (if pl = PMalformed then None
      else Some (payload_user pl, payload_conversation pl, payload_status pl))"

definition as_agent_timeout :: "payload \<Rightarrow> (string \<times> string \<times> string) option" where
  "as_agent_timeout pl =
     (if pl = PMalformed then None
      else Some (payload_user pl, payload_conversation pl,
                 (case pl of PAgentTimeout _ _ r _ \<Rightarrow> r | _ \<Rightarrow> [])))"

text \<open>\<^verbatim>\<open>deleteMessagePayload\<close>; the \<^verbatim>\<open>message_id\<close> of a message document is a number.\<close>

fun as_delete_message :: "payload \<Rightarrow> (string \<times> string) option" where
  "as_delete_message PMalformed = None"
| "as_delete_message (PMessage m) = None"
| "as_delete_message (PDeleteMessage mid cid n) = Some (mid, cid)"
| "as_delete_message pl = Some ([], payload_conversation pl)"

text \<open>\<^verbatim>\<open>markReadPayload\<close>\<close>

fun as_mark_read :: "payload \<Rightarrow> (string \<times> u32) option" where
  "as_mark_read PMalformed = None"
| "as_mark_read (PMarkRead cid n) = Some (cid, n)"
| "as_mark_read pl = Some (payload_conversation pl, 0)"

text \<open>
  \<^verbatim>\<open>conversationUpdatePayload\<close> with \<^verbatim>\<open>updatedAtUnix\<close>: conversation, action, and the update time in
  Unix seconds, 0 where it is absent.
\<close>

fun as_conversation_update :: "payload \<Rightarrow> (string \<times> string \<times> int) option" where
  "as_conversation_update PMalformed = None"
| "as_conversation_update (PConvAction cid act u) =
     Some (cid, act, case u of None \<Rightarrow> 0 | Some n \<Rightarrow> n)"
| "as_conversation_update (PConvCreate act c) = Some ([], act, 0)"
| "as_conversation_update (PConversation c) = Some ([], [], c_updated c div second)"
| "as_conversation_update pl = Some (payload_conversation pl, [], 0)"

text \<open>\<^verbatim>\<open>createConversationUpdatePayload\<close>: the embedded conversation, if there is one.\<close>

fun as_create_conversation :: "payload \<Rightarrow> conversation option option" where
  "as_create_conversation PMalformed = None"
| "as_create_conversation (PConvCreate act c) = Some (Some c)"
| "as_create_conversation pl = Some None"

fun as_conversation :: "payload \<Rightarrow> conversation option" where
  "as_conversation PMalformed = None"
| "as_conversation (PConversation c) = Some c"
| "as_conversation (PMessage m) = Some (zero_conversation\<lparr>c_id := m_id m, c_type := m_type m,
     c_created := m_created m, c_deleted := m_deleted m\<rparr>)"
| "as_conversation pl = Some zero_conversation"

subsection \<open>Environment\<close>

text \<open>The call sites at which the local database can fail.\<close>

datatype local_call =
    LGetSeq | LSaveLog | LSetSeqDedup | LSetSeq
  | LUpsertMessage | LUpdateLastMessage | LDeleteMessage | LUpdateLastRead
  | LDeleteConversation | LRestoreConversation | LUpsertConversation | LGetConversation
  | LDeleteRemoteCallings | LUpsertRemoteCalling string | LCommit

text \<open>
  The outcome of a \<^verbatim>\<open>get_conversation\<close> call: an error, or data that does not decode, or the decoded
  conversation (possibly null) with its remote callings.
\<close>

datatype fetch_result =
    FetchFailed
  | FetchUndecodable
  | Fetched "conversation option" "remote_calling list"

record apply_env =
  ae_user :: string
  ae_id :: string
  ae_clock :: "nat \<Rightarrow> time"
  ae_fault :: "local_call \<Rightarrow> client_store_error option"
  ae_fetch :: "nat \<Rightarrow> string \<Rightarrow> fetch_result option"
  ae_cancelled :: "nat \<Rightarrow> bool"

datatype apply_error =
    StoreFailed client_store_error
  | Undecodable
  | UnknownUpdateType string
  | UnknownAction string
  | RpcFailed
  | NilConversation
  | ContextDone

datatype sync_error = SeqGap | SyncFailed apply_error

text \<open>The calls of the application's \<^verbatim>\<open>UpdateHandler\<close>; their errors are ignored.\<close>

datatype event =
    OnMessage message
  | OnDeleteMessage string string
  | OnMarkRead string u32
  | OnConversation conversation
  | OnTyping string string bool bool
  | OnStreaming string string string string bool bool
  | OnAgentStatus string string string
  | OnAgentTimeout string string string
  | OnGap u32

definition guarded :: "apply_env \<Rightarrow> local_call \<Rightarrow> client_store_error + 'a \<Rightarrow> client_store_error + 'a" where
  "guarded env call r = (case ae_fault env call of Some e \<Rightarrow> Inl e | None \<Rightarrow> r)"

text \<open>An operation for which a missing record is acceptable.\<close>

definition tolerate_missing :: "local_db \<Rightarrow> client_store_error + local_db \<Rightarrow> apply_error + local_db" where
  "tolerate_missing d r =
     (case r of Inr d' \<Rightarrow> Inr d' | Inl e \<Rightarrow> if e = LErrNotFound then Inr d else Inl (StoreFailed e))"

definition strict :: "client_store_error + 'a \<Rightarrow> apply_error + 'a" where
  "strict r = (case r of Inr d' \<Rightarrow> Inr d' | Inl e \<Rightarrow> Inl (StoreFailed e))"

subsection \<open>Dispatch inside the transaction\<close>

text \<open>The insertion stamps the message object, so the pointer update sees the stamped time.\<close>

definition handle_message_tx :: "apply_env \<Rightarrow> payload \<Rightarrow> local_db \<Rightarrow> apply_error + local_db" where
  "handle_message_tx env pl d =
     (case as_message pl of
        None \<Rightarrow> Inl Undecodable
      | Some msg0 \<Rightarrow>
          let msg = (case lm_get (m_id msg0) d of
                       Inl _ \<Rightarrow> msg_defaults (ae_clock env 1) msg0 | Inr _ \<Rightarrow> msg0)
          in (case guarded env LUpsertMessage (lm_create_or_update_tx (ae_clock env 1) msg0 d) of
                Inl e \<Rightarrow> Inl (StoreFailed e)
              | Inr d1 \<Rightarrow>
                  tolerate_missing d1 (guarded env LUpdateLastMessage
                    (lc_update_last_message_tx (ae_clock env 2) (m_conv msg) (m_created msg) (m_msg_id msg) d1))))"

definition handle_delete_message_tx :: "apply_env \<Rightarrow> payload \<Rightarrow> local_db \<Rightarrow> apply_error + local_db" where
  "handle_delete_message_tx env pl d =
     (case as_delete_message pl of
        None \<Rightarrow> Inl Undecodable
      | Some (mid, cid) \<Rightarrow>
          tolerate_missing d (guarded env LDeleteMessage (lm_soft_delete_tx (ae_clock env 1) mid d)))"

definition handle_mark_read_tx :: "apply_env \<Rightarrow> payload \<Rightarrow> local_db \<Rightarrow> apply_error + local_db" where
  "handle_mark_read_tx env pl d =
     (case as_mark_read pl of
        None \<Rightarrow> Inl Undecodable
      | Some (cid, n) \<Rightarrow>
          tolerate_missing d (guarded env LUpdateLastRead
            (lc_update_last_read_tx (ae_clock env 1) cid (ae_user env) n d)))"

definition handle_conversation_delete_tx :: "apply_env \<Rightarrow> string \<Rightarrow> local_db \<Rightarrow> apply_error + local_db" where
  "handle_conversation_delete_tx env cid d =
     tolerate_missing d (guarded env LDeleteConversation
       (lc_soft_delete (ae_clock env 1) (ae_clock env 2) cid d))"

text \<open>
  \<^verbatim>\<open>fetchAndUpsertConversationTx\<close>.  The remote callings are deleted on the transaction and written
  back on the database handle, which waits for the connection the transaction holds.
\<close>

definition clear_remote_callings :: "apply_env \<Rightarrow> conversation \<Rightarrow> remote_calling list \<Rightarrow> local_db \<Rightarrow> local_db" where
  "clear_remote_callings env conv fetched d =
     (if c_agent_status conv \<noteq> AgentStatusAskingUser \<or> fetched \<noteq> [] then
        (case guarded env LDeleteRemoteCallings (Inr (lr_delete_by_conversation (ae_clock env 3) (c_id conv) d)) of
           Inl _ \<Rightarrow> d | Inr d' \<Rightarrow> d')
      else d)"

definition fetch_and_upsert_conversation_tx ::
  "apply_env \<Rightarrow> string \<Rightarrow> local_db \<Rightarrow> (apply_error + local_db) option" where
  "fetch_and_upsert_conversation_tx env cid d =
     (case ae_fetch env 0 cid of
        None \<Rightarrow> None
      | Some FetchFailed \<Rightarrow> Some (Inl RpcFailed)
      | Some FetchUndecodable \<Rightarrow> Some (Inl Undecodable)
      | Some (Fetched None _) \<Rightarrow> Some (Inl NilConversation)
      | Some (Fetched (Some conv) callings) \<Rightarrow>
          (case guarded env LUpsertConversation (lc_upsert (ae_clock env 2) conv d) of
             Inl e \<Rightarrow> Some (Inl (StoreFailed e))
           | Inr d1 \<Rightarrow>
               let d2 = clear_remote_callings env conv callings d1
               in if callings = [] then Some (Inr d2) else None))"

definition handle_conversation_restore_tx ::
  "apply_env \<Rightarrow> string \<Rightarrow> local_db \<Rightarrow> (apply_error + local_db) option" where
  "handle_conversation_restore_tx env cid d =
     (case guarded env LRestoreConversation (lc_restore_tx (ae_clock env 1) cid d) of
        Inr d' \<Rightarrow> Some (Inr d')
      | Inl e \<Rightarrow> if e = LErrNotFound then fetch_and_upsert_conversation_tx env cid d
                 else Some (Inl (StoreFailed e)))"

definition handle_conversation_create_tx :: "apply_env \<Rightarrow> payload \<Rightarrow> local_db \<Rightarrow> apply_error + local_db" where
  "handle_conversation_create_tx env pl d =
     (case as_create_conversation pl of
        None \<Rightarrow> Inl Undecodable
      | Some None \<Rightarrow> Inl NilConversation
      | Some (Some conv) \<Rightarrow> strict (guarded env LUpsertConversation (lc_upsert (ae_clock env 1) conv d)))"

definition handle_conversation_upsert_tx :: "apply_env \<Rightarrow> payload \<Rightarrow> local_db \<Rightarrow> apply_error + local_db" where
  "handle_conversation_upsert_tx env pl d =
     (case as_conversation pl of
        None \<Rightarrow> Inl Undecodable
      | Some conv \<Rightarrow> strict (guarded env LUpsertConversation (lc_upsert (ae_clock env 1) conv d)))"

text \<open>With a time stamp the local row is read on the database handle first.\<close>

definition handle_conversation_update_tx ::
  "apply_env \<Rightarrow> string \<Rightarrow> int \<Rightarrow> local_db \<Rightarrow> (apply_error + local_db) option" where
  "handle_conversation_update_tx env cid updated_at d =
     (if updated_at > 0 then None else fetch_and_upsert_conversation_tx env cid d)"

definition handle_conversation_tx ::
  "apply_env \<Rightarrow> payload \<Rightarrow> local_db \<Rightarrow> (apply_error + local_db) option" where
  "handle_conversation_tx env pl d =
     (case as_conversation_update pl of
        None \<Rightarrow> Some (Inl Undecodable)
      | Some (cid, act, at) \<Rightarrow>
          if act = ''delete'' then Some (handle_conversation_delete_tx env cid d)
          else if act = ''restore'' then handle_conversation_restore_tx env cid d
          else if act = ''create'' then Some (handle_conversation_create_tx env pl d)
          else if act = ''update'' then handle_conversation_update_tx env cid at d
          else if act = [] then Some (handle_conversation_upsert_tx env pl d)
          else Some (Inl (UnknownAction act)))"

definition dispatch_update_tx ::
  "apply_env \<Rightarrow> data_update \<Rightarrow> local_db \<Rightarrow> (apply_error + local_db) option" where
  "dispatch_update_tx env u d =
     (let ty = du_type u; pl = du_payload u in
      if ty = UpdateTypeMessage then Some (handle_message_tx env pl d)
      else if ty = UpdateTypeDeleteMessage then Some (handle_delete_message_tx env pl d)
      else if ty = UpdateTypeMarkRead then Some (handle_mark_read_tx env pl d)
      else if ty = UpdateTypeConversation then handle_conversation_tx env pl d
      else if ty \<in> {UpdateTypeGap, UpdateTypeTyping, UpdateTypeStreaming, UpdateTypeAgentStatus,
                    UpdateTypeAgentTimeout} then Some (Inr d)
      else Some (Inl (UnknownUpdateType ty)))"

subsection \<open>Notifications\<close>

text \<open>\<^verbatim>\<open>notifyHandler\<close>: the calls made for an update; a payload that does not decode makes none.\<close>

definition notify_handler :: "data_update \<Rightarrow> event list" where
  "notify_handler u =
     (let ty = du_type u; pl = du_payload u in
      if ty = UpdateTypeMessage then (case as_message pl of None \<Rightarrow> [] | Some m \<Rightarrow> [OnMessage m])
      else if ty = UpdateTypeDeleteMessage then
        (case as_delete_message pl of None \<Rightarrow> [] | Some (m, c) \<Rightarrow> [OnDeleteMessage m c])
      else if ty = UpdateTypeMarkRead then
        (case as_mark_read pl of None \<Rightarrow> [] | Some (c, n) \<Rightarrow> [OnMarkRead c n])
      else if ty = UpdateTypeConversation then
        (case as_conversation_update pl of None \<Rightarrow> []
         | Some (c, _) \<Rightarrow> [OnConversation (zero_conversation\<lparr>c_id := c\<rparr>)])
      else if ty = UpdateTypeTyping then
        (case as_typing pl of None \<Rightarrow> [] | Some (usr, c, t, a) \<Rightarrow> [OnTyping usr c t a])
      else if ty = UpdateTypeStreaming then
        (case as_streaming pl of None \<Rightarrow> []
         | Some (usr, c, st, t, dn, a) \<Rightarrow> [OnStreaming usr c st t dn a])
      else if ty = UpdateTypeAgentStatus then
        (case as_agent_status pl of None \<Rightarrow> [] | Some (usr, c, st) \<Rightarrow> [OnAgentStatus usr c st])
      else if ty = UpdateTypeAgentTimeout then
        (case as_agent_timeout pl of None \<Rightarrow> [] | Some (usr, c, r) \<Rightarrow> [OnAgentTimeout usr c r])
      else if ty = UpdateTypeGap then [OnGap (du_seq u)]
      else [])"

subsection \<open>Ephemeral conversation updates\<close>

definition conversationFetchRetries :: nat where "conversationFetchRetries = 3"

text \<open>
  The retry loop of \<^verbatim>\<open>handleEphemeralConversationUpdate\<close>: \<open>Inl True\<close> when the context was cancelled
  during the back-off, \<open>Inl False\<close> when the attempts are used up, \<open>None\<close> when a call does not return.
\<close>

fun fetch_attempts :: "nat \<Rightarrow> nat \<Rightarrow> apply_env \<Rightarrow> string \<Rightarrow> (bool + fetch_result) option" where
  "fetch_attempts 0 attempt env cid = Some (Inl False)"
| "fetch_attempts (Suc n) attempt env cid =
     (case ae_fetch env attempt cid of
        None \<Rightarrow> None
      | Some FetchFailed \<Rightarrow>
          if attempt < conversationFetchRetries - 1 then
            (if ae_cancelled env attempt then Some (Inl True)
             else fetch_attempts n (Suc attempt) env cid)
          else Some (Inl False)
      | Some r \<Rightarrow> Some (Inr r))"

fun upsert_remote_callings :: "apply_env \<Rightarrow> remote_calling list \<Rightarrow> local_db \<Rightarrow> local_db" where
  "upsert_remote_callings env [] d = d"
| "upsert_remote_callings env (r # rs) d =
     upsert_remote_callings env rs
       (case guarded env (LUpsertRemoteCalling (rc_id r)) (Inr (lr_upsert (ae_clock env 4) r d)) of
          Inl _ \<Rightarrow> d | Inr d' \<Rightarrow> d')"

text \<open>The part after the freshness test: fetch, store what was fetched, tell the handler.\<close>

definition fetch_for_notification ::
  "apply_env \<Rightarrow> data_update \<Rightarrow> string \<Rightarrow> local_db \<Rightarrow> (local_db \<times> event list) option" where
  "fetch_for_notification env u cid d =
     (case fetch_attempts conversationFetchRetries 0 env cid of
        None \<Rightarrow> None
      | Some (Inr (Fetched (Some conv) callings)) \<Rightarrow>
          let d1 = (case guarded env LUpsertConversation (lc_upsert (ae_clock env 2) conv d) of
                      Inl _ \<Rightarrow> d | Inr d' \<Rightarrow> d');
              d2 = clear_remote_callings env conv callings d1;
              d3 = upsert_remote_callings env callings d2
          in Some (d3, [OnConversation conv])
      | Some _ \<Rightarrow> Some (d, notify_handler u))"

definition handle_ephemeral_conversation_update ::
  "apply_env \<Rightarrow> data_update \<Rightarrow> local_db \<Rightarrow> (local_db \<times> event list) option" where
  "handle_ephemeral_conversation_update env u d =
     (case as_conversation_update (du_payload u) of
        None \<Rightarrow> Some (d, [])
      | Some (cid, act, at) \<Rightarrow>
          if act \<noteq> ''update'' then Some (d, notify_handler u)
          else
            (case (if at > 0 then guarded env LGetConversation (lc_get cid d) else Inl LErrNotFound) of
               Inr local \<Rightarrow>
                 if at \<le> c_updated local div second then Some (d, [OnConversation local])
                 else fetch_for_notification env u cid d
             | Inl _ \<Rightarrow> fetch_for_notification env u cid d))"

subsection \<open>Applying updates\<close>

text \<open>
  \<^verbatim>\<open>ApplyUpdate\<close>: the error, the database and the calls of the handler.  A failing transaction is
  rolled back.  After the commit the handler is told, also about an update found in the log.
\<close>

definition apply_tx :: "apply_env \<Rightarrow> data_update \<Rightarrow> local_db \<Rightarrow> (apply_error + local_db) option" where
  "apply_tx env u d =
     (let entry = \<lparr>n_id = ae_id env, n_seq = du_seq u, n_type = du_type u, n_payload = du_payload u,
                   n_created = ae_clock env 0\<rparr> in
      case guarded env LSaveLog (ln_save (ae_clock env 0) entry d) of
        Inl e \<Rightarrow>
          if e = LErrDuplicateKey then
            Some (strict (guarded env LSetSeqDedup (Inr (set_local_max_seq (ae_clock env 5) (du_seq u) d))))
          else Some (Inl (StoreFailed e))
      | Inr d1 \<Rightarrow>
          (case dispatch_update_tx env u d1 of
             None \<Rightarrow> None
           | Some (Inl e) \<Rightarrow> Some (Inl e)
           | Some (Inr d2) \<Rightarrow>
               Some (strict (guarded env LSetSeq (Inr (set_local_max_seq (ae_clock env 5) (du_seq u) d2))))))"

definition apply_update ::
  "apply_env \<Rightarrow> data_update \<Rightarrow> local_db \<Rightarrow> (sync_error option \<times> local_db \<times> event list) option" where
  "apply_update env u d =
     (if du_seq u = 0 then
        (if du_type u = UpdateTypeConversation then
           map_option (\<lambda>(d', es). (None, d', es)) (handle_ephemeral_conversation_update env u d)
         else Some (None, d, notify_handler u))
      else
        (case guarded env LGetSeq (get_local_max_seq d) of
           Inl e \<Rightarrow> Some (Some (SyncFailed (StoreFailed e)), d, [])
         | Inr local_max \<Rightarrow>
             if du_seq u \<le> local_max then Some (None, d, [])
             else if du_seq u > local_max + 1 then Some (Some SeqGap, d, [])
             else
               (case apply_tx env u d of
                  None \<Rightarrow> None
                | Some r \<Rightarrow>
                    (case (case r of Inl e \<Rightarrow> Inl e | Inr d' \<Rightarrow> strict (guarded env LCommit (Inr d'))) of
                       Inl e \<Rightarrow> Some (Some (SyncFailed e), d, [])
                     | Inr d' \<Rightarrow> Some (None, d', notify_handler u)))))"

record sync_mgr =
  sm_db :: local_db
  sm_pull_pending :: bool
  sm_retry_armed :: bool
  sm_events :: "event list"

text \<open>\<^verbatim>\<open>scheduleDebouncedPull\<close>: an armed timer is not armed again.\<close>

definition schedule_debounced_pull :: "sync_mgr \<Rightarrow> sync_mgr" where
  "schedule_debounced_pull sm = (if sm_pull_pending sm then sm else sm\<lparr>sm_pull_pending := True\<rparr>)"

fun apply_updates_from ::
  "nat \<Rightarrow> (nat \<Rightarrow> apply_env) \<Rightarrow> data_update list \<Rightarrow> sync_mgr \<Rightarrow> (sync_error option \<times> sync_mgr) option" where
  "apply_updates_from i envs [] sm = Some (None, sm)"
| "apply_updates_from i envs (u # us) sm =
     (case apply_update (envs i) u (sm_db sm) of
        None \<Rightarrow> None
      | Some (Some e, d, es) \<Rightarrow>
          let sm1 = sm\<lparr>sm_db := d, sm_events := sm_events sm @ es\<rparr>
          in Some (Some e, if e = SeqGap then schedule_debounced_pull sm1 else sm1)
      | Some (None, d, es) \<Rightarrow>
          apply_updates_from (Suc i) envs us (sm\<lparr>sm_db := d, sm_events := sm_events sm @ es\<rparr>))"

definition apply_updates ::
  "(nat \<Rightarrow> apply_env) \<Rightarrow> data_update list \<Rightarrow> sync_mgr \<Rightarrow> (sync_error option \<times> sync_mgr) option" where
  "apply_updates envs us sm = apply_updates_from 0 envs us sm"

subsection \<open>Pulling\<close>

text \<open>The outcome of a \<^verbatim>\<open>sync_updates\<close> call.\<close>

datatype pull_result = PullFailed | PullUndecodable | Pulled syncUpdatesResponse

text \<open>The environment of a pull, per page: the call, the environment of the updates, faults.\<close>

record pull_env =
  pe_call :: "nat \<Rightarrow> u32 \<Rightarrow> int \<Rightarrow> pull_result option"
  pe_apply :: "nat \<Rightarrow> nat \<Rightarrow> apply_env"
  pe_batch :: int
  pe_clock :: "nat \<Rightarrow> time"
  pe_cancelled :: "nat \<Rightarrow> bool"
  pe_fault_get :: "nat \<Rightarrow> client_store_error option"
  pe_fault_set :: "nat \<Rightarrow> client_store_error option"

definition or_fault :: "client_store_error option \<Rightarrow> client_store_error + 'a \<Rightarrow> client_store_error + 'a" where
  "or_fault f r = (case f of Some e \<Rightarrow> Inl e | None \<Rightarrow> r)"

text \<open>One pull of the debounce timer.  The flag \<open>sm_retry_armed\<close> stands for the five-second retry timer.\<close>

definition debounced_pull :: "pull_env \<Rightarrow> sync_mgr \<Rightarrow> sync_mgr option" where
  "debounced_pull pe sm0 =
     (let sm = sm0\<lparr>sm_pull_pending := False\<rparr> in
      case or_fault (pe_fault_get pe 0) (get_local_max_seq (sm_db sm)) of
        Inl e \<Rightarrow> Some sm
      | Inr after \<Rightarrow>
          (case pe_call pe 0 after (pe_batch pe) of
             None \<Rightarrow> None
           | Some PullFailed \<Rightarrow> Some sm
           | Some PullUndecodable \<Rightarrow> Some sm
           | Some (Pulled resp) \<Rightarrow>
               (case apply_updates (pe_apply pe 0) (sur_updates resp) sm of
                  None \<Rightarrow> None
                | Some (Some e, sm1) \<Rightarrow> Some (sm1\<lparr>sm_retry_armed := True\<rparr>)
                | Some (None, sm1) \<Rightarrow>
                    let sm2 = (case or_fault (pe_fault_set pe 0)
                                 (Inr (set_latest_seq (pe_clock pe 0) (sur_latest_seq resp) (sm_db sm1))) of
                                 Inl _ \<Rightarrow> sm1 | Inr d \<Rightarrow> sm1\<lparr>sm_db := d\<rparr>)
                    in Some (if sur_has_more resp then schedule_debounced_pull sm2 else sm2))))"

text \<open>
  \<^verbatim>\<open>FullSync\<close>: page after page until \<^verbatim>\<open>has_more\<close> is false.  One turn of the loop either returns
  (\<open>Inl\<close>) or goes on with the cursor it reads back (\<open>Inr\<close>).  A gap is logged and the loop goes on.  A
  synchronisation that never ends is \<open>None\<close>.
\<close>

definition full_sync_page ::
  "pull_env \<Rightarrow> nat \<Rightarrow> u32 \<Rightarrow> sync_mgr \<Rightarrow> ((sync_error option \<times> sync_mgr) + (u32 \<times> sync_mgr)) option" where
  "full_sync_page pe k after sm =
     (if pe_cancelled pe k then Some (Inl (Some (SyncFailed ContextDone), sm))
      else
        (case pe_call pe k after (pe_batch pe) of
           None \<Rightarrow> None
         | Some PullFailed \<Rightarrow> Some (Inl (Some (SyncFailed RpcFailed), sm))
         | Some PullUndecodable \<Rightarrow> Some (Inl (Some (SyncFailed Undecodable), sm))
         | Some (Pulled resp) \<Rightarrow>
             (case apply_updates (pe_apply pe k) (sur_updates resp) sm of
                None \<Rightarrow> None
              | Some (err, sm1) \<Rightarrow>
                  if err \<noteq> None \<and> err \<noteq> Some SeqGap then Some (Inl (err, sm1))
                  else
                    (case or_fault (pe_fault_set pe k)
                            (Inr (set_latest_seq (pe_clock pe k) (sur_latest_seq resp) (sm_db sm1))) of
                       Inl e \<Rightarrow> Some (Inl (Some (SyncFailed (StoreFailed e)), sm1))
                     | Inr d \<Rightarrow>
                         let sm2 = sm1\<lparr>sm_db := d\<rparr> in
                         if \<not> sur_has_more resp then Some (Inl (None, sm2))
                         else
                           (case or_fault (pe_fault_get pe (Suc k)) (get_local_max_seq (sm_db sm2)) of
                              Inl e \<Rightarrow> Some (Inl (Some (SyncFailed (StoreFailed e)), sm2))
                            | Inr after' \<Rightarrow> Some (Inr (after', sm2)))))))"

partial_function (option) full_sync_loop ::
  "pull_env \<Rightarrow> nat \<Rightarrow> u32 \<Rightarrow> sync_mgr \<Rightarrow> (sync_error option \<times> sync_mgr) option" where
  "full_sync_loop pe k after sm =
     Option.bind (full_sync_page pe k after sm)
       (\<lambda>r. case r of Inl res \<Rightarrow> Some res | Inr (after', sm') \<Rightarrow> full_sync_loop pe (Suc k) after' sm')"

definition full_sync :: "pull_env \<Rightarrow> sync_mgr \<Rightarrow> (sync_error option \<times> sync_mgr) option" where
  "full_sync pe sm =
     (case or_fault (pe_fault_get pe 0) (get_local_max_seq (sm_db sm)) of
        Inl e \<Rightarrow> Some (Some (SyncFailed (StoreFailed e)), sm)
      | Inr after \<Rightarrow> full_sync_loop pe 0 after sm)"

end
