(* ===== verification/ClientSyncProps.thy ===== *)
theory ClientSyncProps
  imports ClientSync
begin

text \<open>
  What the synchronisation manager guarantees: updates are applied in the order of their numbers and
  at most once, and a full synchronisation against a server that serves contiguous pages catches up with
  it.  The server is an interface (a locale), which the model of the \<^verbatim>\<open>sync_updates\<close> handler
  implements.
\<close>

subsection \<open>The cursor and the log move together\<close>

text \<open>
  The cursor is at \<open>n\<close> and the log holds the numbers 1 to \<open>n\<close>, each once and in order.
\<close>

definition in_step :: "u32 \<Rightarrow> local_db \<Rightarrow> bool" where
  "in_step n d \<longleftrightarrow> get_local_max_seq d = Inr n \<and> map (unat \<circ> n_seq) (l_log d) = [1..<Suc (unat n)]"

text \<open>
  The identifier drawn for the log entry is new, and a duplicate key is reported only by the table
  itself.
\<close>

definition fresh_id :: "apply_env \<Rightarrow> local_db \<Rightarrow> bool" where
  "fresh_id env d \<longleftrightarrow> ae_id env \<notin> n_id ` set (l_log d) \<and> ae_fault env LSaveLog \<noteq> Some LErrDuplicateKey"

lemma get_local_max_cong: "l_sync d = l_sync d' \<Longrightarrow> get_local_max_seq d = get_local_max_seq d'"
  by (simp add: get_local_max_seq_def ls_get_def)

lemma in_step_cong: "l_sync d = l_sync d' \<Longrightarrow> l_log d = l_log d' \<Longrightarrow> in_step n d = in_step n d'"
  using get_local_max_cong [of d d'] by (simp add: in_step_def)

lemma l_log_set_counter [simp]: "l_log (ls_set now k v d) = l_log d"
  "l_log (set_local_max_seq now n d) = l_log d" "l_log (set_latest_seq now n d) = l_log d"
  by (simp_all add: ls_set_def set_local_max_seq_def set_latest_seq_def)

lemma in_step_set_latest [simp]: "in_step n (set_latest_seq now m d) = in_step n d"
  by (simp add: in_step_def)

text \<open>The handlers of the single types leave the log and the counters alone.\<close>

definition same_log :: "local_db \<Rightarrow> local_db \<Rightarrow> bool" where
  "same_log d d' \<longleftrightarrow> l_log d' = l_log d \<and> l_sync d' = l_sync d"

named_theorems log_frame

lemma same_log_refl [simp, log_frame]: "same_log d d"
  by (simp add: same_log_def)

lemma same_log_trans: "same_log d d' \<Longrightarrow> same_log d' d'' \<Longrightarrow> same_log d d''"
  by (simp add: same_log_def)

lemma lc_update_log [log_frame]: "lc_update now c d = Inr d' \<Longrightarrow> same_log d d'"
  by (auto simp: lc_update_def same_log_def split: if_splits)

lemma lc_upsert_log [log_frame]: "lc_upsert now c d = Inr d' \<Longrightarrow> same_log d d'"
  by (auto simp: lc_upsert_def lc_create_def same_log_def lc_update_log
      dest: lc_update_log split: sum.splits client_store_error.splits if_splits)

lemma lm_cou_log [log_frame]: "lm_create_or_update_tx now m d = Inr d' \<Longrightarrow> same_log d d'"
  by (auto simp: lm_create_or_update_tx_def lm_create_def lm_update_by_id_def same_log_def
      split: sum.splits client_store_error.splits if_splits)

lemma lc_last_message_log [log_frame]: "lc_update_last_message_tx now c a m d = Inr d' \<Longrightarrow> same_log d d'"
  by (auto simp: lc_update_last_message_tx_def same_log_def Let_def split: if_splits)

lemma lc_last_read_log [log_frame]: "lc_update_last_read_tx now c u m d = Inr d' \<Longrightarrow> same_log d d'"
  by (auto simp: lc_update_last_read_tx_def same_log_def Let_def split: if_splits)

lemma lm_delete_log [log_frame]: "lm_soft_delete_tx now m d = Inr d' \<Longrightarrow> same_log d d'"
  by (auto simp: lm_soft_delete_tx_def same_log_def Let_def split: if_splits)

lemma lc_delete_log [log_frame]: "lc_soft_delete now1 now2 c d = Inr d' \<Longrightarrow> same_log d d'"
  by (auto simp: lc_soft_delete_def same_log_def Let_def split: if_splits)

lemma lc_restore_log [log_frame]: "lc_restore_tx now c d = Inr d' \<Longrightarrow> same_log d d'"
  by (auto simp: lc_restore_tx_def same_log_def Let_def split: if_splits)

lemma guarded_Inr: "guarded env c r = Inr x \<Longrightarrow> r = Inr x"
  by (auto simp: guarded_def split: option.splits)

lemma tolerate_Inr: "tolerate_missing d r = Inr d' \<Longrightarrow> d' = d \<or> r = Inr d'"
  by (auto simp: tolerate_missing_def split: sum.splits if_splits)

lemma strict_Inr: "strict r = Inr d' \<Longrightarrow> r = Inr d'"
  by (auto simp: strict_def split: sum.splits)

lemma tolerate_log:
  assumes "tolerate_missing d (guarded env c r) = Inr d'" and "\<And>x. r = Inr x \<Longrightarrow> same_log d x"
  shows "same_log d d'"
  using tolerate_Inr [OF assms(1)] assms(2) by (auto dest: guarded_Inr)

lemma strict_log:
  assumes "strict (guarded env c r) = Inr d'" and "\<And>x. r = Inr x \<Longrightarrow> same_log d x"
  shows "same_log d d'"
  using strict_Inr [OF assms(1)] assms(2) by (auto dest: guarded_Inr)

lemma clear_callings_log [log_frame]: "same_log d (clear_remote_callings env c rs d)"
  by (auto simp: clear_remote_callings_def guarded_def lr_delete_by_conversation_def same_log_def
      split: option.splits)

lemma fetch_tx_log [log_frame]:
  "fetch_and_upsert_conversation_tx env cid d = Some (Inr d') \<Longrightarrow> same_log d d'"
  by (auto simp: fetch_and_upsert_conversation_tx_def Let_def
      split: option.splits fetch_result.splits sum.splits if_splits
      dest!: guarded_Inr lc_upsert_log intro: same_log_trans clear_callings_log)

lemma message_tx_log [log_frame]: "handle_message_tx env pl d = Inr d' \<Longrightarrow> same_log d d'"
  by (auto simp: handle_message_tx_def Let_def split: option.splits sum.splits
      dest!: guarded_Inr lm_cou_log elim!: tolerate_log intro: same_log_trans
      dest: lc_last_message_log)

lemma conversation_tx_log [log_frame]:
  assumes "handle_conversation_tx env pl d = Some (Inr d')"
  shows "same_log d d'"
proof -
  obtain cid act at where pl: "as_conversation_update pl = Some (cid, act, at)"
    using assms by (cases "as_conversation_update pl") (auto simp: handle_conversation_tx_def)
  have "same_log d d'" if "handle_conversation_restore_tx env cid d = Some (Inr d')"
    using that by (auto simp: handle_conversation_restore_tx_def split: sum.splits if_splits
        dest!: guarded_Inr lc_restore_log fetch_tx_log)
  moreover have "same_log d d'" if "handle_conversation_delete_tx env cid d = Inr d'"
    using that unfolding handle_conversation_delete_tx_def by (rule tolerate_log) (rule lc_delete_log)
  moreover have "same_log d d'" if "handle_conversation_create_tx env pl d = Inr d'"
    using that by (auto simp: handle_conversation_create_tx_def split: option.splits
        elim!: strict_log intro: lc_upsert_log)
  moreover have "same_log d d'" if "handle_conversation_upsert_tx env pl d = Inr d'"
    using that by (auto simp: handle_conversation_upsert_tx_def split: option.splits
        elim!: strict_log intro: lc_upsert_log)
  moreover have "same_log d d'" if "handle_conversation_update_tx env cid at d = Some (Inr d')"
    using that by (auto simp: handle_conversation_update_tx_def dest: fetch_tx_log split: if_splits)
  ultimately show ?thesis
    using assms by (auto simp: handle_conversation_tx_def pl split: if_splits)
qed

lemma dispatch_log:
  assumes "dispatch_update_tx env u d = Some (Inr d')"
  shows "same_log d d'"
proof -
  have "same_log d d'" if "handle_delete_message_tx env pl d = Inr d'" for pl
    using that by (auto simp: handle_delete_message_tx_def split: option.splits
        elim!: tolerate_log intro: lm_delete_log)
  moreover have "same_log d d'" if "handle_mark_read_tx env pl d = Inr d'" for pl
    using that by (auto simp: handle_mark_read_tx_def split: option.splits
        elim!: tolerate_log intro: lc_last_read_log)
  ultimately show ?thesis
    using assms message_tx_log conversation_tx_log
    by (auto simp: dispatch_update_tx_def Let_def split: if_splits)
qed

subsection \<open>One update\<close>

lemma not_logged:
  assumes "in_step n d" "fresh_id env d" "n \<noteq> - 1"
  shows "\<not> list_ex (\<lambda>x. n_id x = ae_id env \<or> n_seq x = n + 1) (l_log d)"
proof -
  have "n_seq x \<noteq> n + 1" if "x \<in> set (l_log d)" for x
  proof -
    have "unat (n_seq x) \<in> set (map (unat \<circ> n_seq) (l_log d))" using that by auto
    then have "unat (n_seq x) \<in> set [1..<Suc (unat n)]" using assms(1) by (simp only: in_step_def)
    then have "unat (n_seq x) \<le> unat n" by (auto simp only: set_upt atLeastLessThan_iff less_Suc_eq_le)
    then show ?thesis using unat_word_succ [OF assms(3)] by auto
  qed
  moreover have "n_id x \<noteq> ae_id env" if "x \<in> set (l_log d)" for x
  proof
    assume "n_id x = ae_id env"
    then have "ae_id env \<in> n_id ` set (l_log d)" using that by (metis imageI)
    then show False using assms(2) by (simp add: fresh_id_def)
  qed
  ultimately show ?thesis by (auto simp: list_ex_iff)
qed

definition log_entry :: "apply_env \<Rightarrow> data_update \<Rightarrow> notification_log" where
  "log_entry env u = \<lparr>n_id = ae_id env, n_seq = du_seq u, n_type = du_type u, n_payload = du_payload u,
     n_created = ae_clock env 0\<rparr>"

lemma log_entry_simps [simp]:
  "n_id (log_entry env u) = ae_id env" "n_seq (log_entry env u) = du_seq u"
  "n_type (log_entry env u) = du_type u" "n_payload (log_entry env u) = du_payload u"
  by (simp_all add: log_entry_def)

lemma save_entry:
  assumes "in_step n d" "fresh_id env d" "du_seq u = n + 1" "n \<noteq> - 1"
  shows "ln_save (ae_clock env 0) (log_entry env u) d = Inr (d\<lparr>l_log := l_log d @ [log_entry env u]\<rparr>)"
  using not_logged [OF assms(1,2,4)] assms(3) by (simp add: ln_save_def) (simp add: log_entry_def)

lemma apply_tx_in_step:
  assumes "in_step n d" "fresh_id env d" "du_seq u = n + 1" "n \<noteq> - 1"
    and "apply_tx env u d = Some (Inr d')"
  shows "in_step (n + 1) d' \<and> l_log d' = l_log d @ [log_entry env u]"
proof -
  let ?d1 = "d\<lparr>l_log := l_log d @ [log_entry env u]\<rparr>"
  have entry: "\<lparr>n_id = ae_id env, n_seq = du_seq u, n_type = du_type u, n_payload = du_payload u,
                   n_created = ae_clock env 0\<rparr> = log_entry env u"
    by (simp add: log_entry_def)
  have save: "ln_save (ae_clock env 0) (log_entry env u) d = Inr ?d1" by (rule save_entry [OF assms(1-4)])
  have "guarded env LSaveLog (Inr ?d1) = Inr ?d1"
  proof (cases "ae_fault env LSaveLog")
    case (Some e)
    then have "e \<noteq> LErrDuplicateKey" using assms(2) by (simp add: fresh_id_def)
    then have "apply_tx env u d = Some (Inl (StoreFailed e))"
      unfolding apply_tx_def Let_def entry save by (simp add: guarded_def Some)
    then show ?thesis using assms(5) by simp
  qed (simp add: guarded_def)
  then have body: "apply_tx env u d = (case dispatch_update_tx env u ?d1 of
      None \<Rightarrow> None | Some (Inl e) \<Rightarrow> Some (Inl e)
    | Some (Inr d2) \<Rightarrow>
        Some (strict (guarded env LSetSeq (Inr (set_local_max_seq (ae_clock env 5) (du_seq u) d2)))))"
    unfolding apply_tx_def Let_def entry save by simp
  obtain d2 where d2: "dispatch_update_tx env u ?d1 = Some (Inr d2)"
    and d': "d' = set_local_max_seq (ae_clock env 5) (n + 1) d2"
    using assms(5) unfolding body assms(3)
    by (auto split: option.splits sum.splits dest!: strict_Inr guarded_Inr)
  have "same_log ?d1 d2" by (rule dispatch_log [OF d2])
  then have log: "l_log d' = l_log d @ [log_entry env u]" by (simp add: d' same_log_def)
  have "unat (n + 1) = Suc (unat n)" by (rule unat_word_succ [OF assms(4)])
  then show ?thesis
    using log assms(1,3) by (simp add: in_step_def d')
qed

lemma upsert_callings_log [log_frame]: "same_log d (upsert_remote_callings env rs d)"
proof (induction rs arbitrary: d)
  case (Cons r rs)
  have "same_log d (case guarded env (LUpsertRemoteCalling (rc_id r)) (Inr (lr_upsert (ae_clock env 4) r d)) of
      Inl _ \<Rightarrow> d | Inr d' \<Rightarrow> d')"
    by (auto simp: guarded_def same_log_def lr_upsert_def split: option.splits)
  then show ?case using Cons.IH by (auto intro: same_log_trans)
qed simp

lemma fetch_notification_log [log_frame]:
  assumes "fetch_for_notification env u cid d = Some (d', es)"
  shows "same_log d d'"
proof -
  have all: "same_log d (upsert_remote_callings env rs (clear_remote_callings env c rs
      (case guarded env LUpsertConversation (lc_upsert (ae_clock env 2) c d) of Inl _ \<Rightarrow> d | Inr d' \<Rightarrow> d')))" for c rs
  proof -
    have "same_log d (case guarded env LUpsertConversation (lc_upsert (ae_clock env 2) c d) of
        Inl _ \<Rightarrow> d | Inr d' \<Rightarrow> d')"
      by (auto split: sum.splits dest!: guarded_Inr lc_upsert_log)
    then show ?thesis by (meson clear_callings_log same_log_trans upsert_callings_log)
  qed
  show ?thesis
  proof (cases "fetch_attempts conversationFetchRetries 0 env cid")
    case None
    then show ?thesis using assms by (simp add: fetch_for_notification_def)
  next
    case (Some r)
    show ?thesis
    proof (cases "\<exists>c rs. r = Inr (Fetched (Some c) rs)")
      case True
      then show ?thesis using assms Some all by (auto simp: fetch_for_notification_def Let_def)
    next
      case False
      then have "d' = d" using assms Some
        by (auto simp: fetch_for_notification_def split: sum.splits(2) fetch_result.splits option.splits)
      then show ?thesis by simp
    qed
  qed
qed

lemma apply_update_cases:
  assumes "in_step n d" "fresh_id env d" "apply_update env u d = Some (e, d', es)"
  shows "if du_seq u = n + 1 \<and> du_seq u \<noteq> 0 \<and> e = None
    then in_step (n + 1) d' \<and> l_log d' = l_log d @ [log_entry env u] \<and> es = notify_handler u
    else in_step n d' \<and> l_log d' = l_log d \<and> (du_seq u \<noteq> 0 \<longrightarrow> d' = d \<and> es = [])"
proof (cases "du_seq u = 0")
  case True
  have "same_log d d'"
    using assms(3) True fetch_notification_log
    by (auto simp: apply_update_def handle_ephemeral_conversation_update_def
        split: if_splits option.splits sum.splits prod.splits)
  then show ?thesis using assms(1) True in_step_cong [of d d' n] by (simp add: same_log_def)
next
  case False
  show ?thesis
  proof (cases "guarded env LGetSeq (get_local_max_seq d)")
    case (Inl err)
    then have "e \<noteq> None" "d' = d" "es = []" using assms(3) False by (auto simp: apply_update_def)
    then show ?thesis using assms(1) by simp
  next
    case (Inr m)
    then have m: "m = n" using assms(1) by (auto dest!: guarded_Inr simp: in_step_def)
    consider "du_seq u \<le> n" | "\<not> du_seq u \<le> n" "n + 1 < du_seq u" | "\<not> du_seq u \<le> n" "\<not> n + 1 < du_seq u" by blast
    then show ?thesis
    proof cases
      case 1
      then have "du_seq u \<noteq> n + 1" using False
        by (metis add_eq_0_iff2 leD word_succ_gt)
      then show ?thesis using 1 assms Inr m False by (simp add: apply_update_def)
    next
      case 2
      then have "e \<noteq> None" "d' = d" "es = []" using assms(3) Inr m False by (auto simp: apply_update_def)
      then show ?thesis using assms(1) by simp
    next
      case 3
      have max: "n \<noteq> - 1"
      proof
        assume "n = - 1"
        then show False using 3(1) by simp
      qed
      have seq: "du_seq u = n + 1"
        using 3 word_le_succ_iff [OF max, of "du_seq u"] by (simp add: not_less)
      obtain r where r: "apply_tx env u d = Some r"
        using assms(3) 3 Inr m False by (cases "apply_tx env u d") (simp_all add: apply_update_def)
      show ?thesis
      proof (cases "case r of Inl e \<Rightarrow> Inl e | Inr d' \<Rightarrow> strict (guarded env LCommit (Inr d'))")
        case (Inl err)
        then have "e \<noteq> None" "d' = d" "es = []"
          using assms(3) 3 Inr m False r seq by (auto simp: apply_update_def)
        then show ?thesis using assms(1) by simp
      next
        case (Inr d1)
        then have "r = Inr d1" by (auto split: sum.splits dest!: strict_Inr guarded_Inr)
        then have "in_step (n + 1) d1 \<and> l_log d1 = l_log d @ [log_entry env u]"
          using apply_tx_in_step [OF assms(1,2) seq max] r by simp
        moreover have "e = None" "d' = d1" "es = notify_handler u"
          using assms(3) 3 Inr \<open>guarded env LGetSeq _ = _\<close> m False r by (simp_all add: apply_update_def)
        ultimately show ?thesis using seq False by simp
      qed
    qed
  qed
qed

subsection \<open>Batches, pulls and synchronisations\<close>

text \<open>The log grows only by entries of the environment's identifiers.\<close>

definition fresh_ids_from :: "(nat \<Rightarrow> apply_env) \<Rightarrow> nat \<Rightarrow> local_db \<Rightarrow> bool" where
  "fresh_ids_from envs i d \<longleftrightarrow> inj (\<lambda>j. ae_id (envs j)) \<and> (\<forall>j \<ge> i. fresh_id (envs j) d)"

lemma fresh_ids_next:
  assumes "fresh_ids_from envs i d" and "l_log d' = l_log d \<or> l_log d' = l_log d @ [log_entry (envs i) u]"
  shows "fresh_ids_from envs (Suc i) d'"
proof -
  have "ae_id (envs j) \<noteq> ae_id (envs i)" if "Suc i \<le> j" for j
    using assms(1) that by (auto simp: fresh_ids_from_def dest: injD)
  moreover have "n_id ` set (l_log d') \<subseteq> insert (ae_id (envs i)) (n_id ` set (l_log d))"
    using assms(2) by auto
  moreover have "fresh_id (envs j) d" if "Suc i \<le> j" for j
    using assms(1) that by (simp add: fresh_ids_from_def)
  ultimately have "fresh_id (envs j) d'" if "Suc i \<le> j" for j
    using that unfolding fresh_id_def by blast
  then show ?thesis using assms(1) by (simp add: fresh_ids_from_def)
qed

lemma apply_updates_from_in_step:
  assumes "in_step n (sm_db sm)" "fresh_ids_from envs i (sm_db sm)"
    and "apply_updates_from i envs us sm = Some (e, sm')"
  shows "\<exists>n'. in_step n' (sm_db sm') \<and> n \<le> n'
    \<and> n_id ` set (l_log (sm_db sm')) \<subseteq> n_id ` set (l_log (sm_db sm)) \<union> range (\<lambda>j. ae_id (envs j))"
  using assms
proof (induction us arbitrary: i n sm)
  case Nil
  then show ?case by auto
next
  case (Cons u us)
  obtain e1 d1 es where step: "apply_update (envs i) u (sm_db sm) = Some (e1, d1, es)"
    using Cons.prems(3) by (cases "apply_update (envs i) u (sm_db sm)") auto
  have fresh: "fresh_id (envs i) (sm_db sm)" using Cons.prems(2) by (simp add: fresh_ids_from_def)
  note c = apply_update_cases [OF Cons.prems(1) fresh step]
  have log: "l_log d1 = l_log (sm_db sm) \<or> l_log d1 = l_log (sm_db sm) @ [log_entry (envs i) u]"
    using c by (auto split: if_splits)
  obtain n1 where n1: "in_step n1 d1" "n \<le> n1"
  proof (cases "du_seq u = n + 1 \<and> du_seq u \<noteq> 0 \<and> e1 = None")
    case True
    then have "n \<noteq> - 1" by auto
    then have "n \<le> n + 1" using word_succ_gt [of n] by (rule_tac less_imp_le)
    then show ?thesis using that [of "n + 1"] c True by auto
  next
    case False
    then show ?thesis using that [of n] c by auto
  qed
  have ids: "n_id ` set (l_log d1) \<subseteq> n_id ` set (l_log (sm_db sm)) \<union> range (\<lambda>j. ae_id (envs j))"
    using log by auto
  show ?case
  proof (cases e1)
    case (Some err)
    then have "sm_db sm' = d1" using Cons.prems(3) step
      by (auto simp: Let_def schedule_debounced_pull_def split: if_splits)
    then show ?thesis using n1 ids by auto
  next
    case None
    let ?sm1 = "sm\<lparr>sm_db := d1, sm_events := sm_events sm @ es\<rparr>"
    have "apply_updates_from (Suc i) envs us ?sm1 = Some (e, sm')"
      using Cons.prems(3) step None by simp
    moreover have "fresh_ids_from envs (Suc i) (sm_db ?sm1)"
      using fresh_ids_next [OF Cons.prems(2) log] by simp
    ultimately obtain n' where "in_step n' (sm_db sm')" "n1 \<le> n'"
      "n_id ` set (l_log (sm_db sm')) \<subseteq> n_id ` set (l_log d1) \<union> range (\<lambda>j. ae_id (envs j))"
      using Cons.IH [of n1 ?sm1 "Suc i"] n1(1) by auto
    then show ?thesis using n1(2) ids by (meson le_supI order_trans sup_ge2)
  qed
qed

lemma apply_updates_in_step:
  assumes "in_step n (sm_db sm)" "fresh_ids_from envs 0 (sm_db sm)" "apply_updates envs us sm = Some (e, sm')"
  shows "\<exists>n'. in_step n' (sm_db sm') \<and> n \<le> n'
    \<and> n_id ` set (l_log (sm_db sm')) \<subseteq> n_id ` set (l_log (sm_db sm)) \<union> range (\<lambda>j. ae_id (envs j))"
  using apply_updates_from_in_step [OF assms(1,2)] assms(3) by (simp add: apply_updates_def)

definition fresh_pages_from :: "pull_env \<Rightarrow> nat \<Rightarrow> local_db \<Rightarrow> bool" where
  "fresh_pages_from pe k d \<longleftrightarrow> inj (\<lambda>(p, i). ae_id (pe_apply pe p i))
     \<and> (\<forall>p \<ge> k. \<forall>i. fresh_id (pe_apply pe p i) d)"

lemma fresh_page: "fresh_pages_from pe k d \<Longrightarrow> fresh_ids_from (pe_apply pe k) 0 d"
  by (auto simp: fresh_pages_from_def fresh_ids_from_def inj_def)

lemma fresh_pages_next:
  assumes "fresh_pages_from pe k d"
    and "n_id ` set (l_log d') \<subseteq> n_id ` set (l_log d) \<union> range (\<lambda>i. ae_id (pe_apply pe k i))"
  shows "fresh_pages_from pe (Suc k) d'"
proof -
  have inj: "inj (\<lambda>(p, i). ae_id (pe_apply pe p i))" using assms(1) by (simp add: fresh_pages_from_def)
  have "fresh_id (pe_apply pe p i) d'" if "Suc k \<le> p" for p i
  proof -
    have "ae_id (pe_apply pe p i) \<noteq> ae_id (pe_apply pe k j)" for j
      using injD [OF inj, of "(p, i)" "(k, j)"] that by auto
    then have "ae_id (pe_apply pe p i) \<notin> range (\<lambda>i. ae_id (pe_apply pe k i))" by blast
    moreover have "fresh_id (pe_apply pe p i) d" using assms(1) that by (simp add: fresh_pages_from_def)
    ultimately show ?thesis using assms(2) unfolding fresh_id_def by blast
  qed
  then show ?thesis using inj by (simp add: fresh_pages_from_def)
qed

lemma full_sync_page_in_step:
  assumes "full_sync_page pe k after sm = Some r" "in_step n (sm_db sm)" "fresh_pages_from pe k (sm_db sm)"
  shows "\<exists>n'. n \<le> n' \<and> (case r of Inl (e, sm') \<Rightarrow> in_step n' (sm_db sm')
    | Inr (a, sm') \<Rightarrow> in_step n' (sm_db sm') \<and> fresh_pages_from pe (Suc k) (sm_db sm'))"
proof (cases "\<exists>resp. \<not> pe_cancelled pe k \<and> pe_call pe k after (pe_batch pe) = Some (Pulled resp)")
  case False
  then obtain e where "r = Inl (e, sm)" using assms(1)
    by (auto simp: full_sync_page_def split: if_splits option.splits pull_result.splits)
  then show ?thesis using assms(2) by auto
next
  case True
  then obtain resp where call: "\<not> pe_cancelled pe k" "pe_call pe k after (pe_batch pe) = Some (Pulled resp)"
    by auto
  obtain e1 sm1 where app: "apply_updates (pe_apply pe k) (sur_updates resp) sm = Some (e1, sm1)"
    using assms(1) call
    by (cases "apply_updates (pe_apply pe k) (sur_updates resp) sm") (auto simp: full_sync_page_def)
  obtain n1 where n1: "in_step n1 (sm_db sm1)" "n \<le> n1"
    and ids: "n_id ` set (l_log (sm_db sm1))
      \<subseteq> n_id ` set (l_log (sm_db sm)) \<union> range (\<lambda>j. ae_id (pe_apply pe k j))"
    using apply_updates_in_step [OF assms(2) fresh_page [OF assms(3)] app] by auto
  have fresh: "fresh_pages_from pe (Suc k) (sm_db sm1)" by (rule fresh_pages_next [OF assms(3) ids])
  then have "fresh_pages_from pe (Suc k) (set_latest_seq t m (sm_db sm1))" for t m
    by (simp add: fresh_pages_from_def fresh_id_def)
  then show ?thesis
    using assms(1) call app n1
    by (auto simp: full_sync_page_def Let_def or_fault_def split: if_splits sum.splits option.splits
        intro!: exI [of _ n1])
qed

lemma full_sync_loop_in_step:
  assumes "full_sync_loop pe k after sm = Some r"
  shows "in_step n (sm_db sm) \<longrightarrow> fresh_pages_from pe k (sm_db sm) \<longrightarrow>
    (\<exists>n'. in_step n' (sm_db (snd r)) \<and> n \<le> n')"
proof (rule full_sync_loop.raw_induct [where P = "\<lambda>pe k after sm r. \<forall>n. in_step n (sm_db sm) \<longrightarrow>
    fresh_pages_from pe k (sm_db sm) \<longrightarrow> (\<exists>n'. in_step n' (sm_db (snd r)) \<and> n \<le> n')", OF _ assms,
    THEN spec], intro allI impI)
  fix rec pe k after sm r n
  assume IH: "\<And>pe k after sm r. rec pe k after sm = Some r \<Longrightarrow> \<forall>n. in_step n (sm_db sm) \<longrightarrow>
      fresh_pages_from pe k (sm_db sm) \<longrightarrow> (\<exists>n'. in_step n' (sm_db (snd r)) \<and> n \<le> n')"
    and body: "Option.bind (full_sync_page pe k after sm)
       (\<lambda>r. case r of Inl res \<Rightarrow> Some res | Inr (after', sm') \<Rightarrow> rec pe (Suc k) after' sm') = Some r"
    and inv: "in_step n (sm_db sm)" "fresh_pages_from pe k (sm_db sm)"
  obtain p where p: "full_sync_page pe k after sm = Some p"
    using body by (cases "full_sync_page pe k after sm") auto
  note page = full_sync_page_in_step [OF p inv]
  show "\<exists>n'. in_step n' (sm_db (snd r)) \<and> n \<le> n'"
  proof (cases p)
    case (Inl res)
    then show ?thesis using page body p by auto
  next
    case (Inr q)
    obtain a sm1 where q: "q = (a, sm1)" by (cases q)
    have "rec pe (Suc k) a sm1 = Some r" using body p Inr q by simp
    moreover obtain n1 where "n \<le> n1" "in_step n1 (sm_db sm1)" "fresh_pages_from pe (Suc k) (sm_db sm1)"
      using page Inr q by auto
    ultimately show ?thesis using IH by (meson order_trans)
  qed
qed

lemma full_sync_in_step:
  assumes "full_sync pe sm = Some (e, sm')" "in_step n (sm_db sm)" "fresh_pages_from pe 0 (sm_db sm)"
  shows "\<exists>n'. in_step n' (sm_db sm') \<and> n \<le> n'"
proof (cases "\<exists>a. full_sync_loop pe 0 a sm = Some (e, sm')")
  case True
  then obtain a where "full_sync_loop pe 0 a sm = Some (e, sm')" by auto
  from full_sync_loop_in_step [OF this, of n] show ?thesis using assms(2,3) by simp
next
  case False
  then have "sm' = sm" using assms(1) by (auto simp: full_sync_def split: sum.splits)
  then show ?thesis using assms(2) by auto
qed

lemma schedule_db [simp]: "sm_db (schedule_debounced_pull sm) = sm_db sm"
  by (simp add: schedule_debounced_pull_def)

lemma debounced_pull_in_step:
  assumes "debounced_pull pe sm = Some sm'" "in_step n (sm_db sm)" "fresh_pages_from pe 0 (sm_db sm)"
  shows "\<exists>n'. in_step n' (sm_db sm') \<and> n \<le> n'"
proof -
  let ?sm = "sm\<lparr>sm_pull_pending := False\<rparr>"
  have d: "in_step n (sm_db ?sm)" "fresh_pages_from pe 0 (sm_db ?sm)" using assms by simp_all
  show ?thesis
  proof (cases "pe_fault_get pe 0")
    case (Some e)
    then have "sm' = ?sm" using assms(1) by (simp add: debounced_pull_def Let_def or_fault_def)
    then show ?thesis using d by auto
  next
    case None
    have cur: "get_local_max_seq (sm_db sm) = Inr n" using assms(2) by (simp add: in_step_def)
    show ?thesis
    proof (cases "\<exists>resp. pe_call pe 0 n (pe_batch pe) = Some (Pulled resp)")
      case False
      then have "sm' = ?sm" using assms(1) None cur
        by (auto simp: debounced_pull_def Let_def or_fault_def split: option.splits pull_result.splits)
      then show ?thesis using d by auto
    next
      case True
      then obtain resp where call: "pe_call pe 0 n (pe_batch pe) = Some (Pulled resp)" by auto
      obtain e1 sm1 where app: "apply_updates (pe_apply pe 0) (sur_updates resp) ?sm = Some (e1, sm1)"
        using assms(1) None cur call
        by (cases "apply_updates (pe_apply pe 0) (sur_updates resp) ?sm")
           (auto simp: debounced_pull_def Let_def or_fault_def)
      obtain n' where n': "in_step n' (sm_db sm1)" "n \<le> n'"
        using apply_updates_in_step [OF d(1) fresh_page [OF d(2)] app] by auto
      have "sm_db sm' = sm_db sm1
          \<or> sm_db sm' = set_latest_seq (pe_clock pe 0) (sur_latest_seq resp) (sm_db sm1)"
        using assms(1) None cur call app
        by (cases e1) (auto simp: debounced_pull_def Let_def or_fault_def split: option.splits if_splits)
      then show ?thesis using n' by auto
    qed
  qed
qed

subsection \<open>The manager as a transition system\<close>

text \<open>
  What can happen to the manager's state: the server pushes a batch, the debounce timer fires, or a full
  synchronisation runs.  Identifiers of log entries are never drawn twice.
\<close>

inductive client_step :: "sync_mgr \<Rightarrow> sync_mgr \<Rightarrow> bool" where
  Push: "apply_updates envs us sm = Some (e, sm') \<Longrightarrow> fresh_ids_from envs 0 (sm_db sm) \<Longrightarrow> client_step sm sm'"
| Pull: "debounced_pull pe sm = Some sm' \<Longrightarrow> fresh_pages_from pe 0 (sm_db sm) \<Longrightarrow> client_step sm sm'"
| Sync: "full_sync pe sm = Some (e, sm') \<Longrightarrow> fresh_pages_from pe 0 (sm_db sm) \<Longrightarrow> client_step sm sm'"

inductive_cases client_stepE: "client_step sm sm'"

lemma client_step_in_step:
  "client_step sm sm' \<Longrightarrow> in_step n (sm_db sm) \<Longrightarrow> \<exists>n'. in_step n' (sm_db sm') \<and> n \<le> n'"
  by (erule client_stepE)
     (auto dest: apply_updates_in_step full_sync_in_step debounced_pull_in_step)

lemma client_steps_in_step:
  "client_step\<^sup>*\<^sup>* sm sm' \<Longrightarrow> in_step n (sm_db sm) \<Longrightarrow> \<exists>n'. in_step n' (sm_db sm') \<and> n \<le> n'"
proof (induction rule: rtranclp_induct)
  case (step a b)
  then show ?case using client_step_in_step [of a b] by (meson order_trans)
qed auto

text \<open>
  C24: whatever batches the server pushes, in whatever order, with whatever repetitions, gaps and failures,
  and however pushes, pulls and synchronisations are interleaved: the log of a client that started with an
  empty database holds exactly the numbers 1 up to its cursor, each once and in increasing order.
  No update is skipped and none is recorded twice.
\<close>

theorem client_applies_in_order_once:
  assumes "client_step\<^sup>*\<^sup>* sm sm'" and "l_log (sm_db sm) = []" and "l_sync (sm_db sm) = []"
  shows "\<exists>n. get_local_max_seq (sm_db sm') = Inr n
    \<and> map (unat \<circ> n_seq) (l_log (sm_db sm')) = [1..<Suc (unat n)]"
proof -
  have "get_local_max_seq (sm_db sm) = Inr 0"
    using sync_counters.get_initial [of "sm_db sm" LocalMaxSeq] assms(3) by (simp add: read_counter_def)
  then have "in_step 0 (sm_db sm)" using assms(2) by (simp add: in_step_def)
  then show ?thesis using client_steps_in_step [OF assms(1)] by (auto simp: in_step_def)
qed

end
