(* ===== verification/SyncRefinement.thy ===== *)
theory SyncRefinement
  imports ClientSyncProps
begin

text \<open>
  Client and server together: a full synchronisation of the client's manager against a server that
  answers \<^verbatim>\<open>sync_updates\<close> with contiguous pages.  The server is a locale; the model of the handler
  interprets it.
\<close>

subsection \<open>Applying the next update\<close>

definition quiet :: "apply_env \<Rightarrow> bool" where
  "quiet env \<longleftrightarrow> (\<forall>c. ae_fault env c = None)"

lemma quiet_guarded [simp]: "quiet env \<Longrightarrow> guarded env c r = r"
  by (simp add: quiet_def guarded_def)

lemma strict_Inr_simp [simp]: "strict (Inr d) = Inr d"
  by (simp add: strict_def)

text \<open>
  Two things make the manager wait for the one connection its own transaction holds: a logged
  conversation update with a time stamp, and a conversation fetched with pending remote callings.
\<close>

definition nonblocking :: "data_update \<Rightarrow> bool" where
  "nonblocking u \<longleftrightarrow> (du_type u = UpdateTypeConversation \<longrightarrow>
     (case as_conversation_update (du_payload u) of
        None \<Rightarrow> True | Some (cid, act, at) \<Rightarrow> act = ''update'' \<longrightarrow> at \<le> 0))"

definition prompt_fetch :: "apply_env \<Rightarrow> bool" where
  "prompt_fetch env \<longleftrightarrow> (\<forall>cid. \<exists>r. ae_fetch env 0 cid = Some r \<and> (\<forall>conv rs. r = Fetched conv rs \<longrightarrow> rs = []))"

lemma prompt_fetch_upsert: "prompt_fetch env \<Longrightarrow> fetch_and_upsert_conversation_tx env cid d \<noteq> None"
  unfolding prompt_fetch_def
  by (elim allE [of _ cid] exE conjE)
    (auto simp: fetch_and_upsert_conversation_tx_def Let_def split: fetch_result.splits option.splits sum.splits)

lemma nonblocking_dispatch: "nonblocking u \<Longrightarrow> prompt_fetch env \<Longrightarrow> dispatch_update_tx env u d \<noteq> None"
  using prompt_fetch_upsert [of env]
  by (auto simp: nonblocking_def dispatch_update_tx_def Let_def handle_conversation_tx_def
      handle_conversation_restore_tx_def handle_conversation_update_tx_def
      split: option.splits if_splits sum.splits)

lemma apply_update_next:
  assumes "in_step n d" "fresh_id env d" "quiet env" "n \<noteq> - 1" "du_seq u = n + 1"
  shows "apply_update env u d = (case dispatch_update_tx env u (d\<lparr>l_log := l_log d @ [log_entry env u]\<rparr>) of
     None \<Rightarrow> None
   | Some (Inl w) \<Rightarrow> Some (Some (SyncFailed w), d, [])
   | Some (Inr d2) \<Rightarrow> Some (None, set_local_max_seq (ae_clock env 5) (du_seq u) d2, notify_handler u))"
proof -
  have save: "ln_save (ae_clock env 0) (log_entry env u) d = Inr (d\<lparr>l_log := l_log d @ [log_entry env u]\<rparr>)"
    by (rule save_entry [OF assms(1,2,5,4)])
  have tx: "apply_tx env u d = (case dispatch_update_tx env u (d\<lparr>l_log := l_log d @ [log_entry env u]\<rparr>) of
      None \<Rightarrow> None | Some (Inl w) \<Rightarrow> Some (Inl w)
    | Some (Inr d2) \<Rightarrow> Some (Inr (set_local_max_seq (ae_clock env 5) (du_seq u) d2)))"
    unfolding apply_tx_def Let_def log_entry_def [symmetric] save
    using assms(3) by (simp split: option.split sum.split)
  have "du_seq u \<noteq> 0" using assms(4,5) by (metis add_eq_0_iff2)
  moreover have "get_local_max_seq d = Inr n" using assms(1) by (simp add: in_step_def)
  moreover have "\<not> n + 1 \<le> n" using word_succ_gt [OF assms(4)] by (simp only: not_le)
  ultimately show ?thesis
    unfolding tx apply_update_def using assms(3,5) by (auto split: option.splits sum.splits)
qed

lemma apply_next:
  assumes "in_step n d" "fresh_id env d" "quiet env" "du_seq u = n + 1" "n \<noteq> - 1"
    and "\<And>d. dispatch_update_tx env u d \<noteq> None"
  shows "(\<exists>d'. apply_update env u d = Some (None, d', notify_handler u) \<and> in_step (n + 1) d'
      \<and> l_log d' = l_log d @ [log_entry env u])
    \<or> (\<exists>err d0. apply_update env u d = Some (Some (SyncFailed err), d, [])
      \<and> dispatch_update_tx env u d0 = Some (Inl err))"
proof -
  obtain r where r: "dispatch_update_tx env u (d\<lparr>l_log := l_log d @ [log_entry env u]\<rparr>) = Some r"
    using assms(6) by blast
  show ?thesis
  proof (cases r)
    case (Inl err)
    then show ?thesis using apply_update_next [OF assms(1-3,5,4)] r by auto
  next
    case (Inr d2)
    then have "apply_update env u d
        = Some (None, set_local_max_seq (ae_clock env 5) (du_seq u) d2, notify_handler u)"
      using apply_update_next [OF assms(1-3,5,4)] r by simp
    moreover have "du_seq u \<noteq> 0" using assms(4,5) by (metis add_eq_0_iff2)
    ultimately show ?thesis
      using apply_update_cases [OF assms(1,2), of u None] assms(4) by auto
  qed
qed

subsection \<open>Applying a page\<close>

definition update_view :: "data_update \<Rightarrow> u32 \<times> string \<times> payload" where
  "update_view u = (du_seq u, du_type u, du_payload u)"

definition log_view :: "local_db \<Rightarrow> (u32 \<times> string \<times> payload) list" where
  "log_view d = map (\<lambda>n. (n_seq n, n_type n, n_payload n)) (l_log d)"

lemma log_view_append: "l_log d' = l_log d @ [log_entry env u] \<Longrightarrow> log_view d' = log_view d @ [update_view u]"
  by (simp add: log_view_def update_view_def)

lemma log_view_counters [simp]: "log_view (set_latest_seq t m d) = log_view d"
  by (simp add: log_view_def)

text \<open>
  The outcome of handing the manager consecutive updates: the first \<open>k\<close> are applied and notified; it
  stops before the end only at an update whose dispatch fails.
\<close>

definition applied ::
  "(nat \<Rightarrow> apply_env) \<Rightarrow> data_update list \<Rightarrow> nat \<Rightarrow> u32 \<Rightarrow> sync_mgr \<Rightarrow> sync_error option \<Rightarrow> sync_mgr \<Rightarrow> bool" where
  "applied envs us k n sm e sm' \<longleftrightarrow> k \<le> length us \<and> in_step (n + word_of_nat k) (sm_db sm')
     \<and> log_view (sm_db sm') = log_view (sm_db sm) @ map update_view (take k us)
     \<and> sm_events sm' = sm_events sm @ concat (map notify_handler (take k us))
     \<and> (e = None \<and> k = length us
        \<or> k < length us \<and> (\<exists>err j d. e = Some (SyncFailed err)
             \<and> dispatch_update_tx (envs j) (us ! k) d = Some (Inl err)))"

lemma pow32: "(2::nat) ^ 32 = 4294967296"
  by simp

lemma apply_consecutive:
  assumes "in_step n (sm_db sm)" "fresh_ids_from envs i (sm_db sm)" "\<And>j. quiet (envs j)"
    and "map (unat \<circ> du_seq) us = [Suc (unat n)..<Suc (unat n) + length us]"
    and "unat n + length us < 2 ^ 32"
    and "\<And>u j d. u \<in> set us \<Longrightarrow> dispatch_update_tx (envs j) u d \<noteq> None"
  shows "\<exists>e sm' k. apply_updates_from i envs us sm = Some (e, sm') \<and> applied envs us k n sm e sm'"
  using assms
proof (induction us arbitrary: i n sm)
  case Nil
  then show ?case by (auto simp: applied_def)
next
  case (Cons u us)
  have max: "n \<noteq> - 1"
  proof
    assume "n = - 1"
    then have n: "unat n = 4294967295" by (simp add: unsigned_minus_1_eq_mask mask_eq_exp_minus_1)
    have "unat n + Suc (length us) < 2 ^ 32" using Cons.prems(5) by (simp only: list.size(4) add_Suc_right)
    then have "4294967295 + Suc (length us) < 4294967296" unfolding n by (simp only: pow32)
    then show False by linarith
  qed
  note succ = unat_word_succ [OF max]
  have upt: "[Suc (unat n)..<Suc (unat n) + length (u # us)]
      = Suc (unat n) # [Suc (unat (n + 1))..<Suc (unat (n + 1)) + length us]"
    using upt_conv_Cons [of "Suc (unat n)" "Suc (unat n) + Suc (length us)"] by (simp add: succ del: upt_Suc)
  have seq: "du_seq u = n + 1" and rest: "map (unat \<circ> du_seq) us
      = [Suc (unat (n + 1))..<Suc (unat (n + 1)) + length us]"
  proof -
    have eq: "map (unat \<circ> du_seq) (u # us)
        = Suc (unat n) # [Suc (unat (n + 1))..<Suc (unat (n + 1)) + length us]"
      using Cons.prems(4) unfolding upt .
    then have "unat (du_seq u) = unat (n + 1)" by (simp only: list.map list.inject comp_apply succ)
    then show "du_seq u = n + 1" by (simp only: word_unat_eq_iff)
    show "map (unat \<circ> du_seq) us = [Suc (unat (n + 1))..<Suc (unat (n + 1)) + length us]"
      using eq by (simp only: list.map list.inject)
  qed
  have fresh: "fresh_id (envs i) (sm_db sm)" using Cons.prems(2) by (simp add: fresh_ids_from_def)
  have nb: "dispatch_update_tx (envs i) u d \<noteq> None" for d using Cons.prems(6) by simp
  consider (ok) d' where "apply_update (envs i) u (sm_db sm) = Some (None, d', notify_handler u)"
      "in_step (n + 1) d'" "l_log d' = l_log (sm_db sm) @ [log_entry (envs i) u]"
    | (bad) err d0 where "apply_update (envs i) u (sm_db sm) = Some (Some (SyncFailed err), sm_db sm, [])"
      "dispatch_update_tx (envs i) u d0 = Some (Inl err)"
    using apply_next [OF Cons.prems(1) fresh Cons.prems(3) seq max nb] by blast
  then show ?case
  proof cases
    case ok
    let ?sm1 = "sm\<lparr>sm_db := d', sm_events := sm_events sm @ notify_handler u\<rparr>"
    have fresh1: "fresh_ids_from envs (Suc i) (sm_db ?sm1)"
      using fresh_ids_next [OF Cons.prems(2)] ok(3) by simp
    have step1: "in_step (n + 1) (sm_db ?sm1)" using ok(2) by simp
    have small: "unat (n + 1) + length us < 2 ^ 32"
      using Cons.prems(5) by (simp only: succ list.size(4) add_Suc_right add_Suc)
    have defined: "\<And>u j d. u \<in> set us \<Longrightarrow> dispatch_update_tx (envs j) u d \<noteq> None"
      using Cons.prems(6) by (metis list.set_intros(2))
    obtain e sm' k where run: "apply_updates_from (Suc i) envs us ?sm1 = Some (e, sm')"
      and app: "applied envs us k (n + 1) ?sm1 e sm'"
      using Cons.IH [OF step1 fresh1 Cons.prems(3) rest small defined] by blast
    have "applied envs (u # us) (Suc k) n sm e sm'"
      using app ok(3) by (auto simp: applied_def log_view_append ac_simps)
    moreover have "apply_updates_from i envs (u # us) sm = Some (e, sm')" using ok run by simp
    ultimately show ?thesis by blast
  next
    case bad
    let ?sm1 = "sm\<lparr>sm_db := sm_db sm, sm_events := sm_events sm @ []\<rparr>"
    have "apply_updates_from i envs (u # us) sm = Some (Some (SyncFailed err), ?sm1)"
      using bad(1) by (simp add: Let_def)
    moreover have "applied envs (u # us) 0 n sm (Some (SyncFailed err)) ?sm1"
      using bad(2) Cons.prems(1) by (auto simp: applied_def)
    ultimately show ?thesis by blast
  qed
qed

subsection \<open>What a full synchronisation does\<close>

text \<open>The rows of a log above one number and up to another.\<close>

definition rows_above :: "(u32 \<Rightarrow> data_update) \<Rightarrow> u32 \<Rightarrow> u32 \<Rightarrow> data_update list" where
  "rows_above row a b = map (\<lambda>i. row (word_of_nat i)) [Suc (unat a)..<Suc (unat b)]"

text \<open>A pull environment whose calls are answered by one server and in which nothing else fails.\<close>

definition serves :: "(u32 \<Rightarrow> int \<Rightarrow> pull_result option) \<Rightarrow> pull_env \<Rightarrow> bool" where
  "serves pull pe \<longleftrightarrow>
     (\<forall>k after. pe_call pe k after (pe_batch pe) = pull after (pe_batch pe))
     \<and> (\<forall>k. \<not> pe_cancelled pe k \<and> pe_fault_get pe k = None \<and> pe_fault_set pe k = None)
     \<and> (\<forall>k i. quiet (pe_apply pe k i))"

text \<open>
  From cursor \<open>m\<close> the manager applied exactly the rows up to \<open>n\<close>, each once, logged and notified in
  order; it ended without an error iff \<open>n\<close> is the latest number, and otherwise at a row whose dispatch
  fails.
\<close>

definition caught_up ::
  "(u32 \<Rightarrow> data_update) \<Rightarrow> u32 \<Rightarrow> pull_env \<Rightarrow> u32 \<Rightarrow> sync_mgr \<Rightarrow> u32 \<Rightarrow> sync_error option \<Rightarrow> sync_mgr \<Rightarrow> bool" where
  "caught_up row latest pe m sm n e sm' \<longleftrightarrow> m \<le> n \<and> n \<le> latest \<and> in_step n (sm_db sm')
     \<and> log_view (sm_db sm') = log_view (sm_db sm) @ map update_view (rows_above row m n)
     \<and> sm_events sm' = sm_events sm @ concat (map notify_handler (rows_above row m n))
     \<and> (e = None \<and> n = latest
        \<or> n < latest \<and> (\<exists>err p i d. e = Some (SyncFailed err)
             \<and> dispatch_update_tx (pe_apply pe p i) (row (n + 1)) d = Some (Inl err)))"

lemma rows_above_append:
  assumes "a \<le> m" "m \<le> b"
  shows "rows_above row a m @ rows_above row m b = rows_above row a b"
proof -
  have "[Suc (unat a)..<Suc (unat m)] @ [Suc (unat m)..<Suc (unat b)] = [Suc (unat a)..<Suc (unat b)]"
    using assms upt_add_eq_append [of "Suc (unat a)" "Suc (unat m)" "unat b - unat m"]
    by (simp add: word_le_nat_alt del: upt_Suc)
  then show ?thesis by (simp only: rows_above_def flip: map_append)
qed

lemma rows_above_same [simp]: "rows_above row a a = []"
  by (simp add: rows_above_def)

lemma length_rows_above: "length (rows_above row a b) = unat b - unat a"
  by (simp add: rows_above_def del: upt_Suc)

lemma set_rows_above: "u \<in> set (rows_above row a b) \<Longrightarrow> \<exists>q. u = row q"
  by (auto simp: rows_above_def simp del: upt_Suc)

lemma caught_up_next:
  assumes "caught_up row latest pe m' sm1 n e sm'" "m \<le> m'"
    and "log_view (sm_db sm1) = log_view (sm_db sm) @ map update_view (rows_above row m m')"
    and "sm_events sm1 = sm_events sm @ concat (map notify_handler (rows_above row m m'))"
  shows "caught_up row latest pe m sm n e sm'"
proof -
  have "m' \<le> n" using assms(1) by (simp add: caught_up_def)
  note app = rows_above_append [OF assms(2) this, of row, symmetric]
  show ?thesis using assms \<open>m' \<le> n\<close> unfolding caught_up_def app by auto
qed

lemma take_rows_above:
  assumes "k \<le> unat b - unat a" "a \<le> b"
  shows "take k (rows_above row a b) = rows_above row a (a + word_of_nat k)"
    and "unat (a + word_of_nat k) = unat a + k"
proof -
  have sum: "a + word_of_nat k = (word_of_nat (unat a + k) :: u32)" by simp
  have le: "unat a \<le> unat b" using assms(2) by (simp add: word_le_nat_alt)
  show un: "unat (a + word_of_nat k) = unat a + k"
    unfolding sum by (rule unat_word_of_nat32) (use assms(1) le unat_lt32 [of b] in simp)
  have "take k [Suc (unat a)..<Suc (unat b)] = [Suc (unat a)..<Suc (unat a) + k]"
    by (rule take_upt) (use assms(1) le in simp)
  then show "take k (rows_above row a b) = rows_above row a (a + word_of_nat k)"
    unfolding rows_above_def un by (simp only: take_map add_Suc)
qed

lemma nth_rows_above:
  assumes "k < unat b - unat a" "a \<le> b"
  shows "rows_above row a b ! k = row (a + word_of_nat k + 1)"
  using assms by (simp add: rows_above_def ac_simps del: upt_Suc)

subsection \<open>A server of contiguous pages\<close>

text \<open>
  What the manager relies on: above the cursor the server has a row for every number up to its latest,
  and a call returns a non-empty, contiguous page of them that starts after the cursor and says whether it
  ends before the latest number.
\<close>

locale sync_server =
  fixes pull :: "'s \<Rightarrow> u32 \<Rightarrow> int \<Rightarrow> pull_result option"
    and latest :: "'s \<Rightarrow> u32"
    and row :: "'s \<Rightarrow> u32 \<Rightarrow> data_update"
    and sane :: "'s \<Rightarrow> bool"
  assumes row_seq: "du_seq (row s q) = q"
    and nothing_new: "sane s \<Longrightarrow> pull s (latest s) lim
      = Some (Pulled \<lparr>sur_updates = [], sur_has_more = False, sur_latest_seq = latest s\<rparr>)"
    and page: "sane s \<Longrightarrow> after < latest s \<Longrightarrow> \<exists>e. after < e \<and> e \<le> latest s
      \<and> pull s after lim = Some (Pulled \<lparr>sur_updates = rows_above (row s) after e,
          sur_has_more = (e < latest s), sur_latest_seq = latest s\<rparr>)"
begin

lemma rows_seq: "map (unat \<circ> du_seq) (rows_above (row s) a b) = [Suc (unat a)..<Suc (unat b)]"
proof -
  have "unat (word_of_nat i :: u32) = i" if "i \<in> set [Suc (unat a)..<Suc (unat b)]" for i
  proof (rule unat_word_of_nat32)
    have "i \<le> unat b" using that by (auto simp only: set_upt atLeastLessThan_iff less_Suc_eq_le)
    then show "i < 2 ^ 32" using unat_lt32 [of b] by simp
  qed
  then show ?thesis unfolding rows_above_def map_map by (intro map_idI) (simp only: comp_apply row_seq)
qed

text \<open>One page: either the synchronisation ends here, or it goes on at the page's last number.\<close>

lemma full_sync_page_serves:
  assumes "sane s" "serves (pull s) pe" "in_step m (sm_db sm)" "m \<le> latest s"
    and "fresh_pages_from pe k (sm_db sm)"
    and "\<And>q p i d. dispatch_update_tx (pe_apply pe p i) (row s q) d \<noteq> None"
  shows "(\<exists>n e sm'. full_sync_page pe k m sm = Some (Inl (e, sm')) \<and> caught_up (row s) (latest s) pe m sm n e sm')
    \<or> (\<exists>m' sm1. full_sync_page pe k m sm = Some (Inr (m', sm1)) \<and> m < m' \<and> m' < latest s
        \<and> in_step m' (sm_db sm1) \<and> log_view (sm_db sm1) = log_view (sm_db sm) @ map update_view (rows_above (row s) m m')
        \<and> sm_events sm1 = sm_events sm @ concat (map notify_handler (rows_above (row s) m m')))"
proof -
  have env: "pe_call pe k m (pe_batch pe) = pull s m (pe_batch pe)"
    "\<not> pe_cancelled pe k" "pe_fault_set pe k = None" "pe_fault_get pe (Suc k) = None"
    "\<And>i. quiet (pe_apply pe k i)"
    using assms(2) by (simp_all add: serves_def)
  obtain e where e: "m \<le> e" "e \<le> latest s" "m < e \<or> m = latest s"
    and call: "pe_call pe k m (pe_batch pe) = Some (Pulled \<lparr>sur_updates = rows_above (row s) m e,
          sur_has_more = (e < latest s), sur_latest_seq = latest s\<rparr>)"
  proof (cases "m = latest s")
    case True
    then show ?thesis
      using that [of m] env(1) nothing_new [OF assms(1), of "pe_batch pe"] by simp
  next
    case False
    then have "m < latest s" using assms(4) by simp
    with page [OF assms(1) this, of "pe_batch pe"] that env(1) show ?thesis by (auto dest: less_imp_le)
  qed
  let ?us = "rows_above (row s) m e"
  have len: "length ?us = unat e - unat m" by (rule length_rows_above)
  have le: "unat m \<le> unat e" using e(1) by (simp add: word_le_nat_alt)
  have seqs: "map (unat \<circ> du_seq) ?us = [Suc (unat m)..<Suc (unat m) + length ?us]"
    using rows_seq [of s m e] len le by simp
  have small: "unat m + length ?us < 2 ^ 32" using len le unat_lt32 [of e] by simp
  have defined: "\<And>u j d. u \<in> set ?us \<Longrightarrow> dispatch_update_tx (pe_apply pe k j) u d \<noteq> None"
    using set_rows_above assms(6) by metis
  obtain err sm1 j where run: "apply_updates (pe_apply pe k) ?us sm = Some (err, sm1)"
    and app: "applied (pe_apply pe k) ?us j m sm err sm1"
    using apply_consecutive [OF assms(3) fresh_page [OF assms(5)] env(5) seqs small defined]
    by (auto simp: apply_updates_def)
  have j: "j \<le> unat e - unat m" using app len by (simp add: applied_def)
  note taken = take_rows_above(1) [OF j e(1), of "row s"] take_rows_above(2) [OF j e(1)]
  define n where "n = m + word_of_nat j"
  have n: "unat n = unat m + j" "take j ?us = rows_above (row s) m n" using taken by (simp_all add: n_def)
  have bounds: "m \<le> n" "n \<le> e" using n j le by (auto simp: word_le_nat_alt)
  have base: "in_step n (sm_db sm1)" "log_view (sm_db sm1) = log_view (sm_db sm) @ map update_view (rows_above (row s) m n)"
    "sm_events sm1 = sm_events sm @ concat (map notify_handler (rows_above (row s) m n))"
    using app unfolding applied_def n(2) n_def by auto
  from app consider (bad) w i d where "j < length ?us" "err = Some (SyncFailed w)"
      "dispatch_update_tx (pe_apply pe k i) (?us ! j) d = Some (Inl w)"
    | (all) "err = None" "j = length ?us"
    by (auto simp: applied_def)
  then show ?thesis
  proof cases
    case bad
    have "?us ! j = row s (n + 1)" using nth_rows_above [of j e m "row s"] bad(1) len e(1) by (simp add: n_def)
    moreover have "n < latest s" using n(1) bad(1) len e(2) by (simp add: word_less_nat_alt word_le_nat_alt)
    ultimately have "caught_up (row s) (latest s) pe m sm n err sm1"
      using base bounds bad(2,3) by (auto simp: caught_up_def)
    moreover have "full_sync_page pe k m sm = Some (Inl (err, sm1))"
      using env(2) call run bad(2) by (simp add: full_sync_page_def)
    ultimately show ?thesis by blast
  next
    case all
    then have ne: "n = e" using n(1) len le by (simp add: word_unat_eq_iff)
    let ?sm2 = "sm1\<lparr>sm_db := set_latest_seq (pe_clock pe k) (latest s) (sm_db sm1)\<rparr>"
    have base2: "in_step e (sm_db ?sm2)" "log_view (sm_db ?sm2) = log_view (sm_db sm1)" "sm_events ?sm2 = sm_events sm1"
      using base ne by simp_all
    show ?thesis
    proof (cases "e < latest s")
      case True
      have "get_local_max_seq (sm_db ?sm2) = Inr e" using base2(1) by (simp add: in_step_def)
      then have "full_sync_page pe k m sm = Some (Inr (e, ?sm2))"
        using env(2-4) call run all(1) True by (simp add: full_sync_page_def or_fault_def Let_def)
      moreover have "m < e" using e(3) True e(1) by auto
      ultimately show ?thesis using base base2 ne True by auto
    next
      case False
      then have "full_sync_page pe k m sm = Some (Inl (None, ?sm2))"
        using env(2-4) call run all(1) by (simp add: full_sync_page_def or_fault_def Let_def)
      moreover have "caught_up (row s) (latest s) pe m sm (latest s) None ?sm2"
        using base base2 ne False e bounds by (simp add: caught_up_def)
      ultimately show ?thesis by blast
    qed
  qed
qed

lemma full_sync_loop_serves:
  assumes "sane s" "serves (pull s) pe"
    and "\<And>q p i d. dispatch_update_tx (pe_apply pe p i) (row s q) d \<noteq> None"
    and "in_step m (sm_db sm)" "m \<le> latest s" "fresh_pages_from pe k (sm_db sm)"
  shows "\<exists>n e sm'. full_sync_loop pe k m sm = Some (e, sm') \<and> caught_up (row s) (latest s) pe m sm n e sm'"
  using assms(4-6)
proof (induction "unat (latest s) - unat m" arbitrary: k m sm rule: less_induct)
  case less
  note page1 = full_sync_page_serves [OF assms(1,2) less.prems assms(3)]
  from page1 show ?case
  proof (elim disjE exE conjE)
    fix n e sm'
    assume "full_sync_page pe k m sm = Some (Inl (e, sm'))" "caught_up (row s) (latest s) pe m sm n e sm'"
    moreover from this have "full_sync_loop pe k m sm = Some (e, sm')" by (subst full_sync_loop.simps) simp
    ultimately show ?thesis by blast
  next
    fix m' sm1
    assume step: "full_sync_page pe k m sm = Some (Inr (m', sm1))" and m': "m < m'" "m' < latest s"
      and inv: "in_step m' (sm_db sm1)"
      and ext: "log_view (sm_db sm1) = log_view (sm_db sm) @ map update_view (rows_above (row s) m m')"
        "sm_events sm1 = sm_events sm @ concat (map notify_handler (rows_above (row s) m m'))"
    have fresh: "fresh_pages_from pe (Suc k) (sm_db sm1)"
      using full_sync_page_in_step [OF step less.prems(1,3)] by auto
    have "unat (latest s) - unat m' < unat (latest s) - unat m"
      using m' by (simp add: word_less_nat_alt)
    then obtain n e sm' where rest: "full_sync_loop pe (Suc k) m' sm1 = Some (e, sm')"
      and caught: "caught_up (row s) (latest s) pe m' sm1 n e sm'"
      using less.hyps [OF _ inv less_imp_le [OF m'(2)] fresh] by blast
    have "full_sync_loop pe k m sm = Some (e, sm')" using step rest by (subst full_sync_loop.simps) simp
    then show ?thesis using caught_up_next [OF caught less_imp_le [OF m'(1)] ext] by blast
  qed
qed

lemma full_sync_serves:
  assumes "sane s" "serves (pull s) pe"
    and "\<And>q p i d. dispatch_update_tx (pe_apply pe p i) (row s q) d \<noteq> None"
    and "in_step m (sm_db sm)" "m \<le> latest s" "fresh_pages_from pe 0 (sm_db sm)"
  shows "\<exists>n e sm'. full_sync pe sm = Some (e, sm') \<and> caught_up (row s) (latest s) pe m sm n e sm'"
proof -
  have "get_local_max_seq (sm_db sm) = Inr m" using assms(4) by (simp add: in_step_def)
  moreover have "pe_fault_get pe 0 = None" using assms(2) by (simp add: serves_def)
  ultimately have "full_sync pe sm = full_sync_loop pe 0 m sm" by (simp add: full_sync_def or_fault_def)
  then show ?thesis using full_sync_loop_serves [OF assms] by simp
qed

end

subsection \<open>The handler is such a server\<close>

text \<open>A client's view of the handler's answer: an error response is a failed call.\<close>

definition server_pull :: "env \<Rightarrow> client_conn \<Rightarrow> srv \<Rightarrow> u32 \<Rightarrow> int \<Rightarrow> pull_result option" where
  "server_pull env cl s after lim =
     map_option (\<lambda>r. case r of Inl e \<Rightarrow> PullFailed | Inr resp \<Rightarrow> Pulled resp)
       (sync_updates env cl (Some \<lparr>su_after_seq = after, su_limit = lim\<rparr>) s)"

definition server_latest :: "client_conn \<Rightarrow> srv \<Rightarrow> u32" where
  "server_latest cl s = upd_latest_seq (cl_user cl) (sv_db s)"

definition server_row :: "env \<Rightarrow> client_conn \<Rightarrow> srv \<Rightarrow> u32 \<Rightarrow> data_update" where
  "server_row env cl s = pulled (e_now env) (sv_db s) (cl_user cl)"

text \<open>No storage failure, a numbered log, and no wrap-around of the page bound.\<close>

definition server_sane :: "env \<Rightarrow> client_conn \<Rightarrow> srv \<Rightarrow> bool" where
  "server_sane env cl s \<longleftrightarrow> no_faults env \<and> upd_log.numbered (sv_db s)
     \<and> unat (server_latest cl s) + 500 < 2 ^ 32"

lemma server_page:
  assumes "server_sane env cl s" "after < server_latest cl s"
  shows "\<exists>e. after < e \<and> e \<le> server_latest cl s
    \<and> server_pull env cl s after lim = Some (Pulled \<lparr>sur_updates = rows_above (server_row env cl s) after e,
          sur_has_more = (e < server_latest cl s), sur_latest_seq = server_latest cl s\<rparr>)"
proof -
  let ?latest = "server_latest cl s"
  define n where "n = sync_page_end after lim ?latest"
  have small: "unat ?latest + 500 < 2 ^ 32" using assms(1) by (simp add: server_sane_def)
  have lt: "unat after < unat ?latest" using assms(2) by (simp add: word_less_nat_alt)
  have lim: "1 \<le> nat (sync_limit lim)" "nat (sync_limit lim) \<le> 500"
    using sync_limit_bounds [of lim] by auto
  have n: "n = min (unat after + nat (sync_limit lim)) (unat ?latest)"
    by (simp add: n_def sync_page_end_def)
  then have un: "unat (word_of_nat n :: u32) = n"
    by (intro unat_word_of_nat32) (use unat_lt32 [of ?latest] in simp)
  have range: "unat after < n" "n \<le> unat ?latest" using n lt lim by auto
  then have "after < word_of_nat n" "word_of_nat n \<le> ?latest"
    by (simp_all only: word_less_nat_alt word_le_nat_alt un)
  moreover have more: "(unat after + nat (sync_limit lim) < unat ?latest) = (word_of_nat n < ?latest)"
    unfolding word_less_nat_alt un using n lt by auto
  moreover have "?latest \<noteq> - 1"
  proof
    assume "?latest = - 1"
    then have "unat ?latest = 4294967295" by (simp add: unsigned_minus_1_eq_mask mask_eq_exp_minus_1)
    then show False using small by simp
  qed
  moreover have "server_pull env cl s after lim = Some (Pulled \<lparr>
      sur_updates = rows_above (server_row env cl s) after (word_of_nat n),
      sur_has_more = (unat after + nat (sync_limit lim) < unat ?latest), sur_latest_seq = ?latest\<rparr>)"
    using sync_page [of env s "\<lparr>su_after_seq = after, su_limit = lim\<rparr>" cl] assms lt lim small calculation(4)
    unfolding rows_above_def un unfolding n_def
    by (simp add: server_sane_def server_latest_def server_row_def server_pull_def del: upt_Suc)
  ultimately show ?thesis by (intro exI [of _ "word_of_nat n"]) simp
qed

lemma server_nothing_new:
  assumes "server_sane env cl s"
  shows "server_pull env cl s (server_latest cl s) lim
    = Some (Pulled \<lparr>sur_updates = [], sur_has_more = False, sur_latest_seq = server_latest cl s\<rparr>)"
proof -
  have "no_faults env" using assms by (simp add: server_sane_def)
  then show ?thesis
    by (simp add: server_pull_def sync_updates_def server_latest_def Let_def no_faults_db_try)
qed

interpretation handler: sync_server
  "\<lambda>(env, cl, s). server_pull env cl s" "\<lambda>(env, cl, s). server_latest cl s"
  "\<lambda>(env, cl, s). server_row env cl s" "\<lambda>(env, cl, s). server_sane env cl s"
proof (unfold_locales, goal_cases)
  case (1 s q)
  then show ?case by (cases s) (simp add: server_row_def)
next
  case (2 s lim)
  then show ?case by (cases s) (simp add: server_nothing_new)
next
  case (3 s after lim)
  then show ?case by (cases s) (simp add: server_page)
qed


subsection \<open>Where the client stops\<close>

text \<open>Without such waits every batch of logged updates is handled.\<close>

lemma apply_update_returns:
  assumes "du_seq u \<noteq> 0" "nonblocking u" "prompt_fetch env"
  shows "apply_update env u d \<noteq> None"
proof -
  have "apply_tx env u d \<noteq> None"
    by (auto simp: apply_tx_def Let_def split: sum.splits option.splits
        dest: nonblocking_dispatch [OF assms(2,3), THEN notE])
  then show ?thesis using assms(1) by (auto simp: apply_update_def split: sum.splits)
qed

lemma apply_updates_return:
  assumes "\<forall>u \<in> set us. du_seq u \<noteq> 0 \<and> nonblocking u" "\<forall>i. prompt_fetch (envs i)"
  shows "\<exists>r. apply_updates_from i envs us sm = Some r"
  using assms(1)
proof (induction us arbitrary: i sm)
  case (Cons u us)
  obtain e d es where "apply_update (envs i) u (sm_db sm) = Some (e, d, es)"
    using apply_update_returns [of u "envs i" "sm_db sm"] Cons.prems assms(2) by auto
  then show ?case using Cons by (cases e) (auto simp: Let_def)
qed simp


text \<open>Notifications that no release of the client applies.\<close>

definition undecodable :: "data_update \<Rightarrow> bool" where
  "undecodable u \<longleftrightarrow>
     du_type u \<notin> {UpdateTypeMessage, UpdateTypeDeleteMessage, UpdateTypeMarkRead, UpdateTypeConversation,
                    UpdateTypeGap, UpdateTypeTyping, UpdateTypeStreaming, UpdateTypeAgentStatus,
                    UpdateTypeAgentTimeout}
     \<or> du_type u \<in> {UpdateTypeMessage, UpdateTypeDeleteMessage, UpdateTypeMarkRead, UpdateTypeConversation}
        \<and> du_payload u = PMalformed"


end
