(* ===== verification/ClientExamples.thy ===== *)
theory ClientExamples
  imports Examples SyncRefinement
begin

text \<open>
  Concrete clients: an empty local database, environments with their own identifiers, and one instance of
  every property of the client.
\<close>

definition ex_local :: local_db where
  "ex_local = \<lparr>l_convs = [], l_msgs = [], l_upds = [], l_sync = [], l_drafts = [], l_queue = [], l_log = [],
     l_rcs = []\<rparr>"

definition ex_mgr :: sync_mgr where
  "ex_mgr = \<lparr>sm_db = ex_local, sm_pull_pending = False, sm_retry_armed = False, sm_events = []\<rparr>"

text \<open>Every update has an identifier of its own.\<close>

definition ex_id :: "nat \<Rightarrow> nat \<Rightarrow> string" where
  "ex_id p i = replicate p (CHR ''a'') @ CHR ''b'' # replicate i (CHR ''a'')"

definition ex_apply :: "nat \<Rightarrow> nat \<Rightarrow> apply_env" where
  "ex_apply p i = \<lparr>ae_user = ''a'', ae_id = ex_id p i, ae_clock = (\<lambda>n. int n), ae_fault = (\<lambda>_. None),
     ae_fetch = (\<lambda>_ _. Some FetchFailed), ae_cancelled = (\<lambda>_. False)\<rparr>"

definition ex_pull :: pull_env where
  "ex_pull = \<lparr>pe_call = (\<lambda>_ after lim. server_pull ex_env ex_client ex_srv after lim), pe_apply = ex_apply,
     pe_batch = 2, pe_clock = (\<lambda>n. int n), pe_cancelled = (\<lambda>_. False), pe_fault_get = (\<lambda>_. None),
     pe_fault_set = (\<lambda>_. None)\<rparr>"

lemma ex_id_inj [simp]: "ex_id p i = ex_id q j \<longleftrightarrow> p = q \<and> i = j"
proof
  assume eq: "ex_id p i = ex_id q j"
  have len: "length (takeWhile (\<lambda>c. c = CHR ''a'') (ex_id p i)) = p" for p i
    by (induction p) (simp_all add: ex_id_def)
  have "p = q" using len [of p i] len [of q j] eq by simp
  moreover have "length (ex_id p i) = length (ex_id q j)" using eq by simp
  ultimately show "p = q \<and> i = j" by (simp add: ex_id_def)
qed simp

lemma ex_fresh_id [simp]: "l_log d = [] \<Longrightarrow> fresh_id (ex_apply p i) d"
  by (simp add: fresh_id_def ex_apply_def)

lemma ex_fresh_pages [simp]: "pe_apply pe = ex_apply \<Longrightarrow> l_log d = [] \<Longrightarrow> fresh_pages_from pe 0 d"
  by (simp add: fresh_pages_from_def) (simp add: ex_apply_def inj_def)

lemma ex_quiet [simp]: "quiet (ex_apply p i)"
  by (simp add: quiet_def ex_apply_def)

lemma ex_mgr_db [simp]: "sm_db ex_mgr = ex_local" "l_log ex_local = []" "l_sync ex_local = []"
  by (simp_all add: ex_mgr_def ex_local_def)

lemma ex_in_step [simp]: "in_step 0 ex_local"
  using sync_counters.get_initial [of ex_local LocalMaxSeq] by (simp add: in_step_def read_counter_def)


definition ex_message_update :: "u32 \<Rightarrow> data_update" where
  "ex_message_update q = \<lparr>du_seq = q, du_type = UpdateTypeMessage,
     du_payload = PMessage (ex_msg ''m9'' ''k9'' 4 ''b''), du_created = 7\<rparr>"

lemma ex_run: "\<exists>r. apply_updates (ex_apply 0) [ex_message_update 1, ex_message_update 1] ex_mgr = Some r"
  unfolding apply_updates_def
  by (rule apply_updates_return)
    (simp_all add: ex_message_update_def nonblocking_def prompt_fetch_def ex_apply_def)

theorem client_applies_in_order_once_witness:
  "\<exists>sm e. apply_updates (ex_apply 0) [ex_message_update 1, ex_message_update 1] ex_mgr = Some (e, sm)
    \<and> (\<exists>n. get_local_max_seq (sm_db sm) = Inr n \<and> map (unat \<circ> n_seq) (l_log (sm_db sm)) = [1..<Suc (unat n)])"
proof -
  obtain e sm where run: "apply_updates (ex_apply 0) [ex_message_update 1, ex_message_update 1] ex_mgr = Some (e, sm)"
    using ex_run by auto
  have "fresh_ids_from (ex_apply 0) 0 (sm_db ex_mgr)"
    by (simp add: fresh_ids_from_def) (simp add: ex_apply_def inj_def)
  then have "client_step ex_mgr sm" by (rule client_step.Push [OF run])
  then have "client_step\<^sup>*\<^sup>* ex_mgr sm" by blast
  then show ?thesis using client_applies_in_order_once [of ex_mgr sm] run by auto
qed

definition ex_stamped :: data_update where
  "ex_stamped = \<lparr>du_seq = 1, du_type = UpdateTypeConversation,
     du_payload = PConvAction ''c1'' ''update'' (Some 5), du_created = 7\<rparr>"


definition ex_poison :: data_update where
  "ex_poison = \<lparr>du_seq = 1, du_type = ''reaction'', du_payload = PNull, du_created = 7\<rparr>"


end
