(* ===== verification/Connections.thy ===== *)
theory Connections
  imports Prelude
begin

text \<open>
  \<^verbatim>\<open>internal/server/connection_store.go\<close> and \<^verbatim>\<open>memory_connection_store.go\<close>: the records of live
  connections, the in-memory store with its two maps (by connection and by user), and what a store
  promises to the server, as a locale that the in-memory store interprets.  The deep copies of the code
  leave nothing to share, so a record is a value.
\<close>

record connection_info =
  ci_id :: string
  ci_user :: string
  ci_session :: string
  ci_device :: string
  ci_device_type :: string
  ci_ip :: string
  ci_protocol :: string
  ci_heartbeat :: time
  ci_status :: string
  ci_meta :: "string \<rightharpoonup> string"
  ci_created :: time
  ci_updated :: time
  ci_ttl :: duration

definition is_expired :: "connection_info \<Rightarrow> time \<Rightarrow> bool" where
  "is_expired ci now = (if ci_ttl ci \<le> 0 then False else now > ci_updated ci + ci_ttl ci)"

datatype conn_error =
    ErrConnectionNotFound
  | ErrMaxConnectionsExceeded
  | ConnArgument string
  | ConnBackend string

text \<open>A user without connections has no entry in the second map.\<close>

record conn_store =
  cs_info :: "string \<rightharpoonup> connection_info"
  cs_users :: "string \<rightharpoonup> string set"
  cs_max :: int

definition NewMemoryConnectionStore :: "int \<Rightarrow> conn_store" where
  "NewMemoryConnectionStore n = \<lparr>cs_info = Map.empty, cs_users = Map.empty, cs_max = n\<rparr>"

definition ids_of_user :: "string \<Rightarrow> conn_store \<Rightarrow> string set" where
  "ids_of_user u s = (case cs_users s u of None \<Rightarrow> {} | Some ids \<Rightarrow> ids)"

text \<open>Deleting a connection from a user's set, and the set with it when it becomes empty.\<close>

definition drop_user_conn :: "string \<Rightarrow> string \<Rightarrow> conn_store \<Rightarrow> conn_store" where
  "drop_user_conn u cid s =
     (case cs_users s u of
        None \<Rightarrow> s
      | Some ids \<Rightarrow>
          let ids' = ids - {cid}
          in s\<lparr>cs_users := (cs_users s)(u := if ids' = {} then None else Some ids')\<rparr>)"

definition stamped :: "time \<Rightarrow> connection_info \<Rightarrow> connection_info" where
  "stamped now ci = ci\<lparr>ci_created := (if ci_created ci = zero_time then now else ci_created ci),
     ci_updated := now\<rparr>"

definition conn_full :: "connection_info \<Rightarrow> conn_store \<Rightarrow> bool" where
  "conn_full ci s \<longleftrightarrow> cs_info s (ci_id ci) = None \<and> cs_max s > 0
     \<and> int (card (ids_of_user (ci_user ci) s)) \<ge> cs_max s"

text \<open>The part of \<^verbatim>\<open>Add\<close> after the checks: leave the old user's set, store, join the new user's.\<close>

definition mcs_put :: "connection_info \<Rightarrow> conn_store \<Rightarrow> conn_store" where
  "mcs_put stored s =
     (let s1 = (case cs_info s (ci_id stored) of
                  Some old \<Rightarrow> if ci_user old \<noteq> ci_user stored then drop_user_conn (ci_user old) (ci_id stored) s else s
                | None \<Rightarrow> s)
      in s1\<lparr>cs_info := (cs_info s1)(ci_id stored \<mapsto> stored),
            cs_users := (cs_users s1)(ci_user stored \<mapsto> insert (ci_id stored) (ids_of_user (ci_user stored) s1))\<rparr>)"

definition mcs_add :: "time \<Rightarrow> connection_info option \<Rightarrow> conn_store \<Rightarrow> (conn_error + connection_info) \<times> conn_store" where
  "mcs_add now info s =
     (case info of
        None \<Rightarrow> (Inl (ConnArgument ''server: connection info is nil''), s)
      | Some ci \<Rightarrow>
          if ci_id ci = [] then (Inl (ConnArgument ''server: connection ID is required''), s)
          else if ci_user ci = [] then (Inl (ConnArgument ''server: user ID is required''), s)
          else if conn_full ci s then (Inl ErrMaxConnectionsExceeded, s)
          else (Inr (stamped now ci), mcs_put (stamped now ci) s))"

definition mcs_get :: "string \<Rightarrow> conn_store \<Rightarrow> conn_error + connection_info" where
  "mcs_get cid s =
     (if cid = [] then Inl (ConnArgument ''server: connection ID is required'')
      else case cs_info s cid of None \<Rightarrow> Inl ErrConnectionNotFound | Some ci \<Rightarrow> Inr ci)"

definition mcs_remove :: "string \<Rightarrow> conn_store \<Rightarrow> conn_error option \<times> conn_store" where
  "mcs_remove cid s =
     (if cid = [] then (Some (ConnArgument ''server: connection ID is required''), s)
      else case cs_info s cid of
             None \<Rightarrow> (None, s)
           | Some ci \<Rightarrow> (None, drop_user_conn (ci_user ci) cid (s\<lparr>cs_info := (cs_info s)(cid := None)\<rparr>)))"

definition mcs_exists :: "string \<Rightarrow> conn_store \<Rightarrow> conn_error + bool" where
  "mcs_exists cid s =
     (if cid = [] then Inl (ConnArgument ''server: connection ID is required'')
      else Inr (cs_info s cid \<noteq> None))"

text \<open>The three operations that change an existing record.\<close>

definition mcs_change ::
  "time \<Rightarrow> string \<Rightarrow> (connection_info \<Rightarrow> connection_info) \<Rightarrow> conn_store \<Rightarrow> conn_error option \<times> conn_store" where
  "mcs_change now cid f s =
     (if cid = [] then (Some (ConnArgument ''server: connection ID is required''), s)
      else case cs_info s cid of
             None \<Rightarrow> (Some ErrConnectionNotFound, s)
           | Some ci \<Rightarrow> (None, s\<lparr>cs_info := (cs_info s)(cid \<mapsto> (f ci)\<lparr>ci_updated := now\<rparr>)\<rparr>))"

definition mcs_update :: "time \<Rightarrow> string \<Rightarrow> (string \<rightharpoonup> string) \<Rightarrow> conn_store \<Rightarrow> conn_error option \<times> conn_store" where
  "mcs_update now cid meta = mcs_change now cid (\<lambda>ci. ci\<lparr>ci_meta := meta\<rparr>)"

definition mcs_patch ::
  "time \<Rightarrow> string \<Rightarrow> (connection_info \<Rightarrow> connection_info) option \<Rightarrow> conn_store \<Rightarrow> conn_error option \<times> conn_store" where
  "mcs_patch now cid updater s =
     (if cid = [] then (Some (ConnArgument ''server: connection ID is required''), s)
      else case updater of
             None \<Rightarrow> (Some (ConnArgument ''server: updater function is nil''), s)
           | Some f \<Rightarrow> mcs_change now cid f s)"

definition mcs_refresh :: "time \<Rightarrow> string \<Rightarrow> conn_store \<Rightarrow> conn_error option \<times> conn_store" where
  "mcs_refresh now cid = mcs_change now cid (\<lambda>ci. ci)"

text \<open>
  \<^verbatim>\<open>ListByUser\<close> iterates over the user's set in an order Go leaves open: \<open>order\<close> is the enumeration of the
  set this call happens to use.
\<close>

fun take_conns :: "(string \<rightharpoonup> connection_info) \<Rightarrow> int \<Rightarrow> connection_info list \<Rightarrow> string list \<Rightarrow> connection_info list" where
  "take_conns info limit acc [] = acc"
| "take_conns info limit acc (cid # cids) =
     (let acc' = (case info cid of Some ci \<Rightarrow> acc @ [ci] | None \<Rightarrow> acc)
      in if limit > 0 \<and> int (length acc') \<ge> limit then acc' else take_conns info limit acc' cids)"

definition mcs_list_by_user ::
  "string list \<Rightarrow> string \<Rightarrow> int \<Rightarrow> conn_store \<Rightarrow> conn_error + connection_info list" where
  "mcs_list_by_user order u limit s =
     (if u = [] then Inl (ConnArgument ''server: user ID is required'')
      else if ids_of_user u s = {} then Inr []
      else Inr (take_conns (cs_info s) limit [] order))"

definition mcs_count_by_user :: "string \<Rightarrow> conn_store \<Rightarrow> conn_error + int" where
  "mcs_count_by_user u s =
     (if u = [] then Inl (ConnArgument ''server: user ID is required'')
      else Inr (int (card (ids_of_user u s))))"

definition mcs_count_all :: "conn_store \<Rightarrow> int" where
  "mcs_count_all s = int (card (dom (cs_info s)))"

definition mcs_remove_by_user :: "string \<Rightarrow> conn_store \<Rightarrow> (conn_error + int) \<times> conn_store" where
  "mcs_remove_by_user u s =
     (if u = [] then (Inl (ConnArgument ''server: user ID is required''), s)
      else (Inr (int (card (ids_of_user u s))),
            s\<lparr>cs_info := (cs_info s) |` (- ids_of_user u s), cs_users := (cs_users s)(u := None)\<rparr>))"

subsection \<open>The two maps agree\<close>

definition conns_of :: "string \<Rightarrow> conn_store \<Rightarrow> string set" where
  "conns_of u s = {cid. \<exists>ci. cs_info s cid = Some ci \<and> ci_user ci = u}"

definition indexed :: "conn_store \<Rightarrow> bool" where
  "indexed s \<longleftrightarrow> finite (dom (cs_info s)) \<and> (\<forall>cid ci. cs_info s cid = Some ci \<longrightarrow> ci_id ci = cid)
     \<and> (\<forall>u. cs_users s u = (if conns_of u s = {} then None else Some (conns_of u s)))"

lemma indexed_ids [simp]: "indexed s \<Longrightarrow> ids_of_user u s = conns_of u s"
  by (simp add: indexed_def ids_of_user_def)

lemma indexed_finite [simp]: "indexed s \<Longrightarrow> finite (conns_of u s)"
  by (rule finite_subset [of _ "dom (cs_info s)"]) (auto simp: indexed_def conns_of_def)

lemma indexed_new: "indexed (NewMemoryConnectionStore n)"
  by (simp add: indexed_def NewMemoryConnectionStore_def conns_of_def)

lemma stamped_simps [simp]: "ci_id (stamped now ci) = ci_id ci" "ci_user (stamped now ci) = ci_user ci"
  by (simp_all add: stamped_def)

lemma indexed_change:
  assumes "indexed s" "\<And>ci. ci_id (f ci) = ci_id ci \<and> ci_user (f ci) = ci_user ci"
  shows "indexed (snd (mcs_change now cid f s)) \<and> conns_of u (snd (mcs_change now cid f s)) = conns_of u s"
proof -
  have "conns_of v (s\<lparr>cs_info := (cs_info s)(cid \<mapsto> (f ci)\<lparr>ci_updated := now\<rparr>)\<rparr>) = conns_of v s"
    if "cs_info s cid = Some ci" for v ci
    using that assms(2) by (auto simp: conns_of_def split: if_splits)
  then show ?thesis
    using assms by (auto simp: mcs_change_def indexed_def split: option.splits)
qed

lemma cs_simps [simp]:
  "cs_info (drop_user_conn u cid s) = cs_info s" "cs_max (drop_user_conn u cid s) = cs_max s"
  by (simp_all add: drop_user_conn_def Let_def split: option.split)

lemma conns_of_drop [simp]: "conns_of u (drop_user_conn v cid s) = conns_of u s"
  by (simp add: conns_of_def)

lemma drop_user_conn_users:
  "(\<forall>v. cs_users s v = (if X v = {} then None else Some (X v))) \<Longrightarrow>
   cs_users (drop_user_conn u cid s) v
     = (let Y = (if v = u then X v - {cid} else X v) in if Y = {} then None else Some Y)"
  by (auto simp: drop_user_conn_def Let_def split: option.splits if_splits)

lemma conns_of_put:
  "conns_of u (mcs_put ci s)
     = (if u = ci_user ci then insert (ci_id ci) (conns_of u s) else conns_of u s - {ci_id ci})"
  by (auto simp: mcs_put_def Let_def conns_of_def split: option.splits if_splits)

lemma cs_info_put: "cs_info (mcs_put ci s) = (cs_info s)(ci_id ci \<mapsto> ci)"
  by (simp add: mcs_put_def Let_def split: option.split)

lemma indexed_put:
  assumes "indexed s"
  shows "indexed (mcs_put ci s)"
proof -
  let ?s1 = "case cs_info s (ci_id ci) of
      Some old \<Rightarrow> if ci_user old \<noteq> ci_user ci then drop_user_conn (ci_user old) (ci_id ci) s else s | None \<Rightarrow> s"
  let ?Y = "\<lambda>v. if v = ci_user ci then conns_of v s else conns_of v s - {ci_id ci}"
  have X: "\<forall>v. cs_users s v = (if conns_of v s = {} then None else Some (conns_of v s))"
    using assms by (simp add: indexed_def)
  have users: "cs_users ?s1 v = (if ?Y v = {} then None else Some (?Y v))" for v
  proof (cases "cs_info s (ci_id ci)")
    case None
    then have "ci_id ci \<notin> conns_of w s" for w by (simp add: conns_of_def)
    then show ?thesis using None X by simp
  next
    case (Some old)
    then have other: "conns_of w s - {ci_id ci} = conns_of w s" if "w \<noteq> ci_user old" for w
      using that by (auto simp: conns_of_def)
    note drop = drop_user_conn_users [OF X, of "ci_user old" "ci_id ci" v]
    show ?thesis
    proof (cases "ci_user old = ci_user ci")
      case True
      then show ?thesis using Some X other [of v] by simp
    next
      case False
      then show ?thesis using Some drop other [of v] by (cases "v = ci_user old") (simp_all add: Let_def)
    qed
  qed
  then have "ids_of_user (ci_user ci) ?s1 = conns_of (ci_user ci) s"
    by (simp add: ids_of_user_def)
  then have "cs_users (mcs_put ci s) v
      = (if conns_of v (mcs_put ci s) = {} then None else Some (conns_of v (mcs_put ci s)))" for v
    unfolding conns_of_put using users [of v] by (simp add: mcs_put_def Let_def)
  then show ?thesis using assms by (simp add: indexed_def cs_info_put)
qed

lemma conns_of_remove: "conns_of u (snd (mcs_remove cid s)) = (if cid = [] then conns_of u s else conns_of u s - {cid})"
  by (auto simp: mcs_remove_def conns_of_def split: option.splits if_splits)

lemma cs_info_remove: "cid \<noteq> [] \<Longrightarrow> cs_info (snd (mcs_remove cid s)) = (cs_info s)(cid := None)"
  by (auto simp: mcs_remove_def split: option.splits)

lemma indexed_remove:
  assumes "indexed s"
  shows "indexed (snd (mcs_remove cid s))"
proof (cases "cid \<noteq> [] \<and> cs_info s cid \<noteq> None")
  case False
  then show ?thesis using assms by (auto simp: mcs_remove_def)
next
  case True
  then obtain ci where ci: "cs_info s cid = Some ci" by auto
  let ?s1 = "s\<lparr>cs_info := (cs_info s)(cid := None)\<rparr>"
  have X: "\<forall>v. cs_users ?s1 v = (if conns_of v s = {} then None else Some (conns_of v s))"
    using assms by (simp add: indexed_def)
  have "cid \<notin> conns_of v s" if "v \<noteq> ci_user ci" for v using ci that by (auto simp: conns_of_def)
  then have "cs_users (drop_user_conn (ci_user ci) cid ?s1) v
      = (if conns_of v s - {cid} = {} then None else Some (conns_of v s - {cid}))" for v
    using drop_user_conn_users [OF X, of "ci_user ci" cid v] by (auto simp: Let_def)
  moreover have "conns_of v (drop_user_conn (ci_user ci) cid ?s1) = conns_of v s - {cid}" for v
    using conns_of_remove [of v cid s] True ci by (simp add: mcs_remove_def)
  ultimately show ?thesis
    using assms True ci by (simp add: indexed_def mcs_remove_def)
qed

lemma conns_of_remove_by_user:
  "indexed s \<Longrightarrow> u \<noteq> [] \<Longrightarrow> conns_of v (snd (mcs_remove_by_user u s)) = (if v = u then {} else conns_of v s)"
  by (auto simp: mcs_remove_by_user_def conns_of_def restrict_map_def)

lemma indexed_remove_by_user:
  assumes "indexed s"
  shows "indexed (snd (mcs_remove_by_user u s))"
proof (cases "u = []")
  case True
  then show ?thesis using assms by (simp add: mcs_remove_by_user_def)
next
  case False
  then show ?thesis
    using assms unfolding indexed_def conns_of_remove_by_user [OF assms False]
    by (auto simp: mcs_remove_by_user_def restrict_map_def dom_def elim: rev_finite_subset split: if_splits)
qed

subsection \<open>What the server relies on\<close>

text \<open>
  The interface: a store of connections by identifier with an index by user that is exact whenever the
  store is well formed.
\<close>

locale connection_index =
  fixes ident :: "'c \<Rightarrow> string"
    and owner :: "'c \<Rightarrow> string"
    and conns :: "'s \<Rightarrow> string \<rightharpoonup> 'c"
    and of_user :: "string \<Rightarrow> 's \<Rightarrow> string set"
    and store_conn :: "'c \<Rightarrow> 's \<Rightarrow> 's"
    and drop_conn :: "string \<Rightarrow> 's \<Rightarrow> 's"
    and wf :: "'s \<Rightarrow> bool"
  assumes store_conns: "conns (store_conn c s) = (conns s)(ident c \<mapsto> c)"
    and store_wf: "wf s \<Longrightarrow> wf (store_conn c s)"
    and drop_conns: "cid \<noteq> [] \<Longrightarrow> conns (drop_conn cid s) = (conns s)(cid := None)"
    and drop_wf: "wf s \<Longrightarrow> wf (drop_conn cid s)"
    and exact: "wf s \<Longrightarrow> of_user u s = {cid. \<exists>c. conns s cid = Some c \<and> owner c = u}"
begin

lemma of_user_store:
  "wf s \<Longrightarrow> of_user u (store_conn c s)
     = (if u = owner c then insert (ident c) (of_user u s) else of_user u s - {ident c})"
  by (auto simp: exact store_wf store_conns split: if_splits)

lemma of_user_drop: "wf s \<Longrightarrow> cid \<noteq> [] \<Longrightarrow> of_user u (drop_conn cid s) = of_user u s - {cid}"
  by (auto simp: exact drop_wf drop_conns split: if_splits)

text \<open>A connection that comes and goes leaves no trace.\<close>

lemma session_leaves_no_trace:
  assumes "wf s" "conns s (ident c) = None" "ident c \<noteq> []"
  shows "conns (drop_conn (ident c) (store_conn c s)) = conns s"
    and "of_user u (drop_conn (ident c) (store_conn c s)) = of_user u s"
proof -
  have "ident c \<notin> of_user u s" for u using assms by (simp add: exact)
  then show "of_user u (drop_conn (ident c) (store_conn c s)) = of_user u s"
    using assms by (simp add: of_user_drop of_user_store store_wf)
  show "conns (drop_conn (ident c) (store_conn c s)) = conns s"
    using assms by (simp add: drop_conns store_conns fun_upd_idem_iff)
qed

end

interpretation memory: connection_index ci_id ci_user cs_info ids_of_user mcs_put "\<lambda>cid s. snd (mcs_remove cid s)" indexed
  by unfold_locales
    (simp_all add: cs_info_put indexed_put cs_info_remove indexed_remove, simp add: conns_of_def)

subsection \<open>Every sequence of operations\<close>

text \<open>A patch may not change the identifier or the user, as its contract demands.\<close>

inductive conn_step :: "conn_store \<Rightarrow> conn_store \<Rightarrow> bool" where
  Add: "conn_step s (snd (mcs_add now info s))"
| Remove: "conn_step s (snd (mcs_remove cid s))"
| Update: "conn_step s (snd (mcs_update now cid meta s))"
| Patch: "(\<And>ci. ci_id (f ci) = ci_id ci \<and> ci_user (f ci) = ci_user ci) \<Longrightarrow>
    conn_step s (snd (mcs_patch now cid (Some f) s))"
| Refresh: "conn_step s (snd (mcs_refresh now cid s))"
| RemoveByUser: "conn_step s (snd (mcs_remove_by_user u s))"

inductive_cases conn_stepE: "conn_step s s'"

lemma indexed_step: "conn_step s s' \<Longrightarrow> indexed s \<Longrightarrow> indexed s'"
  by (erule conn_stepE)
     (auto simp: mcs_add_def mcs_update_def mcs_patch_def mcs_refresh_def indexed_put indexed_remove
        indexed_remove_by_user indexed_change split: option.split)

lemma indexed_steps: "conn_step\<^sup>*\<^sup>* s s' \<Longrightarrow> indexed s \<Longrightarrow> indexed s'"
  by (induction rule: rtranclp_induct) (auto intro: indexed_step)


subsection \<open>Listing and the limit\<close>

lemma take_conns_all:
  assumes "\<forall>cid \<in> set ids. info cid \<noteq> None" "limit \<le> 0 \<or> int (length acc) < limit"
  shows "take_conns info limit acc ids
    = acc @ map (\<lambda>cid. the (info cid)) (if limit > 0 then take (nat limit - length acc) ids else ids)"
  using assms
proof (induction ids arbitrary: acc)
  case (Cons cid ids)
  obtain ci where ci: "info cid = Some ci" using Cons.prems(1) by auto
  show ?case
  proof (cases "limit > 0 \<and> int (length (acc @ [ci])) \<ge> limit")
    case True
    then have "nat limit - length acc = Suc 0" using Cons.prems(2) by auto
    then show ?thesis using ci True by (simp add: Let_def)
  next
    case False
    then have "limit \<le> 0 \<or> int (length (acc @ [ci])) < limit" by auto
    then have "take_conns info limit (acc @ [ci]) ids = (acc @ [ci])
        @ map (\<lambda>cid. the (info cid)) (if limit > 0 then take (nat limit - length (acc @ [ci])) ids else ids)"
      using Cons.IH Cons.prems(1) by simp
    moreover have "nat limit - length acc = Suc (nat limit - length (acc @ [ci]))" if "limit > 0"
      using that False by auto
    ultimately show ?thesis using ci False by (auto simp: Let_def)
  qed
qed simp

text \<open>
  a listing returns live connections of the user only, each once, all of them when there is no limit
  and otherwise as many as the limit allows, whatever order the set is enumerated in.
\<close>

theorem list_by_user_exact:
  assumes "indexed s" "u \<noteq> []" "distinct order" "set order = ids_of_user u s"
  shows "\<exists>cs. mcs_list_by_user order u limit s = Inr cs \<and> distinct (map ci_id cs)
    \<and> (\<forall>ci \<in> set cs. ci_user ci = u \<and> cs_info s (ci_id ci) = Some ci)
    \<and> length cs = (if limit > 0 then min (nat limit) (card (ids_of_user u s)) else card (ids_of_user u s))"
proof -
  define ids where "ids = (if limit > 0 then take (nat limit) order else order)"
  let ?cs = "map (\<lambda>cid. the (cs_info s cid)) ids"
  have sub: "set ids \<subseteq> conns_of u s" and dist: "distinct ids"
    using assms by (auto simp: ids_def dest: in_set_takeD)
  have info: "\<forall>cid \<in> conns_of u s. \<exists>ci. cs_info s cid = Some ci \<and> ci_id ci = cid \<and> ci_user ci = u"
    using assms(1) by (auto simp: indexed_def conns_of_def)
  have list: "mcs_list_by_user order u limit s = Inr ?cs"
  proof (cases "conns_of u s = {}")
    case True
    then have "order = []" using assms by simp
    then show ?thesis using assms True by (simp add: mcs_list_by_user_def ids_def)
  next
    case False
    have "take_conns (cs_info s) limit [] order = ?cs"
      using take_conns_all [of order "cs_info s" limit "[]"] assms info by (fastforce simp: ids_def)
    then show ?thesis using assms False by (simp add: mcs_list_by_user_def)
  qed
  have "ci_id (the (cs_info s cid)) = cid" if "cid \<in> set ids" for cid using that sub info by force
  then have "map ci_id ?cs = ids" by (simp add: map_idI)
  then have "distinct (map ci_id ?cs)" using dist by (simp only:)
  moreover have "\<forall>ci \<in> set ?cs. ci_user ci = u \<and> cs_info s (ci_id ci) = Some ci" using sub info by fastforce
  moreover have "length order = card (ids_of_user u s)" using assms(3,4) by (metis distinct_card)
  then have "length ?cs = (if limit > 0 then min (nat limit) (card (ids_of_user u s)) else card (ids_of_user u s))"
    by (simp add: ids_def min.commute)
  ultimately show ?thesis using list by blast
qed

text \<open>
  The limit: it holds as long as no operation moves a connection to another user.
\<close>

definition within_limit :: "conn_store \<Rightarrow> bool" where
  "within_limit s \<longleftrightarrow> cs_max s > 0 \<longrightarrow> (\<forall>u. int (card (ids_of_user u s)) \<le> cs_max s)"

definition keeps_user :: "connection_info \<Rightarrow> conn_store \<Rightarrow> bool" where
  "keeps_user ci s \<longleftrightarrow> (\<forall>old. cs_info s (ci_id ci) = Some old \<longrightarrow> ci_user old = ci_user ci)"

text \<open>adding a connection that is new, or keeps its user, respects the limit on connections per user.\<close>

theorem add_respects_limit:
  assumes "indexed s" "within_limit s" "keeps_user ci s"
  shows "within_limit (snd (mcs_add now (Some ci) s))"
proof (cases "ci_id ci = [] \<or> ci_user ci = [] \<or> conn_full ci s")
  case True
  then show ?thesis using assms(2) by (auto simp: mcs_add_def)
next
  case False
  let ?s' = "mcs_put (stamped now ci) s"
  have "cs_max ?s' = cs_max s" by (simp add: mcs_put_def Let_def split: option.split)
  moreover have "int (card (conns_of u ?s')) \<le> cs_max s" if "cs_max s > 0" for u
  proof (cases "u = ci_user ci")
    case True
    show ?thesis
    proof (cases "cs_info s (ci_id ci)")
      case None
      then have "int (card (conns_of u s)) < cs_max s" using False assms(1) that True by (simp add: conn_full_def)
      moreover have "card (insert (ci_id ci) (conns_of u s)) \<le> Suc (card (conns_of u s))"
        by (rule card_insert_le_m1) simp_all
      ultimately show ?thesis using True by (simp add: conns_of_put)
    next
      case (Some old)
      then have "ci_id ci \<in> conns_of u s" using assms(3) True by (auto simp: keeps_user_def conns_of_def)
      then show ?thesis using assms(1,2) that True by (simp add: conns_of_put insert_absorb within_limit_def)
    qed
  next
    case False
    have "card (conns_of u s - {ci_id ci}) \<le> card (conns_of u s)"
      by (rule card_mono) (use assms(1) in auto)
    moreover have "int (card (conns_of u s)) \<le> cs_max s"
      using assms(1,2) that by (simp add: within_limit_def)
    ultimately show ?thesis using False by (simp add: conns_of_put)
  qed
  ultimately show ?thesis
    using False assms(1) indexed_put [OF assms(1), of "stamped now ci"]
    by (simp add: mcs_add_def within_limit_def)
qed

text \<open>
  an overwrite that moves a connection to another user is not counted against that user's limit: the
  check only looks at connections whose identifier is new.
\<close>

theorem overwrite_bypasses_limit:
  assumes "indexed s" "cs_info s (ci_id ci) = Some old" "ci_user old \<noteq> ci_user ci"
    and "ci_id ci \<noteq> []" "ci_user ci \<noteq> []" "int (card (ids_of_user (ci_user ci) s)) = cs_max s"
  shows "\<exists>s'. mcs_add now (Some ci) s = (Inr (stamped now ci), s')
    \<and> int (card (ids_of_user (ci_user ci) s')) = cs_max s' + 1"
proof -
  let ?s' = "mcs_put (stamped now ci) s"
  have "ci_id ci \<notin> conns_of (ci_user ci) s" using assms(2,3) by (simp add: conns_of_def)
  then have "card (conns_of (ci_user ci) ?s') = Suc (card (conns_of (ci_user ci) s))"
    using assms(1) by (simp add: conns_of_put)
  moreover have "cs_max ?s' = cs_max s" by (simp add: mcs_put_def Let_def split: option.split)
  moreover have "mcs_add now (Some ci) s = (Inr (stamped now ci), ?s')"
    using assms(2,4,5) by (simp add: mcs_add_def conn_full_def)
  ultimately show ?thesis
    using assms(1,6) indexed_put [OF assms(1), of "stamped now ci"] by (intro exI [of _ ?s']) simp
qed

end
