(* ===== verification/FunctionRegistry.thy ===== *)
theory FunctionRegistry
  imports HandlerBase
begin

text \<open>
  \<^verbatim>\<open>internal/server/function_registry.go\<close> and \<^verbatim>\<open>internal/handler/register_functions.go\<close>: the functions that
  the devices of a user declare, in a map of maps, and the request that replaces a device's functions.
  The interface is a map keyed by user and device, stated as a locale.
\<close>

record return_info =
  ri_type :: string
  ri_description :: string

text \<open>A parameter schema is kept verbatim; it is its JSON text here.\<close>

record function_info =
  fi_name :: string
  fi_description :: string
  fi_parameters :: string
  fi_returns :: "return_info option"
  fi_tags :: "string list"
  fi_timeout_ms :: int

record device_functions =
  df_user :: string
  df_device :: string
  df_info :: "(string \<rightharpoonup> string) option"
  df_functions :: "function_info list"
  df_registered :: time

record RegisterFunctionsParams =
  rf_device_id :: string
  rf_device_info :: "(string \<rightharpoonup> string) option"
  rf_functions :: "function_info list"

datatype registry_error = ErrFunctionNameEmpty | ErrFunctionNameTooLong | ErrFunctionNameDuplicate
  | ErrMaxFunctionsPerDevice

fun registry_error_msg :: "registry_error \<Rightarrow> string" where
  "registry_error_msg ErrFunctionNameEmpty = ''function name must not be empty''"
| "registry_error_msg ErrFunctionNameTooLong = ''function name exceeds maximum length''"
| "registry_error_msg ErrFunctionNameDuplicate = ''duplicate function name in registration''"
| "registry_error_msg ErrMaxFunctionsPerDevice = ''max functions per device exceeded''"

record fn_registry =
  fr_devices :: "string \<rightharpoonup> (string \<rightharpoonup> device_functions)"
  fr_max_functions :: int
  fr_max_name :: int

definition NewMemoryFunctionRegistry :: "int \<Rightarrow> int \<Rightarrow> fn_registry" where
  "NewMemoryFunctionRegistry max_functions max_name =
     \<lparr>fr_devices = Map.empty,
      fr_max_functions = (if max_functions \<le> 0 then 500 else max_functions),
      fr_max_name = (if max_name \<le> 0 then 255 else max_name)\<rparr>"

text \<open>The loop over the names, with the set of names seen so far.\<close>

fun validate_names :: "int \<Rightarrow> string set \<Rightarrow> function_info list \<Rightarrow> registry_error option" where
  "validate_names max_name seen [] = None"
| "validate_names max_name seen (f # fs) =
     (if fi_name f = [] then Some ErrFunctionNameEmpty
      else if int (length (fi_name f)) > max_name then Some ErrFunctionNameTooLong
      else if fi_name f \<in> seen then Some ErrFunctionNameDuplicate
      else validate_names max_name (insert (fi_name f) seen) fs)"

definition devices_of :: "string \<Rightarrow> fn_registry \<Rightarrow> string \<rightharpoonup> device_functions" where
  "devices_of u r = (case fr_devices r u of None \<Rightarrow> Map.empty | Some m \<Rightarrow> m)"

definition put_device :: "device_functions \<Rightarrow> string \<Rightarrow> string \<Rightarrow> fn_registry \<Rightarrow> fn_registry" where
  "put_device df u d r = r\<lparr>fr_devices := (fr_devices r)(u \<mapsto> (devices_of u r)(d \<mapsto> df))\<rparr>"

definition RegisterFunctions ::
  "time \<Rightarrow> string \<Rightarrow> string \<Rightarrow> RegisterFunctionsParams \<Rightarrow> fn_registry \<Rightarrow> registry_error option \<times> fn_registry" where
  "RegisterFunctions now u d p r =
     (if int (length (rf_functions p)) > fr_max_functions r then (Some ErrMaxFunctionsPerDevice, r)
      else case validate_names (fr_max_name r) {} (rf_functions p) of
             Some e \<Rightarrow> (Some e, r)
           | None \<Rightarrow> (None, put_device \<lparr>df_user = u, df_device = d, df_info = rf_device_info p,
                                         df_functions = rf_functions p, df_registered = now\<rparr> u d r))"

definition GetDeviceFunctions :: "string \<Rightarrow> string \<Rightarrow> fn_registry \<Rightarrow> device_functions option" where
  "GetDeviceFunctions u d r =
     (case fr_devices r u of None \<Rightarrow> None | Some m \<Rightarrow> m d)"

definition GetFunctions :: "string \<Rightarrow> string \<Rightarrow> fn_registry \<Rightarrow> function_info list option" where
  "GetFunctions u d r = map_option df_functions (GetDeviceFunctions u d r)"

definition GetFunctionsByUser :: "string \<Rightarrow> fn_registry \<Rightarrow> (string \<rightharpoonup> function_info list) option" where
  "GetFunctionsByUser u r =
     (case fr_devices r u of
        None \<Rightarrow> None
      | Some m \<Rightarrow> if m = Map.empty then None else Some (map_option df_functions \<circ> m))"

definition OnDeviceDisconnect :: "string \<Rightarrow> string \<Rightarrow> fn_registry \<Rightarrow> device_functions option \<times> fn_registry" where
  "OnDeviceDisconnect u d r =
     (case fr_devices r u of
        None \<Rightarrow> (None, r)
      | Some m \<Rightarrow>
          (case m d of
             None \<Rightarrow> (None, r)
           | Some df \<Rightarrow>
               let m' = m(d := None)
               in (Some df, r\<lparr>fr_devices := (fr_devices r)(u := if m' = Map.empty then None else Some m')\<rparr>)))"

subsection \<open>system.register\_functions\<close>

definition registryErrorToHandlerError :: "registry_error \<Rightarrow> HandlerError" where
  "registryErrorToHandlerError e = NewValidationError (registry_error_msg e)"

text \<open>The device is the connection's own; the one in the parameters is ignored.\<close>

definition register_functions ::
  "time \<Rightarrow> client_conn \<Rightarrow> RegisterFunctionsParams option \<Rightarrow> fn_registry \<Rightarrow> (HandlerError + int \<times> string) \<times> fn_registry" where
  "register_functions now cl params r =
     (case params of
        None \<Rightarrow> (Inl invalid_params, r)
      | Some p \<Rightarrow>
          (case RegisterFunctions now (cl_user cl) (cl_device cl) p r of
             (Some e, r') \<Rightarrow> (Inl (registryErrorToHandlerError e), r')
           | (None, r') \<Rightarrow> (Inr (int (length (rf_functions p)), cl_device cl), r')))"

subsection \<open>Which registrations are accepted\<close>

lemma validate_names_ok_iff:
  "validate_names n seen fs = None \<longleftrightarrow> distinct (map fi_name fs) \<and> fi_name ` set fs \<inter> seen = {}
     \<and> (\<forall>f \<in> set fs. fi_name f \<noteq> [] \<and> int (length (fi_name f)) \<le> n)"
  by (induction n seen fs rule: validate_names.induct) auto

definition acceptable :: "fn_registry \<Rightarrow> function_info list \<Rightarrow> bool" where
  "acceptable r fs \<longleftrightarrow> int (length fs) \<le> fr_max_functions r \<and> distinct (map fi_name fs)
     \<and> (\<forall>f \<in> set fs. fi_name f \<noteq> [] \<and> int (length (fi_name f)) \<le> fr_max_name r)"

lemma register_accepts_iff: "fst (RegisterFunctions now u d p r) = None \<longleftrightarrow> acceptable r (rf_functions p)"
  by (auto simp: RegisterFunctions_def acceptable_def validate_names_ok_iff [of _ "{}", simplified, symmetric]
      split: option.splits)

subsection \<open>The map a registry stands for\<close>

locale keyed_map =
  fixes entry :: "'s \<Rightarrow> 'k \<rightharpoonup> 'v"
    and put :: "'k \<Rightarrow> 'v \<Rightarrow> 's \<Rightarrow> 's"
    and del :: "'k \<Rightarrow> 's \<Rightarrow> 's"
    and tidy :: "'s \<Rightarrow> bool"
  assumes entry_put: "entry (put k v s) = (entry s)(k \<mapsto> v)"
    and entry_del: "entry (del k s) = (entry s)(k := None)"
    and tidy_put: "tidy s \<Longrightarrow> tidy (put k v s)"
    and tidy_del: "tidy s \<Longrightarrow> tidy (del k s)"
begin

text \<open>A run of insertions and deletions has the effect of the same run on a plain map.\<close>

definition run_ops :: "('k \<times> 'v option) list \<Rightarrow> 's \<Rightarrow> 's" where
  "run_ops ops s = foldl (\<lambda>s (k, w). case w of Some v \<Rightarrow> put k v s | None \<Rightarrow> del k s) s ops"

lemma run_ops_entry: "entry (run_ops ops s) = foldl (\<lambda>m (k, w). m(k := w)) (entry s) ops"
proof (induction ops rule: rev_induct)
  case (snoc x ops)
  then show ?case by (cases x) (auto simp: run_ops_def entry_put entry_del split: option.split)
qed (simp add: run_ops_def)

lemma run_ops_tidy: "tidy s \<Longrightarrow> tidy (run_ops ops s)"
  by (induction ops rule: rev_induct) (auto simp: run_ops_def tidy_put tidy_del split: option.split)

end

definition registered :: "fn_registry \<Rightarrow> string \<times> string \<rightharpoonup> device_functions" where
  "registered r = (\<lambda>(u, d). GetDeviceFunctions u d r)"

definition no_empty_user :: "fn_registry \<Rightarrow> bool" where
  "no_empty_user r \<longleftrightarrow> (\<forall>u. fr_devices r u \<noteq> Some Map.empty)"

interpretation registry: keyed_map registered "\<lambda>(u, d) df. put_device df u d"
  "\<lambda>(u, d) r. snd (OnDeviceDisconnect u d r)" no_empty_user
proof (unfold_locales, goal_cases)
  case (1 k v s)
  then show ?case
    by (cases k) (auto simp: registered_def put_device_def GetDeviceFunctions_def devices_of_def fun_eq_iff
        split: option.splits)
next
  case (2 k s)
  then show ?case
    by (cases k) (auto simp: registered_def OnDeviceDisconnect_def GetDeviceFunctions_def Let_def fun_eq_iff
        split: option.splits if_splits)
next
  case (3 s k v)
  then show ?case by (cases k) (auto simp: no_empty_user_def put_device_def devices_of_def split: option.splits)
next
  case (4 s k)
  then show ?case by (cases k) (auto simp: no_empty_user_def OnDeviceDisconnect_def Let_def split: option.splits)
qed

subsection \<open>What a registration does\<close>

lemma register_refused_keeps:
  assumes "\<not> acceptable r (rf_functions p)"
  shows "snd (register_functions now cl (Some p) r) = r"
proof -
  obtain e r' where e: "RegisterFunctions now (cl_user cl) (cl_device cl) p r = (Some e, r')"
    using register_accepts_iff [of now "cl_user cl" "cl_device cl" p r] assms
    by (cases "RegisterFunctions now (cl_user cl) (cl_device cl) p r") auto
  then have "r' = r" by (auto simp: RegisterFunctions_def split: if_splits option.splits)
  then show ?thesis using e by (simp add: register_functions_def)
qed

text \<open>
  a registration replaces the list of the caller's own device, whatever device its parameters name,
  and of no other device; it is refused with a validation error exactly when there are too many functions
  or a name is empty, too long or repeated, and then nothing changes.
\<close>

theorem register_functions_effect:
  "(if acceptable r (rf_functions p)
    then \<exists>r'. register_functions now cl (Some p) r = (Inr (int (length (rf_functions p)), cl_device cl), r')
      \<and> GetFunctions (cl_user cl) (cl_device cl) r' = Some (rf_functions p)
      \<and> (\<forall>u d. (u, d) = (cl_user cl, cl_device cl) \<or> GetDeviceFunctions u d r' = GetDeviceFunctions u d r)
    else \<exists>e. register_functions now cl (Some p) r = (Inl e, r) \<and> he_code e = ResponseCodeValidationError)"
proof (cases "acceptable r (rf_functions p)")
  case True
  then have "fst (RegisterFunctions now (cl_user cl) (cl_device cl) p r) = None"
    by (simp add: register_accepts_iff)
  then have run: "RegisterFunctions now (cl_user cl) (cl_device cl) p r = (None, put_device
      \<lparr>df_user = cl_user cl, df_device = cl_device cl, df_info = rf_device_info p,
       df_functions = rf_functions p, df_registered = now\<rparr> (cl_user cl) (cl_device cl) r)" (is "_ = (None, ?r')")
    by (auto simp: RegisterFunctions_def split: if_splits option.splits)
  have entry: "registered ?r' (u, d) = (if (u, d) = (cl_user cl, cl_device cl) then Some
      \<lparr>df_user = cl_user cl, df_device = cl_device cl, df_info = rf_device_info p,
       df_functions = rf_functions p, df_registered = now\<rparr> else registered r (u, d))" for u d
    using registry.entry_put [of "(cl_user cl, cl_device cl)" _ r] by simp
  show ?thesis
    using True run entry [of "cl_user cl" "cl_device cl"] entry
    by (auto simp: register_functions_def GetFunctions_def registered_def)
next
  case False
  then obtain e r' where e: "RegisterFunctions now (cl_user cl) (cl_device cl) p r = (Some e, r')"
    using register_accepts_iff [of now "cl_user cl" "cl_device cl" p r]
    by (cases "RegisterFunctions now (cl_user cl) (cl_device cl) p r") auto
  then have "r' = r" by (auto simp: RegisterFunctions_def split: if_splits option.splits)
  then show ?thesis
    using False e by (simp add: register_functions_def registryErrorToHandlerError_def NewValidationError_def
        NewHandlerError_def)
qed

text \<open>What can happen to a registry: requests of any clients, and devices that disconnect.\<close>

inductive registry_step :: "fn_registry \<Rightarrow> fn_registry \<Rightarrow> bool" where
  Register: "registry_step r (snd (register_functions now cl params r))"
| Disconnect: "registry_step r (snd (OnDeviceDisconnect u d r))"

inductive_cases registry_stepE: "registry_step r r'"

definition registry_ok :: "fn_registry \<Rightarrow> bool" where
  "registry_ok r \<longleftrightarrow> no_empty_user r \<and> (\<forall>u d df. registered r (u, d) = Some df \<longrightarrow>
     df_user df = u \<and> df_device df = d \<and> acceptable r (df_functions df))"

lemma acceptable_put [simp]: "acceptable (put_device df u d r) = acceptable r"
  by (simp add: acceptable_def put_device_def fun_eq_iff)

lemma acceptable_disconnect [simp]: "acceptable (snd (OnDeviceDisconnect u d r)) = acceptable r"
  by (auto simp: acceptable_def OnDeviceDisconnect_def Let_def fun_eq_iff split: option.splits)

lemma registry_ok_put:
  assumes "registry_ok r" "acceptable r (df_functions df)"
  shows "registry_ok (put_device df (df_user df) (df_device df) r)"
  using assms registry.tidy_put [of r "(df_user df, df_device df)" df]
    registry.entry_put [of "(df_user df, df_device df)" df r]
  by (simp add: registry_ok_def)

lemma registry_ok_disconnect:
  assumes "registry_ok r"
  shows "registry_ok (snd (OnDeviceDisconnect u d r))"
  using assms registry.tidy_del [of r "(u, d)"] registry.entry_del [of "(u, d)" r]
  by (simp add: registry_ok_def)

lemma registry_ok_register:
  assumes "registry_ok r"
  shows "registry_ok (snd (register_functions now cl params r))"
proof (cases params)
  case None
  then show ?thesis using assms by (simp add: register_functions_def)
next
  case (Some p)
  let ?run = "RegisterFunctions now (cl_user cl) (cl_device cl) p r"
  show ?thesis
  proof (cases "acceptable r (rf_functions p)")
    case True
    then have "fst ?run = None" by (simp add: register_accepts_iff)
    then have "snd ?run = put_device \<lparr>df_user = cl_user cl, df_device = cl_device cl,
        df_info = rf_device_info p, df_functions = rf_functions p, df_registered = now\<rparr> (cl_user cl) (cl_device cl) r"
      by (auto simp: RegisterFunctions_def split: if_splits option.splits)
    then have "registry_ok (snd ?run)" using registry_ok_put [OF assms, of "\<lparr>df_user = cl_user cl,
        df_device = cl_device cl, df_info = rf_device_info p, df_functions = rf_functions p, df_registered = now\<rparr>"] True
      by simp
    then show ?thesis using Some by (auto simp: register_functions_def split: prod.split option.split)
  next
    case False
    then have "snd (register_functions now cl params r) = r"
      using register_refused_keeps [OF False] Some by simp
    then show ?thesis using assms by simp
  qed
qed

text \<open>
  C33: in every state of the registry each stored list is one that registration accepts, it is filed under
  its own user and device, and no user is kept without a device.
\<close>

theorem registry_invariant:
  assumes "registry_step\<^sup>*\<^sup>* (NewMemoryFunctionRegistry n m) r"
  shows "registry_ok r"
  using assms
proof (induction rule: rtranclp_induct)
  case base
  then show ?case
    by (simp add: registry_ok_def no_empty_user_def registered_def GetDeviceFunctions_def NewMemoryFunctionRegistry_def)
next
  case (step y z)
  from step(2,3) show ?case
    by (elim registry_stepE) (simp_all add: registry_ok_register registry_ok_disconnect)
qed

end
