(* ===== verification/Hub.thy ===== *)
theory Hub
  imports Connections FunctionRegistry
begin

text \<open>
  \<^verbatim>\<open>internal/server/websocket_server.go\<close> and the sending side of \<^verbatim>\<open>websocket_client.go\<close>: the life of a
  WebSocket connection on one node.  The state holds the three local indexes, the connection store, the
  function registry, the timers of deferred function clean-ups and, for every request in
  \<^verbatim>\<open>handleWebSocket\<close>, how far it has come.  Every section that runs under the server's lock, and every
  call to the store, is one operation; the step relation interleaves them freely.
\<close>

subsection \<open>Clients\<close>

record hub_client =
  hc_id :: string
  hc_user :: string
  hc_device :: string
  hc_closed :: bool
  hc_buf :: "data_update list list"
  hc_cap :: nat

datatype send_error = ErrClientClosed | ErrSendBufferFull

definition Client_Send :: "data_update list \<Rightarrow> hub_client \<Rightarrow> send_error option \<times> hub_client" where
  "Client_Send msg c =
     (if hc_closed c then (Some ErrClientClosed, c)
      else if length (hc_buf c) < hc_cap c then (None, c\<lparr>hc_buf := hc_buf c @ [msg]\<rparr>)
      else (Some ErrSendBufferFull, c))"

definition Client_Close :: "hub_client \<Rightarrow> hub_client" where
  "Client_Close c = c\<lparr>hc_closed := True\<rparr>"

subsection \<open>The state of the server\<close>

text \<open>
  A request of \<^verbatim>\<open>handleWebSocket\<close>: after it has captured the device's old connections, after it has
  registered its client, while the client runs, after the store forgot the connection, and after the
  local indexes forgot it.
\<close>

datatype phase =
    Captured string string "string set"
  | Registered string string
  | Serving string string
  | Unstored string string
  | Unindexed string string

text \<open>A goroutine of \<^verbatim>\<open>scheduleFuncCleanup\<close>: waiting, or past its check for a live connection.\<close>

record cleanup_timer =
  tm_user :: string
  tm_device :: string
  tm_cancelled :: bool
  tm_checked :: bool
  tm_cleaned :: bool

record hub =
  h_clients :: "string \<rightharpoonup> hub_client"
  h_by_user :: "string \<rightharpoonup> string set"
  h_by_device :: "string \<rightharpoonup> string set"
  h_pending :: "string \<rightharpoonup> nat"
  h_timers :: "nat \<rightharpoonup> cleanup_timer"
  h_next :: nat
  h_phase :: "string \<rightharpoonup> phase"
  h_replacing :: "(string \<times> string \<times> string) set"
  h_store :: conn_store
  h_registry :: fn_registry

definition device_key :: "string \<Rightarrow> string \<Rightarrow> string" where
  "device_key u d = u @ CHR 0x00 # d"

text \<open>Membership in a map of sets; a set that becomes empty is deleted.\<close>

definition members_at :: "string \<Rightarrow> (string \<rightharpoonup> string set) \<Rightarrow> string set" where
  "members_at k m = (case m k of None \<Rightarrow> {} | Some s \<Rightarrow> s)"

definition add_at :: "string \<Rightarrow> string \<Rightarrow> (string \<rightharpoonup> string set) \<Rightarrow> string \<rightharpoonup> string set" where
  "add_at k x m = m(k \<mapsto> insert x (members_at k m))"

definition del_at :: "string \<Rightarrow> string \<Rightarrow> (string \<rightharpoonup> string set) \<Rightarrow> string \<rightharpoonup> string set" where
  "del_at k x m =
     (case m k of None \<Rightarrow> m
      | Some s \<Rightarrow> m(k := if s - {x} = {} then None else Some (s - {x})))"

subsection \<open>Indexes and deferred clean-ups\<close>

definition cancelPendingFuncCleanup :: "string \<Rightarrow> string \<Rightarrow> hub \<Rightarrow> hub" where
  "cancelPendingFuncCleanup u d h =
     (case h_pending h (device_key u d) of
        None \<Rightarrow> h
      | Some t \<Rightarrow> h\<lparr>h_timers := (h_timers h)(t := map_option (\<lambda>tm. tm\<lparr>tm_cancelled := True\<rparr>) (h_timers h t)),
                      h_pending := (h_pending h)(device_key u d := None)\<rparr>)"

definition scheduleFuncCleanup :: "string \<Rightarrow> string \<Rightarrow> hub \<Rightarrow> hub" where
  "scheduleFuncCleanup u d h =
     (let h1 = cancelPendingFuncCleanup u d h; t = h_next h
      in h1\<lparr>h_pending := (h_pending h1)(device_key u d \<mapsto> t),
            h_timers := (h_timers h1)(t \<mapsto> \<lparr>tm_user = u, tm_device = d, tm_cancelled = False,
               tm_checked = False, tm_cleaned = False\<rparr>),
            h_next := Suc t\<rparr>)"

definition removeClient :: "string \<Rightarrow> string \<Rightarrow> string \<Rightarrow> hub \<Rightarrow> hub" where
  "removeClient cid u d h =
     h\<lparr>h_clients := (h_clients h)(cid := None),
       h_by_user := del_at u cid (h_by_user h),
       h_by_device := del_at (device_key u d) cid (h_by_device h)\<rparr>"

text \<open>
  The registration block of \<^verbatim>\<open>handleWebSocket\<close>: the captured connections leave the device index, the new
  one enters all three, and a pending clean-up of the device is cancelled.
\<close>

definition register_client :: "hub_client \<Rightarrow> string set \<Rightarrow> hub \<Rightarrow> hub" where
  "register_client c olds h =
     (let k = device_key (hc_user c) (hc_device c);
          h1 = h\<lparr>h_by_device := (h_by_device h)(k := map_option (\<lambda>ids. ids - olds) (h_by_device h k)),
                 h_clients := (h_clients h)(hc_id c \<mapsto> c),
                 h_by_user := add_at (hc_user c) (hc_id c) (h_by_user h)\<rparr>;
          h2 = cancelPendingFuncCleanup (hc_user c) (hc_device c) h1
      in h2\<lparr>h_by_device := add_at k (hc_id c) (h_by_device h2)\<rparr>)"

subsection \<open>The steps of a connection\<close>

text \<open>The checks before the upgrade: the authenticated user, the device identifier and its length.\<close>

definition upgrade_check :: "string option \<Rightarrow> string \<Rightarrow> string \<Rightarrow> int + string \<times> string" where
  "upgrade_check authenticated device_param fresh =
     (case authenticated of
        None \<Rightarrow> Inl 401
      | Some u \<Rightarrow>
          if u = [] then Inl 401
          else let d = (if device_param = [] then fresh else device_param)
               in if length d > 255 then Inl 400 else Inr (u, d))"

definition ws_capture :: "string \<Rightarrow> string \<Rightarrow> string \<Rightarrow> hub \<Rightarrow> hub" where
  "ws_capture cid u d h =
     h\<lparr>h_phase := (h_phase h)(cid \<mapsto> Captured u d (members_at (device_key u d) (h_by_device h)))\<rparr>"

definition new_client :: "nat \<Rightarrow> string \<Rightarrow> string \<Rightarrow> string \<Rightarrow> hub_client" where
  "new_client cap cid u d =
     \<lparr>hc_id = cid, hc_user = u, hc_device = d, hc_closed = False, hc_buf = [], hc_cap = cap\<rparr>"

definition ws_register :: "nat \<Rightarrow> string \<Rightarrow> hub \<Rightarrow> hub" where
  "ws_register cap cid h =
     (case h_phase h cid of
        Some (Captured u d olds) \<Rightarrow>
          (register_client (new_client cap cid u d) olds h)
            \<lparr>h_phase := (h_phase h)(cid \<mapsto> Registered u d), h_replacing := h_replacing h \<union> (\<lambda>x. (x, u, d)) ` olds\<rparr>
      | _ \<Rightarrow> h)"

definition ws_info :: "string \<Rightarrow> string \<Rightarrow> string \<Rightarrow> string \<Rightarrow> connection_info" where
  "ws_info cid u d ip =
     \<lparr>ci_id = cid, ci_user = u, ci_session = [], ci_device = d, ci_device_type = [], ci_ip = ip,
      ci_protocol = ''websocket'', ci_heartbeat = zero_time, ci_status = ''active'', ci_meta = Map.empty,
      ci_created = zero_time, ci_updated = zero_time, ci_ttl = 0\<rparr>"

definition close_client :: "string \<Rightarrow> hub \<Rightarrow> hub" where
  "close_client cid h = h\<lparr>h_clients := (h_clients h)(cid := map_option Client_Close (h_clients h cid))\<rparr>"

text \<open>A refused connection is closed and removed, and the request ends there.\<close>

definition ws_store_add :: "time \<Rightarrow> string \<Rightarrow> string \<Rightarrow> hub \<Rightarrow> hub" where
  "ws_store_add now ip cid h =
     (case h_phase h cid of
        Some (Registered u d) \<Rightarrow>
          (case mcs_add now (Some (ws_info cid u d ip)) (h_store h) of
             (Inl e, st) \<Rightarrow> (removeClient cid u d (close_client cid (h\<lparr>h_store := st\<rparr>)))
                              \<lparr>h_phase := (h_phase h)(cid := None)\<rparr>
           | (Inr _, st) \<Rightarrow> h\<lparr>h_store := st, h_phase := (h_phase h)(cid \<mapsto> Serving u d)\<rparr>)
      | _ \<Rightarrow> h)"

text \<open>The three steps after the client's goroutines ended.\<close>

definition ws_store_remove :: "string \<Rightarrow> hub \<Rightarrow> hub" where
  "ws_store_remove cid h =
     (case h_phase h cid of
        Some (Serving u d) \<Rightarrow> (close_client cid h)\<lparr>h_store := snd (mcs_remove cid (h_store h)),
                                  h_phase := (h_phase h)(cid \<mapsto> Unstored u d)\<rparr>
      | _ \<Rightarrow> h)"

definition ws_remove :: "string \<Rightarrow> hub \<Rightarrow> hub" where
  "ws_remove cid h =
     (case h_phase h cid of
        Some (Unstored u d) \<Rightarrow> (removeClient cid u d h)\<lparr>h_phase := (h_phase h)(cid \<mapsto> Unindexed u d)\<rparr>
      | _ \<Rightarrow> h)"

definition ws_schedule :: "string \<Rightarrow> hub \<Rightarrow> hub" where
  "ws_schedule cid h =
     (case h_phase h cid of
        Some (Unindexed u d) \<Rightarrow>
          (if h_by_device h (device_key u d) = None then scheduleFuncCleanup u d h else h)
            \<lparr>h_phase := (h_phase h)(cid := None)\<rparr>
      | _ \<Rightarrow> h)"

text \<open>
  \<^verbatim>\<open>performDeviceReplacement\<close>, for one old connection with the user and device of its successor: close
  it, later remove it.
\<close>

definition replace_close :: "string \<Rightarrow> string \<Rightarrow> string \<Rightarrow> hub \<Rightarrow> hub" where
  "replace_close cid u d h = (if (cid, u, d) \<in> h_replacing h then close_client cid h else h)"

definition replace_remove :: "string \<Rightarrow> string \<Rightarrow> string \<Rightarrow> hub \<Rightarrow> hub" where
  "replace_remove cid u d h =
     (if (cid, u, d) \<in> h_replacing h
      then (removeClient cid u d h)\<lparr>h_replacing := h_replacing h - {(cid, u, d)}\<rparr> else h)"

text \<open>
  The goroutine of a deferred clean-up: the grace period is over and the device index is read; then the
  registry is cleaned; then the pending entry is deleted.
\<close>

definition timer_check :: "nat \<Rightarrow> hub \<Rightarrow> hub" where
  "timer_check t h =
     (case h_timers h t of
        None \<Rightarrow> h
      | Some tm \<Rightarrow>
          if tm_checked tm then h
          else if tm_cancelled tm then h\<lparr>h_timers := (h_timers h)(t := None)\<rparr>
          else if h_by_device h (device_key (tm_user tm) (tm_device tm)) \<noteq> None
          then h\<lparr>h_timers := (h_timers h)(t := None)\<rparr>
          else h\<lparr>h_timers := (h_timers h)(t \<mapsto> tm\<lparr>tm_checked := True\<rparr>)\<rparr>)"

definition timer_clean :: "nat \<Rightarrow> hub \<Rightarrow> hub" where
  "timer_clean t h =
     (case h_timers h t of
        None \<Rightarrow> h
      | Some tm \<Rightarrow>
          if tm_checked tm \<and> \<not> tm_cleaned tm
          then h\<lparr>h_registry := snd (OnDeviceDisconnect (tm_user tm) (tm_device tm) (h_registry h)),
                 h_timers := (h_timers h)(t \<mapsto> tm\<lparr>tm_cleaned := True\<rparr>)\<rparr>
          else h)"

definition timer_finish :: "nat \<Rightarrow> hub \<Rightarrow> hub" where
  "timer_finish t h =
     (case h_timers h t of
        None \<Rightarrow> h
      | Some tm \<Rightarrow>
          if tm_cleaned tm
          then h\<lparr>h_pending := (h_pending h)(device_key (tm_user tm) (tm_device tm) := None),
                 h_timers := (h_timers h)(t := None)\<rparr>
          else h)"

subsection \<open>Broadcast and shutdown\<close>

definition broadcastLocal :: "string \<Rightarrow> data_update list \<Rightarrow> hub \<Rightarrow> hub" where
  "broadcastLocal u msg h =
     h\<lparr>h_clients := (\<lambda>cid. map_option (\<lambda>c. if cid \<in> members_at u (h_by_user h) then snd (Client_Send msg c) else c)
                        (h_clients h cid))\<rparr>"

definition handleRemoteBroadcast :: "string \<Rightarrow> string \<Rightarrow> string \<Rightarrow> data_update list \<Rightarrow> hub \<Rightarrow> hub" where
  "handleRemoteBroadcast own source u msg h = (if source = own then h else broadcastLocal u msg h)"

definition closeAllClients :: "hub \<Rightarrow> hub" where
  "closeAllClients h = h\<lparr>h_clients := Map.empty, h_by_user := Map.empty, h_by_device := Map.empty\<rparr>"

text \<open>
  A broadcast started on one node: its local part, and the message published for the others.  \<open>delivered\<close>
  are the nodes whose subscription hands the message on, the sender's own possibly among them.
\<close>

definition BroadcastUpdates ::
  "string \<Rightarrow> string set \<Rightarrow> string \<Rightarrow> data_update list \<Rightarrow> (string \<Rightarrow> hub) \<Rightarrow> string \<Rightarrow> hub" where
  "BroadcastUpdates source delivered u msg nodes =
     (\<lambda>n. let h = (if n = source then broadcastLocal u msg (nodes n) else nodes n)
          in if n \<in> delivered then handleRemoteBroadcast n source u msg h else h)"

subsection \<open>The indexes agree\<close>

text \<open>The index by user is exact, the one by device names registered connections of the device only.\<close>

definition idx :: "(string \<rightharpoonup> hub_client) \<Rightarrow> (string \<rightharpoonup> string set) \<Rightarrow> (string \<rightharpoonup> string set) \<Rightarrow> bool" where
  "idx cl bu bd \<longleftrightarrow> (\<forall>cid c. cl cid = Some c \<longrightarrow> hc_id c = cid)
     \<and> (\<forall>u. members_at u bu = {cid. \<exists>c. cl cid = Some c \<and> hc_user c = u}) \<and> (\<forall>u. bu u \<noteq> Some {})
     \<and> (\<forall>k. members_at k bd \<subseteq> {cid. \<exists>c. cl cid = Some c \<and> device_key (hc_user c) (hc_device c) = k})
     \<and> (\<forall>k. bd k \<noteq> Some {})"

lemma members_add: "members_at k (add_at j x m) = (if k = j then insert x (members_at k m) else members_at k m)"
  by (simp add: members_at_def add_at_def)

lemma members_del: "members_at k (del_at j x m) = (if k = j then members_at k m - {x} else members_at k m)"
  by (auto simp: members_at_def del_at_def split: option.splits)

lemma add_not_empty: "\<forall>k. m k \<noteq> Some {} \<Longrightarrow> add_at j x m k \<noteq> Some {}"
  by (simp add: add_at_def)

lemma del_not_empty: "\<forall>k. m k \<noteq> Some {} \<Longrightarrow> del_at j x m k \<noteq> Some {}"
  by (auto simp: del_at_def split: option.splits)

definition knows :: "(string \<rightharpoonup> hub_client) \<Rightarrow> string \<Rightarrow> string \<Rightarrow> string \<Rightarrow> bool" where
  "knows cl cid u d \<longleftrightarrow> (\<forall>c. cl cid = Some c \<longrightarrow> hc_user c = u \<and> hc_device c = d)"

lemma idx_device:
  assumes "idx cl bu bd" "x \<in> members_at k bd"
  obtains c where "cl x = Some c" "device_key (hc_user c) (hc_device c) = k"
proof -
  have "members_at k bd \<subseteq> {cid. \<exists>c. cl cid = Some c \<and> device_key (hc_user c) (hc_device c) = k}"
    using assms(1) by (simp add: idx_def)
  then have "x \<in> {cid. \<exists>c. cl cid = Some c \<and> device_key (hc_user c) (hc_device c) = k}"
    using assms(2) by (rule subsetD)
  then show ?thesis using that by blast
qed

lemma idx_remove:
  assumes "idx cl bu bd" "knows cl cid u d"
  shows "idx (cl(cid := None)) (del_at u cid bu) (del_at (device_key u d) cid bd)"
proof -
  have other: "cid \<notin> members_at v bu" if "v \<noteq> u" for v using assms that by (auto simp: idx_def knows_def)
  have dev: "cid \<notin> members_at k bd" if "k \<noteq> device_key u d" for k
    using assms that by (auto simp: knows_def elim!: idx_device)
  have "members_at v (del_at u cid bu) = {x. \<exists>c. (cl(cid := None)) x = Some c \<and> hc_user c = v}" for v
    using assms(1) other [of v] unfolding members_del idx_def by (cases "v = u") auto
  moreover have "members_at k (del_at (device_key u d) cid bd)
      \<subseteq> {x. \<exists>c. (cl(cid := None)) x = Some c \<and> device_key (hc_user c) (hc_device c) = k}" for k
    using dev [of k] by (auto simp: members_del elim: idx_device [OF assms(1)] split: if_splits)
  ultimately show ?thesis
    using assms(1) by (simp add: idx_def del_not_empty)
qed

lemma idx_map:
  assumes "idx cl bu bd" "\<And>cid c. hc_id (f cid c) = hc_id c \<and> hc_user (f cid c) = hc_user c \<and> hc_device (f cid c) = hc_device c"
  shows "idx (\<lambda>cid. map_option (f cid) (cl cid)) bu bd"
proof -
  have "members_at k bd \<subseteq> {x. \<exists>c. map_option (f x) (cl x) = Some c \<and> device_key (hc_user c) (hc_device c) = k}" for k
    using assms(2) by (auto elim!: idx_device [OF assms(1)])
  then show ?thesis using assms by (auto simp: idx_def)
qed

lemma knows_map:
  assumes "\<And>cid c. hc_id (f cid c) = hc_id c \<and> hc_user (f cid c) = hc_user c \<and> hc_device (f cid c) = hc_device c"
  shows "knows (\<lambda>cid. map_option (f cid) (cl cid)) cid u d = knows cl cid u d"
  using assms by (auto simp: knows_def)

lemma idx_add:
  assumes "idx cl bu bd" "cl (hc_id c) = None"
  shows "idx (cl(hc_id c \<mapsto> c)) (add_at (hc_user c) (hc_id c) bu)
    (add_at (device_key (hc_user c) (hc_device c)) (hc_id c)
      (bd(device_key (hc_user c) (hc_device c) := map_option (\<lambda>ids. ids - olds) (bd (device_key (hc_user c) (hc_device c))))))"
proof -
  let ?k = "device_key (hc_user c) (hc_device c)"
  let ?bd = "bd(?k := map_option (\<lambda>ids. ids - olds) (bd ?k))"
  have "members_at v (add_at (hc_user c) (hc_id c) bu) = {x. \<exists>e. (cl(hc_id c \<mapsto> c)) x = Some e \<and> hc_user e = v}" for v
    using assms unfolding members_add idx_def by auto
  moreover have sub: "members_at k ?bd \<subseteq> members_at k bd" for k
    by (auto simp: members_at_def split: option.splits)
  have "members_at k (add_at ?k (hc_id c) ?bd)
      \<subseteq> {x. \<exists>e. (cl(hc_id c \<mapsto> c)) x = Some e \<and> device_key (hc_user e) (hc_device e) = k}" for k
  proof
    fix x assume x: "x \<in> members_at k (add_at ?k (hc_id c) ?bd)"
    show "x \<in> {x. \<exists>e. (cl(hc_id c \<mapsto> c)) x = Some e \<and> device_key (hc_user e) (hc_device e) = k}"
    proof (cases "x = hc_id c \<and> k = ?k")
      case False
      then have "x \<in> members_at k bd" using x sub [of k] unfolding members_add by (auto split: if_splits)
      then obtain e where e: "cl x = Some e" "device_key (hc_user e) (hc_device e) = k"
        by (rule idx_device [OF assms(1)])
      then show ?thesis using assms(2) by auto
    qed auto
  qed
  moreover have "add_at ?k (hc_id c) ?bd k \<noteq> Some {}" for k
    using assms(1) by (simp add: add_at_def idx_def)
  ultimately show ?thesis
    using assms(1) by (simp add: idx_def add_not_empty)
qed

subsection \<open>Every interleaving\<close>

text \<open>
  The steps of all requests, replacements, timers, registrations of functions, broadcasts and the
  shutdown, in any order.  A connection identifier is new when a request draws it.  A user's name holds
  no NUL byte.
\<close>

definition mentioned :: "hub \<Rightarrow> string set" where
  "mentioned h = dom (h_clients h) \<union> fst ` h_replacing h
     \<union> {x. \<exists>cid u d olds. h_phase h cid = Some (Captured u d olds) \<and> x \<in> olds}"

definition set_registry :: "fn_registry \<Rightarrow> hub \<Rightarrow> hub" where
  "set_registry r h = h\<lparr>h_registry := r\<rparr>"

inductive hub_step :: "hub \<Rightarrow> hub \<Rightarrow> bool" where
  Capture: "h_phase h cid = None \<Longrightarrow> cid \<notin> mentioned h \<Longrightarrow> cid \<noteq> [] \<Longrightarrow> CHR 0x00 \<notin> set u \<Longrightarrow>
    hub_step h (ws_capture cid u d h)"
| Register: "hub_step h (ws_register cap cid h)"
| StoreAdd: "hub_step h (ws_store_add now ip cid h)"
| StoreRemove: "hub_step h (ws_store_remove cid h)"
| Remove: "hub_step h (ws_remove cid h)"
| Schedule: "hub_step h (ws_schedule cid h)"
| ReplaceClose: "hub_step h (replace_close cid u d h)"
| ReplaceRemove: "hub_step h (replace_remove cid u d h)"
| TimerCheck: "hub_step h (timer_check t h)"
| TimerClean: "hub_step h (timer_clean t h)"
| TimerFinish: "hub_step h (timer_finish t h)"
| Functions: "h_phase h cid = Some (Serving u d) \<Longrightarrow>
    hub_step h (set_registry (snd (register_functions now \<lparr>cl_user = u, cl_device = d\<rparr> params (h_registry h))) h)"
| Broadcast: "hub_step h (broadcastLocal u msg h)"
| Shutdown: "hub_step h (closeAllClients h)"

inductive_cases hub_stepE: "hub_step h h'"

definition hub_init :: "conn_store \<Rightarrow> fn_registry \<Rightarrow> hub" where
  "hub_init st r = \<lparr>h_clients = Map.empty, h_by_user = Map.empty, h_by_device = Map.empty, h_pending = Map.empty,
     h_timers = Map.empty, h_next = 0, h_phase = Map.empty, h_replacing = {}, h_store = st, h_registry = r\<rparr>"

definition indexed_hub :: "hub \<Rightarrow> bool" where
  "indexed_hub h \<longleftrightarrow> idx (h_clients h) (h_by_user h) (h_by_device h)"

definition hub_ok :: "hub \<Rightarrow> bool" where
  "hub_ok h \<longleftrightarrow> indexed_hub h
     \<and> (\<forall>cid u d olds. h_phase h cid = Some (Captured u d olds) \<longrightarrow>
          cid \<notin> mentioned h \<and> CHR 0x00 \<notin> set u \<and> (\<forall>x \<in> olds. knows (h_clients h) x u d))
     \<and> (\<forall>cid u d. h_phase h cid \<in> {Some (Registered u d), Some (Serving u d), Some (Unstored u d)} \<longrightarrow>
          knows (h_clients h) cid u d)
     \<and> (\<forall>(x, u, d) \<in> h_replacing h. knows (h_clients h) x u d)
     \<and> (\<forall>cid c. h_clients h cid = Some c \<longrightarrow> CHR 0x00 \<notin> set (hc_user c))"

text \<open>Most steps only lose or close clients and move a request forward.\<close>

definition shrinks :: "(string \<rightharpoonup> hub_client) \<Rightarrow> (string \<rightharpoonup> hub_client) \<Rightarrow> bool" where
  "shrinks cl cl' \<longleftrightarrow> (\<forall>x c'. cl' x = Some c' \<longrightarrow> (\<exists>c. cl x = Some c \<and> hc_user c = hc_user c' \<and> hc_device c = hc_device c'))"

lemma shrinks_knows: "shrinks cl cl' \<Longrightarrow> knows cl x u d \<Longrightarrow> knows cl' x u d"
  by (fastforce simp: shrinks_def knows_def)

lemma shrinks_dom: "shrinks cl cl' \<Longrightarrow> dom cl' \<subseteq> dom cl"
  by (fastforce simp: shrinks_def)

definition forward :: "phase option \<Rightarrow> phase option \<Rightarrow> bool" where
  "forward a b \<longleftrightarrow> b = a \<or> b = None \<or> (\<exists>u d. a \<in> {Some (Registered u d), Some (Serving u d), Some (Unstored u d)}
     \<and> b \<in> {Some (Serving u d), Some (Unstored u d), Some (Unindexed u d)})"

lemma hub_ok_shrink:
  assumes "hub_ok h" "indexed_hub h'" "shrinks (h_clients h) (h_clients h')"
    and "\<And>cid. forward (h_phase h cid) (h_phase h' cid)" "h_replacing h' \<subseteq> h_replacing h"
  shows "hub_ok h'"
proof -
  have cap: "h_phase h cid = Some (Captured u d olds)" if "h_phase h' cid = Some (Captured u d olds)" for cid u d olds
    using assms(4) [of cid] that by (auto simp: forward_def)
  note kn = shrinks_knows [OF assms(3)]
  have "mentioned h' \<subseteq> mentioned h"
    using shrinks_dom [OF assms(3)] assms(5) cap unfolding mentioned_def by blast
  then have "cid \<notin> mentioned h' \<and> CHR 0x00 \<notin> set u \<and> (\<forall>x \<in> olds. knows (h_clients h') x u d)"
    if "h_phase h' cid = Some (Captured u d olds)" for cid u d olds
    using cap [OF that] assms(1) kn unfolding hub_ok_def by blast
  moreover have "knows (h_clients h') cid u d"
    if p: "h_phase h' cid \<in> {Some (Registered u d), Some (Serving u d), Some (Unstored u d)}" for cid u d
  proof -
    have "h_phase h cid \<in> {Some (Registered u d), Some (Serving u d), Some (Unstored u d)}"
      using assms(4) [of cid] p by (elim insertE emptyE) (auto simp: forward_def)
    then show ?thesis using assms(1) kn unfolding hub_ok_def by blast
  qed
  moreover have "\<forall>(x, u, d) \<in> h_replacing h'. knows (h_clients h') x u d"
    using assms(1,5) kn unfolding hub_ok_def by blast
  moreover have "CHR 0x00 \<notin> set (hc_user c)" if "h_clients h' cid = Some c" for cid c
    using that assms(1,3) unfolding hub_ok_def shrinks_def by metis
  ultimately show ?thesis using assms(2) unfolding hub_ok_def by blast
qed

lemma cancel_simps [simp]:
  "h_clients (cancelPendingFuncCleanup u d h) = h_clients h"
  "h_by_user (cancelPendingFuncCleanup u d h) = h_by_user h"
  "h_by_device (cancelPendingFuncCleanup u d h) = h_by_device h"
  "h_phase (cancelPendingFuncCleanup u d h) = h_phase h"
  "h_replacing (cancelPendingFuncCleanup u d h) = h_replacing h"
  "h_store (cancelPendingFuncCleanup u d h) = h_store h"
  "h_registry (cancelPendingFuncCleanup u d h) = h_registry h"
  "h_next (cancelPendingFuncCleanup u d h) = h_next h"
  by (simp_all add: cancelPendingFuncCleanup_def split: option.split)

lemma schedule_simps [simp]:
  "h_clients (scheduleFuncCleanup u d h) = h_clients h"
  "h_by_user (scheduleFuncCleanup u d h) = h_by_user h"
  "h_by_device (scheduleFuncCleanup u d h) = h_by_device h"
  "h_phase (scheduleFuncCleanup u d h) = h_phase h"
  "h_replacing (scheduleFuncCleanup u d h) = h_replacing h"
  "h_store (scheduleFuncCleanup u d h) = h_store h"
  "h_registry (scheduleFuncCleanup u d h) = h_registry h"
  by (simp_all add: scheduleFuncCleanup_def Let_def)

lemma timer_simps [simp]:
  "h_clients (timer_check t h) = h_clients h" "h_clients (timer_clean t h) = h_clients h"
  "h_clients (timer_finish t h) = h_clients h"
  "h_by_user (timer_check t h) = h_by_user h" "h_by_user (timer_clean t h) = h_by_user h"
  "h_by_user (timer_finish t h) = h_by_user h"
  "h_by_device (timer_check t h) = h_by_device h" "h_by_device (timer_clean t h) = h_by_device h"
  "h_by_device (timer_finish t h) = h_by_device h"
  "h_phase (timer_check t h) = h_phase h" "h_phase (timer_clean t h) = h_phase h"
  "h_phase (timer_finish t h) = h_phase h"
  "h_replacing (timer_check t h) = h_replacing h" "h_replacing (timer_clean t h) = h_replacing h"
  "h_replacing (timer_finish t h) = h_replacing h"
  by (simp_all add: timer_check_def timer_clean_def timer_finish_def split: option.split)

lemma remove_simps [simp]:
  "h_clients (removeClient cid u d h) = (h_clients h)(cid := None)"
  "h_phase (removeClient cid u d h) = h_phase h" "h_replacing (removeClient cid u d h) = h_replacing h"
  "h_store (removeClient cid u d h) = h_store h" "h_registry (removeClient cid u d h) = h_registry h"
  "h_pending (removeClient cid u d h) = h_pending h" "h_timers (removeClient cid u d h) = h_timers h"
  by (simp_all add: removeClient_def)

lemma close_simps [simp]:
  "h_by_user (close_client cid h) = h_by_user h" "h_by_device (close_client cid h) = h_by_device h"
  "h_phase (close_client cid h) = h_phase h" "h_replacing (close_client cid h) = h_replacing h"
  "h_store (close_client cid h) = h_store h" "h_registry (close_client cid h) = h_registry h"
  "h_pending (close_client cid h) = h_pending h" "h_timers (close_client cid h) = h_timers h"
  by (simp_all add: close_client_def)

lemma Client_simps [simp]:
  "hc_id (Client_Close c) = hc_id c" "hc_user (Client_Close c) = hc_user c" "hc_device (Client_Close c) = hc_device c"
  "hc_id (snd (Client_Send m c)) = hc_id c" "hc_user (snd (Client_Send m c)) = hc_user c"
  "hc_device (snd (Client_Send m c)) = hc_device c"
  by (simp_all add: Client_Close_def Client_Send_def)

lemma close_as_map: "h_clients (close_client cid h) = (\<lambda>x. map_option (if x = cid then Client_Close else (\<lambda>c. c)) (h_clients h x))"
  by (auto simp: close_client_def fun_eq_iff option.map_ident)

lemma hub_indexed_remove:
  "indexed_hub h \<Longrightarrow> knows (h_clients h) cid u d \<Longrightarrow> indexed_hub (removeClient cid u d h)"
  by (simp add: indexed_hub_def removeClient_def idx_remove)

lemma indexed_close: "indexed_hub h \<Longrightarrow> indexed_hub (close_client cid h)"
  unfolding indexed_hub_def close_simps close_as_map by (rule idx_map) auto

lemma indexed_broadcast: "indexed_hub h \<Longrightarrow> indexed_hub (broadcastLocal u msg h)"
  unfolding indexed_hub_def broadcastLocal_def by (simp, rule idx_map) auto

lemma indexed_cong:
  "h_clients h' = h_clients h \<Longrightarrow> h_by_user h' = h_by_user h \<Longrightarrow> h_by_device h' = h_by_device h \<Longrightarrow>
     indexed_hub h' = indexed_hub h"
  by (simp add: indexed_hub_def)

lemma knows_close: "knows (h_clients (close_client cid h)) x u d = knows (h_clients h) x u d"
  unfolding close_as_map by (rule knows_map) auto

lemma forward_refl [simp]: "forward a a"
  by (simp add: forward_def)

lemma shrinks_refl [simp]: "shrinks cl cl"
  by (simp add: shrinks_def)

lemma shrinks_remove: "shrinks cl cl' \<Longrightarrow> shrinks cl (cl'(x := None))"
  by (simp add: shrinks_def)

lemma shrinks_close [simp]: "shrinks (h_clients h) (h_clients (close_client cid h))"
  by (auto simp: shrinks_def close_client_def)

lemma shrinks_broadcast [simp]: "shrinks (h_clients h) (h_clients (broadcastLocal u msg h))"
  by (auto simp: shrinks_def broadcastLocal_def)

lemma hub_ok_same:
  assumes "hub_ok h" "h_clients h' = h_clients h" "h_by_user h' = h_by_user h" "h_by_device h' = h_by_device h"
    "\<And>cid. forward (h_phase h cid) (h_phase h' cid)" "h_replacing h' = h_replacing h"
  shows "hub_ok h'"
proof (rule hub_ok_shrink [OF assms(1)])
  show "indexed_hub h'" using assms indexed_cong [of h' h] by (simp add: hub_ok_def)
qed (use assms in simp_all)

lemma hub_ok_remove:
  assumes "hub_ok h" "knows (h_clients h) cid u d" "\<And>x. forward (h_phase h x) (p x)" "r \<subseteq> h_replacing h"
  shows "hub_ok ((removeClient cid u d h)\<lparr>h_phase := p, h_replacing := r\<rparr>)"
proof (rule hub_ok_shrink [OF assms(1)])
  have "indexed_hub (removeClient cid u d h)" using assms by (simp add: hub_ok_def hub_indexed_remove)
  then show "indexed_hub ((removeClient cid u d h)\<lparr>h_phase := p, h_replacing := r\<rparr>)"
    by (simp add: indexed_hub_def)
qed (use assms shrinks_remove in simp_all)

lemma hub_ok_close:
  assumes "hub_ok h"
  shows "hub_ok (close_client cid h)"
  by (rule hub_ok_shrink [OF assms]) (use assms in \<open>simp_all add: hub_ok_def indexed_close\<close>)

lemma known:
  assumes "hub_ok h" "h_phase h cid \<in> {Some (Registered u d), Some (Serving u d), Some (Unstored u d)}"
  shows "knows (h_clients h) cid u d"
  using assms unfolding hub_ok_def by blast

lemma device_key_inj:
  assumes "device_key u d = device_key v e" "CHR 0x00 \<notin> set u" "CHR 0x00 \<notin> set v"
  shows "u = v \<and> d = e"
proof -
  have head: "takeWhile (\<lambda>x. x \<noteq> CHR 0x00) (u @ CHR 0x00 # d) = u" if "CHR 0x00 \<notin> set u" for u d
    using that by (induction u) auto
  have "u = v" using head [OF assms(2), of d] head [OF assms(3), of e] assms(1) by (simp add: device_key_def)
  then show ?thesis using assms(1) by (simp add: device_key_def)
qed

lemma hub_ok_capture:
  assumes "hub_ok h" "cid \<notin> mentioned h" "CHR 0x00 \<notin> set u"
  shows "hub_ok (ws_capture cid u d h)"
proof -
  let ?h = "ws_capture cid u d h" and ?olds = "members_at (device_key u d) (h_by_device h)"
  have ix: "idx (h_clients h) (h_by_user h) (h_by_device h)" using assms(1) by (simp add: hub_ok_def indexed_hub_def)
  have nul: "CHR 0x00 \<notin> set (hc_user c)" if "h_clients h x = Some c" for x c
    using assms(1) that unfolding hub_ok_def by blast
  have olds: "knows (h_clients h) x u d" "x \<in> dom (h_clients h)" if x: "x \<in> ?olds" for x
  proof -
    obtain c where c: "h_clients h x = Some c" "device_key (hc_user c) (hc_device c) = device_key u d"
      by (rule idx_device [OF ix x])
    then have "hc_user c = u \<and> hc_device c = d" using device_key_inj nul assms(3) by blast
    then show "knows (h_clients h) x u d" "x \<in> dom (h_clients h)" using c(1) by (auto simp: knows_def)
  qed
  have phases: "h_phase ?h x = (if x = cid then Some (Captured u d ?olds) else h_phase h x)" for x
    by (simp add: ws_capture_def)
  have "mentioned ?h \<subseteq> mentioned h"
    using olds(2) by (auto simp: mentioned_def ws_capture_def split: if_splits)
  then have "x \<notin> mentioned ?h \<and> CHR 0x00 \<notin> set v \<and> (\<forall>y \<in> os. knows (h_clients ?h) y v e)"
    if "h_phase ?h x = Some (Captured v e os)" for x v e os
    using that assms olds(1) unfolding hub_ok_def phases by (auto simp: ws_capture_def split: if_splits)
  moreover have "knows (h_clients ?h) x v e"
    if "h_phase ?h x \<in> {Some (Registered v e), Some (Serving v e), Some (Unstored v e)}" for x v e
    using that known [OF assms(1), of x v e] unfolding phases by (auto simp: ws_capture_def split: if_splits)
  moreover have "indexed_hub ?h" using assms(1) by (simp add: hub_ok_def indexed_hub_def ws_capture_def)
  moreover have "\<forall>(x, v, e) \<in> h_replacing ?h. knows (h_clients ?h) x v e"
    using assms(1) by (simp add: hub_ok_def ws_capture_def)
  moreover have "h_clients ?h = h_clients h" by (simp add: ws_capture_def)
  ultimately show ?thesis using nul unfolding hub_ok_def by metis
qed

lemma register_simps:
  "h_clients (register_client c olds h) = (h_clients h)(hc_id c \<mapsto> c)"
  "h_by_user (register_client c olds h) = add_at (hc_user c) (hc_id c) (h_by_user h)"
  "h_by_device (register_client c olds h) = add_at (device_key (hc_user c) (hc_device c)) (hc_id c)
     ((h_by_device h)(device_key (hc_user c) (hc_device c) :=
        map_option (\<lambda>ids. ids - olds) (h_by_device h (device_key (hc_user c) (hc_device c)))))"
  "h_phase (register_client c olds h) = h_phase h" "h_replacing (register_client c olds h) = h_replacing h"
  "h_store (register_client c olds h) = h_store h" "h_registry (register_client c olds h) = h_registry h"
  by (simp_all add: register_client_def Let_def)

lemma register_timers:
  "h_timers (register_client c olds h) = h_timers (cancelPendingFuncCleanup (hc_user c) (hc_device c) h)"
  "h_pending (register_client c olds h) = h_pending (cancelPendingFuncCleanup (hc_user c) (hc_device c) h)"
  by (simp_all add: register_client_def Let_def cancelPendingFuncCleanup_def split: option.split)

lemma indexed_register: "indexed_hub h \<Longrightarrow> h_clients h (hc_id c) = None \<Longrightarrow> indexed_hub (register_client c olds h)"
  by (simp add: indexed_hub_def register_simps idx_add)

lemma captured:
  assumes "hub_ok h" "h_phase h cid = Some (Captured u d olds)"
  shows "cid \<notin> mentioned h" "CHR 0x00 \<notin> set u" "x \<in> olds \<Longrightarrow> knows (h_clients h) x u d"
  using assms unfolding hub_ok_def by blast+

lemma hub_ok_register:
  assumes "hub_ok h"
  shows "hub_ok (ws_register cap cid h)"
proof (cases "\<exists>u d olds. h_phase h cid = Some (Captured u d olds)")
  case False
  then have "ws_register cap cid h = h" by (auto simp: ws_register_def split: option.splits phase.splits)
  then show ?thesis using assms by simp
next
  case True
  then obtain u d olds where cap: "h_phase h cid = Some (Captured u d olds)" by auto
  let ?c = "new_client cap cid u d" and ?h = "ws_register cap cid h"
  have f: "h_clients ?h = (h_clients h)(cid \<mapsto> ?c)" "h_replacing ?h = h_replacing h \<union> (\<lambda>x. (x, u, d)) ` olds"
    "h_phase ?h = (h_phase h)(cid \<mapsto> Registered u d)" "h_by_user ?h = h_by_user (register_client ?c olds h)"
    "h_by_device ?h = h_by_device (register_client ?c olds h)"
    using cap by (simp_all add: ws_register_def register_simps new_client_def)
  have new: "cid \<notin> mentioned h" "CHR 0x00 \<notin> set u" "\<forall>x \<in> olds. knows (h_clients h) x u d"
    using captured [OF assms cap] by blast+
  then have none: "h_clients h cid = None" by (auto simp: mentioned_def)
  have keep: "knows (h_clients ?h) x v e" if "knows (h_clients h) x v e" "x \<noteq> cid" for x v e
    using that by (simp add: knows_def f)
  have olds: "cid \<notin> olds" using new(1) cap by (auto simp: mentioned_def)
  have caps: "cid' \<noteq> cid \<and> h_phase h cid' = Some (Captured v e os) \<and> cid \<notin> os \<and> cid' \<notin> mentioned h"
    if "h_phase ?h cid' = Some (Captured v e os)" for cid' v e os
    using that new(1) assms unfolding f(3) hub_ok_def by (auto simp: mentioned_def split: if_splits)
  have sub: "mentioned ?h \<subseteq> insert cid (mentioned h)"
    using cap caps unfolding mentioned_def f(1,2) by (auto, blast)
  have "cid' \<notin> mentioned ?h \<and> CHR 0x00 \<notin> set v \<and> (\<forall>y \<in> os. knows (h_clients ?h) y v e)"
    if "h_phase ?h cid' = Some (Captured v e os)" for cid' v e os
  proof -
    note c = caps [OF that]
    then have c1: "cid' \<noteq> cid" "h_phase h cid' = Some (Captured v e os)" "cid \<notin> os" "cid' \<notin> mentioned h" by auto
    have "knows (h_clients ?h) y v e" if "y \<in> os" for y
    proof (rule keep)
      show "knows (h_clients h) y v e" by (rule captured(3) [OF assms c1(2) that])
      show "y \<noteq> cid" using that c1(3) by auto
    qed
    moreover have "cid' \<notin> mentioned ?h" using sub c1(1,4) by auto
    ultimately show ?thesis using captured(2) [OF assms c1(2)] by simp
  qed
  moreover have "knows (h_clients ?h) x v e"
    if "h_phase ?h x \<in> {Some (Registered v e), Some (Serving v e), Some (Unstored v e)}" for x v e
  proof (cases "x = cid")
    case True
    then show ?thesis using that unfolding f(3) by (auto simp: knows_def f(1) new_client_def)
  next
    case False
    then show ?thesis using that keep known [OF assms, of x v e] unfolding f(3) by simp
  qed
  moreover have "\<forall>(x, v, e) \<in> h_replacing ?h. knows (h_clients ?h) x v e"
  proof -
    have "x \<noteq> cid" if "(x, v, e) \<in> h_replacing h" for x v e using that new(1) by (force simp: mentioned_def)
    moreover have "knows (h_clients h) x v e" if "(x, v, e) \<in> h_replacing h" for x v e
      using that assms unfolding hub_ok_def by blast
    ultimately show ?thesis using keep new(3) olds unfolding f(2) by blast
  qed
  moreover have "CHR 0x00 \<notin> set (hc_user c)" if "h_clients ?h x = Some c" for x c
    using that assms new(2) unfolding hub_ok_def f(1) by (auto simp: new_client_def split: if_splits)
  moreover have "indexed_hub ?h"
    using indexed_register [of h ?c olds] assms none f unfolding hub_ok_def indexed_hub_def
    by (simp add: register_simps new_client_def)
  ultimately show ?thesis unfolding hub_ok_def by blast
qed

lemma hub_ok_store_add:
  assumes "hub_ok h"
  shows "hub_ok (ws_store_add now ip cid h)"
proof (cases "\<exists>u d. h_phase h cid = Some (Registered u d)")
  case False
  then have "ws_store_add now ip cid h = h" by (auto simp: ws_store_add_def split: option.splits phase.splits)
  then show ?thesis using assms by simp
next
  case True
  then obtain u d where ph: "h_phase h cid = Some (Registered u d)" by auto
  obtain r st where add: "mcs_add now (Some (ws_info cid u d ip)) (h_store h) = (r, st)" by fastforce
  show ?thesis
  proof (cases r)
    case (Inr x)
    then show ?thesis using ph add by (intro hub_ok_same [OF assms]) (auto simp: ws_store_add_def forward_def)
  next
    case (Inl e)
    let ?h1 = "close_client cid (h\<lparr>h_store := st\<rparr>)"
    have "hub_ok (h\<lparr>h_store := st\<rparr>)" by (rule hub_ok_same [OF assms]) simp_all
    then have ok: "hub_ok ?h1" by (rule hub_ok_close)
    have "knows (h_clients ?h1) cid u d"
      using known [OF ok, of cid u d] ph by simp
    then have "hub_ok ((removeClient cid u d ?h1)\<lparr>h_phase := (h_phase h)(cid := None), h_replacing := h_replacing h\<rparr>)"
      by (intro hub_ok_remove [OF ok]) (auto simp: forward_def)
    then show ?thesis using ph add Inl by (simp add: ws_store_add_def removeClient_def close_client_def)
  qed
qed

lemma hub_ok_ws_remove:
  assumes "hub_ok h"
  shows "hub_ok (ws_remove cid h)"
proof (cases "\<exists>u d. h_phase h cid = Some (Unstored u d)")
  case False
  then have "ws_remove cid h = h" by (auto simp: ws_remove_def split: option.splits phase.splits)
  then show ?thesis using assms by simp
next
  case True
  then obtain u d where ph: "h_phase h cid = Some (Unstored u d)" by auto
  then have "knows (h_clients h) cid u d" using known [OF assms, of cid u d] by simp
  then have "hub_ok ((removeClient cid u d h)\<lparr>h_phase := (h_phase h)(cid \<mapsto> Unindexed u d), h_replacing := h_replacing h\<rparr>)"
    by (intro hub_ok_remove [OF assms]) (auto simp: forward_def ph)
  then show ?thesis using ph by (simp add: ws_remove_def removeClient_def)
qed

lemma hub_ok_replace_remove:
  assumes "hub_ok h"
  shows "hub_ok (replace_remove cid u d h)"
proof (cases "(cid, u, d) \<in> h_replacing h")
  case True
  then have "knows (h_clients h) cid u d" using assms unfolding hub_ok_def by blast
  then have "hub_ok ((removeClient cid u d h)\<lparr>h_phase := h_phase h, h_replacing := h_replacing h - {(cid, u, d)}\<rparr>)"
    by (intro hub_ok_remove [OF assms]) auto
  then show ?thesis using True by (simp add: replace_remove_def removeClient_def)
qed (simp add: replace_remove_def assms)

lemma hub_ok_step: "hub_step h h' \<Longrightarrow> hub_ok h \<Longrightarrow> hub_ok h'"
proof (erule hub_stepE)
  assume ok: "hub_ok h"
  show "hub_ok h'" if "h' = ws_capture cid u d h" "h_phase h cid = None" "cid \<notin> mentioned h" "cid \<noteq> []"
    "CHR 0x00 \<notin> set u" for cid u d
    using hub_ok_capture [OF ok that(3,5)] that(1) by simp
  show "hub_ok h'" if "h' = ws_register cap cid h" for cap cid using hub_ok_register [OF ok] that by simp
  show "hub_ok h'" if "h' = ws_store_add now ip cid h" for now ip cid using hub_ok_store_add [OF ok] that by simp
  show "hub_ok h'" if "h' = ws_store_remove cid h" for cid
    using hub_ok_same [OF hub_ok_close [OF ok, of cid], of h'] ok that
    by (auto simp: ws_store_remove_def forward_def split: option.splits phase.splits)
  show "hub_ok h'" if "h' = ws_remove cid h" for cid using hub_ok_ws_remove [OF ok] that by simp
  show "hub_ok h'" if "h' = ws_schedule cid h" for cid
    using hub_ok_same [OF ok, of h'] ok that
    by (auto simp: ws_schedule_def forward_def split: option.splits phase.splits)
  show "hub_ok h'" if "h' = replace_close cid u d h" for cid u d
    using hub_ok_close [OF ok] ok that by (simp add: replace_close_def)
  show "hub_ok h'" if "h' = replace_remove cid u d h" for cid u d using hub_ok_replace_remove [OF ok] that by simp
  show "hub_ok h'" if "h' = timer_check t h" for t using that by (intro hub_ok_same [OF ok]) simp_all
  show "hub_ok h'" if "h' = timer_clean t h" for t using that by (intro hub_ok_same [OF ok]) simp_all
  show "hub_ok h'" if "h' = timer_finish t h" for t using that by (intro hub_ok_same [OF ok]) simp_all
  show "hub_ok h'" if "h' = set_registry (snd (register_functions now \<lparr>cl_user = u, cl_device = d\<rparr> params (h_registry h))) h"
    "h_phase h cid = Some (Serving u d)" for now u d params cid
    using that by (intro hub_ok_same [OF ok]) (simp_all add: set_registry_def)
  show "hub_ok h'" if "h' = broadcastLocal u msg h" for u msg
  proof (rule hub_ok_shrink [OF ok])
    show "indexed_hub h'" using ok that indexed_broadcast by (simp add: hub_ok_def)
  qed (use that in \<open>simp_all add: broadcastLocal_def shrinks_def, auto\<close>)
  show "hub_ok h'" if "h' = closeAllClients h"
    by (rule hub_ok_shrink [OF ok])
      (use that in \<open>simp_all add: closeAllClients_def shrinks_def indexed_hub_def idx_def members_at_def\<close>)
qed

lemma hub_ok_steps: "hub_step\<^sup>*\<^sup>* h h' \<Longrightarrow> hub_ok h \<Longrightarrow> hub_ok h'"
  by (induction rule: rtranclp_induct) (auto intro: hub_ok_step)

lemma hub_ok_init: "hub_ok (hub_init st r)"
  by (simp add: hub_ok_def hub_init_def indexed_hub_def idx_def members_at_def)


subsection \<open>Broadcasts\<close>

text \<open>
  C28: a broadcast puts the package exactly once into the buffer of every connection of the user, on the
  sending node and on every node the message reaches (also when the sender receives its own message), and
  touches no other connection; a connection that is closed or whose buffer is full is skipped.
\<close>

theorem broadcast_reaches_each_connection_once:
  assumes "\<And>n. indexed_hub (nodes n)" and "h_clients (nodes n) cid = Some c"
  shows "h_clients (BroadcastUpdates source delivered u msg nodes n) cid =
    Some (if hc_user c = u \<and> (n = source \<or> n \<in> delivered) \<and> \<not> hc_closed c \<and> length (hc_buf c) < hc_cap c
          then c\<lparr>hc_buf := hc_buf c @ [msg]\<rparr> else c)"
proof -
  have "members_at u (h_by_user (nodes n)) = {cid. \<exists>c. h_clients (nodes n) cid = Some c \<and> hc_user c = u}"
    using assms(1) [of n] by (simp add: indexed_hub_def idx_def)
  then have "cid \<in> members_at u (h_by_user (nodes n)) \<longleftrightarrow> hc_user c = u" using assms(2) by auto
  then show ?thesis
    using assms(2) by (auto simp: BroadcastUpdates_def handleRemoteBroadcast_def broadcastLocal_def Let_def Client_Send_def)
qed

subsection \<open>Device replacement\<close>

lemma register_by_device:
  "h_phase h cid = Some (Captured u d olds) \<Longrightarrow>
     members_at (device_key u d) (h_by_device (ws_register cap cid h))
       = insert cid (members_at (device_key u d) (h_by_device h) - olds)"
  by (simp add: ws_register_def register_simps new_client_def members_add)
    (simp add: members_at_def split: option.split)

text \<open>
  when a device connects again, the new connection is the only one in the device's index and every
  old one is handed to the replacement.
\<close>

theorem handshake_replaces_device:
  "members_at (device_key u d) (h_by_device (ws_register cap cid (ws_capture cid u d h))) = {cid}
    \<and> (\<forall>x \<in> members_at (device_key u d) (h_by_device h).
         (x, u, d) \<in> h_replacing (ws_register cap cid (ws_capture cid u d h)))"
proof -
  let ?h = "ws_capture cid u d h"
  have "h_phase ?h cid = Some (Captured u d (members_at (device_key u d) (h_by_device h)))"
    "h_by_device ?h = h_by_device h" by (simp_all add: ws_capture_def)
  then show ?thesis using register_by_device [of ?h cid u d _ cap] by (simp add: ws_register_def register_simps)
qed

text \<open>
  two handshakes of the same device that both capture the old connections before either registers
  leave the device with two live connections, and neither is ever replaced.
\<close>

theorem concurrent_handshakes_keep_both:
  assumes "h_by_device h (device_key u d) = None" "cid1 \<noteq> cid2"
  shows "let h' = ws_register cap cid2 (ws_register cap cid1 (ws_capture cid2 u d (ws_capture cid1 u d h)))
    in members_at (device_key u d) (h_by_device h') = {cid1, cid2} \<and> h_replacing h' = h_replacing h
    \<and> h_clients h' cid1 = Some (new_client cap cid1 u d) \<and> h_clients h' cid2 = Some (new_client cap cid2 u d)"
proof -
  let ?h0 = "ws_capture cid2 u d (ws_capture cid1 u d h)"
  let ?h1 = "ws_register cap cid1 ?h0"
  have p: "h_phase ?h0 cid1 = Some (Captured u d {})" "h_phase ?h0 cid2 = Some (Captured u d {})"
    using assms by (simp_all add: ws_capture_def members_at_def)
  then have p1: "h_phase ?h1 cid2 = Some (Captured u d {})" using assms(2) by (simp add: ws_register_def)
  have "members_at (device_key u d) (h_by_device ?h0) = {}" using assms(1) by (simp add: ws_capture_def members_at_def)
  then have "members_at (device_key u d) (h_by_device (ws_register cap cid2 ?h1)) = {cid1, cid2}"
    using register_by_device [OF p(1)] register_by_device [OF p1] by auto
  moreover have "h_replacing (ws_register cap cid2 ?h1) = h_replacing h"
    "h_clients (ws_register cap cid2 ?h1) = (h_clients h)(cid1 \<mapsto> new_client cap cid1 u d, cid2 \<mapsto> new_client cap cid2 u d)"
    using p p1 by (simp_all add: ws_register_def register_simps new_client_def) (simp_all add: ws_capture_def)
  ultimately show ?thesis using assms(2) by (simp add: Let_def)
qed

text \<open>The client refused by the store: what remains of the request.\<close>

lemma store_add_refused:
  assumes "h_phase h cid = Some (Registered u d)" "mcs_add now (Some (ws_info cid u d ip)) (h_store h) = (Inl e, st)"
  shows "h_clients (ws_store_add now ip cid h) = (h_clients h)(cid := None)"
    "h_by_user (ws_store_add now ip cid h) = del_at u cid (h_by_user h)"
    "h_by_device (ws_store_add now ip cid h) = del_at (device_key u d) cid (h_by_device h)"
    "h_pending (ws_store_add now ip cid h) = h_pending h" "h_timers (ws_store_add now ip cid h) = h_timers h"
    "h_phase (ws_store_add now ip cid h) = (h_phase h)(cid := None)"
    "h_replacing (ws_store_add now ip cid h) = h_replacing h"
    "h_registry (ws_store_add now ip cid h) = h_registry h"
  using assms by (auto simp: ws_store_add_def removeClient_def close_client_def fun_eq_iff)

text \<open>
  at the limit of connections per user, a device that reconnects loses both connections: the old one
  is replaced before the store refuses the new one.
\<close>

theorem reconnect_at_limit_loses_both:
  assumes "members_at u (h_by_user h) = {old}" "members_at (device_key u d) (h_by_device h) = {old}"
    and "cid \<noteq> old" "cid \<noteq> []" "u \<noteq> []" "conn_full (ws_info cid u d ip) (h_store h)"
  shows "let h' = replace_remove old u d (replace_close old u d (ws_store_add now ip cid
      (ws_register cap cid (ws_capture cid u d h))))
    in members_at u (h_by_user h') = {} \<and> members_at (device_key u d) (h_by_device h') = {}"
proof -
  let ?h0 = "ws_capture cid u d h"
  let ?h1 = "ws_register cap cid ?h0"
  let ?h2 = "ws_store_add now ip cid ?h1"
  have p0: "h_phase ?h0 cid = Some (Captured u d {old})" using assms(2) by (simp add: ws_capture_def)
  then have h1: "h_phase ?h1 cid = Some (Registered u d)" "h_store ?h1 = h_store h"
    "h_by_user ?h1 = add_at u cid (h_by_user h)" "(old, u, d) \<in> h_replacing ?h1"
    by (simp_all add: ws_register_def register_simps new_client_def) (simp_all add: ws_capture_def)
  have "mcs_add now (Some (ws_info cid u d ip)) (h_store ?h1) = (Inl ErrMaxConnectionsExceeded, h_store ?h1)"
    using assms(4-6) h1(2) by (simp add: mcs_add_def ws_info_def)
  note r = store_add_refused [OF h1(1) this]
  have "members_at u (h_by_user (replace_remove old u d (replace_close old u d ?h2))) = {}"
    using r(2,7) h1(3,4) assms(1,3) by (simp add: replace_remove_def replace_close_def removeClient_def members_del members_add)
  moreover have "members_at (device_key u d) (h_by_device ?h1) = {cid}"
    using register_by_device [OF p0, of cap] assms(2) by (simp add: ws_capture_def)
  then have "members_at (device_key u d) (h_by_device (replace_remove old u d (replace_close old u d ?h2))) = {}"
    using r(3,7) h1(4) by (simp add: replace_remove_def replace_close_def removeClient_def members_del)
  ultimately show ?thesis by (simp only: Let_def simp_thms)
qed

subsection \<open>Deferred clean-ups\<close>

fun phase_device :: "phase \<Rightarrow> string \<times> string" where
  "phase_device (Captured u d olds) = (u, d)"
| "phase_device (Registered u d) = (u, d)"
| "phase_device (Serving u d) = (u, d)"
| "phase_device (Unstored u d) = (u, d)"
| "phase_device (Unindexed u d) = (u, d)"

text \<open>A clean-up that will not touch the registry any more.\<close>

definition spent :: "cleanup_timer \<Rightarrow> bool" where
  "spent tm \<longleftrightarrow> tm_cancelled tm \<and> \<not> tm_checked tm \<or> tm_cleaned tm"

definition timers_spent :: "string \<Rightarrow> string \<Rightarrow> hub \<Rightarrow> bool" where
  "timers_spent u d h \<longleftrightarrow> (\<forall>t tm. h_timers h t = Some tm \<longrightarrow> (tm_user tm, tm_device tm) = (u, d) \<longrightarrow> spent tm)"

definition absent :: "string \<Rightarrow> string \<Rightarrow> hub \<Rightarrow> bool" where
  "absent u d h \<longleftrightarrow> (\<forall>cid ph. h_phase h cid = Some ph \<longrightarrow> phase_device ph \<noteq> (u, d))"

text \<open>The functions of a device that is gone, and that nothing will clean up.\<close>

definition orphaned :: "string \<Rightarrow> string \<Rightarrow> hub \<Rightarrow> bool" where
  "orphaned u d h \<longleftrightarrow> GetDeviceFunctions u d (h_registry h) \<noteq> None \<and> absent u d h \<and> timers_spent u d h"

lemma disconnect_other:
  "(v, e) \<noteq> (u, d) \<Longrightarrow> GetDeviceFunctions u d (snd (OnDeviceDisconnect v e r)) = GetDeviceFunctions u d r"
  using registry.entry_del [of "(v, e)" r] by (auto simp: registered_def fun_eq_iff split: if_splits)

lemma register_functions_other:
  assumes "(cl_user cl, cl_device cl) \<noteq> (u, d)"
  shows "GetDeviceFunctions u d (snd (register_functions now cl params r)) = GetDeviceFunctions u d r"
proof (cases params)
  case (Some p)
  show ?thesis
  proof (cases "acceptable r (rf_functions p)")
    case True
    have "fst (RegisterFunctions now (cl_user cl) (cl_device cl) p r) = None" using True by (simp add: register_accepts_iff)
    then obtain df where "snd (RegisterFunctions now (cl_user cl) (cl_device cl) p r) = put_device df (cl_user cl) (cl_device cl) r"
      by (auto simp: RegisterFunctions_def split: if_splits option.splits)
    moreover have "GetDeviceFunctions u d (put_device df (cl_user cl) (cl_device cl) r) = GetDeviceFunctions u d r"
      using registry.entry_put [of "(cl_user cl, cl_device cl)" df r] assms
      by (auto simp: registered_def fun_eq_iff split: if_splits)
    ultimately show ?thesis using Some by (auto simp: register_functions_def split: prod.split option.split)
  qed (simp add: Some register_refused_keeps)
qed (simp add: register_functions_def)

lemma timers_spent_cancel:
  assumes "timers_spent u d h"
  shows "timers_spent u d (cancelPendingFuncCleanup v e h)"
  using assms unfolding timers_spent_def cancelPendingFuncCleanup_def spent_def
  by (fastforce split: option.splits if_splits)

lemma timers_spent_schedule:
  assumes "timers_spent u d h" "(v, e) \<noteq> (u, d)"
  shows "timers_spent u d (scheduleFuncCleanup v e h)"
  using timers_spent_cancel [OF assms(1), of v e] assms(2)
  by (auto simp: timers_spent_def scheduleFuncCleanup_def Let_def)

lemma timers_spent_timer:
  assumes "timers_spent u d h"
  shows "timers_spent u d (timer_check t h)" "timers_spent u d (timer_clean t h)" "timers_spent u d (timer_finish t h)"
  using assms by (auto simp: timers_spent_def timer_check_def timer_clean_def timer_finish_def spent_def split: option.splits)

lemma timer_clean_other:
  assumes "timers_spent u d h"
  shows "GetDeviceFunctions u d (h_registry (timer_clean t h)) = GetDeviceFunctions u d (h_registry h)"
proof (cases "h_timers h t")
  case (Some tm)
  show ?thesis
  proof (cases "tm_checked tm \<and> \<not> tm_cleaned tm")
    case True
    then have "(tm_user tm, tm_device tm) \<noteq> (u, d)" using assms Some by (auto simp: timers_spent_def spent_def)
    then show ?thesis using True Some by (simp add: timer_clean_def disconnect_other)
  qed (use Some in \<open>auto simp: timer_clean_def\<close>)
qed (simp add: timer_clean_def)

lemma timer_registry [simp]:
  "h_registry (timer_check t h) = h_registry h" "h_registry (timer_finish t h) = h_registry h"
  by (simp_all add: timer_check_def timer_finish_def split: option.split)

text \<open>A step of another device, or of the machinery, keeps an orphan an orphan.\<close>

lemma orphaned_cong:
  assumes "orphaned u d h" "GetDeviceFunctions u d (h_registry h') = GetDeviceFunctions u d (h_registry h)"
    and "timers_spent u d h'" "\<And>cid ph. h_phase h' cid = Some ph \<Longrightarrow> phase_device ph \<noteq> (u, d)"
  shows "orphaned u d h'"
  using assms by (simp add: orphaned_def absent_def)

lemma orphaned_step:
  assumes "hub_step h h'" "orphaned u d h" "\<And>cid olds. h_phase h' cid \<noteq> Some (Captured u d olds)"
  shows "orphaned u d h'"
proof -
  have ph: "phase_device p \<noteq> (u, d)" if "h_phase h cid = Some p" for cid p
    using assms(2) that by (simp add: orphaned_def absent_def)
  have sp: "timers_spent u d h" using assms(2) by (simp add: orphaned_def)
  from assms(1) show ?thesis
  proof (cases rule: hub_step.cases)
    case (Capture cid v e)
    have "(v, e) \<noteq> (u, d)" using assms(3) [of cid] Capture(1) by (auto simp: ws_capture_def)
    then show ?thesis using Capture(1) ph sp
      by (intro orphaned_cong [OF assms(2), of h']) (auto simp: ws_capture_def timers_spent_def split: if_splits)
  next
    case (Register cap cid)
    show ?thesis
    proof (cases "\<exists>v e olds. h_phase h cid = Some (Captured v e olds)")
      case True
      then obtain v e olds where c: "h_phase h cid = Some (Captured v e olds)" by auto
      have "h_timers h' = h_timers (cancelPendingFuncCleanup v e h)"
        using Register c by (simp add: ws_register_def register_timers) (simp add: new_client_def)
      then have "timers_spent u d h'" using timers_spent_cancel [OF sp, of v e] by (simp add: timers_spent_def)
      then show ?thesis using Register c ph [OF c] ph
      by (intro orphaned_cong [OF assms(2), of h']) (auto simp: ws_register_def register_simps split: if_splits)
    next
      case False
      then have "h' = h" using Register by (auto simp: ws_register_def split: option.splits phase.splits)
      then show ?thesis using assms(2) by simp
    qed
  next
    case (StoreAdd now ip cid)
    show ?thesis using StoreAdd ph sp
      by (intro orphaned_cong [OF assms(2), of h']) (auto simp: ws_store_add_def timers_spent_def
          dest: ph split: option.splits phase.splits prod.splits sum.splits if_splits)
  next
    case (StoreRemove cid)
    show ?thesis using StoreRemove ph sp
      by (intro orphaned_cong [OF assms(2), of h']) (auto simp: ws_store_remove_def timers_spent_def dest: ph split: option.splits phase.splits if_splits)
  next
    case (Remove cid)
    show ?thesis using Remove ph sp
      by (intro orphaned_cong [OF assms(2), of h']) (auto simp: ws_remove_def timers_spent_def dest: ph split: option.splits phase.splits if_splits)
  next
    case (Schedule cid)
    show ?thesis
    proof (cases "\<exists>v e. h_phase h cid = Some (Unindexed v e)")
      case True
      then obtain v e where c: "h_phase h cid = Some (Unindexed v e)" by auto
      then have "(v, e) \<noteq> (u, d)" using ph [OF c] by simp
      then have "timers_spent u d h'" using timers_spent_schedule [OF sp] Schedule c sp
        by (simp add: ws_schedule_def timers_spent_def)
      then show ?thesis using Schedule c ph
      by (intro orphaned_cong [OF assms(2), of h']) (auto simp: ws_schedule_def dest: ph split: if_splits)
    next
      case False
      then have "h' = h" using Schedule by (auto simp: ws_schedule_def split: option.splits phase.splits)
      then show ?thesis using assms(2) by simp
    qed
  next
    case (ReplaceClose cid v e)
    then show ?thesis using ph sp
      by (intro orphaned_cong [OF assms(2), of h']) (auto simp: replace_close_def timers_spent_def dest: ph split: if_splits)
  next
    case (ReplaceRemove cid v e)
    then show ?thesis using ph sp
      by (intro orphaned_cong [OF assms(2), of h']) (auto simp: replace_remove_def timers_spent_def dest: ph split: if_splits)
  next
    case (TimerCheck t)
    then show ?thesis using ph timers_spent_timer [OF sp]
      by (intro orphaned_cong [OF assms(2), of h']) simp_all
  next
    case (TimerClean t)
    then show ?thesis using ph timers_spent_timer [OF sp] timer_clean_other [OF sp]
      by (intro orphaned_cong [OF assms(2), of h']) simp_all
  next
    case (TimerFinish t)
    then show ?thesis using ph timers_spent_timer [OF sp]
      by (intro orphaned_cong [OF assms(2), of h']) simp_all
  next
    case (Functions cid v e now params)
    have "(v, e) \<noteq> (u, d)" using ph [OF Functions(2)] by simp
    then show ?thesis using Functions(1) ph sp register_functions_other
      by (intro orphaned_cong [OF assms(2), of h']) (simp_all add: set_registry_def timers_spent_def)
  next
    case (Broadcast v msg)
    then show ?thesis using ph sp
      by (intro orphaned_cong [OF assms(2), of h']) (simp_all add: broadcastLocal_def timers_spent_def)
  next
    case Shutdown
    then show ?thesis using ph sp
      by (intro orphaned_cong [OF assms(2), of h']) (simp_all add: closeAllClients_def timers_spent_def)
  qed
qed

text \<open>The steps after which no request of the device is under way that was not before.\<close>

definition no_return :: "string \<Rightarrow> string \<Rightarrow> hub \<Rightarrow> hub \<Rightarrow> bool" where
  "no_return u d h h' \<longleftrightarrow> hub_step h h' \<and> (\<forall>cid olds. h_phase h' cid \<noteq> Some (Captured u d olds))"

lemma orphaned_steps: "(no_return u d)\<^sup>*\<^sup>* h h' \<Longrightarrow> orphaned u d h \<Longrightarrow> orphaned u d h'"
  by (induction rule: rtranclp_induct) (auto simp: no_return_def intro: orphaned_step)

text \<open>
  C29: a reconnection that the store refuses cancels the pending clean-up of the device's functions and
  schedules no other: whatever happens afterwards on the node, as long as the device does not come back,
  its functions stay registered.
\<close>

theorem refused_reconnect_orphans_functions:
  assumes "GetDeviceFunctions u d (h_registry h) \<noteq> None" "absent u d h"
    and "h_pending h (device_key u d) = Some t"
    and "\<And>s tm. h_timers h s = Some tm \<Longrightarrow> (tm_user tm, tm_device tm) = (u, d) \<Longrightarrow> s = t \<and> \<not> tm_checked tm"
    and "cid \<noteq> []" "u \<noteq> []" "conn_full (ws_info cid u d ip) (h_store h)"
    and "(no_return u d)\<^sup>*\<^sup>* (ws_store_add now ip cid (ws_register cap cid (ws_capture cid u d h))) h'"
  shows "GetDeviceFunctions u d (h_registry h') \<noteq> None"
proof -
  let ?h0 = "ws_capture cid u d h"
  let ?h1 = "ws_register cap cid ?h0"
  have p0: "h_phase ?h0 cid = Some (Captured u d (members_at (device_key u d) (h_by_device h)))"
    by (simp add: ws_capture_def)
  then have h1: "h_phase ?h1 = (h_phase h)(cid \<mapsto> Registered u d)" "h_store ?h1 = h_store h" "h_registry ?h1 = h_registry h"
    "h_timers ?h1 = h_timers (cancelPendingFuncCleanup u d h)"
    by (simp_all add: ws_register_def register_simps register_timers new_client_def)
      (simp_all add: ws_capture_def cancelPendingFuncCleanup_def split: option.split)
  have "mcs_add now (Some (ws_info cid u d ip)) (h_store ?h1) = (Inl ErrMaxConnectionsExceeded, h_store ?h1)"
    using assms(5-7) h1(2) by (simp add: mcs_add_def ws_info_def)
  note r = store_add_refused [OF _ this]
  have "absent u d (ws_store_add now ip cid ?h1)"
    using assms(2) r(6) h1(1) by (simp add: absent_def)
  moreover have tms: "h_timers (ws_store_add now ip cid ?h1)
      = (h_timers h)(t := map_option (\<lambda>tm. tm\<lparr>tm_cancelled := True\<rparr>) (h_timers h t))"
    using r(5) h1(1,4) assms(3) by (simp add: cancelPendingFuncCleanup_def)
  have "spent tm" if tm: "h_timers (ws_store_add now ip cid ?h1) s = Some tm" "(tm_user tm, tm_device tm) = (u, d)" for s tm
  proof (cases "s = t")
    case True
    then obtain tm0 where "h_timers h t = Some tm0" "tm = tm0\<lparr>tm_cancelled := True\<rparr>" using tm(1) tms by auto
    then show ?thesis using assms(4) [of t tm0] tm(2) by (simp add: spent_def)
  next
    case False
    then show ?thesis using tm tms assms(4) [of s tm] by simp
  qed
  then have "timers_spent u d (ws_store_add now ip cid ?h1)" unfolding timers_spent_def by blast
  ultimately have "orphaned u d (ws_store_add now ip cid ?h1)"
    using assms(1) r(8) h1(1,3) by (simp add: orphaned_def)
  from orphaned_steps [OF assms(8) this] show ?thesis by (simp add: orphaned_def)
qed

text \<open>
  a device that comes back while its clean-up is still waiting keeps its functions: its registration
  cancels the timer, and when the timer fires it ends without touching the registry.
\<close>

theorem reconnect_keeps_functions:
  assumes "h_phase h cid = Some (Captured u d olds)" "h_pending h (device_key u d) = Some t"
    and "h_timers h t = Some tm" "\<not> tm_checked tm"
  shows "let h' = timer_check t (ws_register cap cid h) in h_timers h' t = None
    \<and> h_registry h' = h_registry h \<and> h_pending h' (device_key u d) = None"
proof -
  have "h_timers (ws_register cap cid h) t = Some (tm\<lparr>tm_cancelled := True\<rparr>)"
    "h_registry (ws_register cap cid h) = h_registry h" "h_pending (ws_register cap cid h) (device_key u d) = None"
    using assms by (simp_all add: ws_register_def register_simps register_timers new_client_def)
      (simp_all add: cancelPendingFuncCleanup_def)
  then show ?thesis using assms(4) by (simp add: timer_check_def)
qed

text \<open>
  C30: the clean-up decides before it cleans: when the device reconnects and registers its functions in
  between, the functions of the live connection are removed.
\<close>

theorem late_cleanup_removes_live_functions:
  assumes "h_timers h t = Some tm" "tm_user tm = u" "tm_device tm = d" "tm_checked tm" "\<not> tm_cleaned tm"
    and "h_phase h cid = Some (Serving u d)" "acceptable (h_registry h) (rf_functions p)"
  shows "let h1 = set_registry (snd (register_functions now \<lparr>cl_user = u, cl_device = d\<rparr> (Some p) (h_registry h))) h;
      h2 = timer_clean t h1
    in GetFunctions u d (h_registry h1) = Some (rf_functions p)
      \<and> h_phase h2 cid = Some (Serving u d) \<and> GetFunctions u d (h_registry h2) = None"
proof -
  let ?cl = "\<lparr>cl_user = u, cl_device = d\<rparr>"
  let ?r = "snd (register_functions now ?cl (Some p) (h_registry h))"
  have "fst (RegisterFunctions now u d p (h_registry h)) = None" using assms(7) by (simp add: register_accepts_iff)
  then have "?r = put_device \<lparr>df_user = u, df_device = d, df_info = rf_device_info p, df_functions = rf_functions p,
      df_registered = now\<rparr> u d (h_registry h)"
    by (auto simp: register_functions_def RegisterFunctions_def split: if_splits option.splits)
  then have "GetFunctions u d ?r = Some (rf_functions p)"
    using registry.entry_put [of "(u, d)" _ "h_registry h"] by (simp add: registered_def fun_eq_iff GetFunctions_def)
  moreover have "GetFunctions u d (snd (OnDeviceDisconnect u d ?r)) = None"
    using registry.entry_del [of "(u, d)" ?r] by (simp add: registered_def fun_eq_iff GetFunctions_def)
  ultimately show ?thesis using assms(1-6) by (simp add: set_registry_def timer_clean_def)
qed

end
