(* ===== verification/Ephemeral.thy ===== *)
theory Ephemeral
  imports HandlerBase Connections
begin

text \<open>
  The handlers that leave nothing in the database: \<^verbatim>\<open>heartbeat.go\<close>, \<^verbatim>\<open>set_typing.go\<close> and
  \<^verbatim>\<open>stream_text.go\<close> of \<^verbatim>\<open>internal/handler\<close>.  Their state is a table of rate limiters; the theorems bound
  how often they act, over every sequence of requests and clean-ups.
\<close>

subsection \<open>The rate limiter\<close>

text \<open>\<^verbatim>\<open>typingRateLimiter\<close> and \<^verbatim>\<open>streamingRateLimiter\<close> differ in their interval only.\<close>

record rate_limiter =
  rl_last :: time
  rl_access :: time

definition new_limiter :: rate_limiter where
  "new_limiter = \<lparr>rl_last = zero_time, rl_access = zero_time\<rparr>"

definition limiter_allow :: "duration \<Rightarrow> time \<Rightarrow> rate_limiter \<Rightarrow> bool \<times> rate_limiter" where
  "limiter_allow interval now rl =
     (let rl1 = rl\<lparr>rl_access := now\<rparr>
      in if now - rl_last rl < interval then (False, rl1) else (True, rl1\<lparr>rl_last := now\<rparr>))"

definition typing_allow :: "time \<Rightarrow> rate_limiter \<Rightarrow> bool \<times> rate_limiter" where
  "typing_allow = limiter_allow second"

definition streaming_allow :: "time \<Rightarrow> rate_limiter \<Rightarrow> bool \<times> rate_limiter" where
  "streaming_allow = limiter_allow (50 * msec)"

type_synonym limiters = "string \<rightharpoonup> rate_limiter"

definition limiter_key :: "string \<Rightarrow> string \<Rightarrow> string" where
  "limiter_key u cid = u @ '':'' @ cid"

definition load_limiter :: "string \<Rightarrow> limiters \<Rightarrow> rate_limiter" where
  "load_limiter k ls = (case ls k of Some rl \<Rightarrow> rl | None \<Rightarrow> new_limiter)"

definition cleanupStaleLimiters :: "time \<Rightarrow> limiters \<Rightarrow> limiters" where
  "cleanupStaleLimiters now ls =
     (\<lambda>k. case ls k of None \<Rightarrow> None
        | Some rl \<Rightarrow> if rl_access rl < now - 600 * second then None else Some rl)"

subsection \<open>The handlers\<close>

record setTypingParams =
  ty_conversation_id :: string
  ty_is_typing :: bool

record streamTextParams =
  st_conversation_id :: string
  st_stream_id :: string
  st_text :: string
  st_is_done :: bool

text \<open>An update that is neither stored nor numbered.\<close>

definition ephemeral :: "string \<Rightarrow> payload \<Rightarrow> data_update" where
  "ephemeral ty pl = \<lparr>du_seq = 0, du_type = ty, du_payload = pl, du_created = zero_time\<rparr>"

text \<open>
  The steps the two handlers share after their parameters are checked: fetch, membership, limiter, and
  the broadcast to all members, whose errors are only logged.  The two clock readings are the limiter's
  and the payload's.
\<close>

definition ephemeral_request ::
  "(time \<Rightarrow> rate_limiter \<Rightarrow> bool \<times> rate_limiter) \<Rightarrow> env \<Rightarrow> client_conn \<Rightarrow> string \<Rightarrow> (time \<Rightarrow> data_update)
     \<Rightarrow> db \<Rightarrow> limiters \<Rightarrow> (HandlerError + (string \<times> data_update) list) \<times> limiters" where
  "ephemeral_request allow env cl cid mk d ls =
     (case get_conversation_or_error env CallGetConversation cid d of
        Inl e \<Rightarrow> (Inl e, ls)
      | Inr conv \<Rightarrow>
          let members = conversationMembers conv in
          if \<not> containsUser members (cl_user cl) then (Inl not_a_member, ls)
          else
            let k = limiter_key (cl_user cl) cid;
                (ok, rl) = allow (e_now env 0) (load_limiter k ls)
            in (Inr (if ok then map (\<lambda>m. (m, mk (e_now env 1))) members else []), ls(k \<mapsto> rl)))"

definition set_typing ::
  "env \<Rightarrow> client_conn \<Rightarrow> setTypingParams option \<Rightarrow> db \<Rightarrow> limiters
     \<Rightarrow> (HandlerError + (string \<times> data_update) list) \<times> limiters" where
  "set_typing env cl params d ls =
     (case params of
        None \<Rightarrow> (Inl invalid_params, ls)
      | Some p \<Rightarrow>
          if ty_conversation_id p = [] then (Inl (missing_field ''conversation_id''), ls)
          else ephemeral_request typing_allow env cl (ty_conversation_id p)
                 (\<lambda>now. ephemeral UpdateTypeTyping
                    (PTyping (cl_user cl) (ty_conversation_id p) (ty_is_typing p) False (now div second)))
                 d ls)"

definition stream_text ::
  "env \<Rightarrow> client_conn \<Rightarrow> streamTextParams option \<Rightarrow> db \<Rightarrow> limiters
     \<Rightarrow> (HandlerError + (string \<times> data_update) list) \<times> limiters" where
  "stream_text env cl params d ls =
     (case params of
        None \<Rightarrow> (Inl invalid_params, ls)
      | Some p \<Rightarrow>
          if st_conversation_id p = [] then (Inl (missing_field ''conversation_id''), ls)
          else if st_stream_id p = [] then (Inl (missing_field ''stream_id''), ls)
          else ephemeral_request streaming_allow env cl (st_conversation_id p)
                 (\<lambda>now. ephemeral UpdateTypeStreaming
                    (PStreaming (st_stream_id p) (cl_user cl) (st_conversation_id p) (st_text p) (st_is_done p)
                       False (now div second)))
                 d ls)"

fun conn_error_msg :: "conn_error \<Rightarrow> string" where
  "conn_error_msg ErrConnectionNotFound = ''server: connection not found''"
| "conn_error_msg ErrMaxConnectionsExceeded = ''server: max connections per user exceeded''"
| "conn_error_msg (ConnArgument m) = m"
| "conn_error_msg (ConnBackend m) = m"

text \<open>
  \<^verbatim>\<open>heartbeat\<close>: the parameters do not matter.  The connection store's \<^verbatim>\<open>Refresh\<close> is an argument; its state is
  threaded through.
\<close>

definition minHeartbeatInterval :: duration where
  "minHeartbeatInterval = 5 * second"

definition heartbeat ::
  "(string \<Rightarrow> 's \<Rightarrow> conn_error option \<times> 's) \<Rightarrow> time \<Rightarrow> string \<Rightarrow> (string \<rightharpoonup> time) \<times> 's
     \<Rightarrow> HandlerError option \<times> (string \<rightharpoonup> time) \<times> 's" where
  "heartbeat refresh now conn_id st =
     (let (last_beat, s) = st in
      if (case last_beat conn_id of Some t \<Rightarrow> now - t < minHeartbeatInterval | None \<Rightarrow> False)
      then (None, last_beat, s)
      else
        let beats = last_beat(conn_id \<mapsto> now) in
        (case refresh conn_id s of
           (None, s') \<Rightarrow> (None, beats, s')
         | (Some e, s') \<Rightarrow>
             if e = ErrConnectionNotFound
             then (Some (NewNotFoundError ''connection expired''), beats(conn_id := None), s')
             else (Some (NewInternalError (''refresh connection: '' @ conn_error_msg e)), beats, s')))"

subsection \<open>Spacing\<close>

text \<open>
  A run of one handler: requests and clean-ups in the order of the clock.  The log records what was
  broadcast: who, in which conversation, when.
\<close>

type_synonym eph_state = "limiters \<times> (string \<times> string \<times> time) list \<times> time"

inductive eph_step ::
  "(env \<Rightarrow> client_conn \<Rightarrow> 'p \<Rightarrow> db \<Rightarrow> limiters \<Rightarrow> (HandlerError + (string \<times> data_update) list) \<times> limiters)
     \<Rightarrow> ('p \<Rightarrow> string) \<Rightarrow> eph_state \<Rightarrow> eph_state \<Rightarrow> bool"
  for handle target where
  Request: "t \<le> e_now env 0 \<Longrightarrow> handle env cl p d ls = (r, ls') \<Longrightarrow>
     sent = (if r = Inr [] \<or> isl r then [] else [(cl_user cl, target p, e_now env 0)]) \<Longrightarrow>
     eph_step handle target (ls, log, t) (ls', log @ sent, e_now env 0)"
| Sweep: "t \<le> now \<Longrightarrow> eph_step handle target (ls, log, t) (cleanupStaleLimiters now ls, log, now)"

inductive_cases eph_stepE: "eph_step handle target st st'"

text \<open>What the limiter table knows about everything that was broadcast.\<close>

definition remembers :: "eph_state \<Rightarrow> bool" where
  "remembers st \<longleftrightarrow> (case st of (ls, log, t) \<Rightarrow> \<forall>(u, cid, at) \<in> set log. at \<le> t
     \<and> (at + 600 * second < t
        \<or> (\<exists>rl. ls (limiter_key u cid) = Some rl \<and> at \<le> rl_last rl \<and> rl_last rl \<le> rl_access rl \<and> rl_access rl \<le> t)))"

definition spaced :: "duration \<Rightarrow> (string \<times> string \<times> time) list \<Rightarrow> bool" where
  "spaced interval log \<longleftrightarrow> (\<forall>i j. i < j \<longrightarrow> j < length log \<longrightarrow>
     limiter_key (fst (log ! i)) (fst (snd (log ! i))) = limiter_key (fst (log ! j)) (fst (snd (log ! j))) \<longrightarrow>
     snd (snd (log ! i)) + interval \<le> snd (snd (log ! j)))"

lemma spaced_snoc:
  "spaced interval (log @ [x]) \<longleftrightarrow> spaced interval log
     \<and> (\<forall>y \<in> set log. limiter_key (fst y) (fst (snd y)) = limiter_key (fst x) (fst (snd x)) \<longrightarrow>
          snd (snd y) + interval \<le> snd (snd x))"
proof -
  have "(\<forall>i j. i < j \<longrightarrow> j < Suc (length log) \<longrightarrow> P i j)
      \<longleftrightarrow> (\<forall>i j. i < j \<longrightarrow> j < length log \<longrightarrow> P i j) \<and> (\<forall>i < length log. P i (length log))" for P
    by (auto simp: less_Suc_eq)
  then show ?thesis
    by (simp add: spaced_def nth_append all_set_conv_all_nth cong: conj_cong)
qed

text \<open>The interface of a rate-limited handler.\<close>

locale rate_limited =
  fixes handle :: "env \<Rightarrow> client_conn \<Rightarrow> 'p \<Rightarrow> db \<Rightarrow> limiters \<Rightarrow> (HandlerError + (string \<times> data_update) list) \<times> limiters"
    and target :: "'p \<Rightarrow> string"
    and interval :: duration
  assumes interval: "0 \<le> interval" "interval \<le> 600 * second"
    and limited: "handle env cl p d ls = (r, ls') \<Longrightarrow> ls' = ls \<and> (r = Inr [] \<or> isl r)
      \<or> (\<exists>ok rl. limiter_allow interval (e_now env 0) (load_limiter (limiter_key (cl_user cl) (target p)) ls) = (ok, rl)
          \<and> ls' = ls(limiter_key (cl_user cl) (target p) \<mapsto> rl) \<and> (ok \<longleftrightarrow> \<not> (r = Inr [] \<or> isl r)))"
begin

lemma sweep_remembers:
  assumes "remembers (ls, log, t)" "t \<le> now"
  shows "remembers (cleanupStaleLimiters now ls, log, now)"
  using assms by (fastforce simp: remembers_def cleanupStaleLimiters_def)

lemma later_remembers: "remembers (ls, log, t) \<Longrightarrow> t \<le> now \<Longrightarrow> remembers (ls, log, now)"
  by (fastforce simp: remembers_def)

lemma call_remembers:
  assumes "limiter_allow interval now (load_limiter k ls) = (ok, rl)" "remembers (ls, log, now)"
  shows "remembers (ls(k \<mapsto> rl), log, now)"
    and "ok \<Longrightarrow> limiter_key u cid = k \<Longrightarrow> remembers (ls(k \<mapsto> rl), log @ [(u, cid, now)], now)"
    and "ok \<Longrightarrow> (u, cid, at) \<in> set log \<Longrightarrow> limiter_key u cid = k \<Longrightarrow> at + interval \<le> now"
proof -
  have rl: "rl_access rl = now" "if ok then rl_last rl = now \<and> rl_last (load_limiter k ls) + interval \<le> now
      else rl_last rl = rl_last (load_limiter k ls)"
    using assms(1) by (auto simp: limiter_allow_def Let_def split: if_splits)
  have old: "at \<le> now \<and> (at + 600 * second < now \<or> (\<exists>rl. ls (limiter_key u cid) = Some rl
      \<and> at \<le> rl_last rl \<and> rl_last rl \<le> rl_access rl \<and> rl_access rl \<le> now))"
    if "(u, cid, at) \<in> set log" for u cid at
    using assms(2) that by (auto simp: remembers_def)
  have new: "at \<le> now \<and> (at + 600 * second < now \<or> (\<exists>rl'. (ls(k \<mapsto> rl)) (limiter_key u cid) = Some rl'
      \<and> at \<le> rl_last rl' \<and> rl_last rl' \<le> rl_access rl' \<and> rl_access rl' \<le> now))"
    if "(u, cid, at) \<in> set log" for u cid at
    using old [OF that] rl by (cases "limiter_key u cid = k") (auto simp: load_limiter_def split: if_splits)
  show "remembers (ls(k \<mapsto> rl), log, now)" using new by (auto simp: remembers_def)
  show "remembers (ls(k \<mapsto> rl), log @ [(u, cid, now)], now)" if "ok" "limiter_key u cid = k"
    using new rl that by (auto simp: remembers_def)
  show "at + interval \<le> now" if "ok" "(u, cid, at) \<in> set log" "limiter_key u cid = k"
    using old [OF that(2)] rl that(1,3) interval by (auto simp: load_limiter_def)
qed

lemma step_spaced:
  assumes "eph_step handle target st st'" "remembers st" "spaced interval (fst (snd st))"
  shows "remembers st' \<and> spaced interval (fst (snd st'))"
  using assms(1)
proof (cases rule: eph_step.cases)
  case (Sweep t now ls log)
  then show ?thesis using assms(2,3) sweep_remembers by auto
next
  case (Request t env cl p d ls r ls' sent log)
  let ?k = "limiter_key (cl_user cl) (target p)"
  have now: "remembers (ls, log, e_now env 0)" using assms(2) Request(1,3) later_remembers by blast
  consider (idle) "ls' = ls" "r = Inr [] \<or> isl r"
    | (hit) ok rl where "limiter_allow interval (e_now env 0) (load_limiter ?k ls) = (ok, rl)"
      "ls' = ls(?k \<mapsto> rl)" "ok \<longleftrightarrow> \<not> (r = Inr [] \<or> isl r)"
    using limited [OF Request(4)] by blast
  then show ?thesis
  proof cases
    case idle
    then show ?thesis using now assms(3) Request by auto
  next
    case hit
    note call = call_remembers [OF hit(1) now]
    show ?thesis
    proof (cases ok)
      case True
      then have "sent = [(cl_user cl, target p, e_now env 0)]" using hit(3) Request(5) by auto
      then show ?thesis
        using call(2) [OF True, of "cl_user cl" "target p"] call(3) [OF True] assms(3) hit(2) Request(1,2)
        by (auto simp: spaced_snoc)
    next
      case False
      then have "sent = []" using hit(3) Request(5) by auto
      then show ?thesis using call(1) assms(3) hit(2) Request(1,2) by simp
    qed
  qed
qed

lemma run_spaced:
  assumes "(eph_step handle target)\<^sup>*\<^sup>* (Map.empty, [], t0) (ls, log, t)"
  shows "spaced interval log"
proof -
  have "remembers st \<and> spaced interval (fst (snd st))"
    if "(eph_step handle target)\<^sup>*\<^sup>* (Map.empty, [], t0) st" for st
    using that
  proof (induction rule: rtranclp_induct)
    case base
    then show ?case by (simp add: remembers_def spaced_def)
  next
    case (step y z)
    then show ?case using step_spaced by blast
  qed
  from this [OF assms] show ?thesis by simp
qed

end

lemma ephemeral_request_limited:
  assumes "ephemeral_request (limiter_allow n) env cl cid mk d ls = (r, ls')"
  shows "ls' = ls \<and> (r = Inr [] \<or> isl r)
    \<or> (\<exists>ok rl. limiter_allow n (e_now env 0) (load_limiter (limiter_key (cl_user cl) cid) ls) = (ok, rl)
        \<and> ls' = ls(limiter_key (cl_user cl) cid \<mapsto> rl) \<and> (ok \<longleftrightarrow> \<not> (r = Inr [] \<or> isl r)))"
  using assms by (auto simp: ephemeral_request_def Let_def split: sum.splits if_splits prod.splits)

definition typing_target :: "setTypingParams option \<Rightarrow> string" where
  "typing_target p = (case p of None \<Rightarrow> [] | Some p \<Rightarrow> ty_conversation_id p)"

definition stream_target :: "streamTextParams option \<Rightarrow> string" where
  "stream_target p = (case p of None \<Rightarrow> [] | Some p \<Rightarrow> st_conversation_id p)"

interpretation typing: rate_limited set_typing typing_target second
proof unfold_locales
  show "ls' = ls \<and> (r = Inr [] \<or> isl r)
    \<or> (\<exists>ok rl. limiter_allow second (e_now env 0) (load_limiter (limiter_key (cl_user cl) (typing_target p)) ls) = (ok, rl)
        \<and> ls' = ls(limiter_key (cl_user cl) (typing_target p) \<mapsto> rl) \<and> (ok \<longleftrightarrow> \<not> (r = Inr [] \<or> isl r)))"
    if "set_typing env cl p d ls = (r, ls')" for env cl p d ls r ls'
    using that ephemeral_request_limited [of second env cl "typing_target p"]
    by (auto simp: set_typing_def typing_target_def typing_allow_def split: option.splits if_splits)
qed (simp_all add: second_def)

interpretation streaming: rate_limited stream_text stream_target "50 * msec"
proof unfold_locales
  show "ls' = ls \<and> (r = Inr [] \<or> isl r)
    \<or> (\<exists>ok rl. limiter_allow (50 * msec) (e_now env 0) (load_limiter (limiter_key (cl_user cl) (stream_target p)) ls) = (ok, rl)
        \<and> ls' = ls(limiter_key (cl_user cl) (stream_target p) \<mapsto> rl) \<and> (ok \<longleftrightarrow> \<not> (r = Inr [] \<or> isl r)))"
    if "stream_text env cl p d ls = (r, ls')" for env cl p d ls r ls'
    using that ephemeral_request_limited [of "50 * msec" env cl "stream_target p"]
    by (auto simp: stream_text_def stream_target_def streaming_allow_def split: option.splits if_splits)
qed (simp_all add: second_def msec_def)

text \<open>Without a colon in the conversation's identifier a limiter belongs to one user and conversation.\<close>

lemma limiter_key_inj:
  assumes "limiter_key u c = limiter_key v d" "CHR '':'' \<notin> set c" "CHR '':'' \<notin> set d"
  shows "u = v \<and> c = d"
proof -
  have "takeWhile (\<lambda>x. x \<noteq> CHR '':'') (xs @ CHR '':'' # ys) = xs" if "CHR '':'' \<notin> set xs" for xs ys
    using that by (induction xs) auto
  then have tail: "rev (takeWhile (\<lambda>x. x \<noteq> CHR '':'') (rev (limiter_key u c))) = c" if "CHR '':'' \<notin> set c" for u c
    using that by (simp add: limiter_key_def)
  have "c = d" using tail [OF assms(2), of u] tail [OF assms(3), of v] assms(1) by simp
  then show ?thesis using assms(1) by (simp add: limiter_key_def)
qed

text \<open>
  C32: whatever requests arrive, from whom and in whatever order, and whenever the clean-up runs: a user's
  typing indicators in a conversation are broadcast at least one second apart, and streamed texts at
  least 50 milliseconds.
\<close>

theorem ephemeral_events_spaced:
  assumes "(eph_step set_typing typing_target)\<^sup>*\<^sup>* (Map.empty, [], t0) (ls, typed, t)"
    and "(eph_step stream_text stream_target)\<^sup>*\<^sup>* (Map.empty, [], t1) (ls', streamed, t')"
  shows "spaced second typed \<and> spaced (50 * msec) streamed"
  using typing.run_spaced [OF assms(1)] streaming.run_spaced [OF assms(2)] by simp

text \<open>
  a typing indicator is only broadcast for a member of the conversation, to all its members and
  nobody else, unnumbered, and it carries the caller's own name.
\<close>

theorem typing_reaches_members_only:
  assumes "set_typing env cl (Some p) d ls = (Inr sent, ls')" "sent \<noteq> []"
  shows "\<exists>conv. conv_get (ty_conversation_id p) d = Inr conv \<and> cl_user cl \<in> set (conversationMembers conv)
    \<and> map fst sent = conversationMembers conv
    \<and> (\<forall>(m, u) \<in> set sent. du_seq u = 0 \<and> (\<exists>ts. du_payload u
          = PTyping (cl_user cl) (ty_conversation_id p) (ty_is_typing p) False ts))"
proof -
  obtain conv where conv: "get_conversation_or_error env CallGetConversation (ty_conversation_id p) d = Inr conv"
    using assms by (auto simp: set_typing_def ephemeral_request_def split: if_splits sum.splits)
  let ?mk = "ephemeral UpdateTypeTyping (PTyping (cl_user cl) (ty_conversation_id p) (ty_is_typing p) False
      (e_now env 1 div second))"
  have "cl_user cl \<in> set (conversationMembers conv) \<and> sent = map (\<lambda>m. (m, ?mk)) (conversationMembers conv)"
    using assms conv
    by (auto simp: set_typing_def ephemeral_request_def Let_def split: if_splits prod.splits)
  then show ?thesis using conv by (auto simp: get_conversation_or_error_Inr ephemeral_def comp_def)
qed

subsection \<open>Heartbeats\<close>

text \<open>A run of heartbeats in clock order; the log records the successful refreshes.\<close>

inductive beat_step ::
  "(string \<Rightarrow> 's \<Rightarrow> conn_error option \<times> 's) \<Rightarrow> ((string \<rightharpoonup> time) \<times> (string \<times> time) list \<times> time)
     \<Rightarrow> ((string \<rightharpoonup> time) \<times> (string \<times> time) list \<times> time) \<Rightarrow> bool"
  for refresh where
  Beat: "t \<le> now \<Longrightarrow> heartbeat refresh now c (beats, s) = (r, beats', s') \<Longrightarrow>
     kept = (if r = None \<and> beats' \<noteq> beats then [(c, now)] else []) \<Longrightarrow>
     beat_step refresh (beats, log, t) (beats', log @ kept, now)"

definition beats_known :: "((string \<rightharpoonup> time) \<times> (string \<times> time) list \<times> time) \<Rightarrow> bool" where
  "beats_known st \<longleftrightarrow> (case st of (beats, log, t) \<Rightarrow> \<forall>(c, at) \<in> set log. at \<le> t
     \<and> (at + minHeartbeatInterval \<le> t \<or> (\<exists>b. beats c = Some b \<and> at \<le> b \<and> b \<le> t)))"

definition beats_spaced :: "(string \<times> time) list \<Rightarrow> bool" where
  "beats_spaced log \<longleftrightarrow> sorted_wrt (\<lambda>x y. fst x = fst y \<longrightarrow> snd x + minHeartbeatInterval \<le> snd y) log"

lemma beat_step_inv:
  assumes "beat_step refresh st st'" "beats_known st" "beats_spaced (fst (snd st))"
  shows "beats_known st' \<and> beats_spaced (fst (snd st'))"
  using assms(1)
proof cases
  case (Beat t now c beats s r beats' s' kept log)
  have known: "at \<le> t \<and> (at + minHeartbeatInterval \<le> t \<or> (\<exists>b. beats d = Some b \<and> at \<le> b \<and> b \<le> t))"
    if "(d, at) \<in> set log" for d at
    using assms(2) Beat(1) that by (auto simp: beats_known_def)
  show ?thesis
  proof (cases "case beats c of Some b \<Rightarrow> now - b < minHeartbeatInterval | None \<Rightarrow> False")
    case True
    then have "beats' = beats" "kept = []" using Beat(4,5) by (simp_all add: heartbeat_def)
    then show ?thesis using known Beat(1,2,3) assms(3) by (fastforce simp: beats_known_def)
  next
    case False
    then have far: "beats c = Some b \<Longrightarrow> b + minHeartbeatInterval \<le> now" for b by auto
    have old: "at + minHeartbeatInterval \<le> now" if "(c, at) \<in> set log" for at
      using known [OF that] far Beat(3) by fastforce
    have beats': "beats' = beats(c \<mapsto> now) \<or> beats' = beats(c := None) \<and> kept = []"
      using False Beat(4,5) by (auto simp: heartbeat_def Let_def split: prod.splits option.splits if_splits)
    have same: "beats' d = beats d" if "d \<noteq> c" for d using beats' that by auto
    have "at \<le> now \<and> (at + minHeartbeatInterval \<le> now \<or> (\<exists>b. beats' d = Some b \<and> at \<le> b \<and> b \<le> now))"
      if "(d, at) \<in> set log" for d at
    proof (cases "d = c")
      case True
      then show ?thesis using old known [OF that] that Beat(3) by auto
    next
      case False
      then show ?thesis using known [OF that] same Beat(3) by fastforce
    qed
    then have "beats_known (beats', log, now)" by (auto simp: beats_known_def)
    moreover have "beats_spaced (log @ [(c, now)])"
      using old assms(3) Beat(1) by (auto simp: beats_spaced_def sorted_wrt_append)
    moreover have "beats_spaced log" using assms(3) Beat(1) by simp
    moreover have "beats_known (beats', log @ [(c, now)], now)" if "beats' = beats(c \<mapsto> now)"
      using calculation(1) that by (simp add: beats_known_def)
    moreover have "kept = [] \<or> kept = [(c, now)] \<and> beats' = beats(c \<mapsto> now)"
      using beats' Beat(5) by (auto split: if_splits)
    ultimately show ?thesis unfolding Beat(2) by auto
  qed
qed

text \<open>
  however fast a client sends heartbeats, a connection is refreshed at most once in five seconds.
\<close>

theorem heartbeats_spaced:
  assumes "(beat_step refresh)\<^sup>*\<^sup>* (Map.empty, [], t0) (beats, log, t)"
  shows "beats_spaced log"
proof -
  have "beats_known st \<and> beats_spaced (fst (snd st))"
    if "(beat_step refresh)\<^sup>*\<^sup>* (Map.empty, [], t0) st" for st
    using that
  proof (induction rule: rtranclp_induct)
    case base
    then show ?case by (simp add: beats_known_def beats_spaced_def)
  next
    case (step y z)
    then show ?case using beat_step_inv by blast
  qed
  from this [OF assms] show ?thesis by simp
qed

text \<open>
  after a refresh that failed for another reason than a missing connection, heartbeats of the next
  five seconds are answered with success although nothing is refreshed.
\<close>

theorem failed_heartbeat_masks_next:
  assumes "refresh c s = (Some (ConnBackend m), s')"
    and "beats c = None" "now \<le> later" "later < now + minHeartbeatInterval"
  shows "\<exists>e beats'. heartbeat refresh now c (beats, s) = (Some e, beats', s') \<and> he_code e = ResponseCodeInternalError
    \<and> heartbeat refresh later c (beats', s') = (None, beats', s')"
  using assms by (simp add: heartbeat_def Let_def)

end
