(* ===== verification/ServerExamples.thy ===== *)
theory ServerExamples
  imports Examples Hub Ephemeral
begin

text \<open>
  Concrete connections: one instance of every property of the connection stores, the function registry,
  the node's indexes and the rate-limited handlers.
\<close>

subsection \<open>The connection store\<close>

definition ex_info :: connection_info where
  "ex_info = \<lparr>ci_id = ''k1'', ci_user = ''a'', ci_session = [], ci_device = ''d'', ci_device_type = [], ci_ip = [],
     ci_protocol = ''websocket'', ci_heartbeat = 0, ci_status = ''active'', ci_meta = Map.empty, ci_created = 1,
     ci_updated = 1, ci_ttl = 0\<rparr>"

definition ex_conns :: conn_store where
  "ex_conns = snd (mcs_add 5 (Some ex_info) (NewMemoryConnectionStore 1))"

lemma ex_conns_reached: "conn_step\<^sup>*\<^sup>* (NewMemoryConnectionStore 1) ex_conns"
  unfolding ex_conns_def by (rule r_into_rtranclp, rule conn_step.Add)

lemma ex_conns_users: "ids_of_user ''a'' ex_conns = {''k1''}" "cs_max ex_conns = 1"
  by (simp_all add: ex_conns_def mcs_add_def conn_full_def NewMemoryConnectionStore_def ex_info_def mcs_put_def
      stamped_def ids_of_user_def)


subsection \<open>Rate limits\<close>

definition ex_typing :: setTypingParams where
  "ex_typing = \<lparr>ty_conversation_id = ''c1'', ty_is_typing = True\<rparr>"

definition ex_stream :: streamTextParams where
  "ex_stream = \<lparr>st_conversation_id = ''c1'', st_stream_id = ''s1'', st_text = ''hi'', st_is_done = False\<rparr>"

lemma ex_get_conv: "get_conversation_or_error ex_env call ''c1'' ex_db = Inr ex_conv"
  by (rule get_conversation_or_error_ok) (simp_all add: ex_env_def)

lemma ex_members: "conversationMembers ex_conv = [''a'', ''b'']" "cl_user ex_client = ''a''"
  by (simp_all add: conversationMembers_def ex_conv_def ex_client_def)

lemma ex_allow: "limiter_allow n (e_now ex_env 0) (load_limiter k Map.empty)
    = (True, \<lparr>rl_last = e_now ex_env 0, rl_access = e_now ex_env 0\<rparr>)" if "n \<le> second"
  using that by (simp add: limiter_allow_def load_limiter_def new_limiter_def zero_time_def ex_now second_def)

definition ex_typing_sent :: "(string \<times> data_update) list" where
  "ex_typing_sent = map (\<lambda>m. (m, ephemeral UpdateTypeTyping
     (PTyping ''a'' ''c1'' True False (e_now ex_env 1 div second)))) [''a'', ''b'']"

definition ex_limited :: limiters where
  "ex_limited = [limiter_key ''a'' ''c1'' \<mapsto> \<lparr>rl_last = e_now ex_env 0, rl_access = e_now ex_env 0\<rparr>]"

lemma ex_typing_run:
  "set_typing ex_env ex_client (Some ex_typing) ex_db Map.empty = (Inr ex_typing_sent, ex_limited)"
  by (simp add: set_typing_def ephemeral_request_def ex_typing_def typing_allow_def ex_get_conv ex_members
      ex_allow ex_typing_sent_def ex_limited_def)

lemma ex_stream_run:
  "\<exists>sent. stream_text ex_env ex_client (Some ex_stream) ex_db Map.empty = (Inr sent, ex_limited) \<and> sent \<noteq> []"
  by (simp add: stream_text_def ephemeral_request_def ex_stream_def streaming_allow_def ex_get_conv ex_members
      ex_allow ex_limited_def second_def msec_def)

theorem ephemeral_events_spaced_witness:
  "spaced second [(''a'', ''c1'', e_now ex_env 0)] \<and> spaced (50 * msec) [(''a'', ''c1'', e_now ex_env 0)]"
proof -
  let ?log = "[(''a'', ''c1'', e_now ex_env 0)]"
  have "eph_step set_typing typing_target (Map.empty, [], 0) (ex_limited, [] @ ?log, e_now ex_env 0)"
    by (rule eph_step.Request [where handle = set_typing and target = typing_target and env = ex_env and cl = ex_client
          and p = "Some ex_typing" and d = ex_db and ls = Map.empty and r = "Inr ex_typing_sent", OF _ ex_typing_run])
      (simp_all add: ex_now ex_members typing_target_def ex_typing_def ex_typing_sent_def)
  then have typed: "(eph_step set_typing typing_target)\<^sup>*\<^sup>* (Map.empty, [], 0) (ex_limited, [] @ ?log, e_now ex_env 0)"
    by (rule r_into_rtranclp)
  obtain sent where sent: "stream_text ex_env ex_client (Some ex_stream) ex_db Map.empty = (Inr sent, ex_limited)"
    "sent \<noteq> []" using ex_stream_run by blast
  have "eph_step stream_text stream_target (Map.empty, [], 0) (ex_limited, [] @ ?log, e_now ex_env 0)"
    by (rule eph_step.Request [where handle = stream_text and target = stream_target and env = ex_env and cl = ex_client
          and p = "Some ex_stream" and d = ex_db and ls = Map.empty and r = "Inr sent", OF _ sent(1)])
      (simp_all add: ex_now ex_members stream_target_def ex_stream_def sent(2))
  then have "(eph_step stream_text stream_target)\<^sup>*\<^sup>* (Map.empty, [], 0) (ex_limited, [] @ ?log, e_now ex_env 0)"
    by (rule r_into_rtranclp)
  from ephemeral_events_spaced [OF typed this] show ?thesis by simp
qed

theorem typing_reaches_members_only_witness:
  "\<exists>conv. conv_get ''c1'' ex_db = Inr conv \<and> ''a'' \<in> set (conversationMembers conv)
    \<and> map fst ex_typing_sent = conversationMembers conv"
  using typing_reaches_members_only [OF ex_typing_run] by (auto simp: ex_typing_sent_def ex_typing_def ex_members)

definition ex_fail :: "string \<Rightarrow> unit \<Rightarrow> conn_error option \<times> unit" where
  "ex_fail c s = (Some (ConnBackend ''redis''), ())"

definition ex_fine :: "string \<Rightarrow> unit \<Rightarrow> conn_error option \<times> unit" where
  "ex_fine c s = (None, ())"

theorem heartbeats_spaced_witness: "beats_spaced [(''k1'', 7)]"
proof -
  have "(beat_step ex_fine)\<^sup>*\<^sup>* (Map.empty, [], 0) ([''k1'' \<mapsto> 7], [] @ [(''k1'', 7)], 7)"
    by (rule r_into_rtranclp, rule beat_step.Beat [where c = "''k1''" and r = None and s = "()" and s' = "()"])
      (simp_all add: heartbeat_def ex_fine_def)
  then show ?thesis using heartbeats_spaced by fastforce
qed

theorem failed_heartbeat_masks_next_witness:
  "\<exists>e beats'. heartbeat ex_fail 10 ''k1'' (Map.empty, ()) = (Some e, beats', ()) \<and> he_code e = ResponseCodeInternalError
    \<and> heartbeat ex_fail 11 ''k1'' (beats', ()) = (None, beats', ())"
  by (rule failed_heartbeat_masks_next [of ex_fail "''k1''" "()" "''redis''" "()" Map.empty 10 11])
    (simp_all add: ex_fail_def minHeartbeatInterval_def second_def)

subsection \<open>The function registry\<close>

definition ex_function :: function_info where
  "ex_function = \<lparr>fi_name = ''beep'', fi_description = [], fi_parameters = [], fi_returns = None, fi_tags = [],
     fi_timeout_ms = 0\<rparr>"

definition ex_functions :: RegisterFunctionsParams where
  "ex_functions = \<lparr>rf_device_id = ''other'', rf_device_info = None, rf_functions = [ex_function]\<rparr>"

definition ex_registry :: fn_registry where
  "ex_registry = snd (register_functions 3 \<lparr>cl_user = ''a'', cl_device = ''d''\<rparr> (Some ex_functions)
     (NewMemoryFunctionRegistry 0 0))"

lemma ex_acceptable: "acceptable (NewMemoryFunctionRegistry 0 0) [ex_function]"
  by (simp add: acceptable_def NewMemoryFunctionRegistry_def ex_function_def)

theorem registry_invariant_witness: "registry_ok ex_registry"
  by (rule registry_invariant [of 0 0], unfold ex_registry_def, rule r_into_rtranclp, rule registry_step.Register)

lemma ex_registry_has: "GetDeviceFunctions ''a'' ''d'' ex_registry \<noteq> None"
proof -
  have "\<exists>r'. register_functions 3 \<lparr>cl_user = ''a'', cl_device = ''d''\<rparr> (Some ex_functions) (NewMemoryFunctionRegistry 0 0)
      = (Inr (1, ''d''), r') \<and> GetDeviceFunctions ''a'' ''d'' r' \<noteq> None"
    by (simp add: register_functions_def RegisterFunctions_def ex_functions_def ex_function_def
        NewMemoryFunctionRegistry_def put_device_def GetDeviceFunctions_def)
  then show ?thesis unfolding ex_registry_def by auto
qed

subsection \<open>The node\<close>

definition ex_hub :: hub where
  "ex_hub = hub_init (NewMemoryConnectionStore 1) ex_registry"


definition ex_live :: hub where
  "ex_live = ex_hub\<lparr>h_clients := [''k1'' \<mapsto> new_client 4 ''k1'' ''a'' ''d''], h_by_user := [''a'' \<mapsto> {''k1''}],
     h_by_device := [device_key ''a'' ''d'' \<mapsto> {''k1''}]\<rparr>"

lemma ex_live_indexed: "indexed_hub ex_live"
  by (auto simp: indexed_hub_def idx_def ex_live_def members_at_def new_client_def split: if_splits option.splits)

theorem broadcast_reaches_each_connection_once_witness:
  "h_clients (BroadcastUpdates ''n1'' {''n1''} ''a'' [] (\<lambda>_. ex_live) ''n1'') ''k1''
    = Some ((new_client 4 ''k1'' ''a'' ''d'')\<lparr>hc_buf := [[]]\<rparr>)"
  using broadcast_reaches_each_connection_once [of "\<lambda>_. ex_live" "''n1''" "''k1''" "new_client 4 ''k1'' ''a'' ''d''"
      "''n1''" "{''n1''}" "''a''" "[]"] ex_live_indexed
  by (simp add: ex_live_def new_client_def)

theorem handshake_replaces_device_witness:
  "members_at (device_key ''a'' ''d'') (h_by_device (ws_register 4 ''k2'' (ws_capture ''k2'' ''a'' ''d'' ex_live))) = {''k2''}
    \<and> (''k1'', ''a'', ''d'') \<in> h_replacing (ws_register 4 ''k2'' (ws_capture ''k2'' ''a'' ''d'' ex_live))"
  using handshake_replaces_device [of "''a''" "''d''" 4 "''k2''" ex_live] by (simp add: ex_live_def members_at_def)

theorem concurrent_handshakes_keep_both_witness:
  "let h' = ws_register 4 ''k2'' (ws_register 4 ''k1'' (ws_capture ''k2'' ''a'' ''d'' (ws_capture ''k1'' ''a'' ''d'' ex_hub)))
    in members_at (device_key ''a'' ''d'') (h_by_device h') = {''k1'', ''k2''} \<and> h_replacing h' = h_replacing ex_hub
      \<and> h_clients h' ''k1'' = Some (new_client 4 ''k1'' ''a'' ''d'') \<and> h_clients h' ''k2'' = Some (new_client 4 ''k2'' ''a'' ''d'')"
  by (rule concurrent_handshakes_keep_both) (simp_all add: ex_hub_def hub_init_def)

definition ex_full_store :: conn_store where
  "ex_full_store = ex_conns"

lemma ex_full: "conn_full (ws_info ''k2'' ''a'' ''d'' []) ex_full_store"
proof -
  have "cs_info ex_conns ''k2'' = None"
    by (simp add: ex_conns_def mcs_add_def conn_full_def NewMemoryConnectionStore_def ex_info_def cs_info_put ids_of_user_def)
  then show ?thesis using ex_conns_users by (simp add: conn_full_def ws_info_def ex_full_store_def)
qed

theorem reconnect_at_limit_loses_both_witness:
  "let h' = replace_remove ''k1'' ''a'' ''d'' (replace_close ''k1'' ''a'' ''d'' (ws_store_add 9 [] ''k2''
      (ws_register 4 ''k2'' (ws_capture ''k2'' ''a'' ''d'' (ex_live\<lparr>h_store := ex_full_store\<rparr>)))))
    in members_at ''a'' (h_by_user h') = {} \<and> members_at (device_key ''a'' ''d'') (h_by_device h') = {}"
  by (rule reconnect_at_limit_loses_both) (use ex_full in \<open>simp_all add: ex_live_def members_at_def\<close>)

definition ex_timer :: "bool \<Rightarrow> cleanup_timer" where
  "ex_timer checked = \<lparr>tm_user = ''a'', tm_device = ''d'', tm_cancelled = False, tm_checked = checked, tm_cleaned = False\<rparr>"

definition ex_waiting :: hub where
  "ex_waiting = ex_hub\<lparr>h_pending := [device_key ''a'' ''d'' \<mapsto> 0], h_timers := [0 \<mapsto> ex_timer False], h_next := 1,
     h_store := ex_full_store\<rparr>"

theorem refused_reconnect_orphans_functions_witness:
  "GetDeviceFunctions ''a'' ''d'' (h_registry
     (ws_store_add 9 [] ''k2'' (ws_register 4 ''k2'' (ws_capture ''k2'' ''a'' ''d'' ex_waiting)))) \<noteq> None"
proof -
  have w: "h_registry ex_waiting = ex_registry" "h_phase ex_waiting = Map.empty" "h_store ex_waiting = ex_full_store"
    "h_pending ex_waiting = [device_key ''a'' ''d'' \<mapsto> 0]" "h_timers ex_waiting = [0 \<mapsto> ex_timer False]"
    by (simp_all add: ex_waiting_def ex_hub_def hub_init_def)
  show ?thesis
    by (rule refused_reconnect_orphans_functions [where t = 0, OF _ _ _ _ _ _ _ rtranclp.rtrancl_refl])
      (use ex_registry_has ex_full in \<open>auto simp: w absent_def ex_timer_def split: if_splits\<close>)
qed

theorem reconnect_keeps_functions_witness:
  "let h' = timer_check 0 (ws_register 4 ''k2'' (ws_capture ''k2'' ''a'' ''d'' ex_waiting))
    in h_timers h' 0 = None \<and> h_registry h' = h_registry (ws_capture ''k2'' ''a'' ''d'' ex_waiting)
      \<and> h_pending h' (device_key ''a'' ''d'') = None"
  by (rule reconnect_keeps_functions [where olds = "{}" and tm = "ex_timer False"])
    (simp_all add: ws_capture_def ex_waiting_def ex_hub_def hub_init_def members_at_def ex_timer_def)

definition ex_late :: hub where
  "ex_late = ex_hub\<lparr>h_timers := [0 \<mapsto> ex_timer True], h_phase := [''k2'' \<mapsto> Serving ''a'' ''d''],
     h_registry := NewMemoryFunctionRegistry 0 0\<rparr>"

theorem late_cleanup_removes_live_functions_witness:
  "let h1 = set_registry (snd (register_functions 9 \<lparr>cl_user = ''a'', cl_device = ''d''\<rparr> (Some ex_functions)
        (h_registry ex_late))) ex_late;
      h2 = timer_clean 0 h1
    in GetFunctions ''a'' ''d'' (h_registry h1) = Some (rf_functions ex_functions)
      \<and> h_phase h2 ''k2'' = Some (Serving ''a'' ''d'') \<and> GetFunctions ''a'' ''d'' (h_registry h2) = None"
  by (rule late_cleanup_removes_live_functions [where tm = "ex_timer True"])
    (use ex_acceptable in \<open>simp_all add: ex_late_def ex_timer_def ex_functions_def\<close>)

end
