(* ===== verification/ClientCaches.thy ===== *)
theory ClientCaches
  imports Prelude "HOL-Library.Signed_Division"
begin

text \<open>
  The small data structures the client keeps in memory (\<^verbatim>\<open>pkg/client/idempotency_cache.go\<close>,
  \<^verbatim>\<open>rtt_tracker.go\<close>, \<^verbatim>\<open>response_retry_queue.go\<close>) and its exponential backoff
  (\<^verbatim>\<open>backoffDelay\<close> of \<^verbatim>\<open>connection.go\<close>).  Each structure is guarded by one mutex, so that an
  operation is one step.  Durations are 64-bit integers whose products and sums wrap around;
  an operation that would index or slice out of range panics, which is the value None.
\<close>

subsection \<open>Idempotency cache\<close>

text \<open>
  \<^verbatim>\<open>items\<close> maps a key to its element of the list \<^verbatim>\<open>order\<close>; an element holds its key, so the map is
  the set of its keys and moving an element is moving its key.
\<close>

record idem_cache =
  ic_capacity :: int
  ic_items :: "string set"
  ic_order :: "string list"

definition NewIdempotencyCache :: "int \<Rightarrow> idem_cache" where
  "NewIdempotencyCache capacity = \<lparr>ic_capacity = capacity, ic_items = {}, ic_order = []\<rparr>"

definition move_to_front :: "string \<Rightarrow> idem_cache \<Rightarrow> idem_cache" where
  "move_to_front key c = c\<lparr>ic_order := key # remove1 key (ic_order c)\<rparr>"

definition ic_contains :: "string \<Rightarrow> idem_cache \<Rightarrow> bool \<times> idem_cache" where
  "ic_contains key c = (if key \<in> ic_items c then (True, move_to_front key c) else (False, c))"

definition ic_evict :: "idem_cache \<Rightarrow> idem_cache" where
  "ic_evict c =
     (if int (length (ic_order c)) \<ge> ic_capacity c \<and> ic_order c \<noteq> [] then
        c\<lparr>ic_order := butlast (ic_order c), ic_items := ic_items c - {last (ic_order c)}\<rparr>
      else c)"

definition ic_put :: "string \<Rightarrow> idem_cache \<Rightarrow> idem_cache" where
  "ic_put key c =
     (if key \<in> ic_items c then move_to_front key c
      else let c' = ic_evict c
           in c'\<lparr>ic_order := key # ic_order c', ic_items := insert key (ic_items c')\<rparr>)"

definition ic_len :: "idem_cache \<Rightarrow> int" where
  "ic_len c = int (length (ic_order c))"

subsection \<open>Round-trip times\<close>

record rtt_tracker =
  rt_samples :: "duration list"
  rt_head :: nat
  rt_count :: nat
  rt_window :: nat

text \<open>\<^verbatim>\<open>make\<close> of a slice panics on a negative length.\<close>

definition NewRTTTracker :: "int \<Rightarrow> rtt_tracker option" where
  "NewRTTTracker w =
     (if w < 0 then None
      else Some \<lparr>rt_samples = replicate (nat w) 0, rt_head = 0, rt_count = 0, rt_window = nat w\<rparr>)"

definition rtt_record :: "duration \<Rightarrow> rtt_tracker \<Rightarrow> rtt_tracker option" where
  "rtt_record rtt t =
     (if rt_head t < length (rt_samples t) then
        Some (t\<lparr>rt_samples := (rt_samples t)[rt_head t := rtt],
                rt_head := (rt_head t + 1) mod rt_window t,
                rt_count := (if rt_count t < rt_window t then rt_count t + 1 else rt_count t)\<rparr>)
      else None)"

text \<open>The samples in the order of their arrival, as they are copied out of the ring.\<close>

definition valid_samples :: "rtt_tracker \<Rightarrow> duration list" where
  "valid_samples t =
     (if rt_count t = rt_window t then drop (rt_head t) (rt_samples t) @ take (rt_head t) (rt_samples t)
      else take (rt_count t) (rt_samples t))"

definition trimmed :: "nat \<Rightarrow> duration list \<Rightarrow> duration list" where
  "trimmed n xs =
     (let trim = n div 10
      in if trim > 0 \<and> int n - 2 * int trim \<ge> 2 then take (n - trim - trim) (drop trim xs)
         else xs)"

definition sum64 :: "duration list \<Rightarrow> duration" where
  "sum64 xs = foldl (\<lambda>s v. int64 (s + v)) 0 xs"

definition srtt :: "rtt_tracker \<Rightarrow> duration" where
  "srtt t =
     (if rt_count t = 0 then 0
      else let v = trimmed (rt_count t) (sort (valid_samples t))
           in sum64 v sdiv int (length v))"

definition clampDuration :: "duration \<Rightarrow> duration \<Rightarrow> duration \<Rightarrow> duration" where
  "clampDuration d lo hi = (if d < lo then lo else if d > hi then hi else d)"

definition AdaptiveTimeout :: "duration \<Rightarrow> duration \<Rightarrow> duration \<Rightarrow> rtt_tracker \<Rightarrow> duration" where
  "AdaptiveTimeout dflt lo hi t =
     (if rt_count t < 5 then dflt else clampDuration (int64 (srtt t * 3) sdiv 2) lo hi)"

subsection \<open>Responses waiting to be sent again\<close>

record 'r rr_entry =
  re_resp :: 'r
  re_attempts :: nat
  re_max :: int
  re_next :: time

record 'r rr_queue =
  rq_entries :: "'r rr_entry list"
  rq_max_size :: int
  rq_max_retry :: int

definition NewResponseRetryQueue :: "int \<Rightarrow> int \<Rightarrow> 'r rr_queue option" where
  "NewResponseRetryQueue maxSize maxRetry =
     (if maxSize < 0 then None
      else Some \<lparr>rq_entries = [], rq_max_size = maxSize, rq_max_retry = maxRetry\<rparr>)"

text \<open>Making room in a queue that is full drops its first entry; slicing an empty queue panics.\<close>

definition rq_make_room :: "'r rr_queue \<Rightarrow> 'r rr_queue option" where
  "rq_make_room q =
     (if int (length (rq_entries q)) \<ge> rq_max_size q then
        (case rq_entries q of [] \<Rightarrow> None | _ # es \<Rightarrow> Some (q\<lparr>rq_entries := es\<rparr>))
      else Some q)"

definition rq_append :: "'r rr_entry \<Rightarrow> 'r rr_queue \<Rightarrow> 'r rr_queue option" where
  "rq_append e q = map_option (\<lambda>q'. q'\<lparr>rq_entries := rq_entries q' @ [e]\<rparr>) (rq_make_room q)"

definition rq_enqueue :: "time \<Rightarrow> 'r \<Rightarrow> 'r rr_queue \<Rightarrow> 'r rr_queue option" where
  "rq_enqueue now resp q =
     rq_append \<lparr>re_resp = resp, re_attempts = 0, re_max = rq_max_retry q, re_next = now\<rparr> q"

definition rq_drain :: "time \<Rightarrow> 'r rr_queue \<Rightarrow> 'r rr_entry list \<times> 'r rr_queue" where
  "rq_drain now q =
     (filter (\<lambda>e. \<not> re_next e > now \<and> \<not> int (re_attempts e) \<ge> re_max e) (rq_entries q),
      q\<lparr>rq_entries := filter (\<lambda>e. re_next e > now) (rq_entries q)\<rparr>)"

definition rq_len :: "'r rr_queue \<Rightarrow> int" where
  "rq_len q = int (length (rq_entries q))"

text \<open>\<^verbatim>\<open>1 << e.attempts\<close> takes the type of \<^verbatim>\<open>time.Duration\<close> from its context.\<close>

definition retry_backoff :: "nat \<Rightarrow> duration" where
  "retry_backoff attempts =
     (let delay = int64 (second * int64 (2 ^ attempts))
      in if delay > 16 * second then 16 * second else delay)"

definition rq_enqueue_backoff :: "time \<Rightarrow> 'r rr_entry \<Rightarrow> 'r rr_queue \<Rightarrow> 'r rr_queue option" where
  "rq_enqueue_backoff now e q = rq_append (e\<lparr>re_next := now + retry_backoff (re_attempts e)\<rparr>) q"

text \<open>
  One tick of \<^verbatim>\<open>responseRetryLoop\<close>: the entries that are due are sent in turn; for each, \<open>out\<close> gives
  whether \<^verbatim>\<open>SendPackage\<close> accepted it and the instant at which it returned.
\<close>

fun resend :: "('r rr_entry \<Rightarrow> bool \<times> time) \<Rightarrow> 'r rr_entry list \<Rightarrow> 'r rr_queue \<Rightarrow> 'r rr_queue option" where
  "resend out [] q = Some q"
| "resend out (e # es) q =
     (case out e of
        (True, _) \<Rightarrow> resend out es q
      | (False, now) \<Rightarrow>
          let e' = e\<lparr>re_attempts := re_attempts e + 1\<rparr>
          in if int (re_attempts e') < re_max e'
             then (case rq_enqueue_backoff now e' q of None \<Rightarrow> None | Some q' \<Rightarrow> resend out es q')
             else resend out es q)"

definition response_retry_tick ::
  "('r rr_entry \<Rightarrow> bool \<times> time) \<Rightarrow> time \<Rightarrow> 'r rr_queue \<Rightarrow> 'r rr_queue option" where
  "response_retry_tick out now q = (case rq_drain now q of (es, q') \<Rightarrow> resend out es q')"

subsection \<open>Exponential backoff\<close>

text \<open>
  \<open>rnd n\<close> is what \<^verbatim>\<open>rand.Int63n(n)\<close> returns: a number between 0 and \<open>n - 1\<close> for a positive \<open>n\<close>.
\<close>

definition backoff_exp :: "int \<Rightarrow> int" where
  "backoff_exp attempt =
     (let ex = (if attempt - 1 < 0 then 0 else attempt - 1) in if ex > 30 then 30 else ex)"

definition backoff_base :: "int \<Rightarrow> duration \<Rightarrow> duration \<Rightarrow> duration" where
  "backoff_base attempt base mx =
     (let delay = int64 (base * 2 ^ nat (backoff_exp attempt))
      in if delay > mx \<or> delay \<le> 0 then mx else delay)"

definition backoffDelay :: "(int \<Rightarrow> int) \<Rightarrow> int \<Rightarrow> duration \<Rightarrow> duration \<Rightarrow> duration" where
  "backoffDelay rnd attempt base mx =
     (let delay = backoff_base attempt base mx;
          jitterRange = delay sdiv 2
      in if jitterRange > 0 then int64 (delay + (rnd jitterRange - delay sdiv 4)) else delay)"

subsection \<open>Windows over a sequence\<close>

text \<open>
  The tracker's ring and the retry queue are both windows: an addition keeps the last few of what
  was added.  The contract is stated once and both structures fulfil it.
\<close>

definition keep_last :: "nat \<Rightarrow> 'a list \<Rightarrow> 'a list" where
  "keep_last n xs = drop (length xs - n) xs"

lemma keep_last_short [simp]: "length xs \<le> n \<Longrightarrow> keep_last n xs = xs"
  by (simp add: keep_last_def)

lemma length_keep_last [simp]: "length (keep_last n xs) = min n (length xs)"
  by (simp add: keep_last_def)

lemma keep_last_append [simp]: "keep_last n (keep_last n xs @ ys) = keep_last n (xs @ ys)"
  by (cases "length xs \<le> n") (simp_all add: keep_last_def add.commute)

lemma keep_last_full: "length xs = n \<Longrightarrow> 0 < n \<Longrightarrow> keep_last n (xs @ [x]) = tl xs @ [x]"
  by (cases xs) (simp_all add: keep_last_def)

locale sliding_window =
  fixes push :: "'x \<Rightarrow> 's \<Rightarrow> 's option"
    and contents :: "'s \<Rightarrow> 'x list"
    and cap :: "'s \<Rightarrow> nat"
    and ok :: "'s \<Rightarrow> bool"
  assumes push_window: "ok s \<Longrightarrow> \<exists>s'. push x s = Some s' \<and> ok s' \<and> cap s' = cap s
      \<and> contents s' = keep_last (cap s) (contents s @ [x])"
    and within: "ok s \<Longrightarrow> length (contents s) \<le> cap s"
begin

fun push_all :: "'x list \<Rightarrow> 's \<Rightarrow> 's option" where
  "push_all [] s = Some s"
| "push_all (x # xs) s = (case push x s of None \<Rightarrow> None | Some s' \<Rightarrow> push_all xs s')"

lemma push_all_window:
  assumes "ok s"
  shows "\<exists>s'. push_all xs s = Some s' \<and> ok s' \<and> cap s' = cap s
    \<and> contents s' = keep_last (cap s) (contents s @ xs)"
  using assms
proof (induction xs arbitrary: s)
  case Nil
  then show ?case by (simp add: within)
next
  case (Cons x xs)
  from push_window [OF Cons.prems, of x] obtain s1 where
    s1: "push x s = Some s1" "ok s1" "cap s1 = cap s"
        "contents s1 = keep_last (cap s) (contents s @ [x])" by blast
  from Cons.IH [OF s1(2)] s1 show ?case by (auto simp: keep_last_append)
qed

end

subsubsection \<open>The ring of samples\<close>

definition tracker_ok :: "rtt_tracker \<Rightarrow> bool" where
  "tracker_ok t \<longleftrightarrow> 0 < rt_window t \<and> length (rt_samples t) = rt_window t \<and> rt_head t < rt_window t
     \<and> rt_count t \<le> rt_window t \<and> (rt_count t < rt_window t \<longrightarrow> rt_head t = rt_count t)"

lemma length_valid_samples: "tracker_ok t \<Longrightarrow> length (valid_samples t) = rt_count t"
  by (auto simp: tracker_ok_def valid_samples_def)

lemma rtt_record_partial:
  assumes ok: "tracker_ok t" and part: "rt_count t < rt_window t"
  shows "\<exists>t'. rtt_record x t = Some t' \<and> tracker_ok t' \<and> rt_window t' = rt_window t
    \<and> valid_samples t' = valid_samples t @ [x]"
proof -
  from ok part have h: "rt_head t = rt_count t" "length (rt_samples t) = rt_window t"
    by (auto simp: tracker_ok_def)
  have upd: "take (Suc (rt_count t)) ((rt_samples t)[rt_count t := x]) = take (rt_count t) (rt_samples t) @ [x]"
    using part h by (simp add: take_Suc_conv_app_nth)
  show ?thesis
    using ok part h upd
    by (cases "Suc (rt_count t) = rt_window t") (auto simp: rtt_record_def tracker_ok_def valid_samples_def)
qed

lemma rtt_record_full:
  assumes ok: "tracker_ok t" and full: "rt_count t = rt_window t"
  shows "\<exists>t'. rtt_record x t = Some t' \<and> tracker_ok t' \<and> rt_window t' = rt_window t
    \<and> valid_samples t' = tl (valid_samples t) @ [x]"
proof -
  let ?h = "rt_head t" and ?s = "rt_samples t"
  from ok have h: "?h < length ?s" "length ?s = rt_window t" by (auto simp: tracker_ok_def)
  have tl: "tl (drop ?h ?s) = drop (Suc ?h) ?s" by (simp add: drop_Suc tl_drop)
  have ne: "drop ?h ?s \<noteq> []" using h by simp
  have upd: "take (Suc ?h) (?s[?h := x]) = take ?h ?s @ [x]"
    using h by (simp add: take_Suc_conv_app_nth)
  have whole: "Suc ?h = length ?s \<Longrightarrow> ?s[?h := x] = take ?h ?s @ [x]"
    using upd by (simp add: take_all)
  show ?thesis
    using ok full h tl ne upd whole
    by (cases "Suc ?h = length ?s") (auto simp: rtt_record_def tracker_ok_def valid_samples_def)
qed

interpretation rtt: sliding_window rtt_record valid_samples rt_window tracker_ok
proof (unfold_locales, goal_cases)
  case (1 t x)
  show ?case
  proof (cases "rt_count t < rt_window t")
    case True
    with rtt_record_partial [OF 1 True, of x] show ?thesis
      by (auto simp: length_valid_samples [OF 1])
  next
    case False
    with 1 have "rt_count t = rt_window t" "0 < rt_window t" by (auto simp: tracker_ok_def)
    with rtt_record_full [OF 1, of x] show ?thesis
      by (auto simp: keep_last_full length_valid_samples [OF 1])
  qed
next
  case (2 t)
  then show ?case by (simp add: length_valid_samples) (simp add: tracker_ok_def)
qed

lemma NewRTTTracker_ok:
  "0 < w \<Longrightarrow> \<exists>t. NewRTTTracker w = Some t \<and> tracker_ok t \<and> rt_window t = nat w \<and> valid_samples t = []"
  by (simp add: NewRTTTracker_def tracker_ok_def valid_samples_def)

subsubsection \<open>The retry queue\<close>

definition queue_ok :: "'r rr_queue \<Rightarrow> bool" where
  "queue_ok q \<longleftrightarrow> 0 < rq_max_size q \<and> int (length (rq_entries q)) \<le> rq_max_size q"

interpretation rq: sliding_window rq_append rq_entries "\<lambda>q. nat (rq_max_size q)" queue_ok
proof (unfold_locales, goal_cases)
  case (1 q e)
  show ?case
  proof (cases "length (rq_entries q) = nat (rq_max_size q)")
    case True
    with 1 have m: "rq_max_size q = int (length (rq_entries q))" and "rq_entries q \<noteq> []"
      by (auto simp: queue_ok_def)
    then obtain e0 es where "rq_entries q = e0 # es" by (cases "rq_entries q") auto
    with m show ?thesis
      by (simp add: rq_append_def rq_make_room_def queue_ok_def keep_last_def nat_add_distrib)
  next
    case False
    with 1 show ?thesis by (auto simp: rq_append_def rq_make_room_def queue_ok_def)
  qed
next
  case (2 q)
  then show ?case by (simp add: queue_ok_def le_nat_iff)
qed

end
