(* ===== verification/RpcLog.thy ===== *)
theory RpcLog
  imports Complex_Main ClientStore "HOL-Library.Signed_Division"
begin

text \<open>
  The client's log of remote calls (\<^verbatim>\<open>RPCLogStore\<close> of \<^verbatim>\<open>pkg/store/rpc_log_store.go\<close>): one row per
  call, written when the request has been sent and completed when its outcome is known.  Averages
  are exact rational numbers here, the code's are 64-bit floats; the label of an interval is the
  instant at which it starts instead of SQLite's rendering of that instant.  The two exports
  only print what \<^verbatim>\<open>List\<close> returns and are left out.
\<close>

record rpc_log =
  lg_id :: string
  lg_type :: string
  lg_request :: string
  lg_method :: string
  lg_params :: string
  lg_response :: string
  lg_status :: int
  lg_conv :: string
  lg_duration :: duration
  lg_error :: string
  lg_created :: time

definition rl_save :: "time \<Rightarrow> rpc_log \<Rightarrow> rpc_log list \<Rightarrow> client_store_error + rpc_log list" where
  "rl_save now l rows =
     (if list_ex (\<lambda>x. lg_id x = lg_id l) rows then Inl LErrDuplicateKey
      else Inr (rows @ [l\<lparr>lg_created := (if lg_created l = zero_time then now else lg_created l)\<rparr>]))"

definition rl_update :: "rpc_log \<Rightarrow> rpc_log list \<Rightarrow> rpc_log list" where
  "rl_update l rows =
     (if list_ex (\<lambda>x. lg_id x = lg_id l) rows then update_where (\<lambda>x. lg_id x = lg_id l) (\<lambda>_. l) rows
      else rows @ [l])"

record rpc_log_filter =
  lf_start :: "time option"
  lf_end :: "time option"
  lf_method :: string
  lf_status :: "int option"
  lf_status_below :: "int option"
  lf_conv :: string
  lf_limit :: int

definition rl_matches :: "rpc_log_filter \<Rightarrow> rpc_log \<Rightarrow> bool" where
  "rl_matches f l \<longleftrightarrow>
     (case lf_start f of None \<Rightarrow> True | Some t \<Rightarrow> t \<le> lg_created l)
   \<and> (case lf_end f of None \<Rightarrow> True | Some t \<Rightarrow> lg_created l \<le> t)
   \<and> (lf_method f \<noteq> [] \<longrightarrow> lg_method l = lf_method f)
   \<and> (case lf_status f of None \<Rightarrow> True | Some c \<Rightarrow> lg_status l = c)
   \<and> (case lf_status_below f of None \<Rightarrow> True | Some c \<Rightarrow> lg_status l < c)
   \<and> (lf_conv f \<noteq> [] \<longrightarrow> lg_conv l = lf_conv f)"

definition rl_list :: "rpc_log_filter \<Rightarrow> rpc_log list \<Rightarrow> rpc_log list" where
  "rl_list f rows =
     (let limit = (if lf_limit f \<le> 0 \<or> lf_limit f > 1000 then 100 else lf_limit f)
      in take (nat limit) (select_asc (\<lambda>l. - lg_created l) (rl_matches f) rows))"

definition rl_get_by_request_id :: "string \<Rightarrow> rpc_log list \<Rightarrow> client_store_error + rpc_log" where
  "rl_get_by_request_id i rows =
     (case first_by lg_id (\<lambda>l. lg_request l = i) rows of None \<Rightarrow> Inl LErrNotFound | Some l \<Rightarrow> Inr l)"

subsection \<open>Reports\<close>

record rpc_aggregate =
  ag_interval :: time
  ag_method :: string
  ag_count :: nat
  ag_success :: nat
  ag_errors :: nat
  ag_avg_ms :: rat

definition rl_row :: "time \<Rightarrow> string \<Rightarrow> rpc_log list \<Rightarrow> rpc_aggregate" where
  "rl_row start m ls =
     \<lparr>ag_interval = start, ag_method = m, ag_count = length ls,
      ag_success = count_where (\<lambda>l. lg_status l \<ge> 0) ls,
      ag_errors = count_where (\<lambda>l. lg_status l < 0) ls,
      ag_avg_ms = (\<Sum>l\<leftarrow>ls. of_int (lg_duration l) / 1000000) / of_nat (length ls)\<rparr>"

text \<open>\<^verbatim>\<open>GROUP BY\<close> over a key: one row per value of the key, in the order of the keys.\<close>

definition group_rows :: "(rpc_log \<Rightarrow> 'k::linorder) \<Rightarrow> ('k \<Rightarrow> rpc_log list \<Rightarrow> 'r) \<Rightarrow> rpc_log list \<Rightarrow> 'r list" where
  "group_rows key row ls =
     map (\<lambda>k. row k (filter (\<lambda>l. key l = k) ls)) (sort (remdups (map key ls)))"

definition rl_aggregate :: "time \<Rightarrow> time \<Rightarrow> rpc_log list \<Rightarrow> rpc_aggregate list" where
  "rl_aggregate start stop rows =
     group_rows lg_method (rl_row 0)
       (filter (\<lambda>l. start \<le> lg_created l \<and> lg_created l < stop) rows)"

text \<open>
  The start of the interval that holds an instant.  SQLite's \<^verbatim>\<open>/\<close> on integers truncates towards
  zero; \<^verbatim>\<open>strftime('%s')\<close> yields the whole seconds of the instant.
\<close>

definition bucket_start :: "string \<Rightarrow> time \<Rightarrow> time option" where
  "bucket_start interval t =
     (if interval = ''1m'' then Some (t div (60 * second) * (60 * second))
      else if interval = ''5m'' then Some ((t div second) sdiv 300 * 300 * second)
      else if interval = ''15m'' then Some ((t div second) sdiv 900 * 900 * second)
      else if interval = ''1h'' then Some (t div (3600 * second) * (3600 * second))
      else if interval = ''1d'' then Some (t div (86400 * second) * (86400 * second))
      else None)"

definition rl_aggregate_by_interval ::
  "time \<Rightarrow> time \<Rightarrow> string \<Rightarrow> rpc_log list \<Rightarrow> rpc_aggregate list option" where
  "rl_aggregate_by_interval start stop interval rows =
     (if bucket_start interval 0 = None then None
      else
        let ls = filter (\<lambda>l. start \<le> lg_created l \<and> lg_created l < stop) rows;
            bucket = (\<lambda>l. the (bucket_start interval (lg_created l)))
        in Some (concat (group_rows bucket
             (\<lambda>b bs. group_rows lg_method (rl_row b) bs) ls)))"

definition rl_cleanup_before :: "time \<Rightarrow> rpc_log list \<Rightarrow> nat \<times> rpc_log list" where
  "rl_cleanup_before t rows =
     (count_where (\<lambda>l. lg_created l < t) rows, filter (\<lambda>l. \<not> lg_created l < t) rows)"

definition rl_cleanup_older_than :: "time \<Rightarrow> duration \<Rightarrow> rpc_log list \<Rightarrow> nat \<times> rpc_log list" where
  "rl_cleanup_older_than now retention rows = rl_cleanup_before (now - retention) rows"

definition rl_count_before :: "time \<Rightarrow> rpc_log list \<Rightarrow> nat" where
  "rl_count_before t rows = count_where (\<lambda>l. lg_created l < t) rows"

subsection \<open>What the reports account for\<close>

lemma sum_group_counts:
  fixes key :: "'a \<Rightarrow> 'k"
  shows "distinct ks \<Longrightarrow> set (map key ls) \<subseteq> set ks
    \<Longrightarrow> (\<Sum>k\<leftarrow>ks. length (filter (\<lambda>l. key l = k) ls)) = length ls"
proof (induction ls)
  case (Cons l ls)
  have "(\<Sum>k\<leftarrow>ks. length (filter (\<lambda>l. key l = k) (l # ls)))
      = (\<Sum>k\<leftarrow>ks. (if key l = k then 1 else 0) + length (filter (\<lambda>l. key l = k) ls))"
    by (intro arg_cong [where f = sum_list] map_cong) auto
  also have "\<dots> = (\<Sum>k\<leftarrow>ks. if key l = k then 1 else 0) + (\<Sum>k\<leftarrow>ks. length (filter (\<lambda>l. key l = k) ls))"
    by (rule sum_list_addf)
  also have "(\<Sum>k\<leftarrow>ks. if key l = k then 1 else 0 :: nat) = 1"
    using Cons.prems by (auto simp: sum_list_distinct_conv_sum_set)
  finally show ?case using Cons by simp
qed simp

text \<open>Every logged call in the range is counted once, either as a success or as an error.\<close>

theorem aggregate_accounts_for_all:
  "(\<Sum>r\<leftarrow>rl_aggregate start stop rows. ag_count r)
     = count_where (\<lambda>l. start \<le> lg_created l \<and> lg_created l < stop) rows
   \<and> (\<Sum>r\<leftarrow>rl_aggregate start stop rows. ag_success r + ag_errors r)
     = count_where (\<lambda>l. start \<le> lg_created l \<and> lg_created l < stop) rows"
proof -
  let ?ls = "filter (\<lambda>l. start \<le> lg_created l \<and> lg_created l < stop) rows"
  have split: "ag_success r + ag_errors r = ag_count r" if "r \<in> set (rl_aggregate start stop rows)" for r
  proof -
    have "count_where (\<lambda>l. lg_status l \<ge> 0) ls + count_where (\<lambda>l. lg_status l < 0) ls = length ls"
      for ls by (induction ls) auto
    with that show ?thesis by (auto simp: rl_aggregate_def group_rows_def rl_row_def)
  qed
  have "(\<Sum>r\<leftarrow>rl_aggregate start stop rows. ag_count r) = length ?ls"
    using sum_group_counts [of "sort (remdups (map lg_method ?ls))" lg_method ?ls]
    by (simp add: rl_aggregate_def group_rows_def rl_row_def comp_def)
  moreover have "(\<Sum>r\<leftarrow>rl_aggregate start stop rows. ag_success r + ag_errors r)
      = (\<Sum>r\<leftarrow>rl_aggregate start stop rows. ag_count r)"
    using split by (intro arg_cong [where f = sum_list] map_cong) auto
  ultimately show ?thesis by (simp add: count_where_def)
qed

text \<open>A request that is still in flight has status zero and counts as a success.\<close>

lemma in_flight_counts_as_success:
  assumes "lg_status l = 0" "start \<le> lg_created l" "lg_created l < stop"
  shows "map ag_success (rl_aggregate start stop [l]) = [1]"
  using assms by (simp add: rl_aggregate_def group_rows_def rl_row_def)

end
