(* ===== verification/ClientCalls.thy ===== *)
theory ClientCalls
  imports ClientCaches RpcLog ClientTables
begin

text \<open>
  Remote calls of the client (\<^verbatim>\<open>Call\<close>, \<^verbatim>\<open>handleIncomingRequest\<close> of \<^verbatim>\<open>pkg/client/client.go\<close>), their
  errors (\<^verbatim>\<open>options.go\<close>) and the retry manager (\<^verbatim>\<open>retry.go\<close>).  One call is one function of the
  client's state and of what the world answers: whether the connection took the request, which
  response, cancellation or timeout came first, and when.  The application's request handlers and
  the JSON encoding are parameters.
\<close>

subsection \<open>Errors\<close>

definition ErrorCodeConnectionError :: ResponseCode where [simp]: "ErrorCodeConnectionError = -400"
definition ErrorCodeTimeoutError :: ResponseCode where [simp]: "ErrorCodeTimeoutError = -401"
definition ErrorCodeSyncError :: ResponseCode where [simp]: "ErrorCodeSyncError = -402"

record client_error =
  ce_code :: ResponseCode
  ce_message :: string
  ce_err :: "string option"

definition format_int :: "int \<Rightarrow> string" where
  "format_int n = (if n < 0 then CHR ''-'' # format_uint (nat (- n)) else format_uint (nat n))"

definition ClientError_Error :: "client_error \<Rightarrow> string" where
  "ClientError_Error e =
     (case ce_err e of
        Some u \<Rightarrow> ''client: ['' @ format_int (ce_code e) @ ''] '' @ ce_message e @ '': '' @ u
      | None \<Rightarrow> ''client: ['' @ format_int (ce_code e) @ ''] '' @ ce_message e)"

definition NewConnectionError :: "string \<Rightarrow> client_error" where
  "NewConnectionError u = \<lparr>ce_code = ErrorCodeConnectionError, ce_message = ''connection error'', ce_err = Some u\<rparr>"

definition NewTimeoutError :: "string \<Rightarrow> client_error" where
  "NewTimeoutError u = \<lparr>ce_code = ErrorCodeTimeoutError, ce_message = ''timeout error'', ce_err = Some u\<rparr>"

definition NewSyncError :: "string \<Rightarrow> client_error" where
  "NewSyncError u = \<lparr>ce_code = ErrorCodeSyncError, ce_message = ''sync error'', ce_err = Some u\<rparr>"

datatype call_failure = ClientFailure client_error | MarshalFailure string

fun failure_text :: "call_failure \<Rightarrow> string" where
  "failure_text (ClientFailure e) = ClientError_Error e"
| "failure_text (MarshalFailure u) = ''client: marshal params: '' @ u"

subsection \<open>Calls\<close>

record call_response =
  cr_id :: string
  cr_code :: ResponseCode
  cr_msg :: string
  cr_data :: string
  cr_updates :: "data_update list"

datatype rpc_outcome =
    SendRefused string
  | Answered call_response
  | CtxEnded string
  | TimerFired

record rpc_client =
  cl_closed :: bool
  cl_db :: local_db
  cl_logs :: "rpc_log list"
  cl_rtt :: rtt_tracker

record call_env =
  cv_request_id :: string
  cv_log_id :: string
  cv_task_id :: string
  cv_start :: time
  cv_after :: time
  cv_outcome :: rpc_outcome
  cv_logs_ok :: bool
  cv_queue_ok :: bool

text \<open>
  \<^verbatim>\<open>retryManager.Enqueue\<close>.  Its error is dropped by \<^verbatim>\<open>Call\<close>, so a write that fails leaves the table
  as it was.  A statement issued with a context that is already done is not executed.
\<close>

definition retry_enqueue :: "int \<Rightarrow> string \<Rightarrow> time \<Rightarrow> string \<Rightarrow> string \<Rightarrow> local_db \<Rightarrow> client_store_error + local_db" where
  "retry_enqueue max_attempts task_id now method params d =
     lq_save now \<lparr>q_id = task_id, q_method = method, q_params = params, q_attempt = 0,
       q_max_attempts = max_attempts, q_next = now, q_status = ''pending'', q_last_error = [],
       q_created = zero_time\<rparr> d"

definition best_effort :: "bool \<Rightarrow> 'a \<Rightarrow> 'e + 'a \<Rightarrow> 'a" where
  "best_effort ok old r = (if ok then (case r of Inl _ \<Rightarrow> old | Inr new \<Rightarrow> new) else old)"

definition enqueue_call :: "int \<Rightarrow> call_env \<Rightarrow> bool \<Rightarrow> string \<Rightarrow> string \<Rightarrow> rpc_client \<Rightarrow> rpc_client" where
  "enqueue_call max_attempts ev ctx_done method params c =
     c\<lparr>cl_db := best_effort (cv_queue_ok ev \<and> \<not> ctx_done) (cl_db c)
        (retry_enqueue max_attempts (cv_task_id ev) (cv_after ev) method params (cl_db c))\<rparr>"

definition initial_log :: "(string \<Rightarrow> string) \<Rightarrow> call_env \<Rightarrow> string \<Rightarrow> string \<Rightarrow> rpc_log" where
  "initial_log conv_of ev method params =
     \<lparr>lg_id = cv_log_id ev, lg_type = ''request'', lg_request = cv_request_id ev, lg_method = method,
      lg_params = params, lg_response = [], lg_status = 0, lg_conv = conv_of params, lg_duration = 0,
      lg_error = [], lg_created = cv_start ev\<rparr>"

definition finish_log :: "call_env \<Rightarrow> bool \<Rightarrow> ResponseCode \<Rightarrow> string \<Rightarrow> string \<Rightarrow> rpc_log \<Rightarrow> rpc_client \<Rightarrow> rpc_client" where
  "finish_log ev ctx_done code err data l c =
     c\<lparr>cl_logs := (if cv_logs_ok ev \<and> \<not> ctx_done then
        rl_update (l\<lparr>lg_type := ''response'', lg_duration := cv_after ev - cv_start ev, lg_status := code,
          lg_error := err, lg_response := data\<rparr>) (cl_logs c) else cl_logs c)\<rparr>"

text \<open>
  \<open>params\<close>: None is a nil argument; a value that cannot be encoded is Some (Inl error).  The pending
  entry of the call is added and removed again within it (see the registry of calls).  None means
  that recording the round-trip time panicked.
\<close>

definition await_call ::
  "int \<Rightarrow> call_env \<Rightarrow> string \<Rightarrow> string \<Rightarrow> rpc_log \<Rightarrow> rpc_client \<Rightarrow> ((call_failure + string) \<times> rpc_client) option" where
  "await_call max_attempts ev method params l c =
     (case cv_outcome ev of
        CtxEnded e \<Rightarrow>
          Some (Inl (ClientFailure (NewTimeoutError e)),
            enqueue_call max_attempts ev True method params (finish_log ev True ErrorCodeTimeoutError e [] l c))
      | Answered r \<Rightarrow>
          (case rtt_record (cv_after ev - cv_start ev) (cl_rtt c) of
             None \<Rightarrow> None
           | Some t \<Rightarrow>
               let c1 = c\<lparr>cl_rtt := t\<rparr>
               in if cr_code r = ResponseCodeOK
                  then Some (Inr (cr_data r), finish_log ev False 0 [] (cr_data r) l c1)
                  else Some (Inl (ClientFailure \<lparr>ce_code = cr_code r, ce_message = cr_msg r, ce_err = None\<rparr>),
                         finish_log ev False (cr_code r) (cr_msg r) [] l c1))
      | _ \<Rightarrow>
          let e = ''rpc '' @ method @ '' timed out''
          in Some (Inl (ClientFailure (NewTimeoutError e)),
               enqueue_call max_attempts ev False method params
                 (finish_log ev False ErrorCodeTimeoutError e [] l c)))"

definition Call ::
  "(string \<Rightarrow> string) \<Rightarrow> int \<Rightarrow> call_env \<Rightarrow> string \<Rightarrow> (string + string) option \<Rightarrow> rpc_client
     \<Rightarrow> ((call_failure + string) \<times> rpc_client) option" where
  "Call conv_of max_attempts ev method params c =
     (if cl_closed c then
        Some (Inl (ClientFailure \<lparr>ce_code = ErrorCodeConnectionError, ce_message = ''client is closed'', ce_err = None\<rparr>), c)
      else
        (case (case params of None \<Rightarrow> Inr ''{}'' | Some p \<Rightarrow> p) of
           Inl e \<Rightarrow> Some (Inl (MarshalFailure e), c)
         | Inr p \<Rightarrow>
             (case cv_outcome ev of
                SendRefused e \<Rightarrow>
                  Some (Inl (ClientFailure (NewConnectionError (''send package: '' @ e))),
                    enqueue_call max_attempts ev False method p c)
              | _ \<Rightarrow>
                  let l = initial_log conv_of ev method p
                  in await_call max_attempts ev method p l
                       (c\<lparr>cl_logs := best_effort (cv_logs_ok ev) (cl_logs c) (rl_save (cv_start ev) l (cl_logs c))\<rparr>))))"

subsection \<open>The retry manager\<close>

record retry_opts =
  ro_base :: duration
  ro_max_attempts :: int
  ro_rand :: "int \<Rightarrow> int"
  ro_conv_of :: "string \<Rightarrow> string"

definition executeTask ::
  "retry_opts \<Rightarrow> call_env \<Rightarrow> bool \<Rightarrow> retry_task \<Rightarrow> rpc_client \<Rightarrow> rpc_client option" where
  "executeTask ro ev write_ok task0 c =
     (let task = task0\<lparr>q_attempt := q_attempt task0 + 1\<rparr>
      in case Call (ro_conv_of ro) (ro_max_attempts ro) ev (q_method task) (Some (Inr (q_params task))) c of
           None \<Rightarrow> None
         | Some (Inr _, c1) \<Rightarrow>
             Some (c1\<lparr>cl_db := best_effort write_ok (cl_db c1) (lq_delete (q_id task) (cl_db c1))\<rparr>)
         | Some (Inl e, c1) \<Rightarrow>
             let failed = task\<lparr>q_last_error := failure_text e\<rparr>;
                 next = (if q_attempt failed \<ge> q_max_attempts failed then failed\<lparr>q_status := ''failed''\<rparr>
                         else failed\<lparr>q_next := cv_after ev
                                + backoffDelay (ro_rand ro) (q_attempt failed) (ro_base ro) (16 * second)\<rparr>)
             in Some (if write_ok then c1\<lparr>cl_db := lq_update next (cl_db c1)\<rparr> else c1))"

text \<open>
  One tick of \<^verbatim>\<open>pollLoop\<close>: the due tasks are listed and executed in turn, until the manager is
  stopped.  \<open>envs i\<close> is what the \<open>i\<close>-th call meets.
\<close>

fun run_tasks ::
  "retry_opts \<Rightarrow> (nat \<Rightarrow> call_env \<times> bool) \<Rightarrow> (nat \<Rightarrow> bool) \<Rightarrow> nat \<Rightarrow> retry_task list \<Rightarrow> rpc_client \<Rightarrow> rpc_client option" where
  "run_tasks ro envs stopped i [] c = Some c"
| "run_tasks ro envs stopped i (t # ts) c =
     (if stopped i then Some c
      else case executeTask ro (fst (envs i)) (snd (envs i)) t c of
             None \<Rightarrow> None
           | Some c' \<Rightarrow> run_tasks ro envs stopped (Suc i) ts c')"

definition retry_poll ::
  "retry_opts \<Rightarrow> (nat \<Rightarrow> call_env \<times> bool) \<Rightarrow> (nat \<Rightarrow> bool) \<Rightarrow> bool \<Rightarrow> time \<Rightarrow> rpc_client \<Rightarrow> rpc_client option" where
  "retry_poll ro envs stopped list_ok now c =
     (if list_ok then run_tasks ro envs stopped 0 (lq_list_pending now 50 (cl_db c)) c else Some c)"

subsection \<open>Requests from the server\<close>

record server_request =
  sq_id :: string
  sq_method :: string
  sq_params :: string
  sq_key :: string
  sq_seq :: u64

record inbound =
  ib_last_seq :: u64
  ib_cache :: idem_cache
  ib_queue :: "call_response rr_queue"
  ib_wire :: "call_response list"
  ib_runs :: "server_request list"

text \<open>\<^verbatim>\<open>SendPackage\<close> either takes the response or refuses it, and then it is queued for a retry.\<close>

definition send_or_queue :: "bool \<Rightarrow> time \<Rightarrow> call_response \<Rightarrow> inbound \<Rightarrow> inbound option" where
  "send_or_queue ok now r s =
     (if ok then Some (s\<lparr>ib_wire := ib_wire s @ [r]\<rparr>)
      else map_option (\<lambda>q. s\<lparr>ib_queue := q\<rparr>) (rq_enqueue now r (ib_queue s)))"

text \<open>
  \<open>handlers\<close> are the application's request handlers: an error text or the response data.  \<open>valid\<close>
  tells whether the data is well-formed JSON; a response that cannot be encoded is dropped.
\<close>

definition note_seq :: "u64 \<Rightarrow> inbound \<Rightarrow> inbound" where
  "note_seq q s = (if q > 0 \<and> q > ib_last_seq s then s\<lparr>ib_last_seq := q\<rparr> else s)"

definition duplicate_response :: "server_request \<Rightarrow> call_response" where
  "duplicate_response req =
     \<lparr>cr_id = sq_id req, cr_code = ResponseCodeOK, cr_msg = ''duplicate (idempotency cache hit)'', cr_data = [], cr_updates = []\<rparr>"

definition run_handler :: "(string \<rightharpoonup> (server_request \<Rightarrow> string + string)) \<Rightarrow> server_request \<Rightarrow> call_response" where
  "run_handler handlers req =
     (case handlers (sq_method req) of
        None \<Rightarrow> \<lparr>cr_id = sq_id req, cr_code = ResponseCodeError, cr_msg = ''unknown method: '' @ sq_method req, cr_data = [], cr_updates = []\<rparr>
      | Some h \<Rightarrow>
          (case h req of
             Inl e \<Rightarrow> \<lparr>cr_id = sq_id req, cr_code = ResponseCodeError, cr_msg = e, cr_data = [], cr_updates = []\<rparr>
           | Inr d \<Rightarrow> \<lparr>cr_id = sq_id req, cr_code = ResponseCodeOK, cr_msg = ''ok'', cr_data = d, cr_updates = []\<rparr>))"

definition handleIncomingRequest ::
  "(string \<rightharpoonup> (server_request \<Rightarrow> string + string)) \<Rightarrow> (string \<Rightarrow> bool) \<Rightarrow> bool \<Rightarrow> time \<Rightarrow> server_request
     \<Rightarrow> inbound \<Rightarrow> inbound option" where
  "handleIncomingRequest handlers valid ok now req s0 =
     (let s1 = note_seq (sq_seq req) s0;
          (hit, cache) = (if sq_key req = [] then (False, ib_cache s1) else ic_contains (sq_key req) (ib_cache s1));
          s = s1\<lparr>ib_cache := cache\<rparr>
      in if hit then send_or_queue ok now (duplicate_response req) s
         else
           let r = run_handler handlers req;
               s2 = (if handlers (sq_method req) = None then s else s\<lparr>ib_runs := ib_runs s @ [req]\<rparr>);
               s3 = (if sq_key req = [] then s2 else s2\<lparr>ib_cache := ic_put (sq_key req) (ib_cache s2)\<rparr>)
           in if valid (cr_data r) then send_or_queue ok now r s3 else Some s3)"

definition new_inbound :: "int \<Rightarrow> call_response rr_queue \<Rightarrow> inbound" where
  "new_inbound cache_size q =
     \<lparr>ib_last_seq = 0, ib_cache = NewIdempotencyCache cache_size, ib_queue = q, ib_wire = [], ib_runs = []\<rparr>"

end
