(* ===== verification/ClientCacheProps.thy ===== *)
theory ClientCacheProps
  imports ClientCaches
begin

text \<open>
  What the client's small structures promise: the idempotency cache is exactly a
  least-recently-used list, the adaptive timeout is robust against outliers, the retry queue
  is bounded and resends each response a bounded number of times, and the backoff stays within
  its jitter of the capped exponential.
\<close>

subsection \<open>The idempotency cache is a least-recently-used list\<close>

datatype cache_op = CPut string | CContains string

fun ic_step :: "cache_op \<Rightarrow> idem_cache \<Rightarrow> idem_cache" where
  "ic_step (CPut k) c = ic_put k c"
| "ic_step (CContains k) c = snd (ic_contains k c)"

definition ic_run :: "cache_op list \<Rightarrow> idem_cache \<Rightarrow> idem_cache" where
  "ic_run ops c = fold ic_step ops c"

text \<open>The distinct keys of a history whose most recent use comes first.\<close>

fun recents :: "string list \<Rightarrow> string list" where
  "recents [] = []"
| "recents (k # h) = k # removeAll k (recents h)"

fun use_step :: "nat \<Rightarrow> cache_op \<Rightarrow> string list \<Rightarrow> string list" where
  "use_step n (CPut k) h = k # h"
| "use_step n (CContains k) h = (if k \<in> set (take n (recents h)) then k # h else h)"

definition use_history :: "nat \<Rightarrow> cache_op list \<Rightarrow> string list" where
  "use_history n ops = fold (use_step n) ops []"

lemma set_recents [simp]: "set (recents h) = set h"
  by (induction h) auto

lemma distinct_recents [simp]: "distinct (recents h)"
  by (induction h) (auto simp: distinct_removeAll)

definition holds_recent :: "nat \<Rightarrow> string list \<Rightarrow> idem_cache \<Rightarrow> bool" where
  "holds_recent n h c \<longleftrightarrow> nat (max 1 (ic_capacity c)) = n \<and> ic_items c = set (ic_order c)
     \<and> ic_order c = take n (recents h)"

lemma removeAll_take:
  assumes "distinct xs" "k \<in> set (take n xs)"
  shows "removeAll k (take n xs) = take (n - 1) (removeAll k xs)"
  using assms
proof (induction xs arbitrary: n)
  case (Cons x xs)
  then obtain m where n: "n = Suc m" by (cases n) auto
  show ?case
  proof (cases "k = x")
    case True
    with Cons.prems n have "k \<notin> set xs" by auto
    moreover from this have "k \<notin> set (take m xs)" by (meson in_set_takeD)
    ultimately show ?thesis using True n by simp
  next
    case False
    with Cons.prems n have k: "k \<in> set (take m xs)" "distinct xs" by auto
    then obtain m' where m: "m = Suc m'" by (cases m) auto
    from Cons.IH [OF k(2,1)] False n m show ?thesis by simp
  qed
qed simp

lemma take_removeAll_absent:
  "k \<notin> set (take n xs) \<Longrightarrow> m \<le> n \<Longrightarrow> m + 1 \<le> n \<or> k \<notin> set xs \<Longrightarrow> take m (removeAll k xs) = take m xs"
proof (induction xs arbitrary: m n)
  case (Cons x xs)
  show ?case
  proof (cases m)
    case (Suc m')
    with Cons.prems obtain n' where n: "n = Suc n'" by (cases n) auto
    with Cons.prems Suc have "k \<noteq> x" "k \<notin> set (take n' xs)" by auto
    with Cons.IH [of n' m'] Cons.prems n Suc show ?thesis by auto
  qed simp
qed simp

lemma move_to_front_recent:
  assumes "holds_recent n h c" "k \<in> ic_items c"
  shows "holds_recent n (k # h) (move_to_front k c)"
proof -
  from assms have o: "ic_order c = take n (recents h)" "k \<in> set (take n (recents h))"
    and n: "nat (max 1 (ic_capacity c)) = n" and i: "ic_items c = set (ic_order c)"
    by (auto simp: holds_recent_def)
  have "0 < n" using n by auto
  then obtain m where m: "n = Suc m" by (cases n) auto
  have "remove1 k (take n (recents h)) = take m (removeAll k (recents h))"
    using removeAll_take [OF distinct_recents o(2)] m
    by (simp add: distinct_remove1_removeAll)
  then have "ic_order (move_to_front k c) = take n (recents (k # h))"
    using m o(1) by (simp add: move_to_front_def)
  moreover have "ic_items (move_to_front k c) = set (ic_order (move_to_front k c))"
    using assms(2) i o(1) by (auto simp: move_to_front_def)
  ultimately show ?thesis using n by (simp add: holds_recent_def move_to_front_def)
qed

lemma evict_recent:
  assumes h: "holds_recent n h c" and k: "k \<notin> ic_items c"
  shows "ic_order (ic_evict c) = take (n - 1) (recents h) \<and> ic_items (ic_evict c) = set (ic_order (ic_evict c))
    \<and> ic_capacity (ic_evict c) = ic_capacity c"
proof -
  let ?r = "recents h"
  from h have o: "ic_order c = take n ?r" "ic_items c = set (take n ?r)"
    and n: "nat (max 1 (ic_capacity c)) = n" by (auto simp: holds_recent_def)
  show ?thesis
  proof (cases "int (length (take n ?r)) \<ge> ic_capacity c \<and> take n ?r \<noteq> []")
    case True
    with n have "n \<le> length ?r" by (cases ?r) (auto simp: max_def split: if_splits)
    with True have bl: "butlast (take n ?r) = take (n - 1) ?r" by (simp add: butlast_take)
    have "take n ?r = butlast (take n ?r) @ [last (take n ?r)]" using True by simp
    moreover have "distinct (take n ?r)" by simp
    ultimately have "set (take n ?r) - {last (take n ?r)} = set (butlast (take n ?r))"
      by (metis Diff_insert_absorb distinct_append distinct.simps(2) list.set(2) not_distinct_conv_prefix
          rotate1.simps(2) set_rotate1)
    with True bl o show ?thesis by (simp add: ic_evict_def)
  next
    case False
    with n have "length ?r < n \<or> ?r = []" by (auto simp: max_def split: if_splits)
    then have "take n ?r = ?r \<and> take (n - 1) ?r = ?r" by auto
    with False o show ?thesis by (auto simp: ic_evict_def)
  qed
qed

lemma put_recent:
  assumes h: "holds_recent n h c"
  shows "holds_recent n (k # h) (ic_put k c)"
proof (cases "k \<in> ic_items c")
  case True
  with move_to_front_recent [OF h True] show ?thesis by (simp add: ic_put_def)
next
  case False
  from h have n: "nat (max 1 (ic_capacity c)) = n" and i: "k \<notin> set (take n (recents h))"
    using False by (auto simp: holds_recent_def)
  from n have "0 < n" by auto
  then have "take (n - 1) (removeAll k (recents h)) = take (n - 1) (recents h)"
    using take_removeAll_absent [OF i, of "n - 1"] by auto
  with evict_recent [OF h False] False n \<open>0 < n\<close> show ?thesis
    by (cases n) (auto simp: ic_put_def holds_recent_def Let_def)
qed

lemma step_recent:
  "holds_recent n h c \<Longrightarrow> holds_recent n (use_step n op h) (ic_step op c)"
  by (cases op) (auto simp: put_recent ic_contains_def move_to_front_recent holds_recent_def [of n h])

lemma run_recent:
  "holds_recent n h c \<Longrightarrow> holds_recent n (fold (use_step n) ops h) (ic_run ops c)"
  by (induction ops arbitrary: h c) (auto simp: ic_run_def step_recent)

lemma new_recent: "holds_recent (nat (max 1 cap)) [] (NewIdempotencyCache cap)"
  by (simp add: holds_recent_def NewIdempotencyCache_def)

text \<open>The cache holds exactly the most recently used keys.\<close>

theorem idempotency_cache_is_lru:
  "ic_order (ic_run ops (NewIdempotencyCache cap))
     = take (nat (max 1 cap)) (recents (use_history (nat (max 1 cap)) ops))"
  using run_recent [OF new_recent, where ops = ops] by (simp add: holds_recent_def use_history_def)

definition op_key :: "cache_op \<Rightarrow> string" where
  "op_key op = (case op of CPut k \<Rightarrow> k | CContains k \<Rightarrow> k)"

lemma recents_before:
  "\<exists>xs ys. recents (h' @ k # h) = xs @ k # ys \<and> distinct xs \<and> set xs \<subseteq> set h' - {k}"
proof (induction h')
  case Nil
  then show ?case by auto
next
  case (Cons j h')
  then obtain xs ys where r: "recents (h' @ k # h) = xs @ k # ys" "distinct xs" "set xs \<subseteq> set h' - {k}"
    by blast
  show ?case
  proof (cases "j = k")
    case True
    then show ?thesis by (rule_tac exI [of _ "[]"]) simp
  next
    case False
    with r show ?thesis
      by (intro exI [of _ "j # removeAll j xs"] exI [of _ "removeAll j ys"])
        (auto simp: distinct_removeAll)
  qed
qed

lemma uses_extend:
  "\<exists>h'. fold (use_step n) ops h = h' @ h \<and> set h' \<subseteq> op_key ` set ops"
proof (induction ops arbitrary: h)
  case (Cons op ops)
  have "\<exists>h1. use_step n op h = h1 @ h \<and> set h1 \<subseteq> {op_key op}"
  proof (cases "use_step n op h = h")
    case False
    then show ?thesis
      by (cases op; intro exI [of _ "[op_key op]"]) (auto simp: op_key_def split: if_splits)
  qed (intro exI [of _ "[]"], simp)
  then obtain h1 where h1: "use_step n op h = h1 @ h" "set h1 \<subseteq> {op_key op}" by blast
  from Cons [of "use_step n op h"] obtain h2 where
    "fold (use_step n) ops (use_step n op h) = h2 @ use_step n op h" "set h2 \<subseteq> op_key ` set ops"
    by blast
  with h1 show ?case by (intro exI [of _ "h2 @ h1"]) auto
qed simp

lemma recent_key_kept:
  assumes "holds_recent n (k # h) c" "card (op_key ` set ops - {k}) < n"
  shows "fst (ic_contains k (ic_run ops c))"
proof -
  from assms(1) have r: "holds_recent n (fold (use_step n) ops (k # h)) (ic_run ops c)" (is "holds_recent _ ?H _")
    by (rule run_recent)
  from uses_extend [of n ops "k # h"] obtain h' where
    h': "?H = h' @ k # h" "set h' \<subseteq> op_key ` set ops" by blast
  from recents_before [of h' k h] obtain xs ys where
    x: "recents ?H = xs @ k # ys" "distinct xs" "set xs \<subseteq> set h' - {k}"
    unfolding h'(1) by blast
  have "length xs = card (set xs)" using x(2) by (simp add: distinct_card)
  also have "\<dots> \<le> card (op_key ` set ops - {k})"
    using x(3) h'(2) by (intro card_mono) auto
  finally have "length xs < n" using assms(2) by linarith
  then have "k \<in> set (take n (recents ?H))" using x(1) by (cases "n - length xs") auto
  with r show ?thesis by (auto simp: holds_recent_def ic_contains_def)
qed

text \<open>A recorded key is recognised as long as fewer other keys are used than the cache holds.\<close>

theorem idempotency_window:
  assumes "card (op_key ` set ops - {k}) < nat (max 1 cap)"
  shows "fst (ic_contains k (ic_run ops (ic_put k (ic_run before (NewIdempotencyCache cap)))))"
  using recent_key_kept [OF put_recent [OF run_recent [OF new_recent]] assms] .

subsection \<open>Adaptive timeouts resist outliers\<close>

lemma sorted_low:
  assumes "sorted s" "count_where (\<lambda>x. x < lo) s \<le> t" "t \<le> i" "i < length s"
  shows "lo \<le> s ! i"
proof (rule ccontr)
  assume "\<not> lo \<le> s ! i"
  then have "s ! j < lo" if "j < Suc i" for j
    using sorted_nth_mono [OF assms(1), of j i] assms(4) that by auto
  then have "{0..<Suc i} \<subseteq> {j. j < length s \<and> s ! j < lo}"
    using assms(4) by auto
  then have "card {0..<Suc i} \<le> card {j. j < length s \<and> s ! j < lo}"
    by (intro card_mono) auto
  with assms(2,3) show False by (simp add: count_where_def length_filter_conv_card)
qed

lemma sorted_high:
  assumes "sorted s" "count_where (\<lambda>x. hi < x) s \<le> t" "i + t < length s"
  shows "s ! i \<le> hi"
proof (rule ccontr)
  assume "\<not> s ! i \<le> hi"
  then have "hi < s ! j" if "i \<le> j" "j < length s" for j
    using sorted_nth_mono [OF assms(1) that] by auto
  then have "{i..<length s} \<subseteq> {j. j < length s \<and> hi < s ! j}" by auto
  then have "card {i..<length s} \<le> card {j. j < length s \<and> hi < s ! j}"
    by (intro card_mono) auto
  with assms(2,3) show False by (simp add: count_where_def length_filter_conv_card)
qed

definition mostly_in :: "duration \<Rightarrow> duration \<Rightarrow> duration list \<Rightarrow> bool" where
  "mostly_in lo hi xs \<longleftrightarrow> count_where (\<lambda>x. x < lo) xs \<le> length xs div 10
     \<and> count_where (\<lambda>x. hi < x) xs \<le> length xs div 10"

lemma count_where_sort: "count_where p (sort xs) = count_where p xs"
  by (simp add: count_where_def filter_sort)

lemma in_trimmed:
  assumes "x \<in> set (trimmed (length s) s)"
  shows "\<exists>i. x = s ! i \<and> i < length s \<and> length s div 10 \<le> i \<and> i + length s div 10 < length s"
proof (cases "length s div 10 = 0")
  case True
  with assms show ?thesis by (auto simp: trimmed_def in_set_conv_nth)
next
  case False
  then have "2 * (length s div 10) + 2 \<le> length s" by linarith
  with False assms have "x \<in> set (take (length s - length s div 10 - length s div 10) (drop (length s div 10) s))"
    by (simp add: trimmed_def Let_def split: if_splits)
  then obtain j where "j < length s - length s div 10 - length s div 10" "x = s ! (length s div 10 + j)"
    by (auto simp: in_set_conv_nth)
  then show ?thesis by (intro exI [of _ "length s div 10 + j"]) auto
qed

lemma trimmed_nonempty: "s \<noteq> [] \<Longrightarrow> trimmed (length s) s \<noteq> []"
  by (auto simp: trimmed_def Let_def)

lemma length_trimmed_le: "length (trimmed n s) \<le> length s"
  by (simp add: trimmed_def Let_def min.coboundedI1)

lemma trimmed_range:
  assumes "mostly_in lo hi xs" "x \<in> set (trimmed (length xs) (sort xs))"
  shows "lo \<le> x \<and> x \<le> hi"
proof -
  have c: "count_where (\<lambda>x. x < lo) (sort xs) \<le> length xs div 10"
          "count_where (\<lambda>x. hi < x) (sort xs) \<le> length xs div 10"
    using assms(1) by (auto simp: mostly_in_def count_where_sort)
  from in_trimmed [of x "sort xs"] assms(2) obtain i where
    "x = sort xs ! i" "i < length (sort xs)" "length xs div 10 \<le> i" "i + length xs div 10 < length (sort xs)"
    by auto
  then show ?thesis
    using sorted_low [OF sorted_sort c(1)] sorted_high [OF sorted_sort c(2)] by simp
qed

lemma sum64_exact:
  assumes "\<And>x. x \<in> set xs \<Longrightarrow> 0 \<le> x \<and> x \<le> hi" "0 \<le> a" "a + int (length xs) * hi < 2 ^ 63"
  shows "foldl (\<lambda>s v. int64 (s + v)) a xs = a + sum_list xs"
  using assms
proof (induction xs arbitrary: a)
  case (Cons x xs)
  have x: "0 \<le> x" "x \<le> hi" using Cons.prems(1) by auto
  have b: "a + x + int (length xs) * hi < 2 ^ 63"
    using Cons.prems(3) x by (simp add: distrib_right)
  moreover have "0 \<le> int (length xs) * hi" using x by simp
  ultimately have "a + x < 2 ^ 63" by linarith
  then have "int64 (a + x) = a + x" using x Cons.prems(2) by (intro int64_id) auto
  moreover have "foldl (\<lambda>s v. int64 (s + v)) (a + x) xs = a + x + sum_list xs"
    using Cons.prems x b by (intro Cons.IH) auto
  ultimately show ?case by simp
qed simp

lemma sum_list_range:
  fixes xs :: "int list"
  assumes "\<And>x. x \<in> set xs \<Longrightarrow> lo \<le> x \<and> x \<le> hi"
  shows "int (length xs) * lo \<le> sum_list xs \<and> sum_list xs \<le> int (length xs) * hi"
  using assms by (induction xs) (auto simp: distrib_right, fastforce+)

lemma sdiv_nonneg: "0 \<le> a \<Longrightarrow> 0 \<le> b \<Longrightarrow> (a :: int) sdiv b = a div b"
  by (cases "a = 0 \<or> b = 0") (auto simp: signed_divide_int_def sgn_if)

lemma mean_range:
  fixes xs :: "int list"
  assumes "xs \<noteq> []" "\<And>x. x \<in> set xs \<Longrightarrow> lo \<le> x \<and> x \<le> hi" "0 \<le> lo" "int (length xs) * hi < 2 ^ 63"
  shows "lo \<le> sum64 xs sdiv int (length xs) \<and> sum64 xs sdiv int (length xs) \<le> hi"
proof -
  let ?n = "int (length xs)"
  have r: "?n * lo \<le> sum_list xs" "sum_list xs \<le> ?n * hi"
    using sum_list_range [of xs lo hi] assms(2) by auto
  have n: "0 < ?n" using assms(1) by simp
  have "sum64 xs = sum_list xs"
    unfolding sum64_def using sum64_exact [of xs hi 0] assms by force
  moreover have "0 \<le> sum_list xs" using r(1) assms(3) n by (smt (verit) mult_nonneg_nonneg)
  ultimately have "sum64 xs sdiv ?n = sum_list xs div ?n" using n by (simp add: sdiv_nonneg)
  moreover have "lo \<le> sum_list xs div ?n"
    using r(1) n by (metis div_mult_self1_is_m less_imp_le zdiv_mono1 nonzero_mult_div_cancel_left less_irrefl)
  moreover have "sum_list xs div ?n \<le> hi"
    using r(2) n by (metis zdiv_mono1 nonzero_mult_div_cancel_left less_irrefl)
  ultimately show ?thesis by simp
qed

lemma srtt_range:
  assumes "tracker_ok t" "0 < rt_count t" "mostly_in lo hi (valid_samples t)" "0 \<le> lo" "lo \<le> hi"
    and "int (rt_count t) * hi < 2 ^ 63"
  shows "lo \<le> srtt t \<and> srtt t \<le> hi"
proof -
  let ?s = "sort (valid_samples t)"
  have l: "length (valid_samples t) = rt_count t" using assms(1) by (rule length_valid_samples)
  let ?v = "trimmed (rt_count t) ?s"
  have "?s \<noteq> []" using assms(2) l by (metis length_greater_0_conv length_sort)
  then have ne: "?v \<noteq> []" using trimmed_nonempty [of ?s] l by simp
  have "int (length ?v) \<le> int (rt_count t)" using length_trimmed_le [of "rt_count t" ?s] l by simp
  moreover have "0 \<le> hi" using assms(4,5) by simp
  ultimately have "int (length ?v) * hi \<le> int (rt_count t) * hi" by (intro mult_right_mono) auto
  then have b: "int (length ?v) * hi < 2 ^ 63" using assms(6) by linarith
  have "\<And>x. x \<in> set ?v \<Longrightarrow> lo \<le> x \<and> x \<le> hi"
    using trimmed_range [OF assms(3)] l by simp
  from mean_range [OF ne this assms(4) b] assms(2) show ?thesis by (simp add: srtt_def Let_def)
qed

lemma clamp_mono: "a \<le> b \<Longrightarrow> lo \<le> hi \<Longrightarrow> clampDuration a lo hi \<le> clampDuration b lo hi"
  by (simp add: clampDuration_def)

text \<open>The adaptive timeout.\<close>

theorem adaptive_timeout_robust:
  assumes "NewRTTTracker w = Some t0" "0 < w" "rtt.push_all xs t0 = Some t"
    and "ys = keep_last (nat w) xs" "5 \<le> length ys"
    and "mostly_in a b ys" "0 \<le> a" "a \<le> b" "3 * int (length ys) * b < 2 ^ 63"
    and "lo \<le> hi"
  shows "clampDuration (3 * a div 2) lo hi \<le> AdaptiveTimeout dflt lo hi t
    \<and> AdaptiveTimeout dflt lo hi t \<le> clampDuration (3 * b div 2) lo hi"
proof -
  from NewRTTTracker_ok [OF assms(2)] assms(1) have
    t0: "tracker_ok t0" "rt_window t0 = nat w" "valid_samples t0 = []" by auto
  from rtt.push_all_window [OF t0(1), of xs] assms(3,4) t0 have
    t: "tracker_ok t" "valid_samples t = ys" by auto
  then have c: "rt_count t = length ys" using length_valid_samples by metis
  have "5 * b \<le> int (length ys) * b" using assms(5,7,8) by (intro mult_right_mono) auto
  moreover have "3 * (int (length ys) * b) < 2 ^ 63" using assms(9) by (simp add: mult.assoc)
  ultimately have b: "int (length ys) * b < 2 ^ 63" and "15 * b < 2 ^ 63" using assms(7,8) by linarith+
  from this(2) have "b < 2 ^ 61" by simp
  have s: "a \<le> srtt t \<and> srtt t \<le> b"
  proof (rule srtt_range [OF t(1)])
    show "0 < rt_count t" using c assms(5) by linarith
  qed (use t c b assms in simp_all)
  then have "int64 (srtt t * 3) = srtt t * 3" using \<open>b < 2 ^ 61\<close> assms(7) by (intro int64_id) auto
  then have e: "int64 (srtt t * 3) sdiv 2 = srtt t * 3 div 2" using s assms(7) by (simp add: sdiv_nonneg)
  have "3 * a div 2 \<le> srtt t * 3 div 2" "srtt t * 3 div 2 \<le> 3 * b div 2"
    using s by (auto intro!: zdiv_mono1)
  then show ?thesis
    using c assms(5,10) e by (simp add: AdaptiveTimeout_def clamp_mono)
qed

subsection \<open>Responses are resent a bounded number of times\<close>

datatype 'r rq_event =
    REnqueue time 'r
  | RTick "'r rr_entry \<Rightarrow> bool \<times> time" time

text \<open>A run of the queue, with the number of times a queued response was handed to the connection.\<close>

fun rq_run :: "'r rq_event list \<Rightarrow> 'r rr_queue \<Rightarrow> (nat \<times> 'r rr_queue) option" where
  "rq_run [] q = Some (0, q)"
| "rq_run (REnqueue now r # evs) q =
     (case rq_enqueue now r q of None \<Rightarrow> None | Some q' \<Rightarrow> rq_run evs q')"
| "rq_run (RTick out now # evs) q =
     (case response_retry_tick out now q of None \<Rightarrow> None
      | Some q' \<Rightarrow> map_option (map_prod ((+) (length (fst (rq_drain now q)))) id) (rq_run evs q'))"

definition retries_left :: "'r rr_entry list \<Rightarrow> nat" where
  "retries_left es = (\<Sum>e\<leftarrow>es. nat (re_max e - int (re_attempts e)))"

definition live_entry :: "'r rr_entry \<Rightarrow> bool" where
  "live_entry e \<longleftrightarrow> int (re_attempts e) < re_max e"

lemma retries_left_simps [simp]:
  "retries_left [] = 0"
  "retries_left (e # es) = nat (re_max e - int (re_attempts e)) + retries_left es"
  "retries_left (es @ es') = retries_left es + retries_left es'"
  by (simp_all add: retries_left_def)

lemma retries_left_drop: "retries_left (keep_last n es) \<le> retries_left es"
proof -
  have "retries_left es = retries_left (take (length es - n) es) + retries_left (keep_last n es)"
    unfolding keep_last_def by (simp flip: retries_left_simps(3))
  then show ?thesis by simp
qed

lemma rq_append_left:
  assumes "queue_ok q"
  shows "\<exists>q'. rq_append e q = Some q' \<and> queue_ok q' \<and> rq_max_retry q' = rq_max_retry q
    \<and> retries_left (rq_entries q') \<le> retries_left (rq_entries q) + nat (re_max e - int (re_attempts e))"
proof -
  from rq.push_window [OF assms, of e] obtain q' where
    q': "rq_append e q = Some q'" "queue_ok q'"
        "rq_entries q' = keep_last (nat (rq_max_size q)) (rq_entries q @ [e])" by blast
  moreover have "rq_max_retry q' = rq_max_retry q"
    using q'(1) by (auto simp: rq_append_def rq_make_room_def split: if_splits list.splits)
  ultimately show ?thesis
    using retries_left_drop [of "nat (rq_max_size q)" "rq_entries q @ [e]"] by auto
qed

lemma resend_left:
  assumes "queue_ok q" "\<forall>e \<in> set es. live_entry e"
  shows "\<exists>q'. resend out es q = Some q' \<and> queue_ok q' \<and> rq_max_retry q' = rq_max_retry q
    \<and> length es + retries_left (rq_entries q') \<le> retries_left (rq_entries q) + retries_left es"
  using assms
proof (induction es arbitrary: q)
  case (Cons e es)
  have live: "1 \<le> nat (re_max e - int (re_attempts e))"
    using Cons.prems(2) by (auto simp: live_entry_def)
  obtain ok now where o: "out e = (ok, now)" by (cases "out e")
  let ?e = "e\<lparr>re_attempts := re_attempts e + 1\<rparr>"
  show ?case
  proof (cases "\<not> ok \<and> int (re_attempts ?e) < re_max ?e")
    case True
    let ?e' = "?e\<lparr>re_next := now + retry_backoff (re_attempts ?e)\<rparr>"
    from rq_append_left [OF Cons.prems(1), of ?e'] obtain q1 where
      q1: "rq_append ?e' q = Some q1" "queue_ok q1" "rq_max_retry q1 = rq_max_retry q"
          "retries_left (rq_entries q1) \<le> retries_left (rq_entries q) + nat (re_max e - int (re_attempts e) - 1)"
      by (auto simp: algebra_simps)
    from Cons.IH [OF q1(2)] Cons.prems(2) obtain q2 where
      "resend out es q1 = Some q2" "queue_ok q2" "rq_max_retry q2 = rq_max_retry q"
      "length es + retries_left (rq_entries q2) \<le> retries_left (rq_entries q1) + retries_left es"
      using q1(3) by auto
    with True o q1 live show ?thesis by (auto simp: rq_enqueue_backoff_def Let_def)
  next
    case False
    then have "resend out (e # es) q = resend out es q" using o by (auto simp: Let_def split: bool.splits)
    with Cons.IH [OF Cons.prems(1)] Cons.prems(2) live show ?thesis by fastforce
  qed
qed simp

lemma drain_left:
  "retries_left (fst (rq_drain now q)) + retries_left (rq_entries (snd (rq_drain now q))) \<le> retries_left (rq_entries q)"
proof -
  have "retries_left (filter (\<lambda>e. \<not> re_next e > now \<and> \<not> int (re_attempts e) \<ge> re_max e) es)
      + retries_left (filter (\<lambda>e. re_next e > now) es) \<le> retries_left es" for es :: "'a rr_entry list"
    by (induction es) auto
  then show ?thesis by (simp add: rq_drain_def)
qed

lemma tick_left:
  assumes "queue_ok q"
  shows "\<exists>q'. response_retry_tick out now q = Some q' \<and> queue_ok q' \<and> rq_max_retry q' = rq_max_retry q
    \<and> length (fst (rq_drain now q)) + retries_left (rq_entries q') \<le> retries_left (rq_entries q)"
proof -
  let ?es = "fst (rq_drain now q)" and ?q = "snd (rq_drain now q)"
  have "queue_ok ?q"
    using assms by (auto simp: queue_ok_def rq_drain_def intro: order_trans [OF of_nat_mono [OF length_filter_le]])
  moreover have "\<forall>e \<in> set ?es. live_entry e" by (auto simp: rq_drain_def live_entry_def)
  ultimately obtain q' where "resend out ?es ?q = Some q'" "queue_ok q'" "rq_max_retry q' = rq_max_retry ?q"
    "length ?es + retries_left (rq_entries q') \<le> retries_left (rq_entries ?q) + retries_left ?es"
    using resend_left by blast
  with drain_left [of now q] show ?thesis
    by (auto simp: response_retry_tick_def rq_drain_def)
qed

fun is_enqueue :: "'r rq_event \<Rightarrow> bool" where
  "is_enqueue (REnqueue _ _) = True"
| "is_enqueue (RTick _ _) = False"

text \<open>Resends are bounded.\<close>

theorem response_resends_bounded:
  assumes "queue_ok q"
  shows "\<exists>n q'. rq_run evs q = Some (n, q') \<and> queue_ok q'
    \<and> n + retries_left (rq_entries q')
        \<le> retries_left (rq_entries q) + nat (rq_max_retry q) * count_where is_enqueue evs"
  using assms
proof (induction evs arbitrary: q)
  case (Cons ev evs)
  show ?case
  proof (cases ev)
    case (REnqueue now r)
    from rq_append_left [OF Cons.prems] obtain q1 where
      q1: "rq_enqueue now r q = Some q1" "queue_ok q1" "rq_max_retry q1 = rq_max_retry q"
          "retries_left (rq_entries q1) \<le> retries_left (rq_entries q) + nat (rq_max_retry q)"
      unfolding rq_enqueue_def by fastforce
    from Cons.IH [OF q1(2)] q1 REnqueue show ?thesis by fastforce
  next
    case (RTick out now)
    from tick_left [OF Cons.prems] obtain q1 where
      q1: "response_retry_tick out now q = Some q1" "queue_ok q1" "rq_max_retry q1 = rq_max_retry q"
          "length (fst (rq_drain now q)) + retries_left (rq_entries q1) \<le> retries_left (rq_entries q)"
      by blast
    from Cons.IH [OF q1(2)] obtain n q2 where
      "rq_run evs q1 = Some (n, q2)" "queue_ok q2"
      "n + retries_left (rq_entries q2)
         \<le> retries_left (rq_entries q1) + nat (rq_max_retry q1) * count_where is_enqueue evs" by blast
    with q1 RTick show ?thesis by auto
  qed
qed simp

lemma retry_backoff_doubles:
  assumes "attempts \<le> 33"
  shows "retry_backoff attempts = min (16 * second) (second * 2 ^ attempts)"
proof -
  define p :: int where "p = 2 ^ attempts"
  have "p \<le> 2 ^ 33" unfolding p_def using assms by (intro power_increasing) auto
  moreover have "0 < p" by (simp add: p_def)
  ultimately have "int64 p = p" "int64 (second * p) = second * p"
    by (auto intro!: int64_id simp: second_def)
  then show ?thesis by (simp add: retry_backoff_def Let_def min_def flip: p_def)
qed

text \<open>From the 34th attempt on the product wraps around to an instant in the past.\<close>

lemma retry_backoff_wraps: "retry_backoff 34 < 0"
  by (simp add: retry_backoff_def int64_def second_def)

subsection \<open>Backoff and jitter\<close>

lemma backoff_exp_range: "0 \<le> backoff_exp n" "backoff_exp n \<le> 30"
  by (simp_all add: backoff_exp_def Let_def)

lemma backoff_exp_exact: "1 \<le> n \<Longrightarrow> backoff_exp n = min 30 (n - 1)"
  by (simp add: backoff_exp_def Let_def min_def)

lemma backoff_base_exact:
  assumes "0 < base" "base < 2 ^ 33" "0 < mx"
  shows "backoff_base attempt base mx = min mx (base * 2 ^ nat (backoff_exp attempt))"
proof -
  let ?x = "nat (backoff_exp attempt)"
  have "(2::int) ^ ?x \<le> 2 ^ 30" using backoff_exp_range(2) [of attempt] by (intro power_increasing) auto
  then have "base * 2 ^ ?x \<le> (2 ^ 33 - 1) * 2 ^ 30" using assms by (intro mult_mono) auto
  moreover have pos: "0 < base * 2 ^ ?x" using assms(1) by simp
  ultimately have "int64 (base * 2 ^ ?x) = base * 2 ^ ?x" by (intro int64_id) auto
  then show ?thesis using pos by (auto simp: backoff_base_def Let_def min_def)
qed

text \<open>The delay stays within a quarter of the capped exponential.\<close>

theorem backoff_within_jitter:
  assumes "\<And>n. 0 < n \<Longrightarrow> 0 \<le> rnd n \<and> rnd n < n"
    and "1 \<le> attempt" "0 < base" "base < 2 ^ 33" "0 < mx" "mx < 2 ^ 62"
  shows "let d = min mx (base * 2 ^ nat (min 30 (attempt - 1)));
             delay = backoffDelay rnd attempt base mx
         in 0 < delay \<and> d - d div 4 \<le> delay \<and> delay \<le> d + d div 4"
proof -
  define d where "d = min mx (base * 2 ^ nat (min 30 (attempt - 1)))"
  have d: "0 < d" "d < 2 ^ 62" using assms(3,5,6) by (auto simp: d_def)
  have e: "backoffDelay rnd attempt base mx
      = (if d div 2 > 0 then int64 (d + (rnd (d div 2) - d div 4)) else d)"
    using d(1) backoff_base_exact [OF assms(3-5), of attempt] backoff_exp_exact [OF assms(2)]
    by (simp add: backoffDelay_def sdiv_nonneg flip: d_def)
  have "0 < backoffDelay rnd attempt base mx \<and> d - d div 4 \<le> backoffDelay rnd attempt base mx
      \<and> backoffDelay rnd attempt base mx \<le> d + d div 4"
  proof (cases "d div 2 > 0")
    case True
    from assms(1) [OF True] have r: "0 \<le> rnd (d div 2)" "rnd (d div 2) < d div 2" by auto
    then have "int64 (d + (rnd (d div 2) - d div 4)) = d + (rnd (d div 2) - d div 4)"
      using d by (intro int64_id) auto
    then have "backoffDelay rnd attempt base mx = d + (rnd (d div 2) - d div 4)" using e True by simp
    with r d(1) show ?thesis by linarith
  next
    case False
    with d(1) e show ?thesis by simp
  qed
  then show ?thesis by (simp add: Let_def flip: d_def)
qed

text \<open>Beyond that bound the product can wrap around to a delay far below the base.\<close>

lemma backoff_base_wraps: "backoff_base 31 (2 ^ 34 + 1) (30 * second) = 2 ^ 30"
  by (simp add: backoff_base_def backoff_exp_def Let_def int64_def second_def)

end
