(* ===== verification/ClientCallProps.thy ===== *)
theory ClientCallProps
  imports ClientCalls ClientCacheProps
begin

text \<open>
  What calls, retries and replayed requests amount to: which calls are queued again and which are
  lost, that retries multiply while the server cannot be reached, and that a request of the server
  is executed once as long as its key is remembered.
\<close>

subsection \<open>Calls\<close>

text \<open>Updates piggybacked on a response make no difference to the caller or to the client.\<close>

lemma outcome_frame [simp]:
  "finish_log (ev\<lparr>cv_outcome := x\<rparr>) = finish_log ev"
  "initial_log f (ev\<lparr>cv_outcome := x\<rparr>) = initial_log f ev"
  by (intro ext; simp add: finish_log_def initial_log_def)+

lemma piggybacked_updates_ignored:
  assumes "cv_outcome ev = Answered r"
  shows "Call conv_of k (ev\<lparr>cv_outcome := Answered (r\<lparr>cr_updates := us\<rparr>)\<rparr>) m p c = Call conv_of k ev m p c"
  using assms
  by (cases "(case p of None \<Rightarrow> Inr ''{}'' | Some q \<Rightarrow> q) :: string + string"; cases "cr_code r = ResponseCodeOK";
      cases "rtt_record (cv_after ev - cv_start ev) (cl_rtt c)")
    (simp_all add: Call_def await_call_def Let_def)

text \<open>A call ended by its context changes no table, although it asks for a retry and a log entry.\<close>

theorem cancelled_call_is_lost:
  assumes "\<not> cl_closed c" "cv_outcome ev = CtxEnded e" "params = None \<or> params = Some (Inr p)"
  shows "\<exists>c'. Call conv_of k ev method params c = Some (Inl (ClientFailure (NewTimeoutError e)), c')
    \<and> cl_db c' = cl_db c
    \<and> (cv_logs_ok ev \<longrightarrow> list_ex (\<lambda>l. lg_id l = cv_log_id ev) (cl_logs c) \<or>
        (\<exists>l. cl_logs c' = cl_logs c @ [l] \<and> lg_type l = ''request'' \<and> lg_status l = 0))"
proof -
  from assms(3) obtain t where t: "(case params of None \<Rightarrow> Inr ''{}'' | Some p \<Rightarrow> p) = (Inr t :: string + string)"
    by auto
  show ?thesis
    using assms(1,2)
    by (simp add: Call_def t await_call_def enqueue_call_def finish_log_def best_effort_def rl_save_def
        initial_log_def Let_def)
qed

definition fresh_task :: "int \<Rightarrow> call_env \<Rightarrow> string \<Rightarrow> string \<Rightarrow> retry_task" where
  "fresh_task k ev method p = \<lparr>q_id = cv_task_id ev, q_method = method, q_params = p, q_attempt = 0,
     q_max_attempts = (if k = 0 then 5 else k), q_next = cv_after ev, q_status = ''pending'',
     q_last_error = [], q_created = cv_after ev\<rparr>"

lemma refused_call_enqueues:
  assumes "\<not> cl_closed c" "cv_outcome ev = SendRefused e" "cv_queue_ok ev"
    and "cv_task_id ev \<notin> q_id ` set (l_queue (cl_db c))"
  shows "Call conv_of k ev method (Some (Inr p)) c =
    Some (Inl (ClientFailure (NewConnectionError (''send package: '' @ e))),
      c\<lparr>cl_db := (cl_db c)\<lparr>l_queue := l_queue (cl_db c) @ [fresh_task k ev method p]\<rparr>\<rparr>)"
  using assms by (auto simp: Call_def enqueue_call_def best_effort_def retry_enqueue_def lq_save_def
      fresh_task_def list_ex_iff image_iff)

lemma lq_update_present:
  assumes "q_id t \<in> q_id ` set (l_queue d)"
  shows "l_queue (lq_update t d) = update_where (\<lambda>x. q_id x = q_id t) (\<lambda>_. t) (l_queue d)"
  using assms by (auto simp: lq_update_def list_ex_iff)

lemma ids_update_where:
  "q_id ` set (update_where (\<lambda>x. q_id x = q_id t) (\<lambda>_. t) q) = q_id ` set q"
  by (induction q) (auto simp: image_iff)

text \<open>An attempt that cannot be sent leaves its task in the queue and adds another.\<close>

lemma offline_attempt:
  assumes "\<not> cl_closed c" "cv_outcome ev = SendRefused e" "cv_queue_ok ev"
    and "cv_task_id ev \<notin> q_id ` set (l_queue (cl_db c))" "q_id t \<in> q_id ` set (l_queue (cl_db c))"
  shows "\<exists>c'. executeTask ro ev True t c = Some c' \<and> \<not> cl_closed c'
    \<and> length (l_queue (cl_db c')) = Suc (length (l_queue (cl_db c)))
    \<and> q_id ` set (l_queue (cl_db c')) = insert (cv_task_id ev) (q_id ` set (l_queue (cl_db c)))"
proof -
  let ?new = "fresh_task (ro_max_attempts ro) ev (q_method t) (q_params t)"
  let ?c1 = "c\<lparr>cl_db := (cl_db c)\<lparr>l_queue := l_queue (cl_db c) @ [?new]\<rparr>\<rparr>"
  obtain nxt where x: "executeTask ro ev True t c = Some (?c1\<lparr>cl_db := lq_update nxt (cl_db ?c1)\<rparr>)"
    and i: "q_id nxt = q_id t"
    using refused_call_enqueues [OF assms(1-4), of "ro_conv_of ro" "ro_max_attempts ro" "q_method t" "q_params t"]
    by (auto simp: executeTask_def Let_def)
  have "q_id nxt \<in> q_id ` set (l_queue (cl_db ?c1))" using i assms(5) by auto
  from lq_update_present [OF this] x assms(1) show ?thesis
    by (simp add: ids_update_where fresh_task_def insert_commute)
qed

definition offline :: "(nat \<Rightarrow> call_env \<times> bool) \<Rightarrow> bool" where
  "offline envs \<longleftrightarrow> inj (\<lambda>i. cv_task_id (fst (envs i)))
     \<and> (\<forall>i. snd (envs i) \<and> cv_queue_ok (fst (envs i)) \<and> (\<exists>e. cv_outcome (fst (envs i)) = SendRefused e))"

lemma offline_run:
  assumes "offline envs" "\<not> cl_closed c" "q_id ` set ts \<subseteq> q_id ` set (l_queue (cl_db c))"
    and "\<And>j. i \<le> j \<Longrightarrow> cv_task_id (fst (envs j)) \<notin> q_id ` set (l_queue (cl_db c))"
  shows "\<exists>c'. run_tasks ro envs (\<lambda>_. False) i ts c = Some c'
    \<and> length (l_queue (cl_db c')) = length (l_queue (cl_db c)) + length ts"
  using assms(2-)
proof (induction ts arbitrary: i c)
  case (Cons t ts)
  let ?ev = "fst (envs i)"
  obtain e where ev: "cv_outcome ?ev = SendRefused e" "cv_queue_ok ?ev" "snd (envs i)"
    using assms(1) unfolding offline_def by blast
  from offline_attempt [OF Cons.prems(1) ev(1,2), of t ro] Cons.prems(2,3) obtain c1 where
    c1: "executeTask ro ?ev True t c = Some c1" "\<not> cl_closed c1"
        "length (l_queue (cl_db c1)) = Suc (length (l_queue (cl_db c)))"
        "q_id ` set (l_queue (cl_db c1)) = insert (cv_task_id ?ev) (q_id ` set (l_queue (cl_db c)))"
    by auto
  have "\<exists>c'. run_tasks ro envs (\<lambda>_. False) (Suc i) ts c1 = Some c'
      \<and> length (l_queue (cl_db c')) = length (l_queue (cl_db c1)) + length ts"
  proof (rule Cons.IH [OF c1(2)])
    show "q_id ` set ts \<subseteq> q_id ` set (l_queue (cl_db c1))" using Cons.prems(2) c1(4) by auto
    fix j assume j: "Suc i \<le> j"
    then have "cv_task_id (fst (envs j)) \<noteq> cv_task_id ?ev"
      using assms(1) injD [of "\<lambda>i. cv_task_id (fst (envs i))" j i] unfolding offline_def by auto
    with Cons.prems(3) [of j] j c1(4)
    show "cv_task_id (fst (envs j)) \<notin> q_id ` set (l_queue (cl_db c1))" by auto
  qed
  with c1 ev(3) show ?case by auto
qed auto

lemma set_list_pending: "set (lq_list_pending now k d) \<subseteq> set (l_queue d)"
  by (auto simp: lq_list_pending_def select_asc_def Let_def dest: in_set_takeD)

text \<open>Every task that comes due while the connection refuses requests adds one more task.\<close>

theorem offline_retries_multiply:
  assumes "offline envs" "\<not> cl_closed c"
    and "\<And>i. cv_task_id (fst (envs i)) \<notin> q_id ` set (l_queue (cl_db c))"
  shows "\<exists>c'. retry_poll ro envs (\<lambda>_. False) True now c = Some c'
    \<and> length (l_queue (cl_db c'))
        = length (l_queue (cl_db c)) + length (lq_list_pending now 50 (cl_db c))"
proof -
  have "q_id ` set (lq_list_pending now 50 (cl_db c)) \<subseteq> q_id ` set (l_queue (cl_db c))"
    by (intro image_mono set_list_pending)
  from offline_run [OF assms(1,2) this, of 0 ro] assms(3) show ?thesis
    by (simp add: retry_poll_def)
qed

subsection \<open>Requests of the server\<close>

lemma send_or_queue_frame:
  "send_or_queue ok now r s = Some s' \<Longrightarrow> ib_cache s' = ib_cache s \<and> ib_runs s' = ib_runs s \<and> ib_last_seq s' = ib_last_seq s"
  by (auto simp: send_or_queue_def split: if_splits)

text \<open>The operations on the cache that a request causes.\<close>

definition key_ops :: "server_request \<Rightarrow> inbound \<Rightarrow> cache_op list" where
  "key_ops req s =
     (if sq_key req = [] then []
      else if sq_key req \<in> ic_items (ib_cache s) then [CContains (sq_key req)]
      else [CContains (sq_key req), CPut (sq_key req)])"

lemma note_seq_frame [simp]:
  "ib_cache (note_seq q s) = ib_cache s" "ib_runs (note_seq q s) = ib_runs s"
  "ib_queue (note_seq q s) = ib_queue s" "ib_wire (note_seq q s) = ib_wire s"
  by (simp_all add: note_seq_def)

lemma handled_cache:
  assumes "handleIncomingRequest hs valid ok now req s = Some s'"
  shows "ib_cache s' = ic_run (key_ops req s) (ib_cache s)"
  using assms
  by (auto simp: handleIncomingRequest_def Let_def key_ops_def ic_run_def ic_contains_def
      dest!: send_or_queue_frame split: if_splits prod.splits)

lemma key_ops_key: "op_key ` set (key_ops req s) \<subseteq> {sq_key req}"
  by (auto simp: key_ops_def op_key_def)

fun handle_all ::
  "(string \<rightharpoonup> (server_request \<Rightarrow> string + string)) \<Rightarrow> (string \<Rightarrow> bool) \<Rightarrow> (bool \<times> time \<times> server_request) list
     \<Rightarrow> inbound \<Rightarrow> inbound option" where
  "handle_all hs valid [] s = Some s"
| "handle_all hs valid ((ok, now, req) # rs) s =
     (case handleIncomingRequest hs valid ok now req s of
        None \<Rightarrow> None | Some s' \<Rightarrow> handle_all hs valid rs s')"

definition keys_of :: "(bool \<times> time \<times> server_request) list \<Rightarrow> string set" where
  "keys_of rs = (\<lambda>(ok, now, req). sq_key req) ` set rs"

lemma handled_all_cache:
  "handle_all hs valid rs s = Some s' \<Longrightarrow>
    \<exists>ops. ib_cache s' = ic_run ops (ib_cache s) \<and> op_key ` set ops \<subseteq> keys_of rs"
proof (induction rs arbitrary: s)
  case Nil
  then show ?case by (intro exI [of _ "[]"]) (simp add: ic_run_def)
next
  case (Cons x rs)
  obtain ok now req where x: "x = (ok, now, req)" by (cases x) auto
  with Cons.prems obtain s1 where
    s1: "handleIncomingRequest hs valid ok now req s = Some s1" "handle_all hs valid rs s1 = Some s'"
    by (auto split: option.splits)
  from Cons.IH [OF s1(2)] obtain ops where
    ops: "ib_cache s' = ic_run ops (ib_cache s1)" "op_key ` set ops \<subseteq> keys_of rs" by blast
  show ?case
  proof (intro exI conjI)
    show "ib_cache s' = ic_run (key_ops req s @ ops) (ib_cache s)"
      using ops(1) handled_cache [OF s1(1)] by (simp add: ic_run_def)
    show "op_key ` set (key_ops req s @ ops) \<subseteq> keys_of (x # rs)"
      using ops(2) key_ops_key [of req s] x by (auto simp: keys_of_def)
  qed
qed

lemma hit_is_not_executed:
  assumes "fst (ic_contains (sq_key req) (ib_cache s))" "sq_key req \<noteq> []"
    and "handleIncomingRequest hs valid ok now req s = Some s'"
  shows "ib_runs s' = ib_runs s \<and> (ok \<longrightarrow> ib_wire s' = ib_wire s @ [duplicate_response req])"
  using assms
  by (auto simp: handleIncomingRequest_def Let_def send_or_queue_def dest!: send_or_queue_frame
      split: if_splits prod.splits)

lemma key_remembered:
  assumes "sq_key req \<noteq> []" "handleIncomingRequest hs valid ok now req s = Some s'"
    and "holds_recent n h (ib_cache s)"
  shows "\<exists>h'. holds_recent n (sq_key req # h') (ib_cache s')"
proof (cases "sq_key req \<in> ic_items (ib_cache s)")
  case True
  then have "ib_cache s' = move_to_front (sq_key req) (ib_cache s)"
    using handled_cache [OF assms(2)] assms(1) by (simp add: key_ops_def ic_run_def ic_contains_def)
  with move_to_front_recent [OF assms(3) True] show ?thesis by auto
next
  case False
  then have "ib_cache s' = ic_put (sq_key req) (ib_cache s)"
    using handled_cache [OF assms(2)] assms(1) by (simp add: key_ops_def ic_run_def ic_contains_def)
  with put_recent [OF assms(3)] show ?thesis by auto
qed

text \<open>
  A request that arrives again is not executed again, as long as fewer other keys arrived in between
  than the cache holds.
\<close>

theorem replayed_request_not_executed:
  assumes "handle_all hs valid earlier (new_inbound sz q) = Some s0"
    and "handleIncomingRequest hs valid ok1 now1 req s0 = Some s1"
    and "handle_all hs valid between s1 = Some s2"
    and "handleIncomingRequest hs valid ok2 now2 (req\<lparr>sq_id := i, sq_seq := n\<rparr>) s2 = Some s3"
    and "sq_key req \<noteq> []" "card (keys_of between - {sq_key req}) < nat (max 1 sz)"
  shows "ib_runs s3 = ib_runs s2
    \<and> (ok2 \<longrightarrow> ib_wire s3 = ib_wire s2 @ [duplicate_response (req\<lparr>sq_id := i, sq_seq := n\<rparr>)])"
proof -
  let ?n = "nat (max 1 sz)"
  from handled_all_cache [OF assms(1)] obtain ops0 where
    "ib_cache s0 = ic_run ops0 (NewIdempotencyCache sz)" by (auto simp: new_inbound_def)
  then have "holds_recent ?n (fold (use_step ?n) ops0 []) (ib_cache s0)"
    using run_recent [OF new_recent] by simp
  from key_remembered [OF assms(5,2) this] obtain h where
    h: "holds_recent ?n (sq_key req # h) (ib_cache s1)" by blast
  from handled_all_cache [OF assms(3)] obtain ops where
    ops: "ib_cache s2 = ic_run ops (ib_cache s1)" "op_key ` set ops \<subseteq> keys_of between" by blast
  have "finite (keys_of between)" by (simp add: keys_of_def)
  then have "card (op_key ` set ops - {sq_key req}) \<le> card (keys_of between - {sq_key req})"
    using ops(2) by (intro card_mono) auto
  with assms(6) have "card (op_key ` set ops - {sq_key req}) < ?n" by linarith
  from recent_key_kept [OF h this] have "fst (ic_contains (sq_key req) (ib_cache s2))"
    by (simp add: ops(1))
  with hit_is_not_executed [of "req\<lparr>sq_id := i, sq_seq := n\<rparr>" s2] assms(4,5) show ?thesis by simp
qed

text \<open>A request that failed, or whose method is unknown, is reported as a success when it is replayed.\<close>

theorem failed_request_replayed_as_success:
  assumes "sq_key req \<noteq> []" "sq_key req \<notin> ic_items (ib_cache s)" "valid []"
    and "case hs (sq_method req) of None \<Rightarrow> True | Some h \<Rightarrow> h req = Inl e"
  shows "\<exists>s1 s2. handleIncomingRequest hs valid True now1 req s = Some s1
    \<and> handleIncomingRequest hs valid True now2 req s1 = Some s2
    \<and> map cr_code (ib_wire s2) = map cr_code (ib_wire s) @ [ResponseCodeError, ResponseCodeOK]"
  using assms
  by (auto simp: handleIncomingRequest_def Let_def ic_contains_def send_or_queue_def run_handler_def
      ic_put_def duplicate_response_def move_to_front_def split: option.splits if_splits)

end
