(* ===== verification/CallTable.thy ===== *)
theory CallTable
  imports ClientCalls
begin

text \<open>
  The table of pending calls of the client under concurrency (\<^verbatim>\<open>Call\<close>, \<^verbatim>\<open>dispatchResponse\<close>,
  \<^verbatim>\<open>failPendingRPCs\<close> and \<^verbatim>\<open>shutdown\<close> of \<^verbatim>\<open>pkg/client/client.go\<close>).  A call registers a channel with
  room for one response under its identifier, waits, and removes its entry when it returns; the
  reading goroutine, a lost connection and the shutdown take entries out of the table under the
  mutex and send to the channels afterwards.  Each step is one critical section or one channel
  operation; a send is possible only while the channel has room.
\<close>

datatype caller =
    Waiting
  | Leaving "call_response option"
  | Gone "call_response option"

record call_table =
  ct_pending :: "string set"
  ct_sends :: "call_response list"
  ct_chan :: "string \<Rightarrow> call_response list"
  ct_callers :: "string \<rightharpoonup> caller"

definition empty_table :: call_table where
  "empty_table = \<lparr>ct_pending = {}, ct_sends = [], ct_chan = (\<lambda>_. []), ct_callers = (\<lambda>_. None)\<rparr>"

definition channel_capacity :: nat where "channel_capacity = 1"

definition ct_start :: "string \<Rightarrow> call_table \<Rightarrow> call_table" where
  "ct_start i t = t\<lparr>ct_pending := insert i (ct_pending t), ct_chan := (ct_chan t)(i := []),
     ct_callers := (ct_callers t)(i \<mapsto> Waiting)\<rparr>"

definition dispatchResponse :: "call_response \<Rightarrow> call_table \<Rightarrow> call_table" where
  "dispatchResponse r t =
     (if cr_id r \<in> ct_pending t
      then t\<lparr>ct_pending := ct_pending t - {cr_id r}, ct_sends := ct_sends t @ [r]\<rparr> else t)"

definition connection_error_response :: "string \<Rightarrow> string \<Rightarrow> call_response" where
  "connection_error_response msg i =
     \<lparr>cr_id = i, cr_code = ErrorCodeConnectionError, cr_msg = msg, cr_data = [], cr_updates = []\<rparr>"

text \<open>\<open>ids\<close> is the order in which the map is iterated.\<close>

definition failPendingRPCs :: "string list \<Rightarrow> call_table \<Rightarrow> call_table" where
  "failPendingRPCs ids t =
     t\<lparr>ct_pending := {}, ct_sends := ct_sends t @ map (connection_error_response ''connection lost'') ids\<rparr>"

definition fail_at_shutdown :: "string list \<Rightarrow> call_table \<Rightarrow> call_table" where
  "fail_at_shutdown ids t =
     t\<lparr>ct_pending := ct_pending t - set ids,
       ct_sends := ct_sends t @ map (connection_error_response ''client shutting down'') ids\<rparr>"

definition ct_deliver :: "nat \<Rightarrow> call_table \<Rightarrow> call_table" where
  "ct_deliver k t =
     (let r = ct_sends t ! k
      in t\<lparr>ct_sends := take k (ct_sends t) @ drop (Suc k) (ct_sends t),
           ct_chan := (ct_chan t)(cr_id r := ct_chan t (cr_id r) @ [r])\<rparr>)"

definition ct_receive :: "string \<Rightarrow> call_table \<Rightarrow> call_table" where
  "ct_receive i t =
     t\<lparr>ct_chan := (ct_chan t)(i := tl (ct_chan t i)),
       ct_callers := (ct_callers t)(i \<mapsto> Leaving (Some (hd (ct_chan t i))))\<rparr>"

definition ct_give_up :: "string \<Rightarrow> call_table \<Rightarrow> call_table" where
  "ct_give_up i t = t\<lparr>ct_callers := (ct_callers t)(i \<mapsto> Leaving None)\<rparr>"

definition ct_cleanup :: "string \<Rightarrow> call_response option \<Rightarrow> call_table \<Rightarrow> call_table" where
  "ct_cleanup i a t =
     t\<lparr>ct_pending := ct_pending t - {i}, ct_callers := (ct_callers t)(i \<mapsto> Gone a)\<rparr>"

inductive call_step :: "call_table \<Rightarrow> call_table \<Rightarrow> bool" where
  Start: "i \<notin> dom (ct_callers t) \<Longrightarrow> call_step t (ct_start i t)"
| Dispatch: "call_step t (dispatchResponse r t)"
| FailAll: "set ids = ct_pending t \<Longrightarrow> distinct ids \<Longrightarrow> call_step t (failPendingRPCs ids t)"
| Shutdown: "set ids = ct_pending t \<Longrightarrow> distinct ids \<Longrightarrow> call_step t (fail_at_shutdown ids t)"
| Deliver: "k < length (ct_sends t) \<Longrightarrow> length (ct_chan t (cr_id (ct_sends t ! k))) < channel_capacity
    \<Longrightarrow> call_step t (ct_deliver k t)"
| Receive: "ct_callers t i = Some Waiting \<Longrightarrow> ct_chan t i \<noteq> [] \<Longrightarrow> call_step t (ct_receive i t)"
| GiveUp: "ct_callers t i = Some Waiting \<Longrightarrow> call_step t (ct_give_up i t)"
| Cleanup: "ct_callers t i = Some (Leaving a) \<Longrightarrow> call_step t (ct_cleanup i a t)"

inductive reachable_table :: "call_table \<Rightarrow> bool" where
  Init: "reachable_table empty_table"
| Step: "reachable_table t \<Longrightarrow> call_step t t' \<Longrightarrow> reachable_table t'"

subsection \<open>One response per call\<close>

text \<open>How many responses the entry, the senders and the channel of a call can still yield.\<close>

definition yield_count :: "call_table \<Rightarrow> string \<Rightarrow> nat" where
  "yield_count t i = of_bool (i \<in> ct_pending t) + count_where (\<lambda>r. cr_id r = i) (ct_sends t) + length (ct_chan t i)"

fun balanced :: "nat \<Rightarrow> string \<Rightarrow> caller option \<Rightarrow> bool" where
  "balanced n i None = (n = 0)"
| "balanced n i (Some Waiting) = (n = 1)"
| "balanced n i (Some (Leaving a)) = (n \<le> 1 \<and> (case a of None \<Rightarrow> True | Some r \<Rightarrow> n = 0 \<and> cr_id r = i))"
| "balanced n i (Some (Gone a)) = (n \<le> 1 \<and> (case a of None \<Rightarrow> True | Some r \<Rightarrow> n = 0 \<and> cr_id r = i))"

definition table_ok :: "call_table \<Rightarrow> bool" where
  "table_ok t \<longleftrightarrow> (\<forall>i. balanced (yield_count t i) i (ct_callers t i)) \<and> (\<forall>i. \<forall>r \<in> set (ct_chan t i). cr_id r = i)"

lemma count_where_ids [simp]:
  "distinct ids \<Longrightarrow> count_where (\<lambda>r. cr_id r = i) (map (connection_error_response m) ids) = of_bool (i \<in> set ids)"
  by (induction ids) (auto simp: connection_error_response_def)

lemma count_where_remove_nth:
  "k < length xs \<Longrightarrow> count_where p xs = of_bool (p (xs ! k)) + count_where p (take k xs @ drop (Suc k) xs)"
  by (subst id_take_nth_drop [of k xs]) auto

lemma yield_dispatch: "yield_count (dispatchResponse r t) i = yield_count t i"
  by (auto simp: yield_count_def dispatchResponse_def)

lemma yield_fail:
  "set ids = ct_pending t \<Longrightarrow> distinct ids \<Longrightarrow> yield_count (failPendingRPCs ids t) i = yield_count t i"
  by (auto simp: yield_count_def failPendingRPCs_def)

lemma yield_shutdown:
  "set ids = ct_pending t \<Longrightarrow> distinct ids \<Longrightarrow> yield_count (fail_at_shutdown ids t) i = yield_count t i"
  by (auto simp: yield_count_def fail_at_shutdown_def)

lemma yield_deliver:
  "k < length (ct_sends t) \<Longrightarrow> yield_count (ct_deliver k t) i = yield_count t i"
  using count_where_remove_nth [of k "ct_sends t" "\<lambda>r. cr_id r = i"]
  by (auto simp: yield_count_def ct_deliver_def Let_def)

lemma table_ok_empty: "table_ok empty_table"
  by (simp add: table_ok_def empty_table_def yield_count_def)

lemma table_okD: "table_ok t \<Longrightarrow> balanced (yield_count t i) i (ct_callers t i)"
  by (simp add: table_ok_def)

lemma one_caller_ok:
  assumes "table_ok t" "\<And>j. j \<noteq> i \<Longrightarrow> yield_count t' j = yield_count t j"
    and "ct_callers t' = (ct_callers t)(i \<mapsto> c)" "balanced (yield_count t' i) i (Some c)"
    and "\<And>j r. r \<in> set (ct_chan t' j) \<Longrightarrow> cr_id r = j"
  shows "table_ok t'"
  using assms by (auto simp: table_ok_def)

lemma balanced_gone:
  "balanced n i (Some (Leaving a)) \<Longrightarrow> m \<le> n \<Longrightarrow> balanced m i (Some (Gone a))"
  by (cases a) auto

lemma table_ok_step:
  assumes "call_step t t'" "table_ok t"
  shows "table_ok t'"
  using assms
proof (cases rule: call_step.cases)
  case (Start i)
  from table_okD [OF assms(2), of i] Start have "yield_count t i = 0" by (simp add: domIff)
  then have "yield_count t' i = 1" and "\<And>j. j \<noteq> i \<Longrightarrow> yield_count t' j = yield_count t j"
    using Start by (auto simp: yield_count_def ct_start_def)
  then show ?thesis using assms(2) Start by (auto simp: table_ok_def ct_start_def)
next
  case (Dispatch r)
  have "ct_callers t' = ct_callers t \<and> ct_chan t' = ct_chan t"
    unfolding Dispatch by (simp add: dispatchResponse_def)
  with assms(2) show ?thesis unfolding Dispatch by (simp add: table_ok_def yield_dispatch)
next
  case (FailAll ids)
  have "ct_callers t' = ct_callers t \<and> ct_chan t' = ct_chan t"
    unfolding FailAll(1) by (simp add: failPendingRPCs_def)
  with assms(2) FailAll show ?thesis by (simp add: table_ok_def yield_fail)
next
  case (Shutdown ids)
  have "ct_callers t' = ct_callers t \<and> ct_chan t' = ct_chan t"
    unfolding Shutdown(1) by (simp add: fail_at_shutdown_def)
  with assms(2) Shutdown show ?thesis by (simp add: table_ok_def yield_shutdown)
next
  case (Deliver k)
  have "ct_callers t' = ct_callers t" unfolding Deliver(1) by (simp add: ct_deliver_def Let_def)
  moreover have "\<forall>i. \<forall>r \<in> set (ct_chan t' i). cr_id r = i"
    using assms(2) unfolding Deliver(1) by (auto simp: ct_deliver_def Let_def table_ok_def)
  ultimately show ?thesis using assms(2) Deliver by (simp add: table_ok_def yield_deliver)
next
  case (Receive i)
  from Receive have "yield_count t' i = yield_count t i - 1" "\<And>j. j \<noteq> i \<Longrightarrow> yield_count t' j = yield_count t j"
    by (cases "ct_chan t i"; auto simp: yield_count_def ct_receive_def)+
  moreover from table_okD [OF assms(2), of i] Receive have "yield_count t i = 1" by simp
  moreover from Receive assms(2) have "cr_id (hd (ct_chan t i)) = i" by (simp add: table_ok_def)
  ultimately show ?thesis
    using assms(2) Receive by (auto simp: table_ok_def ct_receive_def dest: list.set_sel(2) [rotated])
next
  case (GiveUp i)
  have "yield_count t' = yield_count t" using GiveUp by (auto simp: yield_count_def ct_give_up_def)
  then show ?thesis using assms(2) GiveUp table_okD [OF assms(2), of i]
    by (auto simp: table_ok_def ct_give_up_def)
next
  case (Cleanup i a)
  have le: "yield_count t' i \<le> yield_count t i" and eq: "\<And>j. j \<noteq> i \<Longrightarrow> yield_count t' j = yield_count t j"
    unfolding Cleanup(1) by (auto simp: yield_count_def ct_cleanup_def)
  show ?thesis
  proof (rule one_caller_ok [OF assms(2) eq])
    show "balanced (yield_count t' i) i (Some (Gone a))"
      using table_okD [OF assms(2), of i] unfolding Cleanup(2) by (rule balanced_gone [OF _ le])
  qed (use assms(2) in \<open>auto simp: Cleanup(1) ct_cleanup_def table_ok_def\<close>)
qed

lemma reachable_table_ok: "reachable_table t \<Longrightarrow> table_ok t"
  by (induction rule: reachable_table.induct) (auto intro: table_ok_empty table_ok_step)

text \<open>
  A sender never blocks, a waiting call has exactly one source of a response left, and a call
  that got a response got the one with its own identifier.
\<close>

theorem calls_are_answered_once:
  assumes "reachable_table t"
  shows "(\<forall>r \<in> set (ct_sends t). length (ct_chan t (cr_id r)) < channel_capacity)
    \<and> (\<forall>i. ct_callers t i = Some Waiting \<longrightarrow> yield_count t i = 1)
    \<and> (\<forall>i r. ct_callers t i = Some (Leaving (Some r)) \<or> ct_callers t i = Some (Gone (Some r)) \<longrightarrow> cr_id r = i)"
proof -
  note ok = table_okD [OF reachable_table_ok [OF assms]]
  have le: "yield_count t i \<le> 1" for i
    using ok [of i] by (cases "ct_callers t i" rule: option.exhaust; cases "the (ct_callers t i)") auto
  have "length (ct_chan t (cr_id r)) < channel_capacity" if "r \<in> set (ct_sends t)" for r
  proof -
    from that have "0 < count_where (\<lambda>x. cr_id x = cr_id r) (ct_sends t)"
      by (auto simp: count_where_def filter_empty_conv)
    with le [of "cr_id r"] show ?thesis
      unfolding yield_count_def channel_capacity_def by linarith
  qed
  moreover have "yield_count t i = 1" if "ct_callers t i = Some Waiting" for i
    using ok [of i] that by simp
  moreover have "cr_id r = i" if "ct_callers t i = Some (Leaving (Some r)) \<or> ct_callers t i = Some (Gone (Some r))" for i r
    using ok [of i] that by auto
  ultimately show ?thesis by blast
qed

end
