(* ===== verification/ClientConn.thy ===== *)
theory ClientConn
  imports CallTable
begin

text \<open>
  The client's connection (\<^verbatim>\<open>connectionManager\<close> of \<^verbatim>\<open>pkg/client/connection.go\<close>) and the monitor that
  keeps it alive (\<^verbatim>\<open>connectionMonitorWithInitialConnect\<close> of \<^verbatim>\<open>client.go\<close>).  A session is one WebSocket
  connection with its two pumps; sessions are numbered in the order in which they are made.
  Sockets, timers and scheduling are the choice of the next step: which frame arrives, whether
  dialling succeeds, when a pump ends.
\<close>

subsection \<open>The connection manager\<close>

definition defaultSendBufSize :: nat where "defaultSendBufSize = 256"

record conn_mgr =
  cm_session :: "nat option"
  cm_sent :: "string list"
  cm_connected :: bool
  cm_closing :: bool
  cm_replaced :: bool
  cm_attempt :: int
  cm_reader :: "nat \<Rightarrow> bool"
  cm_writer :: "nat \<Rightarrow> bool"
  cm_lost :: "nat set"

definition newConnectionManager :: conn_mgr where
  "newConnectionManager = \<lparr>cm_session = None, cm_sent = [], cm_connected = False, cm_closing = False,
     cm_replaced = False, cm_attempt = 0, cm_reader = (\<lambda>_. False), cm_writer = (\<lambda>_. False), cm_lost = {}\<rparr>"

text \<open>\<^verbatim>\<open>Connect\<close> after the dial has succeeded; \<open>n\<close> is the number of the new session.\<close>

definition cm_connect :: "nat \<Rightarrow> conn_mgr \<Rightarrow> conn_mgr" where
  "cm_connect n cm = cm\<lparr>cm_session := Some n, cm_sent := [], cm_connected := True, cm_closing := False,
     cm_replaced := False, cm_attempt := 0, cm_reader := (cm_reader cm)(n := True),
     cm_writer := (cm_writer cm)(n := True)\<rparr>"

definition SendPackage :: "string \<Rightarrow> conn_mgr \<Rightarrow> client_error option \<times> conn_mgr" where
  "SendPackage pkg cm =
     (if cm_closing cm \<or> \<not> cm_connected cm \<or> cm_session cm = None
        then (Some (NewConnectionError ''not connected''), cm)
      else if length (cm_sent cm) < defaultSendBufSize then (None, cm\<lparr>cm_sent := cm_sent cm @ [pkg]\<rparr>)
      else (Some (NewConnectionError ''send buffer full''), cm))"

definition reconnect_refused :: "int \<Rightarrow> conn_mgr \<Rightarrow> bool" where
  "reconnect_refused max_retries cm \<longleftrightarrow> max_retries > 0 \<and> cm_attempt cm \<ge> max_retries"

definition reconnect_attempt :: "conn_mgr \<Rightarrow> conn_mgr" where
  "reconnect_attempt cm = cm\<lparr>cm_attempt := cm_attempt cm + 1\<rparr>"

text \<open>Whether the pumps of the previous session have ended, for which \<^verbatim>\<open>Reconnect\<close> waits.\<close>

definition pumps_done :: "conn_mgr \<Rightarrow> bool" where
  "pumps_done cm \<longleftrightarrow> (case cm_session cm of None \<Rightarrow> True | Some n \<Rightarrow> \<not> cm_reader cm n \<and> \<not> cm_writer cm n)"

definition cm_close :: "conn_mgr \<Rightarrow> conn_mgr" where
  "cm_close cm = (if cm_closing cm then cm else cm\<lparr>cm_closing := True\<rparr>)"

text \<open>
  \<^verbatim>\<open>readPump\<close> ends when reading fails: with the close frame 4001 the connection was replaced.  The
  deferred \<^verbatim>\<open>handleDisconnect\<close> closes the channel of its own session unless the manager is closing.
\<close>

definition note_close_code :: "int option \<Rightarrow> conn_mgr \<Rightarrow> conn_mgr" where
  "note_close_code code cm = (if code = Some 4001 then cm\<lparr>cm_replaced := True\<rparr> else cm)"

definition handleDisconnect :: "nat \<Rightarrow> conn_mgr \<Rightarrow> conn_mgr" where
  "handleDisconnect n cm =
     (let was_connected = cm_connected cm;
          cm1 = cm\<lparr>cm_connected := False, cm_reader := (cm_reader cm)(n := False)\<rparr>
      in if was_connected \<and> \<not> cm_closing cm1 then cm1\<lparr>cm_lost := insert n (cm_lost cm1)\<rparr> else cm1)"

definition Disconnected :: "conn_mgr \<Rightarrow> bool" where
  "Disconnected cm \<longleftrightarrow> (case cm_session cm of None \<Rightarrow> False | Some n \<Rightarrow> n \<in> cm_lost cm)"

subsection \<open>The reading goroutine\<close>

text \<open>What a message of the socket decodes to.\<close>

datatype frame =
    FUndecodable
  | FResponse call_response
  | FUpdates "data_update list"
  | FRequest server_request
  | FOtherType

text \<open>
  A frame is handled to its end before the next one is read.  Applying updates and running a
  request handler happen in this goroutine; while an application of updates waits for a call of
  its own, the goroutine is in the phase \<open>Nested\<close>.
\<close>

datatype reader = Reading | Handling frame | Nested string frame | Exited

subsection \<open>The monitor\<close>

datatype monitor = Dialling | Watching | Reconnecting | Backoff | Stopped

record client_life =
  lf_cm :: conn_mgr
  lf_monitor :: monitor
  lf_cancelled :: bool
  lf_sessions :: nat
  lf_reader :: reader
  lf_table :: call_table

definition replaced_exit :: "client_life \<Rightarrow> client_life" where
  "replaced_exit l = l\<lparr>lf_cancelled := True, lf_monitor := Stopped\<rparr>"

definition new_session :: "client_life \<Rightarrow> client_life" where
  "new_session l = l\<lparr>lf_cm := cm_connect (lf_sessions l) (lf_cm l), lf_sessions := Suc (lf_sessions l),
     lf_monitor := Watching, lf_reader := Reading\<rparr>"

definition reader_exit :: "int option \<Rightarrow> client_life \<Rightarrow> client_life" where
  "reader_exit code l =
     (case cm_session (lf_cm l) of
        None \<Rightarrow> l
      | Some n \<Rightarrow>
          let cm = handleDisconnect n (note_close_code code (lf_cm l))
          in l\<lparr>lf_cm := cm, lf_reader := Exited,
               lf_cancelled := (lf_cancelled l \<or> (n \<in> cm_lost cm \<and> cm_replaced cm))\<rparr>)"

inductive life_step :: "int \<Rightarrow> client_life \<Rightarrow> client_life \<Rightarrow> bool" for max_retries where
  Connected: "lf_monitor l = Dialling \<Longrightarrow> \<not> lf_cancelled l \<Longrightarrow> life_step max_retries l (new_session l)"
| DiallingStops: "lf_monitor l = Dialling \<Longrightarrow> lf_cancelled l
    \<Longrightarrow> life_step max_retries l (l\<lparr>lf_monitor := Stopped\<rparr>)"
| WatchStops: "lf_monitor l = Watching \<Longrightarrow> lf_cancelled l
    \<Longrightarrow> life_step max_retries l (l\<lparr>lf_monitor := Stopped\<rparr>)"
| Replaced: "lf_monitor l = Watching \<Longrightarrow> Disconnected (lf_cm l) \<Longrightarrow> cm_replaced (lf_cm l)
    \<Longrightarrow> life_step max_retries l (replaced_exit l)"
| Lost: "lf_monitor l = Watching \<Longrightarrow> Disconnected (lf_cm l) \<Longrightarrow> \<not> cm_replaced (lf_cm l)
    \<Longrightarrow> set ids = ct_pending (lf_table l) \<Longrightarrow> distinct ids
    \<Longrightarrow> life_step max_retries l (l\<lparr>lf_monitor := Reconnecting, lf_table := failPendingRPCs ids (lf_table l)\<rparr>)"
| ReconnectStops: "lf_monitor l = Reconnecting \<Longrightarrow> lf_cancelled l
    \<Longrightarrow> life_step max_retries l (l\<lparr>lf_monitor := Stopped\<rparr>)"
| ReconnectRefused: "lf_monitor l = Reconnecting \<Longrightarrow> \<not> lf_cancelled l \<Longrightarrow> reconnect_refused max_retries (lf_cm l)
    \<Longrightarrow> life_step max_retries l l"
| ReconnectWaits: "lf_monitor l = Reconnecting \<Longrightarrow> \<not> lf_cancelled l \<Longrightarrow> \<not> reconnect_refused max_retries (lf_cm l)
    \<Longrightarrow> life_step max_retries l (l\<lparr>lf_monitor := Backoff, lf_cm := reconnect_attempt (lf_cm l)\<rparr>)"
| Reconnected: "lf_monitor l = Backoff \<Longrightarrow> pumps_done (lf_cm l) \<Longrightarrow> \<not> lf_cancelled l
    \<Longrightarrow> life_step max_retries l (new_session l)"
| ReconnectFailed: "lf_monitor l = Backoff \<Longrightarrow> pumps_done (lf_cm l)
    \<Longrightarrow> life_step max_retries l (l\<lparr>lf_monitor := Reconnecting\<rparr>)"
| Cancel: "life_step max_retries l (l\<lparr>lf_cancelled := True\<rparr>)"
| Close: "life_step max_retries l (l\<lparr>lf_cm := cm_close (lf_cm l), lf_cancelled := True\<rparr>)"
| ReadFrame: "lf_reader l = Reading \<Longrightarrow> life_step max_retries l (l\<lparr>lf_reader := Handling f\<rparr>)"
| ReadFails: "lf_reader l = Reading \<Longrightarrow> life_step max_retries l (reader_exit code l)"
| WriterEnds: "cm_session (lf_cm l) = Some n
    \<Longrightarrow> life_step max_retries l (l\<lparr>lf_cm := (lf_cm l)\<lparr>cm_writer := (cm_writer (lf_cm l))(n := False)\<rparr>\<rparr>)"
| HandleResponse: "lf_reader l = Handling (FResponse r)
    \<Longrightarrow> life_step max_retries l (l\<lparr>lf_reader := Reading, lf_table := dispatchResponse r (lf_table l)\<rparr>)"
| HandleOther: "lf_reader l = Handling f \<Longrightarrow> \<forall>r. f \<noteq> FResponse r
    \<Longrightarrow> life_step max_retries l (l\<lparr>lf_reader := Reading\<rparr>)"
| NestedCall: "lf_reader l = Handling (FUpdates us) \<Longrightarrow> i \<notin> dom (ct_callers (lf_table l))
    \<Longrightarrow> life_step max_retries l (l\<lparr>lf_reader := Nested i (FUpdates us), lf_table := ct_start i (lf_table l)\<rparr>)"
| NestedReturns: "lf_reader l = Nested i f \<Longrightarrow> ct_callers (lf_table l) i = Some (Gone a)
    \<Longrightarrow> life_step max_retries l (l\<lparr>lf_reader := Handling f\<rparr>)"
| StartCall: "i \<notin> dom (ct_callers (lf_table l)) \<Longrightarrow> life_step max_retries l (l\<lparr>lf_table := ct_start i (lf_table l)\<rparr>)"
| DeliverResponse: "k < length (ct_sends (lf_table l))
    \<Longrightarrow> length (ct_chan (lf_table l) (cr_id (ct_sends (lf_table l) ! k))) < channel_capacity
    \<Longrightarrow> life_step max_retries l (l\<lparr>lf_table := ct_deliver k (lf_table l)\<rparr>)"
| ReceiveResponse: "ct_callers (lf_table l) i = Some Waiting \<Longrightarrow> ct_chan (lf_table l) i \<noteq> []
    \<Longrightarrow> life_step max_retries l (l\<lparr>lf_table := ct_receive i (lf_table l)\<rparr>)"
| CallGivesUp: "ct_callers (lf_table l) i = Some Waiting
    \<Longrightarrow> life_step max_retries l (l\<lparr>lf_table := ct_give_up i (lf_table l)\<rparr>)"
| CallReturns: "ct_callers (lf_table l) i = Some (Leaving a)
    \<Longrightarrow> life_step max_retries l (l\<lparr>lf_table := ct_cleanup i a (lf_table l)\<rparr>)"
| ShutdownFails: "lf_cancelled l \<Longrightarrow> set ids = ct_pending (lf_table l) \<Longrightarrow> distinct ids
    \<Longrightarrow> life_step max_retries l (l\<lparr>lf_table := fail_at_shutdown ids (lf_table l)\<rparr>)"

definition life_init :: client_life where
  "life_init = \<lparr>lf_cm = newConnectionManager, lf_monitor = Dialling, lf_cancelled = False,
     lf_sessions = 0, lf_reader = Exited, lf_table = empty_table\<rparr>"

inductive life :: "int \<Rightarrow> client_life \<Rightarrow> bool" for max_retries where
  Begin: "life max_retries life_init"
| Continue: "life max_retries l \<Longrightarrow> life_step max_retries l l' \<Longrightarrow> life max_retries l'"

subsection \<open>One session at a time\<close>

definition session_ok :: "client_life \<Rightarrow> bool" where
  "session_ok l \<longleftrightarrow>
     cm_session (lf_cm l) = None \<and> lf_sessions l = 0 \<and> lf_monitor l \<in> {Dialling, Stopped} \<and> lf_reader l = Exited
       \<and> \<not> cm_connected (lf_cm l) \<and> \<not> cm_replaced (lf_cm l)
       \<and> (\<forall>m. \<not> cm_reader (lf_cm l) m \<and> \<not> cm_writer (lf_cm l) m) \<and> cm_lost (lf_cm l) = {}
   \<or> (\<exists>n. cm_session (lf_cm l) = Some n \<and> lf_sessions l = Suc n \<and> lf_monitor l \<noteq> Dialling
       \<and> (cm_connected (lf_cm l) \<longleftrightarrow> lf_reader l \<noteq> Exited) \<and> (cm_reader (lf_cm l) n \<longleftrightarrow> lf_reader l \<noteq> Exited)
       \<and> (\<forall>m. m \<noteq> n \<longrightarrow> \<not> cm_reader (lf_cm l) m \<and> \<not> cm_writer (lf_cm l) m)
       \<and> (\<forall>m \<in> cm_lost (lf_cm l). m \<le> n) \<and> (n \<in> cm_lost (lf_cm l) \<longrightarrow> lf_reader l = Exited)
       \<and> (lf_monitor l \<in> {Reconnecting, Backoff} \<longrightarrow> lf_reader l = Exited \<and> \<not> cm_replaced (lf_cm l)))"

lemma session_ok_frame [simp]:
  "session_ok (l\<lparr>lf_table := t\<rparr>) = session_ok l"
  "session_ok (l\<lparr>lf_cancelled := b\<rparr>) = session_ok l"
  by (simp_all add: session_ok_def)

lemma session_ok_stopped: "session_ok l \<Longrightarrow> session_ok (l\<lparr>lf_monitor := Stopped\<rparr>)"
  by (auto simp: session_ok_def)

lemma session_ok_reader:
  "session_ok l \<Longrightarrow> lf_reader l \<noteq> Exited \<Longrightarrow> r \<noteq> Exited \<Longrightarrow> session_ok (l\<lparr>lf_reader := r\<rparr>)"
  by (auto simp: session_ok_def)

lemma pumps_off:
  "session_ok l \<Longrightarrow> pumps_done (lf_cm l) \<Longrightarrow> \<not> cm_reader (lf_cm l) m \<and> \<not> cm_writer (lf_cm l) m"
  by (cases "cm_session (lf_cm l) = Some m") (auto simp: session_ok_def pumps_done_def)

lemma lost_below: "session_ok l \<Longrightarrow> m \<in> cm_lost (lf_cm l) \<Longrightarrow> m < lf_sessions l"
  by (auto simp: session_ok_def)

lemma session_ok_new:
  assumes "session_ok l" "pumps_done (lf_cm l)"
  shows "session_ok (new_session l)"
  using pumps_off [OF assms] lost_below [OF assms(1)]
  by (auto simp: session_ok_def new_session_def cm_connect_def less_imp_le)

lemma note_close_code_fields [simp]:
  "cm_session (note_close_code c cm) = cm_session cm" "cm_connected (note_close_code c cm) = cm_connected cm"
  "cm_closing (note_close_code c cm) = cm_closing cm" "cm_reader (note_close_code c cm) = cm_reader cm"
  "cm_writer (note_close_code c cm) = cm_writer cm" "cm_lost (note_close_code c cm) = cm_lost cm"
  "cm_replaced (note_close_code c cm) = (cm_replaced cm \<or> c = Some 4001)"
  by (simp_all add: note_close_code_def)

lemma handleDisconnect_fields [simp]:
  "cm_session (handleDisconnect n cm) = cm_session cm" "\<not> cm_connected (handleDisconnect n cm)"
  "cm_reader (handleDisconnect n cm) = (cm_reader cm)(n := False)"
  "cm_writer (handleDisconnect n cm) = cm_writer cm" "cm_replaced (handleDisconnect n cm) = cm_replaced cm"
  "cm_lost (handleDisconnect n cm) = (if cm_connected cm \<and> \<not> cm_closing cm then insert n (cm_lost cm) else cm_lost cm)"
  by (simp_all add: handleDisconnect_def Let_def)

lemma session_ok_exit: "session_ok l \<Longrightarrow> lf_reader l \<noteq> Exited \<Longrightarrow> session_ok (reader_exit code l)"
  by (auto simp: session_ok_def Let_def reader_exit_def split: if_splits)

lemma session_ok_monitor:
  "session_ok l \<Longrightarrow> lf_monitor l \<noteq> Dialling \<Longrightarrow> lf_reader l = Exited \<Longrightarrow> \<not> cm_replaced (lf_cm l)
    \<Longrightarrow> m \<in> {Reconnecting, Backoff} \<Longrightarrow> cm_session (lf_cm l) \<noteq> None \<Longrightarrow> session_ok (l\<lparr>lf_monitor := m\<rparr>)"
  by (auto simp: session_ok_def)

lemma session_ok_dialling: "session_ok l \<Longrightarrow> lf_monitor l = Dialling \<Longrightarrow> pumps_done (lf_cm l)"
  by (auto simp: session_ok_def pumps_done_def)

lemma session_ok_reconnecting:
  "session_ok l \<Longrightarrow> lf_monitor l \<in> {Reconnecting, Backoff}
    \<Longrightarrow> lf_reader l = Exited \<and> \<not> cm_replaced (lf_cm l) \<and> cm_session (lf_cm l) \<noteq> None"
  by (auto simp: session_ok_def)

lemma session_ok_attempt [simp]: "session_ok (l\<lparr>lf_cm := reconnect_attempt (lf_cm l)\<rparr>) = session_ok l"
  by (simp add: session_ok_def reconnect_attempt_def)

lemma session_ok_lost:
  "session_ok l \<Longrightarrow> Disconnected (lf_cm l) \<Longrightarrow> lf_reader l = Exited \<and> cm_session (lf_cm l) \<noteq> None"
  by (auto simp: session_ok_def Disconnected_def)

lemma session_ok_close: "session_ok l \<Longrightarrow> session_ok (l\<lparr>lf_cm := cm_close (lf_cm l)\<rparr>)"
  by (auto simp: session_ok_def cm_close_def)

lemma session_ok_writer:
  "session_ok l \<Longrightarrow> session_ok (l\<lparr>lf_cm := (lf_cm l)\<lparr>cm_writer := (cm_writer (lf_cm l))(n := False)\<rparr>\<rparr>)"
  by (auto simp: session_ok_def)

lemma session_ok_step:
  assumes "life_step mr l l'" "session_ok l"
  shows "session_ok l'"
  using assms
proof (cases rule: life_step.cases)
  case Connected
  with assms(2) show ?thesis by (auto intro: session_ok_new session_ok_dialling)
next
  case (Lost ids)
  then show ?thesis
    using session_ok_lost [OF assms(2)] session_ok_monitor [OF assms(2), of Reconnecting] by simp
next
  case ReconnectWaits
  then have "session_ok (l\<lparr>lf_monitor := Backoff\<rparr>)"
    using session_ok_reconnecting [OF assms(2)] session_ok_monitor [OF assms(2), of Backoff] by simp
  then show ?thesis
    using session_ok_attempt [of "l\<lparr>lf_monitor := Backoff\<rparr>"] ReconnectWaits by simp
next
  case ReconnectFailed
  then show ?thesis
    using session_ok_reconnecting [OF assms(2)] session_ok_monitor [OF assms(2), of Reconnecting] by simp
next
  case Replaced
  have "replaced_exit l = l\<lparr>lf_monitor := Stopped\<rparr>\<lparr>lf_cancelled := True\<rparr>" by (simp add: replaced_exit_def)
  with Replaced assms(2) show ?thesis by (simp only: session_ok_frame session_ok_stopped)
next
  case (HandleResponse r)
  then show ?thesis using session_ok_reader [OF assms(2), of Reading] by simp
next
  case (NestedCall us i)
  then show ?thesis using session_ok_reader [OF assms(2), of "Nested i (FUpdates us)"] by simp
next
  case Close
  then show ?thesis using session_ok_close [OF assms(2)] by simp
qed (use assms(2) in \<open>simp_all add: session_ok_new session_ok_stopped session_ok_reader session_ok_exit session_ok_writer\<close>)

lemma life_session_ok: "life mr l \<Longrightarrow> session_ok l"
proof (induction rule: life.induct)
  case Begin
  show ?case by (simp add: session_ok_def life_init_def newConnectionManager_def)
qed (rule session_ok_step)

lemma live_pump_current:
  "session_ok l \<Longrightarrow> cm_reader (lf_cm l) m \<or> cm_writer (lf_cm l) m \<Longrightarrow> cm_session (lf_cm l) = Some m"
  by (cases "cm_session (lf_cm l) = Some m") (auto simp: session_ok_def)

lemma connected_is_read:
  "session_ok l \<Longrightarrow> cm_connected (lf_cm l) \<longleftrightarrow> (\<exists>n. cm_session (lf_cm l) = Some n \<and> cm_reader (lf_cm l) n)"
  by (auto simp: session_ok_def)

text \<open>
  At most one session has a pump that runs, and the flag that requests consult says whether the
  current one is being read.
\<close>

theorem one_live_session:
  assumes "life max_retries l"
  shows "(\<forall>m n. (cm_reader (lf_cm l) m \<or> cm_writer (lf_cm l) m) \<and> (cm_reader (lf_cm l) n \<or> cm_writer (lf_cm l) n) \<longrightarrow> m = n)
    \<and> (cm_connected (lf_cm l) \<longleftrightarrow> (\<exists>n. cm_session (lf_cm l) = Some n \<and> cm_reader (lf_cm l) n))"
  using live_pump_current [OF life_session_ok [OF assms]] connected_is_read [OF life_session_ok [OF assms]]
  by (metis option.inject)

subsection \<open>When the monitor gives up\<close>

definition given_up :: "int \<Rightarrow> client_life \<Rightarrow> bool" where
  "given_up mr l \<longleftrightarrow> lf_monitor l = Stopped
     \<or> cm_replaced (lf_cm l) \<and> lf_monitor l = Watching
     \<or> lf_monitor l = Reconnecting \<and> reconnect_refused mr (lf_cm l)"

lemma reader_exit_fields [simp]:
  "lf_monitor (reader_exit code l) = lf_monitor l" "lf_sessions (reader_exit code l) = lf_sessions l"
  "cm_attempt (lf_cm (reader_exit code l)) = cm_attempt (lf_cm l)"
  "cm_replaced (lf_cm l) \<Longrightarrow> cm_replaced (lf_cm (reader_exit code l))"
  "lf_table (reader_exit code l) = lf_table l"
  by (auto simp: reader_exit_def Let_def handleDisconnect_def note_close_code_def split: option.splits)

lemma given_up_step:
  assumes "life_step mr l l'" "given_up mr l"
  shows "given_up mr l' \<and> lf_sessions l' = lf_sessions l"
  using assms
  by (cases rule: life_step.cases)
    (auto simp: given_up_def replaced_exit_def cm_close_def reconnect_refused_def)

lemma given_up_for_good:
  assumes "(life_step mr)\<^sup>*\<^sup>* l l'" "given_up mr l"
  shows "given_up mr l' \<and> lf_sessions l' = lf_sessions l"
  using assms by (induction rule: rtranclp_induct) (auto dest: given_up_step)

text \<open>Once the server has closed the connection as replaced, the client never opens another.\<close>

theorem replaced_client_stays_away:
  assumes "life mr l" "cm_replaced (lf_cm l)" "(life_step mr)\<^sup>*\<^sup>* l l'"
  shows "lf_sessions l' = lf_sessions l"
proof -
  from life_session_ok [OF assms(1)] assms(2) have "given_up mr l \<or> lf_monitor l = Stopped"
    by (cases "lf_monitor l") (auto simp: session_ok_def given_up_def)
  then have "given_up mr l" by (auto simp: given_up_def)
  from given_up_for_good [OF assms(3) this] show ?thesis by simp
qed

text \<open>
  A limit on the reconnection attempts takes effect, though it is documented not to: once it is
  reached no session is ever opened again, while the monitor spins without a pause.
\<close>

theorem retry_limit_disconnects_for_good:
  assumes "lf_monitor l = Reconnecting" "0 < mr" "mr \<le> cm_attempt (lf_cm l)"
  shows "(\<not> lf_cancelled l \<longrightarrow> life_step mr l l)
    \<and> (\<forall>l'. (life_step mr)\<^sup>*\<^sup>* l l' \<longrightarrow> lf_sessions l' = lf_sessions l)"
proof -
  have r: "reconnect_refused mr (lf_cm l)" using assms(2,3) by (simp add: reconnect_refused_def)
  then have "given_up mr l" using assms(1) by (simp add: given_up_def)
  with given_up_for_good r assms(1) show ?thesis by (blast intro: ReconnectRefused)
qed

subsection \<open>Calls made while updates are applied\<close>

lemma life_table_step: "life_step mr l l' \<Longrightarrow> lf_table l' = lf_table l \<or> call_step (lf_table l) (lf_table l')"
  by (induction rule: life_step.induct)
    (simp_all add: new_session_def replaced_exit_def call_step.intros)

lemma life_table: "life mr l \<Longrightarrow> reachable_table (lf_table l)"
proof (induction rule: life.induct)
  case Begin
  show ?case by (simp add: life_init_def Init)
next
  case (Continue l l')
  then show ?case using life_table_step [OF Continue.hyps(2)] by (auto intro: Step)
qed

definition only_shutdown :: "call_response \<Rightarrow> bool" where
  "only_shutdown r \<longleftrightarrow> r = connection_error_response ''client shutting down'' (cr_id r)"

definition unanswered :: "string \<Rightarrow> call_table \<Rightarrow> bool" where
  "unanswered i t \<longleftrightarrow> i \<in> dom (ct_callers t)
     \<and> (\<forall>r \<in> set (ct_sends t) \<union> set (ct_chan t i). cr_id r = i \<longrightarrow> only_shutdown r)
     \<and> (\<forall>a. ct_callers t i = Some (Leaving (Some a)) \<or> ct_callers t i = Some (Gone (Some a)) \<longrightarrow> only_shutdown a)"

definition nested_ok :: "client_life \<Rightarrow> bool" where
  "nested_ok l \<longleftrightarrow> (\<forall>i f. lf_reader l = Nested i f \<longrightarrow> unanswered i (lf_table l))"

lemma unanswered_fresh:
  assumes "reachable_table t" "i \<notin> dom (ct_callers t)"
  shows "unanswered i (ct_start i t)"
proof -
  from table_okD [OF reachable_table_ok [OF assms(1)], of i] assms(2)
  have "yield_count t i = 0" by (simp add: domIff)
  then have "\<forall>r \<in> set (ct_sends t). cr_id r \<noteq> i"
    by (auto simp: yield_count_def count_where_def filter_empty_conv)
  then show ?thesis by (auto simp: unanswered_def ct_start_def)
qed

lemma in_deliver_chan:
  "r \<in> set (ct_chan (ct_deliver k t) i) \<Longrightarrow> k < length (ct_sends t) \<Longrightarrow> r \<in> set (ct_chan t i) \<union> set (ct_sends t)"
  by (auto simp: ct_deliver_def Let_def split: if_splits)

lemma in_deliver_sends:
  "r \<in> set (ct_sends (ct_deliver k t)) \<Longrightarrow> r \<in> set (ct_sends t)"
  by (auto simp: ct_deliver_def Let_def dest: in_set_takeD in_set_dropD)

lemma unanswered_deliver:
  "unanswered i t \<Longrightarrow> k < length (ct_sends t) \<Longrightarrow> unanswered i (ct_deliver k t)"
  by (auto simp: unanswered_def ct_deliver_def [of k t] Let_def dest: in_deliver_sends in_deliver_chan
      split: if_splits) (auto simp: dest: in_set_takeD in_set_dropD)

lemma unanswered_receive:
  assumes "unanswered i t" "ct_chan t j \<noteq> []" "table_ok t"
  shows "unanswered i (ct_receive j t)"
proof -
  have "cr_id (hd (ct_chan t j)) = j" using assms(2,3) by (simp add: table_ok_def)
  then show ?thesis using assms(1,2)
    by (auto simp: unanswered_def ct_receive_def dest: list.set_sel(2) [rotated])
qed

lemma unanswered_shutdown: "unanswered i t \<Longrightarrow> unanswered i (fail_at_shutdown ids t)"
  by (auto simp: unanswered_def fail_at_shutdown_def only_shutdown_def connection_error_response_def)

lemma nested_ok_step:
  assumes "life_step mr l l'" "nested_ok l" "session_ok l" "reachable_table (lf_table l)"
  shows "nested_ok l'"
  using assms(1)
proof (cases rule: life_step.cases)
  case (Lost ids)
  then show ?thesis using session_ok_lost [OF assms(3)] by (simp add: nested_ok_def)
next
  case (NestedCall us i)
  then show ?thesis using unanswered_fresh [OF assms(4), of i] by (simp add: nested_ok_def)
next
  case (StartCall i)
  then show ?thesis using assms(2) by (auto simp: nested_ok_def unanswered_def ct_start_def)
next
  case (DeliverResponse k)
  then show ?thesis using assms(2) by (auto simp: nested_ok_def unanswered_deliver)
next
  case (ReceiveResponse i)
  then show ?thesis using assms(2) reachable_table_ok [OF assms(4)] by (auto simp: nested_ok_def unanswered_receive)
next
  case (CallGivesUp i)
  then show ?thesis using assms(2) by (auto simp: nested_ok_def unanswered_def ct_give_up_def)
next
  case (CallReturns i a)
  then show ?thesis using assms(2) by (auto simp: nested_ok_def unanswered_def ct_cleanup_def)
next
  case (ShutdownFails ids)
  then show ?thesis using assms(2) by (auto simp: nested_ok_def unanswered_shutdown)
qed (use assms(2) in \<open>auto simp: nested_ok_def new_session_def replaced_exit_def reader_exit_def Let_def split: option.splits\<close>)

lemma life_nested_ok: "life mr l \<Longrightarrow> nested_ok l"
proof (induction rule: life.induct)
  case Begin
  show ?case by (simp add: nested_ok_def life_init_def)
next
  case (Continue l l')
  then show ?case by (blast intro: nested_ok_step life_session_ok life_table)
qed

text \<open>
  A call made while updates are applied is made by the goroutine that would have to read its
  response: it ends without one, or with the error of the shutdown, never with an answer of the server.
\<close>

theorem nested_call_never_answered:
  assumes "life mr l" "lf_reader l = Nested i f"
    and "ct_callers (lf_table l) i = Some (Leaving a) \<or> ct_callers (lf_table l) i = Some (Gone a)"
  shows "a = None \<or> a = Some (connection_error_response ''client shutting down'' i)"
proof (cases a)
  case (Some r)
  from life_nested_ok [OF assms(1)] assms(2,3) Some have "only_shutdown r"
    by (auto simp: nested_ok_def unanswered_def)
  moreover have "cr_id r = i"
    using table_okD [OF reachable_table_ok [OF life_table [OF assms(1)]], of i] assms(3) Some by auto
  ultimately show ?thesis using Some by (auto simp: only_shutdown_def)
qed simp

end
