(* ===== verification/ClientQueries.thy ===== *)
theory ClientQueries
  imports ClientConn ClientTables FunctionRegistry
begin

text \<open>
  Configuring a client (\<^verbatim>\<open>options.go\<close>, \<^verbatim>\<open>New\<close>) and the methods that read the local database
  (\<^verbatim>\<open>ListConversations\<close> to \<^verbatim>\<open>GetConversation\<close> of \<^verbatim>\<open>pkg/client/client.go\<close>), which fetch one row more
  than asked for in order to tell whether there are more.
\<close>

subsection \<open>Options\<close>

record client_options =
  co_server_url :: string
  co_user_id :: string
  co_device_id :: string
  co_rpc_timeout :: duration
  co_heartbeat :: duration
  co_batch :: int
  co_debounce :: duration
  co_retry_base :: duration
  co_retry_max :: int
  co_retry_poll :: duration
  co_reconnect_base :: duration
  co_reconnect_cap :: duration
  co_reconnect_max :: int
  co_db :: "local_db option"
  co_has_handler :: bool
  co_has_logger :: bool
  co_cache_size :: int
  co_rtt_window :: int
  co_timeout_min :: duration
  co_timeout_max :: duration
  co_resp_size :: int
  co_resp_retry :: int
  co_device_info :: "(string \<times> string) list"
  co_functions :: "function_info list"

definition default_options :: client_options where
  "default_options = \<lparr>co_server_url = ''ws://localhost:8080/ws'', co_user_id = [], co_device_id = [],
     co_rpc_timeout = 30 * second, co_heartbeat = 30 * second, co_batch = 100, co_debounce = 500 * msec,
     co_retry_base = 1 * second, co_retry_max = 5, co_retry_poll = 1 * second,
     co_reconnect_base = 1 * second, co_reconnect_cap = 30 * second, co_reconnect_max = 0,
     co_db = None, co_has_handler = False, co_has_logger = False, co_cache_size = 1024,
     co_rtt_window = 50, co_timeout_min = 5 * second, co_timeout_max = 120 * second,
     co_resp_size = 100, co_resp_retry = 3, co_device_info = [], co_functions = []\<rparr>"

datatype client_option =
    WithServerURL string
  | WithUserID string
  | WithDeviceID string
  | WithRPCTimeout duration
  | WithHeartbeatInterval duration
  | WithSyncBatchSize int
  | WithPullDebounce duration
  | WithRetryBaseDelay duration
  | WithRetryMaxAttempts int
  | WithRetryPollInterval duration
  | WithReconnectBaseDelay duration
  | WithReconnectMaxDelay duration
  | WithReconnectMaxRetries int
  | WithDB "local_db option"
  | WithUpdateHandler bool
  | WithLogger bool
  | WithIdempotencyCacheSize int
  | WithRTTWindowSize int
  | WithAdaptiveTimeoutMin duration
  | WithAdaptiveTimeoutMax duration
  | WithResponseRetryMaxSize int
  | WithResponseRetryMax int
  | WithDeviceInfo "(string \<times> string) list"
  | WithFunctions "function_info list"

fun apply_option :: "client_option \<Rightarrow> client_options \<Rightarrow> client_options" where
  "apply_option (WithServerURL x) c = c\<lparr>co_server_url := x\<rparr>"
| "apply_option (WithUserID x) c = c\<lparr>co_user_id := x\<rparr>"
| "apply_option (WithDeviceID x) c = c\<lparr>co_device_id := x\<rparr>"
| "apply_option (WithRPCTimeout x) c = c\<lparr>co_rpc_timeout := x\<rparr>"
| "apply_option (WithHeartbeatInterval x) c = c\<lparr>co_heartbeat := x\<rparr>"
| "apply_option (WithSyncBatchSize x) c = c\<lparr>co_batch := x\<rparr>"
| "apply_option (WithPullDebounce x) c = c\<lparr>co_debounce := x\<rparr>"
| "apply_option (WithRetryBaseDelay x) c = c\<lparr>co_retry_base := x\<rparr>"
| "apply_option (WithRetryMaxAttempts x) c = c\<lparr>co_retry_max := x\<rparr>"
| "apply_option (WithRetryPollInterval x) c = c\<lparr>co_retry_poll := x\<rparr>"
| "apply_option (WithReconnectBaseDelay x) c = c\<lparr>co_reconnect_base := x\<rparr>"
| "apply_option (WithReconnectMaxDelay x) c = c\<lparr>co_reconnect_cap := x\<rparr>"
| "apply_option (WithReconnectMaxRetries x) c = c\<lparr>co_reconnect_max := x\<rparr>"
| "apply_option (WithDB x) c = c\<lparr>co_db := x\<rparr>"
| "apply_option (WithUpdateHandler x) c = c\<lparr>co_has_handler := x\<rparr>"
| "apply_option (WithLogger x) c = c\<lparr>co_has_logger := x\<rparr>"
| "apply_option (WithIdempotencyCacheSize x) c = c\<lparr>co_cache_size := x\<rparr>"
| "apply_option (WithRTTWindowSize x) c = c\<lparr>co_rtt_window := x\<rparr>"
| "apply_option (WithAdaptiveTimeoutMin x) c = c\<lparr>co_timeout_min := x\<rparr>"
| "apply_option (WithAdaptiveTimeoutMax x) c = c\<lparr>co_timeout_max := x\<rparr>"
| "apply_option (WithResponseRetryMaxSize x) c = c\<lparr>co_resp_size := x\<rparr>"
| "apply_option (WithResponseRetryMax x) c = c\<lparr>co_resp_retry := x\<rparr>"
| "apply_option (WithDeviceInfo x) c = c\<lparr>co_device_info := x\<rparr>"
| "apply_option (WithFunctions x) c = c\<lparr>co_functions := x\<rparr>"

definition client_min_heartbeat :: duration where "client_min_heartbeat = 5 * second"

definition clamp_heartbeat :: "client_options \<Rightarrow> client_options" where
  "clamp_heartbeat c = (if co_heartbeat c < client_min_heartbeat then c\<lparr>co_heartbeat := client_min_heartbeat\<rparr> else c)"

record xyncra_client =
  xy_opts :: client_options
  xy_rpc :: rpc_client
  xy_inbound :: inbound

text \<open>\<^verbatim>\<open>New\<close>: a missing setting is an error, an impossible size a panic (None).\<close>

definition NewClient :: "client_option list \<Rightarrow> (string + xyncra_client) option" where
  "NewClient opts =
     (let c = fold apply_option opts default_options
      in if co_server_url c = [] then Some (Inl ''client: serverURL is required'')
         else if co_user_id c = [] then Some (Inl ''client: userID is required'')
         else (case co_db c of
             None \<Rightarrow> Some (Inl ''client: db is required'')
           | Some d \<Rightarrow>
               let c1 = clamp_heartbeat (if co_has_logger c then c else c\<lparr>co_has_logger := True\<rparr>)
               in (case (NewRTTTracker (co_rtt_window c1), NewResponseRetryQueue (co_resp_size c1) (co_resp_retry c1)) of
                     (Some t, Some q) \<Rightarrow>
                       Some (Inr \<lparr>xy_opts = c1,
                         xy_rpc = \<lparr>cl_closed = False, cl_db = d, cl_logs = [], cl_rtt = t\<rparr>,
                         xy_inbound = new_inbound (co_cache_size c1) q\<rparr>)
                   | _ \<Rightarrow> None)))"

subsection \<open>Local queries\<close>

text \<open>
  Splitting off the probe row; slicing to a negative length panics.
\<close>

definition probe_rows :: "int \<Rightarrow> 'a list \<Rightarrow> ('a list \<times> bool) option" where
  "probe_rows limit xs =
     (if int (length xs) > limit then (if limit < 0 then None else Some (take (nat limit) xs, True))
      else Some (xs, False))"

text \<open>\<^verbatim>\<open>limit+1\<close> of a 64-bit integer.\<close>

definition ListConversations :: "string \<Rightarrow> int \<Rightarrow> int \<Rightarrow> local_db \<Rightarrow> (conversation list \<times> bool) option" where
  "ListConversations uid offset limit d = probe_rows limit (lc_get_by_user uid offset (int64 (limit + 1)) d)"

definition client_GetMessages :: "string \<Rightarrow> u32 \<Rightarrow> int \<Rightarrow> local_db \<Rightarrow> (message list \<times> bool) option" where
  "client_GetMessages cid after limit d = probe_rows limit (lm_list_by_conversation cid after (int64 (limit + 1)) d)"

definition client_SearchMessages ::
  "(char \<Rightarrow> char \<Rightarrow> bool) \<Rightarrow> string \<Rightarrow> string \<Rightarrow> u32 \<Rightarrow> int \<Rightarrow> local_db \<Rightarrow> (message list \<times> bool) option" where
  "client_SearchMessages eqc cid q after limit d =
     probe_rows limit (lm_search_by_conversation eqc cid q after (int64 (limit + 1)) d)"

definition client_GetConversation ::
  "string \<Rightarrow> string \<Rightarrow> local_db \<Rightarrow> client_store_error + conversation \<times> nat \<times> remote_calling list" where
  "client_GetConversation uid cid d =
     (case lc_get cid d of
        Inl e \<Rightarrow> Inl e
      | Inr c \<Rightarrow>
          let last_read = (if c_user1 c = uid then c_read1 c else c_read2 c)
          in Inr (c, lm_count_unread cid last_read d, lr_get_by_conversation cid d))"

text \<open>
  \<^verbatim>\<open>FetchMoreMessages\<close> after the call has returned \<open>ms\<close>: each row is stored, a failing one is skipped.
\<close>

fun store_fetched :: "time \<Rightarrow> message list \<Rightarrow> local_db \<Rightarrow> local_db" where
  "store_fetched now [] d = d"
| "store_fetched now (m # ms) d =
     store_fetched now ms (case lm_upsert now m d of Inl _ \<Rightarrow> d | Inr d' \<Rightarrow> d')"

definition FetchMoreMessages ::
  "time \<Rightarrow> (call_failure + (message list \<times> bool) option) \<Rightarrow> local_db
     \<Rightarrow> (string + message list \<times> bool) \<times> local_db" where
  "FetchMoreMessages now r d =
     (case r of
        Inl e \<Rightarrow> (Inl (''client: fetch more messages RPC: '' @ failure_text e), d)
      | Inr None \<Rightarrow> (Inl ''client: fetch more messages unmarshal'', d)
      | Inr (Some (ms, has_more)) \<Rightarrow> (Inr (ms, has_more), store_fetched now ms d))"

subsection \<open>What the local queries return\<close>

definition rows_after :: "string \<Rightarrow> u32 \<Rightarrow> local_db \<Rightarrow> message list" where
  "rows_after cid after d =
     select_asc m_msg_id (\<lambda>m. (m_conv m = cid \<and> m_msg_id m > after) \<and> msg_live m) (l_msgs d)"

lemma lm_list_rows:
  "lm_list_by_conversation cid after limit d
     = take (nat (if limit \<le> 0 \<or> limit > 200 then 50 else limit)) (rows_after cid after d)"
  by (simp add: lm_list_by_conversation_def rows_after_def)

lemma probe_rows_take:
  assumes "0 \<le> limit"
  shows "probe_rows limit (take (nat (limit + 1)) xs) = Some (take (nat limit) xs, int (length xs) > limit)"
  using assms by (auto simp: probe_rows_def min_def nat_add_distrib)

text \<open>
  For a limit from 1 to 199 the page is the first messages after the cursor, and the flag says
  exactly whether there are more.
\<close>

theorem local_messages_page:
  assumes "1 \<le> limit" "limit \<le> 199"
  shows "client_GetMessages cid after limit d
    = Some (take (nat limit) (rows_after cid after d), int (length (rows_after cid after d)) > limit)"
proof -
  have "int64 (limit + 1) = limit + 1" using assms by (intro int64_id) auto
  with assms show ?thesis
    using probe_rows_take [of limit "rows_after cid after d"] by (simp add: client_GetMessages_def lm_list_rows)
qed

text \<open>
  For any larger limit the probe exceeds the cap of the store, which then returns 50 rows, and the
  page claims to be the last one.
\<close>

theorem large_local_page_hides_messages:
  assumes "200 \<le> limit" "limit < 2 ^ 63 - 1"
  shows "client_GetMessages cid after limit d = Some (take 50 (rows_after cid after d), False)"
proof -
  have "int64 (limit + 1) = limit + 1" using assms by (intro int64_id) auto
  with assms show ?thesis by (auto simp: client_GetMessages_def lm_list_rows probe_rows_def)
qed

text \<open>A client that could be created has a user, a database and a heartbeat no faster than every five seconds.\<close>

lemma new_client_valid:
  assumes "NewClient opts = Some (Inr c)"
  shows "co_user_id (xy_opts c) \<noteq> [] \<and> client_min_heartbeat \<le> co_heartbeat (xy_opts c)
    \<and> (\<exists>d. co_db (xy_opts c) = Some d \<and> cl_db (xy_rpc c) = d)"
  using assms
  by (auto simp: NewClient_def Let_def clamp_heartbeat_def split: if_splits option.splits)

end
