(* ===== verification/AgentLocks.thy ===== *)
theory AgentLocks
  imports Prelude
begin

text \<open>
  What the agent runtime keeps in Redis and in memory to serialise its work: \<^verbatim>\<open>conversation_lock.go\<close>,
  the idempotency store of \<^verbatim>\<open>task_handler.go\<close>, \<^verbatim>\<open>checkpoint_store.go\<close> and \<^verbatim>\<open>semaphore.go\<close>.  The keys
  are a map from names to values with an optional expiry, and the commands the code sends are functions
  on it, at the time the server executes them; a failing command is the environment's choice and has no
  effect.
\<close>

subsection \<open>Keys\<close>

type_synonym keys = "string \<rightharpoonup> string \<times> time option"

definition key_get :: "time \<Rightarrow> string \<Rightarrow> keys \<Rightarrow> string option" where
  "key_get now k r =
     (case r k of
        None \<Rightarrow> None
      | Some (v, None) \<Rightarrow> Some v
      | Some (v, Some t) \<Rightarrow> if now < t then Some v else None)"

definition key_setnx :: "time \<Rightarrow> string \<Rightarrow> string \<Rightarrow> duration \<Rightarrow> keys \<Rightarrow> bool \<times> keys" where
  "key_setnx now k v ttl r =
     (if key_get now k r = None then (True, r(k \<mapsto> (v, Some (now + ttl)))) else (False, r))"

definition key_set :: "time \<Rightarrow> string \<Rightarrow> string \<Rightarrow> duration \<Rightarrow> keys \<Rightarrow> keys" where
  "key_set now k v ttl r = r(k \<mapsto> (v, Some (now + ttl)))"

definition key_del :: "string \<Rightarrow> keys \<Rightarrow> keys" where
  "key_del k r = r(k := None)"

lemma key_get_setnx:
  "0 < ttl \<Longrightarrow> key_get now k r = None \<Longrightarrow> key_get now k (snd (key_setnx now k v ttl r)) = Some v"
  by (simp add: key_setnx_def key_get_def)

lemma key_get_del [simp]: "key_get now k (key_del k r) = None"
  by (simp add: key_get_def key_del_def)

lemma key_get_other [simp]:
  "k \<noteq> k' \<Longrightarrow> key_get now k (snd (key_setnx t k' v ttl r)) = key_get now k r"
  "k \<noteq> k' \<Longrightarrow> key_get now k (key_del k' r) = key_get now k r"
  "k \<noteq> k' \<Longrightarrow> key_get now k (key_set t k' v ttl r) = key_get now k r"
  by (simp_all add: key_get_def key_setnx_def key_del_def key_set_def)

text \<open>A failed command: the error text of the client library.\<close>

type_synonym fault = "string option"

subsection \<open>The conversation lock\<close>

definition lockKey :: "string \<Rightarrow> string" where
  "lockKey cid = ''agent:lock:'' @ cid"

definition lock_Acquire ::
  "fault \<Rightarrow> string \<Rightarrow> time \<Rightarrow> string \<Rightarrow> duration \<Rightarrow> keys \<Rightarrow> (string + bool) \<times> keys" where
  "lock_Acquire fault token now cid ttl r =
     (case fault of
        Some m \<Rightarrow> (Inl (''conversation lock acquire: '' @ m), r)
      | None \<Rightarrow> (let (ok, r') = key_setnx now (lockKey cid) token ttl r in (Inr ok, r')))"

text \<open>The Lua script: delete the key if it holds the caller's token.\<close>

definition releaseScript :: "time \<Rightarrow> string \<Rightarrow> string \<Rightarrow> keys \<Rightarrow> keys" where
  "releaseScript now k token r = (if key_get now k r = Some token then key_del k r else r)"

definition lock_Release ::
  "fault \<Rightarrow> string \<Rightarrow> time \<Rightarrow> string \<Rightarrow> keys \<Rightarrow> string option \<times> keys" where
  "lock_Release fault token now cid r =
     (case fault of
        Some m \<Rightarrow> (Some (''conversation lock release: '' @ m), r)
      | None \<Rightarrow> (None, releaseScript now (lockKey cid) token r))"

text \<open>
  What a client of such a lock relies on: an attempt succeeds exactly when nobody holds the lock, the
  holder is the caller then, and only the holder's own release ends the hold before it expires.
\<close>

locale expiring_lock =
  fixes acquire :: "'tok \<Rightarrow> time \<Rightarrow> 's \<Rightarrow> bool \<times> 's"
    and release :: "'tok \<Rightarrow> time \<Rightarrow> 's \<Rightarrow> 's"
    and holder :: "'s \<Rightarrow> ('tok \<times> time) option"
  assumes acquire_busy:
      "holder s = Some (h, e) \<Longrightarrow> now < e \<Longrightarrow> acquire tok now s = (False, s)"
    and release_other:
      "holder s = Some (h, e) \<Longrightarrow> tok \<noteq> h \<Longrightarrow> release tok now s = s"
    and release_own:
      "holder s = Some (h, e) \<Longrightarrow> now < e \<Longrightarrow> holder (release h now s) = None"
    and acquire_free:
      "holder s = None \<Longrightarrow> \<exists>e. fst (acquire tok now s) \<and> holder (snd (acquire tok now s)) = Some (tok, e)"
begin

text \<open>Attempts and releases by others, in any order, do not disturb a hold.\<close>

definition other_ops :: "('tok \<times> time \<times> bool) list \<Rightarrow> 's \<Rightarrow> 's" where
  "other_ops = fold (\<lambda>(tok, now, is_release) s.
     if is_release then release tok now s else snd (acquire tok now s))"

lemma hold_survives:
  assumes "holder s = Some (h, e)"
    and "\<forall>(tok, now, is_release) \<in> set ops. now < e \<and> (is_release \<longrightarrow> tok \<noteq> h)"
  shows "other_ops ops s = s"
  using assms by (induction ops) (auto simp: other_ops_def acquire_busy release_other)

lemma nobody_else_acquires:
  assumes "holder s = Some (h, e)" "now < e"
    and "\<forall>(tok, now, is_release) \<in> set ops. now < e \<and> (is_release \<longrightarrow> tok \<noteq> h)"
  shows "\<not> fst (acquire tok now (other_ops ops s))"
  using assms hold_survives [OF assms(1,3)] by (simp add: acquire_busy)

text \<open>One release under the holder's token, by whomever, lets the next attempt succeed.\<close>

lemma stolen_release:
  assumes "holder s = Some (h, e)" "now < e"
  shows "fst (acquire tok later (release h now s))"
  using acquire_free [OF release_own [OF assms]] by blast

end

text \<open>
  The Redis lock of one conversation, restricted to the moments at which its entry has not expired:
  the holder is the token in the entry.
\<close>

definition lock_holder :: "string \<Rightarrow> keys \<Rightarrow> (string \<times> time) option" where
  "lock_holder cid r =
     (case r (lockKey cid) of Some (v, Some t) \<Rightarrow> Some (v, t) | _ \<Rightarrow> None)"

definition lock_try :: "string \<Rightarrow> duration \<Rightarrow> string \<Rightarrow> time \<Rightarrow> keys \<Rightarrow> bool \<times> keys" where
  "lock_try cid ttl tok now r =
     (case lock_Acquire None tok now cid ttl r of (Inr b, r') \<Rightarrow> (b, r') | (Inl _, r') \<Rightarrow> (False, r'))"

definition lock_end :: "string \<Rightarrow> string \<Rightarrow> time \<Rightarrow> keys \<Rightarrow> keys" where
  "lock_end cid tok now r = snd (lock_Release None tok now cid r)"

text \<open>An entry without expiry never arises: the code always passes a positive time to live.\<close>

typedef lock_keys = "{r :: keys. \<forall>k v. r k \<noteq> Some (v, None)}"
  by (rule exI [of _ Map.empty]) simp

setup_lifting type_definition_lock_keys

lift_definition lk_try :: "string \<Rightarrow> duration \<Rightarrow> string \<Rightarrow> time \<Rightarrow> lock_keys \<Rightarrow> bool \<times> lock_keys" is
  "\<lambda>cid ttl tok now r. lock_try cid ttl tok now r"
  by (auto simp: lock_try_def lock_Acquire_def key_setnx_def split: if_splits)

lift_definition lk_end :: "string \<Rightarrow> string \<Rightarrow> time \<Rightarrow> lock_keys \<Rightarrow> lock_keys" is
  "\<lambda>cid tok now r. lock_end cid tok now r"
  by (auto simp: lock_end_def lock_Release_def releaseScript_def key_del_def split: if_splits)

lift_definition lk_holder :: "string \<Rightarrow> lock_keys \<Rightarrow> (string \<times> time) option" is lock_holder .

interpretation cl: expiring_lock "lk_try cid ttl" "lk_end cid" "lk_holder cid" for cid ttl
proof
  fix s h e now tok
  show "lk_holder cid s = Some (h, e) \<Longrightarrow> now < e \<Longrightarrow> lk_try cid ttl tok now s = (False, s)"
    by transfer (auto simp: lock_holder_def lock_try_def lock_Acquire_def key_setnx_def key_get_def
        split: option.splits)
next
  fix s h e now tok
  show "lk_holder cid s = Some (h, e) \<Longrightarrow> tok \<noteq> h \<Longrightarrow> lk_end cid tok now s = s"
    by transfer (auto simp: lock_holder_def lock_end_def lock_Release_def releaseScript_def key_get_def
        split: option.splits if_splits)
next
  fix s h e now
  show "lk_holder cid s = Some (h, e) \<Longrightarrow> now < e \<Longrightarrow> lk_holder cid (lk_end cid h now s) = None"
    by transfer (auto simp: lock_holder_def lock_end_def lock_Release_def releaseScript_def key_get_def
        key_del_def split: option.splits if_splits)
next
  fix s tok now
  show "lk_holder cid s = None \<Longrightarrow>
      \<exists>e. fst (lk_try cid ttl tok now s) \<and> lk_holder cid (snd (lk_try cid ttl tok now s)) = Some (tok, e)"
    by transfer (auto simp: lock_holder_def lock_try_def lock_Acquire_def key_setnx_def key_get_def
        split: option.splits if_splits)
qed

text \<open>
  While a task holds the lock of a conversation, nothing other tokens do, attempts or releases, frees it
  before it expires, and nobody acquires it.
\<close>

theorem lock_excludes_other_tokens:
  assumes "lk_holder cid s = Some (h, e)" "now < e"
    and "\<forall>(tok, t, is_release) \<in> set ops. t < e \<and> (is_release \<longrightarrow> tok \<noteq> h)"
  shows "\<not> fst (lk_try cid ttl tok now (cl.other_ops cid ttl ops s))"
  using assms by (rule cl.nobody_else_acquires)

text \<open>
  The token belongs to the process (\<^verbatim>\<open>NewRedisConversationLock\<close> draws it once), so two tasks of one
  process are the same owner.  A resume task that did not get the lock releases it all the same, and the
  next task enters while the first is still running.
\<close>

theorem unacquired_release_frees_the_lock:
  assumes "lk_holder cid s = Some (token, e)" "t < e"
  shows "fst (lk_try cid ttl token t s) = False"
    and "fst (lk_try cid ttl token t' (lk_end cid token t (snd (lk_try cid ttl token t s))))"
  using assms cl.stolen_release [OF assms] by (simp_all add: cl.acquire_busy [OF assms])

subsection \<open>The idempotency store\<close>

text \<open>\<^verbatim>\<open>MarkProcessed\<close> answers whether the key was there already.\<close>

definition MarkProcessed ::
  "fault \<Rightarrow> time \<Rightarrow> string \<Rightarrow> duration \<Rightarrow> keys \<Rightarrow> (string + bool) \<times> keys" where
  "MarkProcessed fault now k ttl r =
     (case fault of
        Some m \<Rightarrow> (Inl m, r)
      | None \<Rightarrow> (let (ok, r') = key_setnx now k ''1'' ttl r in (Inr (\<not> ok), r')))"

definition CheckProcessed :: "fault \<Rightarrow> time \<Rightarrow> string \<Rightarrow> keys \<Rightarrow> string + bool" where
  "CheckProcessed fault now k r =
     (case fault of Some m \<Rightarrow> Inl m | None \<Rightarrow> Inr (key_get now k r \<noteq> None))"

definition DeleteKey :: "fault \<Rightarrow> string \<Rightarrow> keys \<Rightarrow> string option \<times> keys" where
  "DeleteKey fault k r = (case fault of Some m \<Rightarrow> (Some m, r) | None \<Rightarrow> (None, key_del k r))"

text \<open>A mark is seen until it expires, and only the first of two marks is new.\<close>

lemma marked_is_seen:
  assumes "MarkProcessed None t k ttl r = (Inr False, r')" "now < t + ttl"
  shows "CheckProcessed None now k r' = Inr True"
  using assms by (auto simp: MarkProcessed_def CheckProcessed_def key_setnx_def key_get_def split: if_splits)

lemma mark_once:
  assumes "MarkProcessed None t k ttl r = (Inr b, r')" "now < t + ttl" "0 < ttl" "t \<le> now"
    and "\<not> b"
  shows "fst (MarkProcessed None now k ttl' r') = Inr True"
  using assms by (auto simp: MarkProcessed_def key_setnx_def key_get_def split: if_splits)

subsection \<open>The checkpoint store\<close>

record checkpoint_store =
  cs_prefix :: string
  cs_ttl :: duration

definition NewRedisCheckPointStore :: "string \<Rightarrow> duration \<Rightarrow> checkpoint_store" where
  "NewRedisCheckPointStore pre ttl =
     \<lparr>cs_prefix = (if pre = [] then ''agent:checkpoint:'' else pre),
      cs_ttl = (if ttl \<le> 0 then 24 * 3600 * second else ttl)\<rparr>"

text \<open>A missing checkpoint is not an error; every other failure is.\<close>

definition checkpoint_Get ::
  "fault \<Rightarrow> checkpoint_store \<Rightarrow> time \<Rightarrow> string \<Rightarrow> keys \<Rightarrow> string + string option" where
  "checkpoint_Get fault cs now k r =
     (case fault of
        Some m \<Rightarrow> Inl (''checkpoint store get: '' @ m)
      | None \<Rightarrow> Inr (key_get now (cs_prefix cs @ k) r))"

definition checkpoint_Set ::
  "fault \<Rightarrow> checkpoint_store \<Rightarrow> time \<Rightarrow> string \<Rightarrow> string \<Rightarrow> keys \<Rightarrow> string option \<times> keys" where
  "checkpoint_Set fault cs now k v r =
     (case fault of
        Some m \<Rightarrow> (Some (''agent: checkpoint store failed to persist: '' @ m), r)
      | None \<Rightarrow> (None, key_set now (cs_prefix cs @ k) v (cs_ttl cs) r))"

definition checkpoint_Delete ::
  "fault \<Rightarrow> checkpoint_store \<Rightarrow> string \<Rightarrow> keys \<Rightarrow> string option \<times> keys" where
  "checkpoint_Delete fault cs k r =
     (case fault of
        Some m \<Rightarrow> (Some (''checkpoint store delete: '' @ m), r)
      | None \<Rightarrow> (None, key_del (cs_prefix cs @ k) r))"

text \<open>A checkpoint can be read back until its time to live has passed, and not after.\<close>

lemma checkpoint_roundtrip:
  "checkpoint_Get None cs now k (snd (checkpoint_Set None cs t k v r))
     = Inr (if now < t + cs_ttl cs then Some v else None)"
  by (simp add: checkpoint_Get_def checkpoint_Set_def key_get_def key_set_def)

lemma checkpoint_deleted:
  "checkpoint_Get None cs now k (snd (checkpoint_Delete None cs k r)) = Inr None"
  by (simp add: checkpoint_Get_def checkpoint_Delete_def)

lemma checkpoint_other_key:
  "k \<noteq> k' \<Longrightarrow> checkpoint_Get None cs now k (snd (checkpoint_Delete None cs k' r))
     = checkpoint_Get None cs now k r"
  by (simp add: checkpoint_Get_def checkpoint_Delete_def)

subsection \<open>The semaphore\<close>

text \<open>
  The buffered channel is the number of its elements.  The channel operation and the counters are
  separate steps of a goroutine, so the state also counts the goroutines between the two: those that
  have entered but are not counted yet, those that run, and those that have left but are still counted.
\<close>

record semaphore =
  sm_capacity :: int
  sm_ch :: int
  sm_active :: int
  sm_peak :: int
  sm_total :: int
  sm_entering :: int
  sm_running :: int
  sm_leaving :: int

definition NewSemaphore :: "int \<Rightarrow> semaphore" where
  "NewSemaphore capacity =
     \<lparr>sm_capacity = (if capacity \<le> 0 then 0 else capacity), sm_ch = 0, sm_active = 0, sm_peak = 0,
      sm_total = 0, sm_entering = 0, sm_running = 0, sm_leaving = 0\<rparr>"

text \<open>
  \<^verbatim>\<open>Acquire\<close> is \<open>SemEnter\<close> followed by \<open>SemCount\<close>, \<^verbatim>\<open>Release\<close> is \<open>SemLeave\<close> followed by
  \<open>SemDiscount\<close>; a blocked \<^verbatim>\<open>Acquire\<close> whose context ends returns without a step.  Without a capacity
  both return at once and count nothing.
\<close>

inductive sem_step :: "semaphore \<Rightarrow> semaphore \<Rightarrow> bool" where
  SemEnter: "0 < sm_capacity s \<Longrightarrow> sm_ch s < sm_capacity s \<Longrightarrow>
     sem_step s (s\<lparr>sm_ch := sm_ch s + 1, sm_entering := sm_entering s + 1\<rparr>)"
| SemCount: "0 < sm_entering s \<Longrightarrow>
     sem_step s (s\<lparr>sm_entering := sm_entering s - 1, sm_running := sm_running s + 1,
                  sm_active := sm_active s + 1,
                  sm_peak := (if sm_active s + 1 > sm_peak s then sm_active s + 1 else sm_peak s),
                  sm_total := sm_total s + 1\<rparr>)"
| SemLeave: "0 < sm_running s \<Longrightarrow>
     sem_step s (s\<lparr>sm_ch := sm_ch s - 1, sm_running := sm_running s - 1,
                  sm_leaving := sm_leaving s + 1\<rparr>)"
| SemDiscount: "0 < sm_leaving s \<Longrightarrow>
     sem_step s (s\<lparr>sm_leaving := sm_leaving s - 1, sm_active := sm_active s - 1\<rparr>)"
| SemUnlimited: "sm_capacity s \<le> 0 \<Longrightarrow> sem_step s s"

inductive sem_reachable :: "int \<Rightarrow> semaphore \<Rightarrow> bool" for capacity where
  sem_start: "sem_reachable capacity (NewSemaphore capacity)"
| sem_next: "sem_reachable capacity s \<Longrightarrow> sem_step s s' \<Longrightarrow> sem_reachable capacity s'"

definition sem_inv :: "int \<Rightarrow> semaphore \<Rightarrow> bool" where
  "sem_inv capacity s \<longleftrightarrow>
     sm_capacity s = (if capacity \<le> 0 then 0 else capacity)
     \<and> sm_ch s = sm_entering s + sm_running s \<and> sm_active s = sm_running s + sm_leaving s
     \<and> 0 \<le> sm_entering s \<and> 0 \<le> sm_running s \<and> 0 \<le> sm_leaving s
     \<and> sm_ch s \<le> sm_capacity s \<and> sm_active s \<le> sm_peak s"

lemma sem_step_inv: "sem_step s s' \<Longrightarrow> sem_inv capacity s \<Longrightarrow> sem_inv capacity s'"
  by (cases rule: sem_step.cases) (auto simp: sem_inv_def)

lemma sem_reachable_inv: "sem_reachable capacity s \<Longrightarrow> sem_inv capacity s"
  by (induction rule: sem_reachable.induct)
     (auto simp: sem_inv_def NewSemaphore_def dest: sem_step_inv [unfolded sem_inv_def])

text \<open>No more executions run at a time than the semaphore has slots.\<close>

theorem semaphore_bounds_executions:
  assumes "sem_reachable capacity s" "0 < capacity"
  shows "sm_running s \<le> capacity" and "sm_active s \<le> capacity + sm_leaving s"
  using sem_reachable_inv [OF assms(1)] assms(2) by (auto simp: sem_inv_def)

text \<open>
  The counters lag behind the channel: an execution that has left is still counted when the next one is
  added, so the recorded peak can exceed the capacity.
\<close>

definition sem_overshoot :: semaphore where
  "sem_overshoot = \<lparr>sm_capacity = 1, sm_ch = 1, sm_active = 2, sm_peak = 2, sm_total = 2,
     sm_entering = 0, sm_running = 1, sm_leaving = 1\<rparr>"

lemma sem_enter_next:
  "sem_reachable c s \<Longrightarrow> 0 < sm_capacity s \<Longrightarrow> sm_ch s < sm_capacity s \<Longrightarrow>
     s' = s\<lparr>sm_ch := sm_ch s + 1, sm_entering := sm_entering s + 1\<rparr> \<Longrightarrow> sem_reachable c s'"
  using SemEnter sem_next by blast

lemma sem_count_next:
  "sem_reachable c s \<Longrightarrow> 0 < sm_entering s \<Longrightarrow>
     s' = s\<lparr>sm_entering := sm_entering s - 1, sm_running := sm_running s + 1,
            sm_active := sm_active s + 1,
            sm_peak := (if sm_active s + 1 > sm_peak s then sm_active s + 1 else sm_peak s),
            sm_total := sm_total s + 1\<rparr> \<Longrightarrow> sem_reachable c s'"
  using SemCount sem_next by blast

lemma sem_leave_next:
  "sem_reachable c s \<Longrightarrow> 0 < sm_running s \<Longrightarrow>
     s' = s\<lparr>sm_ch := sm_ch s - 1, sm_running := sm_running s - 1, sm_leaving := sm_leaving s + 1\<rparr> \<Longrightarrow>
     sem_reachable c s'"
  using SemLeave sem_next by blast

theorem semaphore_peak_overshoots: "sem_reachable 1 sem_overshoot"
proof -
  let ?s = "\<lambda>ch act peak tot e r l. \<lparr>sm_capacity = 1, sm_ch = ch, sm_active = act, sm_peak = peak,
     sm_total = tot, sm_entering = e, sm_running = r, sm_leaving = l\<rparr> :: semaphore"
  have "sem_reachable 1 (?s 0 0 0 0 0 0 0)"
    using sem_start [of 1] by (simp add: NewSemaphore_def)
  then have "sem_reachable 1 (?s 1 0 0 0 1 0 0)" by (rule sem_enter_next) simp_all
  then have "sem_reachable 1 (?s 1 1 1 1 0 1 0)" by (rule sem_count_next) simp_all
  then have "sem_reachable 1 (?s 0 1 1 1 0 0 1)" by (rule sem_leave_next) simp_all
  then have "sem_reachable 1 (?s 1 1 1 1 1 0 1)" by (rule sem_enter_next) simp_all
  then have "sem_reachable 1 (?s 1 2 2 2 0 1 1)" by (rule sem_count_next) simp_all
  then show ?thesis by (simp add: sem_overshoot_def)
qed

text \<open>\<^verbatim>\<open>Stats\<close>\<close>

definition sem_Stats :: "semaphore option \<Rightarrow> int \<times> int \<times> int \<times> int" where
  "sem_Stats s = (case s of None \<Rightarrow> (0, 0, 0, 0)
     | Some s \<Rightarrow> (sm_capacity s, sm_active s, sm_peak s, sm_total s))"

end
