(* ===== verification/AgentErrors.thy ===== *)
theory AgentErrors
  imports HandlerBase AgentRegistry
begin

text \<open>
  The errors of \<^verbatim>\<open>internal/agent/errors.go\<close> and what the executor makes of them.  A Go error is its text
  and the list of the sentinel errors it wraps, which is all \<^verbatim>\<open>errors.Is\<close> looks at.  The texts shown to
  users are Chinese; they are given here as the bytes of their UTF-8 encoding.
\<close>

datatype agent_sentinel =
    ErrAgentNotFound
  | ErrContextLoad
  | ErrAPIKeyMissing
  | ErrUnsupportedModel
  | ErrLLMTimeout
  | ErrLLMRateLimited
  | ErrStreamClosed
  | ErrAgentBuild
  | ErrAgentRun
  | ErrHITLInterrupted
  | ErrCheckpointStoreSet
  | ErrCheckpointNotFound
  | ErrMCPUnreachable
  | DeadlineExceeded

fun sentinel_text :: "agent_sentinel \<Rightarrow> string" where
  "sentinel_text ErrAgentNotFound = ''agent: not found in registry''"
| "sentinel_text ErrContextLoad = ''agent: failed to load context''"
| "sentinel_text ErrAPIKeyMissing = ''agent: API key environment variable not set''"
| "sentinel_text ErrUnsupportedModel = ''agent: unsupported LLM provider for model''"
| "sentinel_text ErrLLMTimeout = ''agent: LLM request timed out''"
| "sentinel_text ErrLLMRateLimited = ''agent: LLM rate limited''"
| "sentinel_text ErrStreamClosed = ''agent: stream closed unexpectedly''"
| "sentinel_text ErrAgentBuild = ''agent: failed to build agent''"
| "sentinel_text ErrAgentRun = ''agent: agent execution failed''"
| "sentinel_text ErrHITLInterrupted = ''agent: HITL interrupted, awaiting user input''"
| "sentinel_text ErrCheckpointStoreSet = ''agent: checkpoint store failed to persist''"
| "sentinel_text ErrCheckpointNotFound = ''agent: checkpoint not found or expired''"
| "sentinel_text ErrMCPUnreachable = ''agent: MCP service unreachable''"
| "sentinel_text DeadlineExceeded = ''context deadline exceeded''"

record agent_error =
  er_is :: "agent_sentinel list"
  er_text :: string

definition sentinel :: "agent_sentinel \<Rightarrow> agent_error" where
  "sentinel s = \<lparr>er_is = [s], er_text = sentinel_text s\<rparr>"

definition plain_error :: "string \<Rightarrow> agent_error" where
  "plain_error m = \<lparr>er_is = [], er_text = m\<rparr>"

text \<open>\<^verbatim>\<open>errors.Is\<close>\<close>

definition is_error :: "agent_error \<Rightarrow> agent_sentinel \<Rightarrow> bool" where
  "is_error e s \<longleftrightarrow> s \<in> set (er_is e)"

text \<open>\<^verbatim>\<open>fmt.Errorf("prefix: %w", err)\<close> and \<^verbatim>\<open>fmt.Errorf("%w: %v", sentinel, err)\<close>.\<close>

definition wrap_error :: "string \<Rightarrow> agent_error \<Rightarrow> agent_error" where
  "wrap_error p e = e\<lparr>er_text := p @ '': '' @ er_text e\<rparr>"

definition under_sentinel :: "agent_sentinel \<Rightarrow> string \<Rightarrow> agent_error" where
  "under_sentinel s m = \<lparr>er_is = [s], er_text = sentinel_text s @ '': '' @ m\<rparr>"

text \<open>\<^verbatim>\<open>fmt.Errorf("%w: %w", sentinel, err)\<close>\<close>

definition both_errors :: "agent_sentinel \<Rightarrow> agent_error \<Rightarrow> agent_error" where
  "both_errors s e = \<lparr>er_is = s # er_is e, er_text = sentinel_text s @ '': '' @ er_text e\<rparr>"

lemma is_error_simps [simp]:
  "is_error (sentinel s) t \<longleftrightarrow> t = s"
  "\<not> is_error (plain_error m) t"
  "is_error (wrap_error p e) t \<longleftrightarrow> is_error e t"
  "is_error (under_sentinel s m) t \<longleftrightarrow> t = s"
  "is_error (both_errors s e) t \<longleftrightarrow> t = s \<or> is_error e t"
  by (auto simp: is_error_def sentinel_def plain_error_def wrap_error_def under_sentinel_def both_errors_def)

subsection \<open>Texts for users\<close>

definition utf8 :: "nat list \<Rightarrow> string" where
  "utf8 bs = map char_of bs"

definition txt_debug :: string where
  "txt_debug = utf8
     [233, 148, 153, 232, 175, 175, 232, 175, 166, 230, 131, 133, 239, 188, 136, 232, 176, 131,
      232, 175, 149, 230, 168, 161, 229, 188, 143, 239, 188, 137, 58, 32]"

definition txt_config :: string where
  "txt_config = utf8
     [230, 138, 177, 230, 173, 137, 239, 188, 140, 230, 136, 145, 231, 154, 132, 233, 133, 141,
      231, 189, 174, 230, 156, 137, 232, 175, 175, 239, 188, 140, 232, 175, 183, 232, 129, 148,
      231, 179, 187, 231, 174, 161, 231, 144, 134, 229, 145, 152, 230, 163, 128, 230, 159, 165,
      232, 174, 190, 231, 189, 174, 227, 128, 130]"

definition txt_not_registered :: string where
  "txt_not_registered = utf8
     [230, 138, 177, 230, 173, 137, 239, 188, 140, 232, 175, 165, 229, 138, 169, 230, 137, 139,
      229, 176, 154, 230, 156, 170, 230, 179, 168, 229, 134, 140, 239, 188, 140, 232, 175, 183,
      232, 129, 148, 231, 179, 187, 231, 174, 161, 231, 144, 134, 229, 145, 152, 227, 128, 130]"

definition txt_build :: string where
  "txt_build = utf8
     [230, 138, 177, 230, 173, 137, 239, 188, 140, 229, 138, 169, 230, 137, 139, 229, 136, 157,
      229, 167, 139, 229, 140, 150, 229, 164, 177, 232, 180, 165, 239, 188, 140, 232, 175, 183,
      231, 168, 141, 229, 144, 142, 233, 135, 141, 232, 175, 149, 227, 128, 130]"

definition txt_unavailable :: string where
  "txt_unavailable = utf8
     [230, 138, 177, 230, 173, 137, 239, 188, 140, 230, 136, 145, 230, 154, 130, 230, 151, 182,
      230, 151, 160, 230, 179, 149, 229, 155, 158, 229, 164, 141, 239, 188, 140, 232, 175, 183,
      231, 168, 141, 229, 144, 142, 233, 135, 141, 232, 175, 149, 227, 128, 130]"

definition txt_history :: string where
  "txt_history = utf8
     [230, 138, 177, 230, 173, 137, 239, 188, 140, 230, 136, 145, 230, 151, 160, 230, 179, 149,
      232, 175, 187, 229, 143, 150, 229, 175, 185, 232, 175, 157, 229, 142, 134, 229, 143, 178,
      239, 188, 140, 232, 175, 183, 233, 135, 141, 230, 150, 176, 229, 143, 145, 233, 128, 129,
      230, 182, 136, 230, 129, 175, 227, 128, 130]"

definition txt_waited :: string where
  "txt_waited = utf8
     [230, 138, 177, 230, 173, 137, 239, 188, 140, 231, 173, 137, 229, 190, 133, 230, 151, 182,
      233, 151, 180, 232, 191, 135, 233, 149, 191, 239, 188, 140, 232, 175, 183, 233, 135, 141,
      230, 150, 176, 229, 143, 145, 233, 128, 129, 230, 182, 136, 230, 129, 175, 227, 128, 130]"

definition txt_connection :: string where
  "txt_connection = utf8
     [230, 138, 177, 230, 173, 137, 239, 188, 140, 232, 191, 158, 230, 142, 165, 228, 184, 173,
      230, 150, 173, 239, 188, 140, 232, 175, 183, 233, 135, 141, 230, 150, 176, 229, 143, 145,
      233, 128, 129, 230, 182, 136, 230, 129, 175, 227, 128, 130]"

definition txt_tool_service :: string where
  "txt_tool_service = utf8
     [230, 138, 177, 230, 173, 137, 239, 188, 140, 229, 164, 150, 233, 131, 168, 229, 183, 165,
      229, 133, 183, 230, 156, 141, 229, 138, 161, 228, 184, 141, 229, 143, 175, 231, 148, 168,
      239, 188, 140, 232, 175, 183, 231, 168, 141, 229, 144, 142, 233, 135, 141, 232, 175, 149,
      227, 128, 130]"

definition txt_problem :: string where
  "txt_problem = utf8
     [230, 138, 177, 230, 173, 137, 239, 188, 140, 229, 164, 132, 231, 144, 134, 233, 129, 135,
      229, 136, 176, 233, 151, 174, 233, 162, 152, 239, 188, 140, 232, 175, 183, 231, 168, 141,
      229, 144, 142, 233, 135, 141, 232, 175, 149, 227, 128, 130]"

definition txt_no_agent_config :: string where
  "txt_no_agent_config = utf8
     [230, 138, 177, 230, 173, 137, 239, 188, 140, 65, 103, 101, 110, 116, 32, 233, 133, 141,
      231, 189, 174, 228, 184, 141, 229, 173, 152, 229, 156, 168, 239, 188, 140, 232, 175, 183,
      233, 135, 141, 230, 150, 176, 229, 143, 145, 233, 128, 129, 230, 182, 136, 230, 129, 175,
      227, 128, 130]"

definition txt_resume_failed :: string where
  "txt_resume_failed = utf8
     [230, 138, 177, 230, 173, 137, 239, 188, 140, 230, 129, 162, 229, 164, 141, 230, 137, 167,
      232, 161, 140, 229, 164, 177, 232, 180, 165, 239, 188, 140, 232, 175, 183, 233, 135, 141,
      230, 150, 176, 229, 143, 145, 233, 128, 129, 230, 182, 136, 230, 129, 175, 227, 128, 130]"

definition txt_call_timeout :: string where
  "txt_call_timeout = utf8
     [230, 138, 177, 230, 173, 137, 239, 188, 140, 232, 191, 156, 231, 168, 139, 229, 135, 189,
      230, 149, 176, 232, 176, 131, 231, 148, 168, 232, 182, 133, 230, 151, 182, 239, 188, 140,
      232, 175, 183, 233, 135, 141, 230, 150, 176, 229, 143, 145, 233, 128, 129, 230, 182, 136,
      230, 129, 175, 227, 128, 130]"

definition txt_service :: string where
  "txt_service = utf8
     [230, 138, 177, 230, 173, 137, 239, 188, 140, 230, 156, 141, 229, 138, 161, 230, 154, 130,
      230, 151, 182, 228, 184, 141, 229, 143, 175, 231, 148, 168, 239, 188, 140, 232, 175, 183,
      231, 168, 141, 229, 144, 142, 233, 135, 141, 232, 175, 149, 227, 128, 130]"

definition txt_session_timeout :: string where
  "txt_session_timeout = utf8
     [230, 138, 177, 230, 173, 137, 239, 188, 140, 231, 173, 137, 229, 190, 133, 230, 151, 182,
      233, 151, 180, 232, 191, 135, 233, 149, 191, 239, 188, 140, 228, 188, 154, 232, 175, 157,
      229, 183, 178, 232, 182, 133, 230, 151, 182, 227, 128, 130, 232, 175, 183, 233, 135, 141,
      230, 150, 176, 229, 143, 145, 233, 128, 129, 230, 182, 136, 230, 129, 175, 227, 128, 130]"

text \<open>\<^verbatim>\<open>classifyError\<close> of the executor: the first case that applies.\<close>

definition classify_for_user :: "bool \<Rightarrow> agent_error \<Rightarrow> string" where
  "classify_for_user debug e =
     (if debug then txt_debug @ er_text e
      else if is_error e ErrAPIKeyMissing \<or> is_error e ErrUnsupportedModel then txt_config
      else if is_error e ErrAgentNotFound then txt_not_registered
      else if is_error e ErrAgentBuild then txt_build
      else if is_error e ErrLLMTimeout \<or> is_error e ErrLLMRateLimited then txt_unavailable
      else if is_error e ErrContextLoad then txt_history
      else if is_error e ErrCheckpointStoreSet then txt_waited
      else if is_error e ErrStreamClosed then txt_connection
      else if is_error e ErrMCPUnreachable then txt_tool_service
      else txt_problem)"

definition isHITLInterrupt :: "agent_error \<Rightarrow> bool" where
  "isHITLInterrupt e \<longleftrightarrow> is_error e ErrHITLInterrupted"

definition isTransientError :: "agent_error \<Rightarrow> bool" where
  "isTransientError e \<longleftrightarrow> is_error e ErrLLMTimeout \<or> is_error e ErrLLMRateLimited"

text \<open>
  The executor's mapping of a stream error to a sentinel, by identity for an expired deadline and by the
  text otherwise.
\<close>

definition map_stream_error :: "agent_error \<Rightarrow> agent_error" where
  "map_stream_error e =
     (if is_error e DeadlineExceeded then under_sentinel ErrLLMTimeout (er_text e)
      else if contains (er_text e) ''rate'' \<or> contains (er_text e) ''429'' then
        under_sentinel ErrLLMRateLimited (er_text e)
      else if contains (er_text e) ''500'' \<or> contains (er_text e) ''502'' \<or> contains (er_text e) ''503'' then
        under_sentinel ErrLLMTimeout (er_text e)
      else e)"

text \<open>
  The text decides, so an error that only mentions a word with these letters counts as rate limiting
  and is retried.
\<close>

lemma rate_by_substring:
  "contains m ''rate'' \<Longrightarrow> isTransientError (map_stream_error (plain_error m))"
  by (simp add: map_stream_error_def isTransientError_def plain_error_def is_error_def under_sentinel_def)

lemma generate_is_transient:
  "isTransientError (map_stream_error (plain_error ''model failed to generate a reply''))"
  by (rule rate_by_substring) simp

text \<open>In the normal mode nothing of the error's own text reaches the user.\<close>

lemma classified_text_fixed:
  "classify_for_user False e \<in> {txt_config, txt_not_registered, txt_build, txt_unavailable, txt_history,
     txt_waited, txt_connection, txt_tool_service, txt_problem}"
  by (simp add: classify_for_user_def)

lemma utf8_nonempty: "utf8 (b # bs) \<noteq> []"
  by (simp add: utf8_def)

lemma classified_text_nonempty: "classify_for_user debug e \<noteq> []"
  by (simp add: classify_for_user_def txt_debug_def txt_config_def txt_not_registered_def txt_build_def
      txt_unavailable_def txt_history_def txt_waited_def txt_connection_def txt_tool_service_def
      txt_problem_def utf8_nonempty)

text \<open>
  Every error of \<^verbatim>\<open>Build\<close> wraps \<^verbatim>\<open>ErrAgentBuild\<close>; a missing key or an unknown provider is still
  reported as a configuration error, because its case comes first.
\<close>

lemma missing_key_beats_build:
  "classify_for_user False (both_errors ErrAgentBuild (sentinel ErrAPIKeyMissing)) = txt_config"
  by (simp add: classify_for_user_def)

end
