(* ===== verification/AgentContext.thy ===== *)
theory AgentContext
  imports AgentErrors
begin

text \<open>
  What an agent is shown of a conversation: \<^verbatim>\<open>db_context_manager.go\<close> with its cache and its two ways to
  trim, the conversion of messages in \<^verbatim>\<open>eino_agent.go\<close>, and the callback of \<^verbatim>\<open>middleware.go\<close> that
  persists a summary.
\<close>

subsection \<open>The context manager\<close>

record cached_context =
  cx_messages :: "message list"
  cx_fetched :: time

record context_manager =
  cm_cache :: "string \<rightharpoonup> cached_context"
  cm_ttl :: duration
  cm_count :: "string \<Rightarrow> int"

text \<open>\<^verbatim>\<open>HeuristicTokenCounter\<close>: a token per four bytes.\<close>

definition CountTokens :: "string \<Rightarrow> int" where
  "CountTokens txt = (if length txt = 0 then 0 else int (length txt) div 4)"

definition NewDBContextManager :: context_manager where
  "NewDBContextManager = \<lparr>cm_cache = Map.empty, cm_ttl = 30 * second, cm_count = CountTokens\<rparr>"

definition fetch_limit :: "AgentConfig \<Rightarrow> int" where
  "fetch_limit config =
     (let l0 = 100;
          l1 = (if ac_max_messages config > 0 then max (int64 (ac_max_messages config * 2)) l0 else l0);
          l2 = (if ac_max_tokens config > 0 then max (ac_max_tokens config div 200 * 2) l1 else l1)
      in if l2 > 500 then 500 else l2)"

text \<open>The loop of \<^verbatim>\<open>trimByTokens\<close>, from the newest message back.\<close>

fun newest_within :: "(string \<Rightarrow> int) \<Rightarrow> int \<Rightarrow> int \<Rightarrow> message list \<Rightarrow> message list" where
  "newest_within tok mx acc [] = []"
| "newest_within tok mx acc (m # ms) =
     (if acc + tok (m_content m) > mx then []
      else m # newest_within tok mx (acc + tok (m_content m)) ms)"

definition trimByTokens :: "(string \<Rightarrow> int) \<Rightarrow> int \<Rightarrow> message list \<Rightarrow> message list" where
  "trimByTokens tok mx ms =
     (if ms = [] then ms
      else let kept = newest_within tok mx 0 (rev ms)
           in if kept = [] then [last ms] else rev kept)"

definition trimByMessages :: "int \<Rightarrow> message list \<Rightarrow> message list" where
  "trimByMessages mx ms =
     (if mx \<le> 0 \<or> int (length ms) \<le> mx then ms else drop (length ms - nat mx) ms)"

definition trim_context :: "(string \<Rightarrow> int) \<Rightarrow> AgentConfig \<Rightarrow> message list \<Rightarrow> message list" where
  "trim_context tok config ms =
     (if ac_max_tokens config > 0 then trimByTokens tok (ac_max_tokens config) ms
      else if ac_max_messages config > 0 then trimByMessages (ac_max_messages config) ms
      else ms)"

text \<open>
  \<open>now\<close> is read for the cache look-up, \<open>stored\<close> when the entry is written.  The driver's failure
  becomes an \<^verbatim>\<open>ErrContextLoad\<close>.
\<close>

definition GetContext ::
  "store_error option \<Rightarrow> time \<Rightarrow> time \<Rightarrow> string \<Rightarrow> AgentConfig \<Rightarrow> db \<Rightarrow> context_manager
     \<Rightarrow> (agent_error + message list) \<times> context_manager" where
  "GetContext fault now stored cid config d cm =
     (case (case cm_cache cm cid of
              Some cc \<Rightarrow> if now - cx_fetched cc < cm_ttl cm then Some (cx_messages cc) else None
            | None \<Rightarrow> None) of
        Some ms \<Rightarrow> (Inr ms, cm)
      | None \<Rightarrow>
          (case fault of
             Some e \<Rightarrow> (Inl (under_sentinel ErrContextLoad (store_error_msg e)), cm)
           | None \<Rightarrow>
               (let ms = trim_context (cm_count cm) config
                           (rev (msg_list_recent cid (fetch_limit config) d))
                in (Inr ms, cm\<lparr>cm_cache := (cm_cache cm)(cid \<mapsto> \<lparr>cx_messages = ms, cx_fetched = stored\<rparr>)\<rparr>))))"

definition InvalidateCache :: "string \<Rightarrow> context_manager \<Rightarrow> context_manager" where
  "InvalidateCache cid cm = cm\<lparr>cm_cache := (cm_cache cm)(cid := None)\<rparr>"

definition context_cleanupExpired :: "time \<Rightarrow> context_manager \<Rightarrow> context_manager" where
  "context_cleanupExpired now cm =
     cm\<lparr>cm_cache := (\<lambda>cid. case cm_cache cm cid of
          None \<Rightarrow> None
        | Some cc \<Rightarrow> if now - cx_fetched cc \<ge> cm_ttl cm then None else Some cc)\<rparr>"

text \<open>Removing expired entries is not observable: a look-up ignores them anyway.\<close>

lemma GetContext_cleanup:
  assumes "now \<le> now'"
  shows "fst (GetContext fault now' stored cid config d (context_cleanupExpired now cm))
    = fst (GetContext fault now' stored cid config d cm)"
  using assms by (auto simp: GetContext_def context_cleanupExpired_def Let_def split: option.splits)

lemma GetContext_fresh:
  assumes "cm_cache cm cid = None"
  shows "fst (GetContext None now stored cid config d cm)
    = Inr (trim_context (cm_count cm) config (rev (msg_list_recent cid (fetch_limit config) d)))"
  using assms by (simp add: GetContext_def Let_def)

text \<open>Within the time to live the answer does not depend on the database.\<close>

lemma GetContext_cached:
  assumes "GetContext None t stored cid config d cm = (Inr ms, cm')" "cm_cache cm cid = None"
    and "now - stored < cm_ttl cm"
  shows "fst (GetContext fault now stored' cid config' d' cm') = Inr ms"
  using assms by (auto simp: GetContext_def Let_def)

lemma GetContext_invalidated:
  "fst (GetContext None now stored cid config d (InvalidateCache cid cm))
    = Inr (trim_context (cm_count cm) config (rev (msg_list_recent cid (fetch_limit config) d)))"
  by (simp add: GetContext_fresh InvalidateCache_def)

subsection \<open>The token budget\<close>

definition tokens_of :: "(string \<Rightarrow> int) \<Rightarrow> message list \<Rightarrow> int" where
  "tokens_of tok ms = sum_list (map (\<lambda>m. tok (m_content m)) ms)"

lemma newest_within_prefix: "\<exists>rest. ms = newest_within tok mx acc ms @ rest"
  by (induction tok mx acc ms rule: newest_within.induct) auto

lemma newest_within_budget:
  "acc \<le> mx \<Longrightarrow> acc + tokens_of tok (newest_within tok mx acc ms) \<le> mx"
proof (induction tok mx acc ms rule: newest_within.induct)
  case (2 tok mx acc m ms)
  then show ?case by (auto simp: tokens_of_def algebra_simps)
qed (simp add: tokens_of_def)

text \<open>The kept part is the longest: one more message would exceed the budget.\<close>

lemma newest_within_maximal:
  "newest_within tok mx acc ms = ks \<Longrightarrow> length ks < length ms \<Longrightarrow>
     acc + tokens_of tok (take (Suc (length ks)) ms) > mx"
proof (induction tok mx acc ms arbitrary: ks rule: newest_within.induct)
  case (2 tok mx acc m ms)
  show ?case
  proof (cases "acc + tok (m_content m) > mx")
    case True
    then show ?thesis using 2 by (auto simp: tokens_of_def)
  next
    case False
    with 2 show ?thesis by (auto simp: tokens_of_def algebra_simps)
  qed
qed simp

text \<open>
  The trimmed context is a suffix of the history, within the token budget unless it is the single newest
  message, and no longer suffix fits.
\<close>

theorem trimmed_context_is_maximal:
  assumes "0 < mx"
  shows "suffix (trimByTokens tok mx ms) ms"
    and "ms \<noteq> [] \<Longrightarrow> trimByTokens tok mx ms \<noteq> []"
    and "tokens_of tok (trimByTokens tok mx ms) \<le> mx \<or> length (trimByTokens tok mx ms) = 1"
    and "suffix longer ms \<Longrightarrow> length longer = Suc (length (trimByTokens tok mx ms)) \<Longrightarrow>
           tokens_of tok longer > mx \<or> tokens_of tok [last ms] > mx"
proof -
  let ?k = "newest_within tok mx 0 (rev ms)"
  obtain rest where rest: "rev ms = ?k @ rest"
    using newest_within_prefix by blast
  have ms: "ms = rev rest @ rev ?k" by (metis rest rev_append rev_rev_ident)
  have suf: "suffix (rev ?k) ms" by (subst ms) (rule suffixI, rule refl)
  have tok_rev: "tokens_of tok (rev xs) = tokens_of tok xs" for xs
    by (simp add: tokens_of_def rev_map [symmetric])
  have last_suf: "ms \<noteq> [] \<Longrightarrow> suffix [last ms] ms"
    by (metis append_butlast_last_id suffixI)
  show "suffix (trimByTokens tok mx ms) ms"
    using suf last_suf by (auto simp: trimByTokens_def Let_def)
  show "ms \<noteq> [] \<Longrightarrow> trimByTokens tok mx ms \<noteq> []"
    by (auto simp: trimByTokens_def Let_def)
  show "tokens_of tok (trimByTokens tok mx ms) \<le> mx \<or> length (trimByTokens tok mx ms) = 1"
    using newest_within_budget [of 0 mx tok "rev ms"] assms
    by (auto simp: trimByTokens_def Let_def tok_rev)
  show "tokens_of tok longer > mx \<or> tokens_of tok [last ms] > mx"
    if longer: "suffix longer ms" "length longer = Suc (length (trimByTokens tok mx ms))"
  proof (cases "?k = []")
    case True
    have "ms \<noteq> []" using longer by auto
    then have "tokens_of tok (take 1 (rev ms)) > mx"
      using newest_within_maximal [OF refl, of tok mx 0 "rev ms"] True by simp
    moreover have "take 1 (rev ms) = [last ms]"
      using \<open>ms \<noteq> []\<close> by (cases ms rule: rev_cases) auto
    ultimately show ?thesis by simp
  next
    case False
    then have "ms \<noteq> []" by auto
    then have trim: "trimByTokens tok mx ms = rev ?k"
      using False by (simp add: trimByTokens_def Let_def)
    obtain pre where pre: "ms = pre @ longer" using longer(1) by (auto simp: suffix_def)
    have len: "length longer = Suc (length ?k)" using longer(2) trim by simp
    have "rev longer = take (Suc (length ?k)) (rev ms)"
      using pre len by simp
    moreover have "length ?k < length (rev ms)" using pre len by simp
    ultimately have "tokens_of tok (rev longer) > mx"
      using newest_within_maximal [OF refl, of tok mx 0 "rev ms"] by simp
    then show ?thesis by (simp add: tok_rev)
  qed
qed

text \<open>The number of rows asked of the database is always one the store accepts.\<close>

lemma fetch_limit_range: "100 \<le> fetch_limit config \<and> fetch_limit config \<le> 500"
  by (auto simp: fetch_limit_def Let_def le_max_iff_disj)

subsection \<open>Messages for the model\<close>

text \<open>
  The value kept under \<^verbatim>\<open>xyncra_message_id\<close> in a message's \<^verbatim>\<open>Extra\<close>: the conversion puts an
  \<^verbatim>\<open>uint32\<close> there; only a message that has been through JSON holds a \<^verbatim>\<open>float64\<close> instead.
\<close>

datatype extra_id = ExtraUint32 u32 | ExtraFloat64 nat

datatype eino_role = AssistantRole | UserRole | ToolRole | SystemRole

record eino_message =
  em_role :: eino_role
  em_content :: string
  em_message_id :: "extra_id option"
  em_is_summary :: bool

definition convertMessage :: "registry option \<Rightarrow> message \<Rightarrow> eino_message" where
  "convertMessage reg m =
     \<lparr>em_role = (case reg of
                   None \<Rightarrow> UserRole
                 | Some r \<Rightarrow> if IsAgent (m_sender m) r \<noteq> None then AssistantRole else UserRole),
      em_content = m_content m, em_message_id = Some (ExtraUint32 (m_msg_id m)), em_is_summary = False\<rparr>"

definition convertMessages :: "registry option \<Rightarrow> message list \<Rightarrow> eino_message list" where
  "convertMessages reg ms = map (convertMessage reg) ms"

text \<open>The conversion keeps order and texts, and only registered agents speak as assistants.\<close>

lemma convertMessages_texts:
  "map em_content (convertMessages reg ms) = map m_content ms"
  by (simp add: convertMessages_def convertMessage_def)

lemma convertMessages_assistant:
  "x \<in> set (convertMessages (Some r) ms) \<Longrightarrow> em_role x = AssistantRole \<Longrightarrow>
     \<exists>m \<in> set ms. IsAgent (m_sender m) r \<noteq> None \<and> em_content x = m_content m"
  by (auto simp: convertMessages_def convertMessage_def split: if_splits) blast

subsection \<open>Persisting a summary\<close>

text \<open>The largest message id found in \<^verbatim>\<open>before\<close>; only values that are \<^verbatim>\<open>float64\<close> are looked at.\<close>

fun max_message_id :: "u32 \<Rightarrow> eino_message list \<Rightarrow> u32" where
  "max_message_id mx [] = mx"
| "max_message_id mx (m # ms) =
     (case em_message_id m of
        Some (ExtraFloat64 n) \<Rightarrow>
          (let i = word_of_nat n in max_message_id (if i > mx then i else mx) ms)
      | _ \<Rightarrow> max_message_id mx ms)"

text \<open>The first message marked as the summary.\<close>

fun summary_content :: "eino_message list \<Rightarrow> string" where
  "summary_content [] = []"
| "summary_content (m # ms) = (if em_is_summary m then em_content m else summary_content ms)"

definition summary_message :: "string \<Rightarrow> time \<Rightarrow> string \<Rightarrow> string \<Rightarrow> message" where
  "summary_message uuid now cid content =
     \<lparr>m_id = uuid, m_client_id = [], m_conv = cid, m_msg_id = 0, m_sender = ''system'', m_content = content,
      m_type = ''summary'', m_reply_to = 0, m_status = ''sent'', m_summarized = False, m_created = now,
      m_deleted = None\<rparr>"

text \<open>
  The callback \<^verbatim>\<open>buildSummarizeCallback\<close> returns: an error or nothing, and the database.  The insertion
  does not go through the store, so the message keeps id 0 and an empty client id.
\<close>

definition summarize_callback ::
  "string \<Rightarrow> time \<Rightarrow> string option \<Rightarrow> eino_message list \<Rightarrow> eino_message list \<Rightarrow> db
     \<Rightarrow> string option \<times> db" where
  "summarize_callback uuid now conv before after d =
     (case conv of
        None \<Rightarrow> (None, d)
      | Some cid \<Rightarrow>
          if cid = [] then (None, d)
          else
            (let mx = max_message_id 0 before; content = summary_content after in
             if mx = 0 then (None, d)
             else if content = [] then (None, d)
             else case msg_create now (summary_message uuid now cid content) d of
                    Inl e \<Rightarrow> (Some (''summarize callback: insert summary: '' @ store_error_msg e), d)
                  | Inr d1 \<Rightarrow> (None, msg_mark_summarized cid mx d1)))"

lemma max_message_id_converted: "max_message_id mx (convertMessages reg ms) = mx"
  by (induction ms) (simp_all add: convertMessages_def convertMessage_def)

text \<open>
  On the messages of a run as the executor converts them the callback does nothing: the ids are there,
  under another type than the one it asks for.
\<close>

theorem summary_of_a_fresh_run_not_persisted:
  "summarize_callback uuid now conv (convertMessages reg ms) after d = (None, d)"
  by (simp add: summarize_callback_def max_message_id_converted Let_def split: option.splits)

text \<open>
  The unique index on client id and sender admits one message with an empty client id from \<^verbatim>\<open>system\<close>
  in the whole table, so once any conversation has a summary, no summary is persisted again.
\<close>

theorem second_summary_is_rejected:
  assumes first: "summarize_callback uuid now (Some cid) before after d = (None, d')" and "d' \<noteq> d"
    and "cid' \<noteq> []" "max_message_id 0 before' \<noteq> 0" "summary_content after' \<noteq> []"
    and "\<And>m. m \<in> set (msgs d') \<Longrightarrow> \<exists>m' \<in> set (msgs d''). m_client_id m' = m_client_id m \<and> m_sender m' = m_sender m"
  shows "summarize_callback uuid' now' (Some cid') before' after' d''
    = (Some ''summarize callback: insert summary: store: duplicate key'', d'')"
proof -
  obtain d1 where d1: "msg_create now (summary_message uuid now cid (summary_content after)) d = Inr d1"
    "d' = msg_mark_summarized cid (max_message_id 0 before) d1"
    using first assms(2) by (auto simp: summarize_callback_def Let_def split: if_splits sum.splits)
  then have "\<exists>m \<in> set (msgs d'). m_client_id m = [] \<and> m_sender m = ''system''"
    by (auto simp: msg_create_def msg_mark_summarized_def summary_message_def msg_defaults_def split: if_splits)
  then obtain m where "m \<in> set (msgs d'')" "m_client_id m = []" "m_sender m = ''system''"
    using assms(6) by metis
  then have "list_ex (msg_conflict (summary_message uuid' now' cid' (summary_content after'))) (msgs d'')"
    by (auto simp: list_ex_iff msg_conflict_def summary_message_def)
  then show ?thesis
    using assms(3-5) by (simp add: summarize_callback_def Let_def msg_create_def)
qed

end
