(* ===== verification/AgentBuild.thy ===== *)
theory AgentBuild
  imports AgentContext FunctionRegistry "HOL-Library.Signed_Division"
begin

text \<open>
  How an agent is put together for a run: \<^verbatim>\<open>eino_agent.go\<close> (provider choice, \<^verbatim>\<open>Build\<close>),
  \<^verbatim>\<open>subagent.go\<close>, the chain of \<^verbatim>\<open>middleware.go\<close>, the tool registry and the MCP bridge of
  \<^verbatim>\<open>tools\<close>, and the tools made from the functions of client devices (\<^verbatim>\<open>dynamic_tool_provider.go\<close>,
  \<^verbatim>\<open>client_function_tool.go\<close>).  Chat models, tools and the agents of the agent library are type
  variables; their constructors are arguments.
\<close>

subsection \<open>The provider\<close>

text \<open>\<^verbatim>\<open>strings.ToLower\<close> on ASCII text.\<close>

definition lower_char :: "char \<Rightarrow> char" where
  "lower_char c = (let n = of_char c :: nat in if 65 \<le> n \<and> n \<le> 90 then char_of (n + 32) else c)"

definition toLower :: "string \<Rightarrow> string" where
  "toLower s = map lower_char s"

definition detectProvider :: "string \<Rightarrow> string \<Rightarrow> string" where
  "detectProvider model base_url =
     (let b = toLower base_url; m = toLower model in
      if contains b ''anthropic'' \<or> contains b ''claude'' then ''claude''
      else if contains b ''ollama'' \<or> contains b ''11434'' then ''ollama''
      else if contains b ''dashscope'' \<or> contains b ''qwen'' then ''qwen''
      else if prefix ''claude'' m then ''claude''
      else if prefix ''qwen'' m then ''qwen''
      else if prefix ''llama'' m \<or> prefix ''mistral'' m \<or> prefix ''gemma'' m then ''ollama''
      else ''openai'')"

text \<open>A provider makes a chat model from the configuration and the API key.\<close>

type_synonym 'm factory = "string \<rightharpoonup> (AgentConfig \<Rightarrow> string \<Rightarrow> string + 'm)"

definition RegisterProvider ::
  "string \<Rightarrow> (AgentConfig \<Rightarrow> string \<Rightarrow> string + 'm) \<Rightarrow> 'm factory \<Rightarrow> 'm factory" where
  "RegisterProvider name p f = f(name \<mapsto> p)"

definition factory_Create ::
  "'m factory \<Rightarrow> (string \<Rightarrow> string) \<Rightarrow> AgentConfig \<Rightarrow> agent_error + 'm" where
  "factory_Create f getenv config =
     (let name = detectProvider (ac_model config) (ac_base_url config) in
      case f name of
        None \<Rightarrow> Inl (under_sentinel ErrUnsupportedModel (''provider '' @ name @ '' not registered''))
      | Some p \<Rightarrow>
          let key = (if ac_api_key_env config = [] then [] else getenv (ac_api_key_env config)) in
          if ac_api_key_env config \<noteq> [] \<and> key = [] then Inl (sentinel ErrAPIKeyMissing)
          else (case p config key of
                  Inl m \<Rightarrow> Inl (both_errors ErrAgentBuild (plain_error m))
                | Inr cm \<Rightarrow> Inr cm))"

text \<open>
  A definition file must name a key variable (\<open>Validate\<close>), and \<^verbatim>\<open>Create\<close> refuses an unset one before it
  asks the provider, so a local model, whose provider ignores the key, needs a dummy key as well.
\<close>

lemma local_model_needs_a_key:
  assumes "Validate config = None" "\<And>v. getenv v = []" "f (detectProvider (ac_model config) (ac_base_url config)) \<noteq> None"
  shows "factory_Create f getenv config = Inl (sentinel ErrAPIKeyMissing)"
proof -
  have "ac_api_key_env config \<noteq> []"
    using assms(1) by (auto simp: Validate_def split: if_splits)
  then show ?thesis using assms(2,3) by (auto simp: factory_Create_def Let_def)
qed

subsection \<open>The tool registry\<close>

text \<open>A factory may fail; an unregistered name is skipped.  The returned errors are only logged.\<close>

type_synonym 't tool_factories = "string \<rightharpoonup> (string + 't)"

fun tools_Create :: "'t tool_factories \<Rightarrow> string list \<Rightarrow> 't list" where
  "tools_Create fs [] = []"
| "tools_Create fs (n # ns) =
     (case fs n of
        None \<Rightarrow> tools_Create fs ns
      | Some (Inl e) \<Rightarrow> tools_Create fs ns
      | Some (Inr t) \<Rightarrow> t # tools_Create fs ns)"

fun tools_Create_errors :: "'t tool_factories \<Rightarrow> string list \<Rightarrow> string list" where
  "tools_Create_errors fs [] = []"
| "tools_Create_errors fs (n # ns) =
     (case fs n of
        Some (Inl e) \<Rightarrow> (''tool '' @ n @ '': '' @ e) # tools_Create_errors fs ns
      | _ \<Rightarrow> tools_Create_errors fs ns)"

lemma tools_Create_all:
  "(\<And>n. n \<in> set ns \<Longrightarrow> \<exists>t. fs n = Some (Inr t)) \<Longrightarrow> tools_Create_errors fs ns = []
     \<and> map (\<lambda>t. Some (Inr t)) (tools_Create fs ns) = map fs ns"
proof (induction ns)
  case (Cons n ns)
  then obtain t where "fs n = Some (Inr t)" by force
  moreover have "tools_Create_errors fs ns = []
     \<and> map (\<lambda>t. Some (Inr t)) (tools_Create fs ns) = map fs ns"
    using Cons by auto
  ultimately show ?case by simp
qed simp

subsection \<open>The middleware chain\<close>

datatype middleware =
    MwDynamicTools
  | MwPatchToolCalls
  | MwSummarization int
  | MwToolReduction int
  | MwLogging
  | MwTracing

record builder_flags =
  bf_client_functions :: bool
  bf_llm_logger :: bool
  bf_tracing :: bool
  bf_init_ok :: "middleware \<Rightarrow> bool"

text \<open>The order is fixed; a middleware that fails to initialise is left out.\<close>

definition buildMiddleware :: "builder_flags \<Rightarrow> AgentConfig \<Rightarrow> middleware list" where
  "buildMiddleware b config =
     (let opt = (\<lambda>enabled mw. if enabled \<and> bf_init_ok b mw then [mw] else []);
          tokens = (if ac_summarization_tokens config \<le> 0 then 160000 else ac_summarization_tokens config);
          chars = (if ac_tool_reduction_max config \<le> 0 then 50000 else ac_tool_reduction_max config)
      in (if ac_enable_client_tools config \<and> bf_client_functions b then [MwDynamicTools] else [])
         @ opt (ac_enable_patch_tool_calls config) MwPatchToolCalls
         @ opt (ac_enable_summarization config) (MwSummarization tokens)
         @ opt (ac_enable_tool_reduction config) (MwToolReduction chars)
         @ (if bf_llm_logger b then [MwLogging] else [])
         @ (if bf_tracing b then [MwTracing] else []))"

text \<open>
  The middleware that writes tool messages and function-call updates is the logging middleware, so
  without a log directory clients see neither.
\<close>

lemma tool_messages_need_the_log:
  "MwLogging \<in> set (buildMiddleware b config) \<longleftrightarrow> bf_llm_logger b"
  by (simp add: buildMiddleware_def Let_def)

subsection \<open>Building an agent\<close>

record ('t, 'm, 'a) builder =
  bd_factory :: "'m factory"
  bd_getenv :: "string \<Rightarrow> string"
  bd_tools :: "'t tool_factories option"
  bd_registry :: "registry option"
  bd_mcp :: "(MCPServerConfig \<Rightarrow> string + 't list) option"
  bd_flags :: builder_flags
  bd_new_agent :: "AgentConfig \<Rightarrow> 'm \<Rightarrow> 't list \<Rightarrow> middleware list \<Rightarrow> string + 'a"
  bd_agent_tool :: "'a \<Rightarrow> 't"

definition mcp_tools :: "(MCPServerConfig \<Rightarrow> string + 't list) \<Rightarrow> MCPServerConfig \<Rightarrow> 't list" where
  "mcp_tools connect m =
     (if mcp_transport m = ''sse'' \<or> mcp_transport m = ''stdio'' then
        (case connect m of Inl e \<Rightarrow> [] | Inr ts \<Rightarrow> ts)
      else [])"

text \<open>
  \<^verbatim>\<open>Build\<close> and \<^verbatim>\<open>resolveSubAgents\<close> call each other; the sub-agent's own list of sub-agents is cleared
  first.
\<close>

function Build :: "('t, 'm, 'a) builder \<Rightarrow> AgentConfig \<Rightarrow> agent_error + 'a" where
  "Build b config =
     (case factory_Create (bd_factory b) (bd_getenv b) config of
        Inl e \<Rightarrow> Inl (both_errors ErrAgentBuild e)
      | Inr model \<Rightarrow>
          let own = (case bd_tools b of None \<Rightarrow> [] | Some fs \<Rightarrow> tools_Create fs (ac_tools config));
              subs = (case bd_registry b of
                        None \<Rightarrow> []
                      | Some r \<Rightarrow>
                          concat (map (\<lambda>i. case Get i r of
                              None \<Rightarrow> []
                            | Some sub \<Rightarrow>
                                (case Build b (sub\<lparr>ac_sub_agents := []\<rparr>) of
                                   Inl e \<Rightarrow> []
                                 | Inr a \<Rightarrow> [bd_agent_tool b a])) (ac_sub_agents config)));
              mcp = (case bd_mcp b of None \<Rightarrow> [] | Some connect \<Rightarrow>
                       concat (map (mcp_tools connect) (ac_mcp_servers config)))
          in (case bd_new_agent b config model (own @ subs @ mcp) (buildMiddleware (bd_flags b) config) of
                Inl m \<Rightarrow> Inl (both_errors ErrAgentBuild (plain_error m))
              | Inr a \<Rightarrow> Inr a))"
  by pat_completeness auto

termination
  by (relation "measure (\<lambda>(b, config). if ac_sub_agents config = [] then 0 else 1)") auto

declare Build.simps [simp del]

text \<open>\<^verbatim>\<open>resolveSubAgents\<close>: unknown sub-agents and failing builds are skipped.\<close>

definition resolveSubAgents :: "('t, 'm, 'a) builder \<Rightarrow> AgentConfig \<Rightarrow> 't list" where
  "resolveSubAgents b config =
     (case bd_registry b of
        None \<Rightarrow> []
      | Some r \<Rightarrow>
          concat (map (\<lambda>i. case Get i r of
              None \<Rightarrow> []
            | Some sub \<Rightarrow>
                (case Build b (sub\<lparr>ac_sub_agents := []\<rparr>) of
                   Inl e \<Rightarrow> []
                 | Inr a \<Rightarrow> [bd_agent_tool b a])) (ac_sub_agents config)))"

lemma Build_resolve:
  assumes "factory_Create (bd_factory b) (bd_getenv b) config = Inr model"
  shows "Build b config =
    (case bd_new_agent b config model
        ((case bd_tools b of None \<Rightarrow> [] | Some fs \<Rightarrow> tools_Create fs (ac_tools config))
         @ resolveSubAgents b config
         @ (case bd_mcp b of None \<Rightarrow> [] | Some connect \<Rightarrow>
              concat (map (mcp_tools connect) (ac_mcp_servers config))))
        (buildMiddleware (bd_flags b) config) of
       Inl m \<Rightarrow> Inl (both_errors ErrAgentBuild (plain_error m))
     | Inr a \<Rightarrow> Inr a)"
  using assms by (subst Build.simps) (simp add: resolveSubAgents_def Let_def)

text \<open>
  The depth limit: a sub-agent is built the way an agent without sub-agents is, whatever its own file
  lists, and however agents refer to each other.
\<close>

theorem sub_agents_do_not_nest:
  "Build b (config\<lparr>ac_sub_agents := []\<rparr>) = Build (b\<lparr>bd_registry := None\<rparr>) (config\<lparr>ac_sub_agents := []\<rparr>)"
  by (subst (1 2) Build.simps) (simp split: option.splits sum.splits)

text \<open>
  Failing tools, sub-agents and MCP servers only shorten the tool list; a build fails when the model or
  the agent itself cannot be made, and the error always counts as a build error.
\<close>

theorem build_fails_only_for_model_or_agent:
  "Build b config = Inl e \<Longrightarrow> is_error e ErrAgentBuild
     \<and> ((\<exists>x. factory_Create (bd_factory b) (bd_getenv b) config = Inl x)
        \<or> (\<exists>model ts mws m. bd_new_agent b config model ts mws = Inl m))"
  by (subst (asm) Build.simps) (auto simp: Let_def split: sum.splits)

subsection \<open>The MCP bridge\<close>

text \<open>
  One client per server name for the whole process.  Clients are numbered as they are opened; tools
  obtained through a client work as long as it is open.
\<close>

record mcp_bridge =
  mb_clients :: "string \<rightharpoonup> nat"
  mb_next :: nat
  mb_closed :: "nat set"

datatype mcp_failure = McpCreate | McpStart | McpInitialize | McpGetTools

text \<open>
  \<^verbatim>\<open>ConnectSSE\<close> and \<^verbatim>\<open>ConnectStdio\<close>: a client that fails a step after its creation and start is closed
  again; a successful one replaces, and closes, the one stored under the same name.
\<close>

definition mcp_connect :: "mcp_failure option \<Rightarrow> string \<Rightarrow> mcp_bridge \<Rightarrow> nat option \<times> mcp_bridge" where
  "mcp_connect failure name b =
     (let cli = mb_next b in
      case failure of
        Some McpCreate \<Rightarrow> (None, b)
      | Some McpStart \<Rightarrow> (None, b\<lparr>mb_next := Suc cli\<rparr>)
      | Some f \<Rightarrow> (None, b\<lparr>mb_next := Suc cli, mb_closed := insert cli (mb_closed b)\<rparr>)
      | None \<Rightarrow>
          (Some cli,
           b\<lparr>mb_next := Suc cli,
             mb_closed := (case mb_clients b name of None \<Rightarrow> mb_closed b
                           | Some old \<Rightarrow> insert old (mb_closed b)),
             mb_clients := (mb_clients b)(name \<mapsto> cli)\<rparr>))"

definition mcp_CloseAll :: "mcp_bridge \<Rightarrow> mcp_bridge" where
  "mcp_CloseAll b = b\<lparr>mb_closed := mb_closed b \<union> ran (mb_clients b), mb_clients := Map.empty\<rparr>"

text \<open>
  Every run builds its agent anew, so of two runs that overlap and use servers of the same name, the
  second closes the client under the first one's tools.
\<close>

theorem second_build_closes_first_client:
  assumes "mcp_connect None name b = (Some c1, b1)"
  shows "\<exists>c2 b2. mcp_connect None name b1 = (Some c2, b2) \<and> c1 \<in> mb_closed b2 \<and> c2 \<noteq> c1"
  using assms by (auto simp: mcp_connect_def Let_def)

text \<open>A failed attempt leaves the stored client of the name in place and open.\<close>

lemma failed_connect_keeps_client:
  "mb_clients b name = Some c \<Longrightarrow> c < mb_next b \<Longrightarrow> c \<notin> mb_closed b \<Longrightarrow>
     mcp_connect (Some f) name b = (r, b') \<Longrightarrow>
     r = None \<and> mb_clients b' name = Some c \<and> c \<notin> mb_closed b'"
  by (cases f) (auto simp: mcp_connect_def Let_def)

end
