(* ===== verification/AgentBroadcast.thy ===== *)
theory AgentBroadcast
  imports HandlerBase AgentRegistry
begin

text \<open>
  \<^verbatim>\<open>internal/agent/broadcast.go\<close> and \<^verbatim>\<open>stream_bridge.go\<close>.  A push is a user and one update; the
  helper functions return the pushes they hand to the WebSocket server, in order.  An error of the
  server is logged by the helper and never seen by the caller, so the helpers have no error value.
  The bridge turns the events of a run into snapshots of the text produced so far.
\<close>

subsection \<open>Pushes\<close>

type_synonym push = "string \<times> data_update"

text \<open>The registry is optional; without one nobody is an agent.\<close>

definition helper_isAgent :: "registry option \<Rightarrow> string \<Rightarrow> bool" where
  "helper_isAgent reg uid = (case reg of None \<Rightarrow> False | Some r \<Rightarrow> IsAgent uid r \<noteq> None)"

definition broadcastEphemeral :: "string \<Rightarrow> string \<Rightarrow> payload \<Rightarrow> push list" where
  "broadcastEphemeral target ty pl =
     [(target, \<lparr>du_seq = 0, du_type = ty, du_payload = pl, du_created = zero_time\<rparr>)]"

definition SendStreamUpdate ::
  "registry option \<Rightarrow> time \<Rightarrow> string \<Rightarrow> string \<Rightarrow> string \<Rightarrow> string \<Rightarrow> string \<Rightarrow> bool \<Rightarrow> push list" where
  "SendStreamUpdate reg now human agent cid stream txt is_done =
     (let u = \<lparr>du_seq = 0, du_type = UpdateTypeStreaming,
               du_payload = PStreaming stream agent cid txt is_done (helper_isAgent reg agent) (now div second),
               du_created = zero_time\<rparr>
      in map (\<lambda>uid. (uid, u)) [human, agent])"

definition SendTyping ::
  "registry option \<Rightarrow> time \<Rightarrow> string \<Rightarrow> string \<Rightarrow> string \<Rightarrow> bool \<Rightarrow> push list" where
  "SendTyping reg now agent target cid is_typing =
     [(target, \<lparr>du_seq = 0, du_type = UpdateTypeTyping,
                du_payload = PTyping agent cid is_typing (helper_isAgent reg agent) (now div second),
                du_created = zero_time\<rparr>)]"

definition SendAgentStatus ::
  "time \<Rightarrow> string \<Rightarrow> string \<Rightarrow> string \<Rightarrow> string \<Rightarrow> push list" where
  "SendAgentStatus now human agent cid status =
     broadcastEphemeral human UpdateTypeAgentStatus (PAgentStatus agent cid status (now div second))"

definition SendAgentTimeout ::
  "time \<Rightarrow> string \<Rightarrow> string \<Rightarrow> string \<Rightarrow> string \<Rightarrow> push list" where
  "SendAgentTimeout now human agent cid reason =
     broadcastEphemeral human UpdateTypeAgentTimeout (PAgentTimeout agent cid reason (now div second))"

definition SendFunctionCall ::
  "time \<Rightarrow> string \<Rightarrow> string \<Rightarrow> string \<Rightarrow> string \<Rightarrow> string \<Rightarrow> string \<Rightarrow> string \<Rightarrow> int \<Rightarrow> bool \<Rightarrow> push list" where
  "SendFunctionCall now human agent cid name args result err ms is_done =
     broadcastEphemeral human UpdateTypeFunctionCall
       (PFunctionCall agent cid name args result err ms is_done (now div second))"

definition SendConversationUpdate :: "string \<Rightarrow> string \<Rightarrow> time \<Rightarrow> push list" where
  "SendConversationUpdate human cid updated_at =
     broadcastEphemeral human UpdateTypeConversation
       (PConvAction cid ''update'' (if updated_at = zero_time then None else Some (updated_at div second)))"

text \<open>\<^verbatim>\<open>SendEphemeralMessageUpdate\<close>, used for tool messages.\<close>

definition SendEphemeralMessageUpdate :: "string \<Rightarrow> payload \<Rightarrow> push list" where
  "SendEphemeralMessageUpdate target pl =
     [(target, \<lparr>du_seq = 0, du_type = UpdateTypeMessage, du_payload = pl, du_created = zero_time\<rparr>)]"

text \<open>
  \<^verbatim>\<open>BroadcastMessageUpdate\<close>: the persisted rows, each to its own user under its own number.
\<close>

definition BroadcastMessageUpdate :: "user_update list \<Rightarrow> push list" where
  "BroadcastMessageUpdate us =
     map (\<lambda>u. (u_user u, \<lparr>du_seq = u_seq u, du_type = UpdateTypeMessage, du_payload = u_payload u,
                          du_created = u_created u\<rparr>)) us"

text \<open>
  \<^verbatim>\<open>extractBaseUserID\<close>: the part before the first slash, if it is not empty; daemons connect under it.
\<close>

definition extractBaseUserID :: "string \<Rightarrow> string" where
  "extractBaseUserID agent =
     (let b = takeWhile (\<lambda>c. c \<noteq> CHR ''/'') agent in if b = [] then agent else b)"

lemma extractBaseUserID_slash:
  assumes "CHR ''/'' \<notin> set u" "u \<noteq> []"
  shows "extractBaseUserID u = u" and "extractBaseUserID (u @ ''/'' @ rest) = u"
proof -
  have no: "c \<noteq> CHR ''/''" if "c \<in> set u" for c using that assms(1) by blast
  have "takeWhile (\<lambda>c. c \<noteq> CHR ''/'') u = u"
    using no by (rule takeWhile_eq_all_conv [THEN iffD2, rule_format])
  then show "extractBaseUserID u = u"
    using assms(2) by (simp only: extractBaseUserID_def Let_def if_False)
  have "takeWhile (\<lambda>c. c \<noteq> CHR ''/'') (u @ ''/'' @ rest) = u"
    using takeWhile_append2 [of u "\<lambda>c. c \<noteq> CHR ''/''" "''/'' @ rest"] no by simp
  then show "extractBaseUserID (u @ ''/'' @ rest) = u"
    using assms(2) by (simp only: extractBaseUserID_def Let_def if_False)
qed

text \<open>What the ephemeral helpers share: the number 0, which a client never stores.\<close>

lemmas broadcast_defs = broadcastEphemeral_def SendStreamUpdate_def SendTyping_def SendAgentStatus_def
  SendAgentTimeout_def SendFunctionCall_def SendConversationUpdate_def SendEphemeralMessageUpdate_def

lemma ephemeral_pushes [simp]:
  "p \<in> set (SendStreamUpdate reg now human agent cid stream txt dn) \<Longrightarrow> du_seq (snd p) = 0"
  "p \<in> set (SendTyping reg now agent target cid t) \<Longrightarrow> du_seq (snd p) = 0"
  "p \<in> set (SendAgentStatus now human agent cid st) \<Longrightarrow> du_seq (snd p) = 0"
  "p \<in> set (SendAgentTimeout now human agent cid st) \<Longrightarrow> du_seq (snd p) = 0"
  "p \<in> set (SendConversationUpdate human cid at) \<Longrightarrow> du_seq (snd p) = 0"
  by (auto simp: broadcast_defs Let_def)

lemma BroadcastMessageUpdate_append [simp]:
  "BroadcastMessageUpdate (us @ vs) = BroadcastMessageUpdate us @ BroadcastMessageUpdate vs"
  by (simp add: BroadcastMessageUpdate_def)

subsection \<open>The stream bridge\<close>

text \<open>
  The events of the agent library's iterator, as far as the bridge looks at them.  A streaming output
  is the list of the pieces received before the stream ends, and the error it ends in, if it does not
  end regularly.  Interrupt data that is not a string is \<open>None\<close>.
\<close>

record interrupt_ctx =
  ic_id :: string
  ic_is_root :: bool
  ic_info :: "string option"

record interrupt_event =
  ie_data :: "string option"
  ie_contexts :: "interrupt_ctx list"

datatype 'e message_output =
    Whole "string option"
  | Streaming "string list" "'e option"

record 'e agent_event =
  ev_err :: "'e option"
  ev_interrupted :: "interrupt_event option"
  ev_output :: "(bool \<times> 'e message_output) option"

record InterruptInfo =
  ii_question :: string
  ii_interrupt_id :: string
  ii_tool_msg_id :: u32

datatype 'e text_event =
    TextDelta string
  | TextDone
  | TextErr 'e
  | TextInterrupt InterruptInfo

datatype 'e stream_chunk =
    Snapshot string
  | ChunkDone
  | ChunkErr 'e

text \<open>The text of one output; the boolean of an output says that it has the tool role.\<close>

fun output_texts :: "'e message_output \<Rightarrow> 'e text_event list" where
  "output_texts (Whole None) = []"
| "output_texts (Whole (Some c)) = (if c = [] then [] else [TextDelta c])"
| "output_texts (Streaming ps e) =
     map TextDelta (filter (\<lambda>p. p \<noteq> []) ps) @ (case e of None \<Rightarrow> [] | Some x \<Rightarrow> [TextErr x])"

definition output_fails :: "'e message_output \<Rightarrow> bool" where
  "output_fails mo = (case mo of Streaming _ (Some _) \<Rightarrow> True | _ \<Rightarrow> False)"

text \<open>The root cause among the interrupt contexts, or the first one.\<close>

definition chosen_context :: "interrupt_ctx list \<Rightarrow> interrupt_ctx option" where
  "chosen_context cs =
     (case cs of [] \<Rightarrow> None
      | c # _ \<Rightarrow> (case find ic_is_root cs of None \<Rightarrow> Some c | Some r \<Rightarrow> Some r))"

definition interrupt_info :: "u32 \<Rightarrow> interrupt_event \<Rightarrow> InterruptInfo" where
  "interrupt_info tool_msg ie =
     (let q0 = (case ie_data ie of None \<Rightarrow> [] | Some s \<Rightarrow> s) in
      case chosen_context (ie_contexts ie) of
        None \<Rightarrow> \<lparr>ii_question = q0, ii_interrupt_id = [], ii_tool_msg_id = tool_msg\<rparr>
      | Some c \<Rightarrow>
          \<lparr>ii_question = (if q0 = [] then (case ic_info c of None \<Rightarrow> [] | Some s \<Rightarrow> s) else q0),
           ii_interrupt_id = ic_id c, ii_tool_msg_id = tool_msg\<rparr>)"

text \<open>
  The reading goroutine of \<^verbatim>\<open>BridgeWithInterrupt\<close>: what it puts on the text channel before it closes
  it.  \<open>ended\<close> says that the iterator is exhausted after the given events; otherwise the context
  has ended, and the goroutine returns without a last event.
\<close>

fun read_with_interrupt :: "bool \<Rightarrow> u32 \<Rightarrow> 'e agent_event list \<Rightarrow> 'e text_event list" where
  "read_with_interrupt ended tm [] = (if ended then [TextDone] else [])"
| "read_with_interrupt ended tm (e # es) =
     (case ev_err e of
        Some x \<Rightarrow> [TextErr x]
      | None \<Rightarrow>
          (case ev_interrupted e of
             Some ie \<Rightarrow> [TextInterrupt (interrupt_info tm ie)]
           | None \<Rightarrow>
               (case ev_output e of
                  None \<Rightarrow> read_with_interrupt ended tm es
                | Some (is_tool, mo) \<Rightarrow>
                    if is_tool then read_with_interrupt ended tm es
                    else if output_fails mo then output_texts mo
                    else output_texts mo @ read_with_interrupt ended tm es)))"

text \<open>The reading goroutine of \<^verbatim>\<open>Bridge\<close>, which does not know interrupts.\<close>

fun read_plain :: "bool \<Rightarrow> 'e agent_event list \<Rightarrow> 'e text_event list" where
  "read_plain ended [] = (if ended then [TextDone] else [])"
| "read_plain ended (e # es) =
     (case ev_err e of
        Some x \<Rightarrow> [TextErr x]
      | None \<Rightarrow>
          (case ev_output e of
             None \<Rightarrow> read_plain ended es
           | Some (is_tool, mo) \<Rightarrow>
               if is_tool then read_plain ended es
               else if output_fails mo then output_texts mo
               else output_texts mo @ read_plain ended es))"

text \<open>
  The \<^verbatim>\<open>select\<close> loop: which case is taken is the scheduler's choice; when the given choices are used up,
  the loop receives.  An empty list of text events is a closed channel.
\<close>

datatype choice = Receive | Tick | Cancelled

definition flush :: "string \<Rightarrow> 'e stream_chunk list" where
  "flush buf = (if buf = [] then [] else [Snapshot buf])"

fun bridge_drain ::
  "'e text_event list \<Rightarrow> string \<Rightarrow> 'e stream_chunk list \<times> InterruptInfo option" where
  "bridge_drain [] buf = (flush buf @ [ChunkDone], None)"
| "bridge_drain (TextInterrupt i # ts) buf = (flush buf, Some i)"
| "bridge_drain (TextErr e # ts) buf = (flush buf @ [ChunkErr e], None)"
| "bridge_drain (TextDone # ts) buf = (flush buf @ [ChunkDone], None)"
| "bridge_drain (TextDelta s # ts) buf = bridge_drain ts (buf @ s)"

fun bridge_loop ::
  "choice list \<Rightarrow> 'e text_event list \<Rightarrow> string \<Rightarrow> 'e stream_chunk list \<times> InterruptInfo option" where
  "bridge_loop [] ts buf = bridge_drain ts buf"
| "bridge_loop (Cancelled # cs) ts buf = (flush buf, None)"
| "bridge_loop (Tick # cs) ts buf =
     (let (out, i) = bridge_loop cs ts buf in (flush buf @ out, i))"
| "bridge_loop (Receive # cs) (TextDelta s # ts) buf = bridge_loop cs ts (buf @ s)"
| "bridge_loop (Receive # cs) ts buf = bridge_drain ts buf"

definition BridgeWithInterrupt ::
  "choice list \<Rightarrow> bool \<Rightarrow> u32 \<Rightarrow> 'e agent_event list \<Rightarrow> 'e stream_chunk list \<times> InterruptInfo option" where
  "BridgeWithInterrupt cs ended tm es = bridge_loop cs (read_with_interrupt ended tm es) []"

definition Bridge :: "choice list \<Rightarrow> bool \<Rightarrow> 'e agent_event list \<Rightarrow> 'e stream_chunk list" where
  "Bridge cs ended es = fst (bridge_loop cs (read_plain ended es) [])"

subsection \<open>Facts about the bridge\<close>

fun chunk_texts :: "'e stream_chunk list \<Rightarrow> string list" where
  "chunk_texts [] = []"
| "chunk_texts (Snapshot s # cs) = s # chunk_texts cs"
| "chunk_texts (_ # cs) = chunk_texts cs"

text \<open>The text the receiver is left with: it overwrites its buffer with every snapshot.\<close>

fun last_text :: "string \<Rightarrow> 'e stream_chunk list \<Rightarrow> string" where
  "last_text t [] = t"
| "last_text t (Snapshot s # cs) = last_text s cs"
| "last_text t (_ # cs) = last_text t cs"

text \<open>The text an uninterrupted receiver should see, and how the stream ends.\<close>

fun stream_text_of :: "'e text_event list \<Rightarrow> string" where
  "stream_text_of [] = []"
| "stream_text_of (TextDelta s # ts) = s @ stream_text_of ts"
| "stream_text_of (_ # ts) = []"

fun stream_end :: "'e text_event list \<Rightarrow> 'e stream_chunk list \<times> InterruptInfo option" where
  "stream_end [] = ([ChunkDone], None)"
| "stream_end (TextDelta s # ts) = stream_end ts"
| "stream_end (TextDone # ts) = ([ChunkDone], None)"
| "stream_end (TextErr e # ts) = ([ChunkErr e], None)"
| "stream_end (TextInterrupt i # ts) = ([], Some i)"

lemma last_text_append [simp]: "last_text t (xs @ ys) = last_text (last_text t xs) ys"
  by (induction t xs rule: last_text.induct) auto

lemma chunk_texts_append [simp]: "chunk_texts (xs @ ys) = chunk_texts xs @ chunk_texts ys"
  by (induction xs rule: chunk_texts.induct) auto

lemma chunk_texts_flush [simp]: "chunk_texts (flush buf) = (if buf = [] then [] else [buf])"
  by (simp add: flush_def)

lemma last_text_flush [simp]: "last_text t (flush buf) = (if buf = [] then t else buf)"
  by (simp add: flush_def)

lemma last_text_stream_end [simp]: "last_text t (fst (stream_end ts)) = t"
  by (induction ts rule: stream_end.induct) auto

lemma bridge_drain_eq:
  "bridge_drain ts buf = (flush (buf @ stream_text_of ts) @ fst (stream_end ts), snd (stream_end ts))"
  by (induction ts buf rule: bridge_drain.induct) auto

text \<open>Snapshots only grow: each is a prefix of every later one and of the whole text.\<close>

lemma bridge_loop_snapshots:
  "sorted_wrt prefix (chunk_texts (fst (bridge_loop cs ts buf)))
   \<and> (\<forall>s \<in> set (chunk_texts (fst (bridge_loop cs ts buf))). prefix buf s \<and> prefix s (buf @ stream_text_of ts))"
proof (induction cs ts buf rule: bridge_loop.induct)
  case (1 ts buf)
  have "chunk_texts (fst (stream_end ts)) = []"
    by (induction ts rule: stream_end.induct) auto
  then show ?case by (auto simp: bridge_drain_eq)
next
  case (3 cs ts buf)
  then show ?case by (auto simp: split_beta Let_def)
next
  case (4 cs s ts buf)
  then show ?case by (auto dest: append_prefixD)
qed (auto simp: bridge_drain_eq)

lemma bridge_loop_text:
  "Cancelled \<notin> set cs \<Longrightarrow>
     last_text t (fst (bridge_loop cs ts buf))
       = (if buf @ stream_text_of ts = [] then t else buf @ stream_text_of ts)"
  by (induction cs ts buf arbitrary: t rule: bridge_loop.induct)
     (auto simp: bridge_drain_eq split_beta Let_def)

lemma bridge_loop_end:
  "Cancelled \<notin> set cs \<Longrightarrow>
     snd (bridge_loop cs ts buf) = snd (stream_end ts)
     \<and> (\<exists>out. fst (bridge_loop cs ts buf) = out @ fst (stream_end ts)
           \<and> (\<forall>c \<in> set out. \<exists>s. c = Snapshot s))"
proof (induction cs ts buf rule: bridge_loop.induct)
  case (3 cs ts buf)
  then obtain out where out: "snd (bridge_loop cs ts buf) = snd (stream_end ts)"
    "fst (bridge_loop cs ts buf) = out @ fst (stream_end ts)" "\<forall>c \<in> set out. \<exists>s. c = Snapshot s"
    by auto
  then have "fst (bridge_loop (Tick # cs) ts buf) = (flush buf @ out) @ fst (stream_end ts)"
    by (simp add: split_beta Let_def)
  moreover have "\<forall>c \<in> set (flush buf @ out). \<exists>s. c = Snapshot s"
    using out(3) by (auto simp: flush_def)
  ultimately show ?case using out(1) by (auto simp: split_beta Let_def)
qed (auto simp: bridge_drain_eq flush_def)

text \<open>
  Whatever the ticker does, a run that is not cancelled leaves the receiver with the whole text and the
  same ending; the snapshots in between are growing prefixes of it.  Dropped frames do not matter.
\<close>

theorem snapshots_independent_of_schedule:
  assumes "Cancelled \<notin> set cs"
  shows "last_text [] (fst (BridgeWithInterrupt cs ended tm es)) = stream_text_of (read_with_interrupt ended tm es)"
    and "snd (BridgeWithInterrupt cs ended tm es) = snd (stream_end (read_with_interrupt ended tm es))"
    and "sorted_wrt prefix (chunk_texts (fst (BridgeWithInterrupt cs ended tm es)))"
    and "s \<in> set (chunk_texts (fst (BridgeWithInterrupt cs ended tm es))) \<Longrightarrow>
           prefix s (stream_text_of (read_with_interrupt ended tm es))"
  using assms bridge_loop_text [of cs "[]" "read_with_interrupt ended tm es" "[]"]
    bridge_loop_end [of cs "read_with_interrupt ended tm es" "[]"]
    bridge_loop_snapshots [of cs "read_with_interrupt ended tm es" "[]"]
  by (auto simp: BridgeWithInterrupt_def)

text \<open>
  A cancelled context ends the stream like a regular end: the receiver sees the text so far, no error
  and no interrupt.  If the reader notices first, the loop even reports a regular end.
\<close>

lemma bridge_drain_done: "bridge_drain (ts @ [TextDone]) buf = bridge_drain ts buf"
  by (induction ts buf rule: bridge_drain.induct) auto

lemma bridge_loop_done: "bridge_loop cs (ts @ [TextDone]) buf = bridge_loop cs ts buf"
  by (induction cs ts buf rule: bridge_loop.induct) (simp_all add: bridge_drain_done)

lemma read_ended:
  "read_with_interrupt True tm es \<in>
     {read_with_interrupt False tm es, read_with_interrupt False tm es @ [TextDone]}"
  by (induction es) (auto split: option.splits)

lemma ended_context_reads_as_done:
  "bridge_loop cs (read_with_interrupt False tm es) buf = bridge_loop cs (read_with_interrupt True tm es) buf"
  using read_ended [of tm es] by (auto simp: bridge_loop_done)

lemma cancelled_bridge:
  "bridge_loop (Cancelled # cs) ts buf = (flush buf, None)"
  by simp

text \<open>Without interrupt events the two bridges read the same.\<close>

lemma read_plain_eq:
  "(\<forall>e \<in> set es. ev_interrupted e = None) \<Longrightarrow> read_with_interrupt ended tm es = read_plain ended es"
  by (induction es) (auto split: option.splits)

text \<open>Tool results never reach the user.\<close>

lemma tool_output_skipped:
  "ev_err e = None \<Longrightarrow> ev_interrupted e = None \<Longrightarrow> ev_output e = Some (True, mo) \<Longrightarrow>
     read_with_interrupt ended tm (e # es) = read_with_interrupt ended tm es"
  by simp

end
