(* ===== verification/DynamicTools.thy ===== *)
theory DynamicTools
  imports AgentBuild AgentBroadcast
begin

text \<open>
  \<^verbatim>\<open>dynamic_tool_provider.go\<close>, \<^verbatim>\<open>client_function_tool.go\<close> and \<^verbatim>\<open>tools/ask_user.go\<close>: the tools an
  agent gets at the start of a run from the functions its devices registered, and what such a tool
  answers.  Go iterates over maps in no fixed order; the orders are arguments (\<open>ord1\<close>, \<open>ord2\<close>).
\<close>

subsection \<open>Choosing the functions\<close>

definition applyFilters :: "ClientToolsConfig \<Rightarrow> function_info list \<Rightarrow> function_info list" where
  "applyFilters cfg fns =
     filter (\<lambda>fn. fi_name fn \<notin> set (ct_excluded cfg)
       \<and> (ct_function_tags cfg = [] \<or> list_ex (\<lambda>t. t \<in> set (ct_function_tags cfg)) (fi_tags fn))) fns"

text \<open>The loop over one device's functions, and over the devices in ascending order.\<close>

type_synonym seen_funcs = "(string \<times> (string \<times> function_info)) list"

definition see_put :: "string \<Rightarrow> string \<times> function_info \<Rightarrow> seen_funcs \<Rightarrow> seen_funcs" where
  "see_put k v seen =
     (if k \<in> fst ` set seen then map (\<lambda>(k', v'). if k' = k then (k, v) else (k', v')) seen
      else seen @ [(k, v)])"

fun see_functions :: "string \<Rightarrow> function_info list \<Rightarrow> seen_funcs \<Rightarrow> seen_funcs" where
  "see_functions dev [] seen = seen"
| "see_functions dev (fn # fns) seen =
     see_functions dev fns
       (case map_of seen (fi_name fn) of
          None \<Rightarrow> see_put (fi_name fn) (dev, fn) seen
        | Some (dev', _) \<Rightarrow> if dev < dev' then see_put (fi_name fn) (dev, fn) seen else seen)"

fun see_devices :: "(string \<rightharpoonup> function_info list) \<Rightarrow> string list \<Rightarrow> seen_funcs \<Rightarrow> seen_funcs" where
  "see_devices m [] seen = seen"
| "see_devices m (d # ds) seen =
     see_devices m ds (case m d of None \<Rightarrow> seen | Some fns \<Rightarrow> see_functions d fns seen)"

text \<open>
  The functions per device after deduplication, filtered; \<open>devices\<close> are the keys of the map in the order
  Go's sort leaves them.
\<close>

definition offered_functions ::
  "(seen_funcs \<Rightarrow> seen_funcs) \<Rightarrow> (string list \<Rightarrow> string list) \<Rightarrow> ClientToolsConfig
     \<Rightarrow> (string \<rightharpoonup> function_info list) \<Rightarrow> string list \<Rightarrow> (string \<times> function_info list) list" where
  "offered_functions ord1 ord2 cfg m devices =
     (let entries = map snd (ord1 (see_devices m (sort devices) []))
      in map (\<lambda>d. (d, applyFilters cfg (map snd (filter (\<lambda>e. fst e = d) entries))))
           (ord2 (remdups (map fst entries))))"

subsection \<open>Injection\<close>

text \<open>
  The last part of \<^verbatim>\<open>BeforeAgent\<close>: injected tools replace existing ones of the same name, and among
  themselves the first of a name stays.  \<open>tn\<close> is the name a tool's \<^verbatim>\<open>Info\<close> reports, if it reports one.
\<close>

fun dedup_tools :: "('t \<Rightarrow> string option) \<Rightarrow> string set \<Rightarrow> 't list \<Rightarrow> 't list" where
  "dedup_tools tn seen [] = []"
| "dedup_tools tn seen (t # ts) =
     (case tn t of
        None \<Rightarrow> t # dedup_tools tn seen ts
      | Some n \<Rightarrow> if n \<in> seen then dedup_tools tn seen ts else t # dedup_tools tn (insert n seen) ts)"

definition merge_tools :: "('t \<Rightarrow> string option) \<Rightarrow> 't list \<Rightarrow> 't list \<Rightarrow> 't list" where
  "merge_tools tn existing merged =
     (if merged = [] then existing
      else filter (\<lambda>t. case tn t of None \<Rightarrow> True | Some n \<Rightarrow> n \<notin> set (List.map_filter tn merged)) existing
           @ dedup_tools tn {} merged)"

record 't dynamic_env =
  dy_functions :: "string \<Rightarrow> string + (string \<rightharpoonup> function_info list)"
  dy_devices :: "string list"
  dy_ord1 :: "seen_funcs \<Rightarrow> seen_funcs"
  dy_ord2 :: "string list \<Rightarrow> string list"
  dy_client_tool :: "function_info \<Rightarrow> string \<Rightarrow> string \<Rightarrow> int \<Rightarrow> 't option"
  dy_registry :: "'t tool_factories option"
  dy_dynamic_tools :: "string list"
  dy_name :: "'t \<Rightarrow> string option"

definition client_function_tools :: "'t dynamic_env \<Rightarrow> ClientToolsConfig \<Rightarrow> string \<Rightarrow> 't list" where
  "client_function_tools y cfg agent =
     (if agent = [] then []
      else case dy_functions y (extractBaseUserID agent) of
        Inl e \<Rightarrow> []
      | Inr m \<Rightarrow>
          concat (map (\<lambda>(d, fns). List.map_filter
                (\<lambda>fn. dy_client_tool y fn agent d (ct_call_timeout cfg sdiv msec)) fns)
            (offered_functions (dy_ord1 y) (dy_ord2 y) cfg m (dy_devices y))))"

definition BeforeAgent :: "'t dynamic_env \<Rightarrow> ClientToolsConfig \<Rightarrow> string \<Rightarrow> 't list \<Rightarrow> 't list" where
  "BeforeAgent y cfg agent existing =
     (let static = (case dy_registry y of
                      None \<Rightarrow> []
                    | Some fs \<Rightarrow> if dy_dynamic_tools y = [] then [] else tools_Create fs (dy_dynamic_tools y))
      in merge_tools (dy_name y) existing (client_function_tools y cfg agent @ static))"

subsection \<open>Facts about the injection\<close>

lemma map_filter_append [simp]:
  "List.map_filter f (xs @ ys) = List.map_filter f xs @ List.map_filter f ys"
  by (simp add: List.map_filter_def)

lemma dedup_tools_names:
  "set (List.map_filter tn (dedup_tools tn seen ts)) = set (List.map_filter tn ts) - seen
   \<and> distinct (List.map_filter tn (dedup_tools tn seen ts))"
  by (induction tn seen ts rule: dedup_tools.induct)
     (auto simp: map_filter_simps split: option.splits)

lemma map_filter_filter_not:
  "set (List.map_filter tn (filter (\<lambda>t. case tn t of None \<Rightarrow> True | Some n \<Rightarrow> n \<notin> N) ts)) \<inter> N = {}"
  by (induction ts) (auto simp: map_filter_simps split: option.splits)

lemma distinct_map_filter_filter:
  "distinct (List.map_filter tn ts) \<Longrightarrow> distinct (List.map_filter tn (filter p ts))"
proof (induction ts)
  case (Cons t ts)
  have "set (List.map_filter tn (filter p ts)) \<subseteq> set (List.map_filter tn ts)"
    by (auto simp: List.map_filter_def)
  then show ?case using Cons by (auto simp: map_filter_simps split: option.splits)
qed (simp add: map_filter_simps)

text \<open>
  Tool names stay unique, every injected name is there, and an existing tool is dropped only for an
  injected one of its name.
\<close>

theorem injected_tools_override:
  assumes "distinct (List.map_filter tn existing)"
  shows "distinct (List.map_filter tn (merge_tools tn existing merged))"
    and "set (List.map_filter tn (merge_tools tn existing merged))
       = set (List.map_filter tn existing) \<union> set (List.map_filter tn merged)"
proof -
  let ?N = "set (List.map_filter tn merged)"
  let ?keep = "filter (\<lambda>t. case tn t of None \<Rightarrow> True | Some n \<Rightarrow> n \<notin> ?N) existing"
  note names = dedup_tools_names [of tn "{}" merged] map_filter_filter_not [of tn ?N existing]
  have keep: "set (List.map_filter tn ?keep) = set (List.map_filter tn existing) - ?N"
    by (induction existing) (auto simp: map_filter_simps split: option.splits)
  show "distinct (List.map_filter tn (merge_tools tn existing merged))"
    using names distinct_map_filter_filter [OF assms] assms
    by (auto simp: merge_tools_def)
  show "set (List.map_filter tn (merge_tools tn existing merged))
      = set (List.map_filter tn existing) \<union> ?N"
    using names keep by (auto simp: merge_tools_def map_filter_simps)
qed

subsection \<open>Which device answers a function\<close>

lemma see_functions_spec:
  assumes "\<forall>e \<in> set seen. fst (snd e) \<le> dev" "distinct (map fst seen)"
  shows "distinct (map fst (see_functions dev fns seen)) \<and> set seen \<subseteq> set (see_functions dev fns seen)
    \<and> fst ` set (see_functions dev fns seen) = fst ` set seen \<union> fi_name ` set fns
    \<and> (\<forall>e \<in> set (see_functions dev fns seen). e \<in> set seen \<or>
         (\<exists>fn \<in> set fns. e = (fi_name fn, dev, fn) \<and> fi_name fn \<notin> fst ` set seen))"
  using assms
proof (induction fns arbitrary: seen)
  case (Cons fn fns)
  show ?case
  proof (cases "fi_name fn \<in> fst ` set seen")
    case True
    then obtain v where v: "map_of seen (fi_name fn) = Some v"
      by (metis map_of_eq_None_iff not_None_eq)
    then have "(fi_name fn, v) \<in> set seen" by (rule map_of_SomeD)
    then have "fst v \<le> dev" using Cons.prems(1) by force
    then have same: "see_functions dev (fn # fns) seen = see_functions dev fns seen"
      using v by (cases v) (simp add: leD)
    show ?thesis
      unfolding same using Cons.IH [OF Cons.prems] True by auto
  next
    case False
    then have none: "map_of seen (fi_name fn) = None" by (simp add: map_of_eq_None_iff)
    let ?s = "seen @ [(fi_name fn, dev, fn)]"
    have step: "see_functions dev (fn # fns) seen = see_functions dev fns ?s"
      using none False by (simp add: see_put_def)
    have "\<forall>e \<in> set ?s. fst (snd e) \<le> dev" "distinct (map fst ?s)"
      using Cons.prems False by auto
    from Cons.IH [OF this] show ?thesis
      unfolding step using False by auto
  qed
qed simp

definition seen_ok :: "(string \<rightharpoonup> function_info list) \<Rightarrow> string set \<Rightarrow> seen_funcs \<Rightarrow> bool" where
  "seen_ok m D seen \<longleftrightarrow> distinct (map fst seen)
     \<and> (\<forall>(n, d, fn) \<in> set seen. fi_name fn = n \<and> d \<in> D \<and> (\<exists>fns. m d = Some fns \<and> fn \<in> set fns)
          \<and> (\<forall>d' \<in> D. \<forall>fns. m d' = Some fns \<longrightarrow> n \<in> fi_name ` set fns \<longrightarrow> d \<le> d'))
     \<and> (\<forall>d \<in> D. \<forall>fns. m d = Some fns \<longrightarrow> fi_name ` set fns \<subseteq> fst ` set seen)"

lemma seen_ok_entry:
  assumes "seen_ok m D seen" "(n, d, fn) \<in> set seen"
  shows "fi_name fn = n \<and> d \<in> D \<and> (\<exists>fns. m d = Some fns \<and> fn \<in> set fns)
    \<and> (\<forall>d' \<in> D. \<forall>fns. m d' = Some fns \<longrightarrow> n \<in> fi_name ` set fns \<longrightarrow> d \<le> d')"
  using assms by (auto simp: seen_ok_def)

lemma seen_ok_device:
  assumes ok: "seen_ok m D seen" and le: "\<forall>d' \<in> D. d' \<le> d" and m: "m d = Some fns"
  shows "seen_ok m (insert d D) (see_functions d fns seen)"
proof -
  have entry: "fi_name fn = n \<and> e \<in> D \<and> (\<exists>fns. m e = Some fns \<and> fn \<in> set fns)
      \<and> (\<forall>d' \<in> D. \<forall>fns. m d' = Some fns \<longrightarrow> n \<in> fi_name ` set fns \<longrightarrow> e \<le> d')"
    if "(n, e, fn) \<in> set seen" for n e fn
    using seen_ok_entry [OF ok that] .
  have "\<forall>e \<in> set seen. fst (snd e) \<le> d"
    using entry le by force
  moreover have "distinct (map fst seen)" using ok by (simp add: seen_ok_def)
  ultimately have spec: "distinct (map fst (see_functions d fns seen))"
    "fst ` set (see_functions d fns seen) = fst ` set seen \<union> fi_name ` set fns"
    "\<And>e. e \<in> set (see_functions d fns seen) \<Longrightarrow> e \<in> set seen \<or>
       (\<exists>fn \<in> set fns. e = (fi_name fn, d, fn) \<and> fi_name fn \<notin> fst ` set seen)"
    using see_functions_spec [of seen d fns] by blast+
  have covered: "fi_name ` set gs \<subseteq> fst ` set seen" if "d' \<in> D" "m d' = Some gs" for d' gs
    using ok that by (auto simp: seen_ok_def)
  have "fi_name fn = n \<and> e \<in> insert d D \<and> (\<exists>fns. m e = Some fns \<and> fn \<in> set fns)
      \<and> (\<forall>d' \<in> insert d D. \<forall>fns. m d' = Some fns \<longrightarrow> n \<in> fi_name ` set fns \<longrightarrow> e \<le> d')"
    if "(n, e, fn) \<in> set (see_functions d fns seen)" for n e fn
    using spec(3) [OF that]
  proof
    assume "(n, e, fn) \<in> set seen"
    then show ?thesis using entry [of n e fn] le by blast
  next
    assume "\<exists>g \<in> set fns. (n, e, fn) = (fi_name g, d, g) \<and> fi_name g \<notin> fst ` set seen"
    then have new: "e = d" "n = fi_name fn" "fn \<in> set fns" "n \<notin> fst ` set seen" by auto
    then have "e \<le> d'" if "d' \<in> insert d D" "m d' = Some gs" "n \<in> fi_name ` set gs" for d' gs
      using that covered [of d' gs] by blast
    then show ?thesis using new m by blast
  qed
  moreover have "fi_name ` set gs \<subseteq> fst ` set (see_functions d fns seen)"
    if "d' \<in> insert d D" "m d' = Some gs" for d' gs
    using that covered [of d' gs] m spec(2) by auto
  ultimately show ?thesis
    using spec(1) unfolding seen_ok_def by blast
qed

lemma see_devices_ok:
  assumes "seen_ok m D seen" "sorted ds" "\<forall>d' \<in> D. \<forall>d \<in> set ds. d' \<le> d"
  shows "seen_ok m (D \<union> set ds) (see_devices m ds seen)"
  using assms
proof (induction ds arbitrary: D seen)
  case (Cons d ds)
  let ?s = "case m d of None \<Rightarrow> seen | Some fns \<Rightarrow> see_functions d fns seen"
  have "seen_ok m (insert d D) ?s"
  proof (cases "m d")
    case None
    then show ?thesis using Cons.prems(1) by (auto simp: seen_ok_def)
  next
    case (Some fns)
    then show ?thesis using seen_ok_device [OF Cons.prems(1), of d fns] Cons.prems(3) by simp
  qed
  moreover have "sorted ds" "\<forall>d' \<in> insert d D. \<forall>d \<in> set ds. d' \<le> d" using Cons.prems by auto
  ultimately have "seen_ok m (insert d D \<union> set ds) (see_devices m ds ?s)" by (rule Cons.IH)
  then show ?case by simp
qed simp

text \<open>
  Whatever order Go's maps are iterated in, a function an agent is offered comes from the smallest of
  the devices that register its name, and has passed the filters.
\<close>

theorem offered_by_smallest_device:
  assumes "\<And>xs. set (ord1 xs) = set xs" "\<And>xs. set (ord2 xs) = set xs" "dom m = set devices"
    and "(d, fns) \<in> set (offered_functions ord1 ord2 cfg m devices)" "fn \<in> set fns"
  shows "(\<exists>gs. m d = Some gs \<and> fn \<in> set gs) \<and> fi_name fn \<notin> set (ct_excluded cfg)
    \<and> (\<forall>d' gs. m d' = Some gs \<longrightarrow> fi_name fn \<in> fi_name ` set gs \<longrightarrow> d \<le> d')"
proof -
  have ok: "seen_ok m (set devices) (see_devices m (sort devices) [])"
    using see_devices_ok [of m "{}" "[]" "sort devices"] by (simp add: seen_ok_def)
  have "fn \<in> set (applyFilters cfg (map snd (filter (\<lambda>e. fst e = d)
      (map snd (ord1 (see_devices m (sort devices) []))))))"
    using assms(4,5) by (auto simp: offered_functions_def Let_def)
  then obtain n where n: "(n, d, fn) \<in> set (see_devices m (sort devices) [])"
    and "fi_name fn \<notin> set (ct_excluded cfg)"
    using assms(1) by (auto simp: applyFilters_def)
  moreover have "d' \<in> set devices" if "m d' = Some gs" for d' gs
    using that assms(3) by blast
  ultimately show ?thesis
    using seen_ok_entry [OF ok n] by blast
qed

text \<open>
  The filters run after the choice of the device: when the smallest device's version is filtered out, a
  version on another device that would pass is not offered either.
\<close>

theorem filtered_version_shadows:
  assumes "\<And>xs. set (ord1 xs) = set xs" "\<And>xs. set (ord2 xs) = set xs" "dom m = set devices"
    and small: "m d0 = Some gs0" "fi_name fn0 \<in> fi_name ` set gs0"
    and sole: "\<And>d gs. m d = Some gs \<Longrightarrow> fi_name fn0 \<in> fi_name ` set gs \<Longrightarrow> d0 \<le> d"
    and untagged: "\<And>g. g \<in> set gs0 \<Longrightarrow> fi_name g = fi_name fn0 \<Longrightarrow> applyFilters cfg [g] = []"
    and "(d, fns) \<in> set (offered_functions ord1 ord2 cfg m devices)" "fn \<in> set fns"
  shows "fi_name fn \<noteq> fi_name fn0"
proof
  assume same: "fi_name fn = fi_name fn0"
  obtain gs where gs: "m d = Some gs" "fn \<in> set gs"
    and least: "\<And>d' gs. m d' = Some gs \<Longrightarrow> fi_name fn \<in> fi_name ` set gs \<Longrightarrow> d \<le> d'"
    using offered_by_smallest_device [OF assms(1-3,8,9)] by blast
  have "d \<le> d0" using least [OF small(1)] small(2) same by simp
  moreover have "d0 \<le> d" using sole [OF gs(1)] gs(2) same by force
  ultimately have "d = d0" by simp
  then have "applyFilters cfg [fn] = []" using untagged [of fn] gs small(1) same by simp
  moreover have "fn \<in> set (applyFilters cfg (map snd (filter (\<lambda>e. fst e = d)
      (map snd (ord1 (see_devices m (sort devices) []))))))"
    using assms(8,9) by (auto simp: offered_functions_def Let_def)
  ultimately show False by (auto simp: applyFilters_def split: if_splits)
qed

subsection \<open>What the tools answer\<close>

text \<open>
  The resume context the agent library gives a tool: whether the tool is a target of the resumption, and
  the data for it, if any.  A tool returns text, a soft failure (a JSON text with \<^verbatim>\<open>success: false\<close>), or
  interrupts the run with data for the executor.
\<close>

record interrupt_request =
  ir_method :: string
  ir_params :: string
  ir_device :: string
  ir_timeout :: int

datatype tool_answer =
    Returns string
  | Soft_failure string
  | InterruptsCall interrupt_request
  | InterruptsAsk string

definition executeClientFunction ::
  "bool \<Rightarrow> string option \<Rightarrow> function_info \<Rightarrow> string \<Rightarrow> string \<Rightarrow> int \<Rightarrow> tool_answer" where
  "executeClientFunction is_target data fn dev input default_ms =
     (if is_target then
        (case data of Some x \<Rightarrow> Returns x
         | None \<Rightarrow> Soft_failure (utf8 [229,174,162,230,136,183,231,171,175,229,135,189,230,149,176,232,176,131,
             231,148,168,232,182,133,230,151,182,230,136,150,229,183,178,232,162,171,229,143,150,230,182,136]))
      else InterruptsCall \<lparr>ir_method = fi_name fn, ir_params = input, ir_device = dev,
             ir_timeout = NormalizeClientFunctionTimeout (fi_timeout_ms fn) default_ms\<rparr>)"

definition txt_confirm :: string where "txt_confirm = utf8 [231, 161, 174, 232, 174, 164]"
definition txt_cancel :: string where "txt_cancel = utf8 [229, 143, 150, 230, 182, 136]"

definition ask_user :: "bool \<Rightarrow> string option \<Rightarrow> string \<Rightarrow> tool_answer" where
  "ask_user is_target data question =
     (if question = [] then Soft_failure ''question is required''
      else if is_target then
        (case data of
           Some x \<Rightarrow>
             if x = txt_confirm then Returns ''User has approved the operation. Proceed to execute it now.''
             else if x = txt_cancel then Returns ''User has rejected the operation. Cancel and inform the user.''
             else Returns (''User responded. Continue based on their response: '' @ x)
         | None \<Rightarrow> Returns ''User has confirmed. Proceed with the operation.'')
      else InterruptsAsk question)"

text \<open>
  An \<^verbatim>\<open>ask_user\<close> tool that is resumed without an answer reports a confirmation the user never gave;
  a client function in the same situation reports a failure.
\<close>

theorem missing_answer_counts_as_consent:
  "question \<noteq> [] \<Longrightarrow> ask_user True None question = Returns ''User has confirmed. Proceed with the operation.''"
  "\<exists>m. executeClientFunction True None fn dev input ms = Soft_failure m"
  by (simp_all add: ask_user_def executeClientFunction_def)

lemma call_timeout_at_least_a_minute:
  "executeClientFunction False data fn dev input ms = InterruptsCall r \<Longrightarrow> 60000 \<le> ir_timeout r"
  by (auto simp: executeClientFunction_def NormalizeClientFunctionTimeout_def MinClientFunctionCallTimeoutMs_def
      DefaultClientFunctionCallTimeoutMs_def Let_def)

end
