(* ===== verification/ToolMessages.thy ===== *)
theory ToolMessages
  imports AgentBroadcast AgentErrors AgentLocks AgentContext
begin

text \<open>
  The world an agent run works on, and the tool messages written during a run
  (\<^verbatim>\<open>llm_logger.go\<close>): the middleware around every tool call persists a message of type
  \<^verbatim>\<open>tool_calling\<close>, updates it when the call returns, and pushes both.  The log records it also writes are
  not modelled.
\<close>

subsection \<open>The world of a run\<close>

record agent_world =
  aw_srv :: srv
  aw_sent :: "push list"
  aw_keys :: keys
  aw_cache :: context_manager

definition aw_db :: "agent_world \<Rightarrow> db" where
  "aw_db w = sv_db (aw_srv w)"

definition set_aw_db :: "db \<Rightarrow> agent_world \<Rightarrow> agent_world" where
  "set_aw_db d w = w\<lparr>aw_srv := set_db d (aw_srv w)\<rparr>"

definition send :: "push list \<Rightarrow> agent_world \<Rightarrow> agent_world" where
  "send ps w = w\<lparr>aw_sent := aw_sent w @ ps\<rparr>"

lemma world_simps [simp]:
  "aw_db (set_aw_db d w) = d" "aw_sent (set_aw_db d w) = aw_sent w"
  "aw_keys (set_aw_db d w) = aw_keys w" "aw_cache (set_aw_db d w) = aw_cache w"
  "aw_db (send ps w) = aw_db w" "aw_sent (send ps w) = aw_sent w @ ps"
  "aw_keys (send ps w) = aw_keys w" "aw_cache (send ps w) = aw_cache w"
  "sv_queue (aw_srv (set_aw_db d w)) = sv_queue (aw_srv w)" "aw_srv (send ps w) = aw_srv w"
  "send ps (send qs w) = send (qs @ ps) w" "set_aw_db d (set_aw_db d' w) = set_aw_db d w"
  by (simp_all add: aw_db_def set_aw_db_def send_def set_db_def)

lemma set_aw_db_id [simp]: "set_aw_db (aw_db w) w = w"
  by (simp add: set_aw_db_def aw_db_def set_db_def)

lemma send_nil [simp]: "send [] w = w"
  by (simp add: send_def)

subsection \<open>Payloads\<close>

record ToolCallingPayload =
  tp_name :: string
  tp_args :: string
  tp_status :: string
  tp_result :: string
  tp_error :: string
  tp_ms :: int

text \<open>\<^verbatim>\<open>truncate\<close>\<close>

definition log_truncate :: "string \<Rightarrow> nat \<Rightarrow> string" where
  "log_truncate s n =
     (if length s \<le> n then s
      else if n < 16 then take n s
      else take (n - 14) s @ ''...[truncated]'')"

lemma log_truncate_length: "length (log_truncate s n) \<le> n"
  by (auto simp: log_truncate_def)

definition tool_members :: "string \<Rightarrow> string \<Rightarrow> string list" where
  "tool_members human agent = human # (if agent \<noteq> [] \<and> agent \<noteq> human then [agent] else [])"

text \<open>
  \<^verbatim>\<open>buildToolCallingContent\<close>; the JSON encoder is an argument.  (The fallback for a payload that cannot be
  encoded never applies: it consists of strings.)
\<close>

definition buildToolCallingContent ::
  "(ToolCallingPayload \<Rightarrow> string) \<Rightarrow> string \<Rightarrow> string \<Rightarrow> string \<Rightarrow> string \<Rightarrow> string \<Rightarrow> string" where
  "buildToolCallingContent enc meth params result err status =
     enc \<lparr>tp_name = meth, tp_args = params, tp_status = status,
          tp_result = (if result \<noteq> [] then log_truncate result 4096 else []),
          tp_error = (if err \<noteq> [] then log_truncate err 2048 else []), tp_ms = 0\<rparr>"

subsection \<open>Updating a tool message\<close>

text \<open>The database calls of one such update, for the environment to fail.\<close>

datatype tool_db_call = TcBegin | TcUpdate | TcGet | TcSeq string | TcInsert | TcCommit

type_synonym tool_faults = "tool_db_call \<Rightarrow> store_error option"

definition tool_try :: "tool_faults \<Rightarrow> tool_db_call \<Rightarrow> store_error + 'a \<Rightarrow> store_error + 'a" where
  "tool_try f c r = (case f c of Some e \<Rightarrow> Inl e | None \<Rightarrow> r)"

text \<open>
  \<^verbatim>\<open>updateToolCallingMessage\<close>: one transaction; any failure leaves the database as it was, and nothing is
  pushed.
\<close>

definition updateToolCallingMessage ::
  "tool_faults \<Rightarrow> (nat \<Rightarrow> string) \<Rightarrow> time \<Rightarrow> string \<Rightarrow> u32 \<Rightarrow> string \<Rightarrow> string \<Rightarrow> string \<Rightarrow> string
     \<Rightarrow> agent_world \<Rightarrow> agent_world" where
  "updateToolCallingMessage f uuid now cid n human agent content status w =
     (if f TcBegin \<noteq> None then w
      else case tool_try f TcUpdate (msg_update_content cid n content ''tool_calling'' status (aw_db w)) of
        Inl e \<Rightarrow> w
      | Inr d1 \<Rightarrow>
          (case tool_try f TcGet (msg_get_by_conversation_and_message_id cid n d1) of
             Inl e \<Rightarrow> w
           | Inr m \<Rightarrow>
               let members = tool_members human agent in
               if list_ex (\<lambda>u. f (TcSeq u) \<noteq> None) members then w
               else
                 let us = build_updates uuid now UpdateTypeMessage (PMessage m) members d1 in
                 (case tool_try f TcInsert (upd_create us d1) of
                    Inl e \<Rightarrow> w
                  | Inr d2 \<Rightarrow>
                      if f TcCommit \<noteq> None then w
                      else send (BroadcastMessageUpdate us) (set_aw_db d2 w))))"

text \<open>
  The resume path of the middleware: the same update with fewer checks.  A member whose number cannot be
  read is left out, a failing insertion or commit is not noticed, and the rows are pushed in any case.
  The result says whether the message was updated.
\<close>

fun readable_updates ::
  "tool_faults \<Rightarrow> (nat \<Rightarrow> string) \<Rightarrow> time \<Rightarrow> payload \<Rightarrow> nat \<Rightarrow> string list \<Rightarrow> db \<Rightarrow> user_update list" where
  "readable_updates f uuid now pl i [] d = []"
| "readable_updates f uuid now pl i (u # us) d =
     (if f (TcSeq u) \<noteq> None then readable_updates f uuid now pl i us d
      else \<lparr>u_id = uuid i, u_user = u, u_seq = upd_latest_seq u d + 1, u_type = ''message'',
            u_payload = pl, u_created = now\<rparr> # readable_updates f uuid now pl (Suc i) us d)"

definition update_existing_tool_message ::
  "tool_faults \<Rightarrow> (nat \<Rightarrow> string) \<Rightarrow> time \<Rightarrow> string \<Rightarrow> u32 \<Rightarrow> string \<Rightarrow> string \<Rightarrow> string
     \<Rightarrow> agent_world \<Rightarrow> (string option) \<times> agent_world" where
  "update_existing_tool_message f uuid now cid n human agent content w =
     (if f TcBegin \<noteq> None then (None, w)
      else case tool_try f TcUpdate (msg_update_content cid n content ''tool_calling'' ''executing'' (aw_db w)) of
        Inl e \<Rightarrow> (None, w)
      | Inr d1 \<Rightarrow>
          (case tool_try f TcGet (msg_get_by_conversation_and_message_id cid n d1) of
             Inl e \<Rightarrow> (Some [], if f TcCommit \<noteq> None then w else set_aw_db d1 w)
           | Inr m \<Rightarrow>
               let us = readable_updates f uuid now (PMessage m) 0 (tool_members human agent) d1;
                   d2 = (case tool_try f TcInsert (upd_create us d1) of Inl e \<Rightarrow> d1 | Inr d \<Rightarrow> d);
                   w2 = (if f TcCommit \<noteq> None then w else set_aw_db d2 w)
               in (Some (m_id m), send (BroadcastMessageUpdate us) w2)))"

text \<open>
  \<^verbatim>\<open>broadcastToolCallingUpdate\<close> works inside the caller's transaction: it returns the new state of the
  transaction and what it has already pushed when the caller commits.
\<close>

definition broadcastToolCallingUpdate ::
  "tool_faults \<Rightarrow> (nat \<Rightarrow> string) \<Rightarrow> time \<Rightarrow> string \<Rightarrow> u32 \<Rightarrow> string \<Rightarrow> string \<Rightarrow> db \<Rightarrow> push list \<times> db" where
  "broadcastToolCallingUpdate f uuid now cid n human agent d1 =
     (case tool_try f TcGet (msg_get_by_conversation_and_message_id cid n d1) of
        Inl e \<Rightarrow> ([], d1)
      | Inr m \<Rightarrow>
          let members = tool_members human agent in
          if list_ex (\<lambda>u. f (TcSeq u) \<noteq> None) members then ([], d1)
          else
            let us = build_updates uuid now UpdateTypeMessage (PMessage m) members d1 in
            (case tool_try f TcInsert (upd_create us d1) of
               Inl e \<Rightarrow> ([], d1)
             | Inr d2 \<Rightarrow> (BroadcastMessageUpdate us, d2)))"

subsection \<open>One tool call\<close>

text \<open>
  The values the middleware finds in the context, and the message of a resumed run: the context holds a
  pointer to it, and the middleware sets its number to 0 when it has used it.
\<close>

record tool_ctx =
  tc_store :: bool
  tc_broadcaster :: bool
  tc_human :: string
  tc_agent :: string
  tc_conv :: string

datatype tool_outcome = ToolOk string | ToolInterrupted string | ToolFailed string

record tool_env =
  te_enc :: "ToolCallingPayload \<Rightarrow> string"
  te_uuid :: "nat \<Rightarrow> string"
  te_now :: "nat \<Rightarrow> time"
  te_tx :: txenv
  te_before :: tool_faults
  te_after :: tool_faults
  te_ms :: int

definition tool_result_text :: "tool_outcome \<Rightarrow> string" where
  "tool_result_text r = (case r of ToolOk s \<Rightarrow> s | _ \<Rightarrow> [])"

definition tool_error_text :: "tool_outcome \<Rightarrow> string" where
  "tool_error_text r = (case r of ToolOk s \<Rightarrow> [] | ToolInterrupted e \<Rightarrow> e | ToolFailed e \<Rightarrow> e)"

definition executing_payload :: "tool_env \<Rightarrow> string \<Rightarrow> string \<Rightarrow> string" where
  "executing_payload te name args =
     te_enc te \<lparr>tp_name = name, tp_args = log_truncate args 2048, tp_status = ''executing'', tp_result = [],
               tp_error = [], tp_ms = 0\<rparr>"

definition final_status :: "tool_outcome \<Rightarrow> string" where
  "final_status r = (case r of ToolOk _ \<Rightarrow> ''completed'' | ToolInterrupted _ \<Rightarrow> ''executing''
     | ToolFailed _ \<Rightarrow> ''failed'')"

definition final_payload :: "tool_env \<Rightarrow> string \<Rightarrow> string \<Rightarrow> tool_outcome \<Rightarrow> string" where
  "final_payload te name args r =
     te_enc te \<lparr>tp_name = name, tp_args = log_truncate args 2048, tp_status = final_status r,
               tp_result = (case r of ToolOk s \<Rightarrow> log_truncate s 4096 | _ \<Rightarrow> []),
               tp_error = (case r of ToolFailed e \<Rightarrow> log_truncate e 2048 | _ \<Rightarrow> []), tp_ms = te_ms te\<rparr>"

definition tool_message :: "tool_env \<Rightarrow> tool_ctx \<Rightarrow> string \<Rightarrow> message" where
  "tool_message te c content =
     \<lparr>m_id = te_uuid te 0, m_client_id = te_uuid te 0, m_conv = tc_conv c, m_msg_id = 0, m_sender = tc_agent c,
      m_content = content, m_type = ''tool_calling'', m_reply_to = 0, m_status = ''executing'',
      m_summarized = False, m_created = te_now te 0, m_deleted = None\<rparr>"

text \<open>\<^verbatim>\<open>broadcastFunctionCall\<close>: nothing is sent without a broadcaster, a human and a conversation.\<close>

definition broadcastFunctionCall ::
  "tool_ctx \<Rightarrow> time \<Rightarrow> string \<Rightarrow> string \<Rightarrow> string \<Rightarrow> string \<Rightarrow> int \<Rightarrow> bool \<Rightarrow> push list" where
  "broadcastFunctionCall c now name args result err ms is_done =
     (if \<not> tc_broadcaster c \<or> tc_human c = [] \<or> tc_conv c = [] then []
      else SendFunctionCall now (tc_human c) (tc_agent c) (tc_conv c) name args result err ms is_done)"

text \<open>
  The part before the call: the number and the UUID of the persisted message (0 and empty if there is
  none), whether the local variable \<^verbatim>\<open>message\<close> points to a message, and the new world.  \<open>cur\<close> is the number
  of the context's message, if the context has one.
\<close>

definition tool_before ::
  "tool_env \<Rightarrow> tool_ctx \<Rightarrow> u32 option \<Rightarrow> string \<Rightarrow> string \<Rightarrow> agent_world
     \<Rightarrow> (u32 \<times> string \<times> bool) \<times> agent_world" where
  "tool_before te c cur name args w =
     (if tc_store c \<and> tc_broadcaster c \<and> tc_human c \<noteq> [] \<and> tc_conv c \<noteq> [] then
        (let existing = (case cur of None \<Rightarrow> 0 | Some n \<Rightarrow> n) in
         if existing > 0 then
           (let (r, w1) = update_existing_tool_message (te_before te) (\<lambda>i. te_uuid te (10 + i)) (te_now te 1)
                    (tc_conv c) existing (tc_human c) (tc_agent c) (executing_payload te name args) w
            in (case r of None \<Rightarrow> ((0, [], True), w1) | Some mid \<Rightarrow> ((existing, mid, True), w1)))
         else
           (case store_send_message (te_tx te) (\<lambda>i. te_uuid te (10 + i)) (te_now te 1)
                   (tool_message te c (executing_payload te name args))
                   (tool_members (tc_human c) (tc_agent c)) (aw_db w) of
              Inl e \<Rightarrow> ((0, [], cur \<noteq> None), w)
            | Inr ((m, us), d) \<Rightarrow>
                ((m_msg_id m, te_uuid te 0, True), send (BroadcastMessageUpdate us) (set_aw_db d w))))
      else ((0, [], cur \<noteq> None),
            send (broadcastFunctionCall c (te_now te 1) name (log_truncate args 2048) [] [] 0 False) w))"

text \<open>The body of the ephemeral message update; the members it lacks read as zero.\<close>

definition ephemeral_tool_message ::
  "tool_env \<Rightarrow> tool_ctx \<Rightarrow> u32 \<Rightarrow> string \<Rightarrow> string \<Rightarrow> string \<Rightarrow> payload" where
  "ephemeral_tool_message te c n mid content status =
     PMessage \<lparr>m_id = mid, m_client_id = [], m_conv = tc_conv c, m_msg_id = n, m_sender = tc_agent c,
       m_content = content, m_type = ''tool_calling'', m_reply_to = 0, m_status = status,
       m_summarized = False, m_created = te_now te 3, m_deleted = None\<rparr>"

definition tool_after ::
  "tool_env \<Rightarrow> tool_ctx \<Rightarrow> string \<Rightarrow> string \<Rightarrow> u32 \<Rightarrow> string \<Rightarrow> tool_outcome \<Rightarrow> agent_world \<Rightarrow> agent_world" where
  "tool_after te c name args n mid r w =
     (let args' = log_truncate args 2048; result' = log_truncate (tool_result_text r) 4096; err = tool_error_text r in
      if n > 0 \<and> tc_store c then
        (let content = final_payload te name args r; status = final_status r;
             w1 = updateToolCallingMessage (te_after te) (\<lambda>i. te_uuid te (20 + i)) (te_now te 2) (tc_conv c) n
                    (tc_human c) (tc_agent c) content status w;
             w2 = (if tc_broadcaster c \<and> tc_human c \<noteq> [] \<and> mid \<noteq> [] then
                     send (SendEphemeralMessageUpdate (tc_human c) (ephemeral_tool_message te c n mid content status)) w1
                   else w1)
         in send (broadcastFunctionCall c (te_now te 4) name args' result' err (te_ms te) True) w2)
      else if tc_broadcaster c then
        (case r of ToolInterrupted _ \<Rightarrow> w
         | _ \<Rightarrow> send (broadcastFunctionCall c (te_now te 4) name args' result' err (te_ms te) True) w)
      else w)"

text \<open>
  The whole call.  After the tool itself has returned, the code stores through the local pointer without
  asking whether there is one: \<open>None\<close> is the panic, with the world as the tool left it.
\<close>

definition WrapInvokableToolCall ::
  "tool_env \<Rightarrow> tool_ctx \<Rightarrow> u32 option \<Rightarrow> string \<Rightarrow> string \<Rightarrow> (agent_world \<Rightarrow> tool_outcome \<times> agent_world)
     \<Rightarrow> agent_world \<Rightarrow> tool_outcome option \<times> agent_world" where
  "WrapInvokableToolCall te c cur name args endpoint w =
     (let ((n, mid, has_message), w1) = tool_before te c cur name args w;
          (r, w2) = endpoint w1
      in if \<not> has_message then (None, w2)
         else (Some r, tool_after te c name args n mid r w2))"

subsection \<open>A message that is sent\<close>

text \<open>The identifiers a run draws are new and pairwise different.\<close>

definition agent_fresh :: "(nat \<Rightarrow> string) \<Rightarrow> db \<Rightarrow> bool" where
  "agent_fresh uuid d \<longleftrightarrow> inj uuid \<and>
     (\<forall>i. uuid i \<notin> u_id ` set (upds d) \<and> uuid i \<notin> m_id ` set (msgs d)
        \<and> uuid i \<notin> m_client_id ` set (msgs d) \<and> uuid i \<notin> rc_id ` set (rcs d))"

text \<open>The database after a message of a run has been stored.\<close>

definition sent_db :: "time \<Rightarrow> conversation \<Rightarrow> message \<Rightarrow> user_update list \<Rightarrow> db \<Rightarrow> db" where
  "sent_db now conv m us d =
     d\<lparr>msgs := msgs d @ [m], upds := upds d @ us,
       convs := update_where (\<lambda>c. c_id c = m_conv m \<and> conv_live c)
         (\<lambda>c. c\<lparr>c_last_at := m_created m, c_last_msg := m_msg_id m, c_updated := now\<rparr>) (convs d)\<rparr>"

lemma sent_db_simps [simp]:
  "msgs (sent_db now conv m us d) = msgs d @ [m]" "upds (sent_db now conv m us d) = upds d @ us"
  "rcs (sent_db now conv m us d) = rcs d"
  "convs (sent_db now conv m us d) = update_where (\<lambda>c. c_id c = m_conv m \<and> conv_live c)
     (\<lambda>c. c\<lparr>c_last_at := m_created m, c_last_msg := m_msg_id m, c_updated := now\<rparr>) (convs d)"
  by (simp_all add: sent_db_def)

lemma store_send_message_ok:
  fixes now :: time
  assumes conv: "conv_get (m_conv msg0) d = Inr conv"
    and ids: "inj uuid" "\<And>i. uuid i \<notin> u_id ` set (upds d)"
    and filled: "m_created msg0 \<noteq> zero_time" "m_type msg0 \<noteq> []" "m_status msg0 \<noteq> []"
    and new: "\<not> list_ex (msg_conflict msg0) (msgs d)" and few: "length members \<le> maxSendMessageUpdates"
  defines "m \<equiv> msg0\<lparr>m_msg_id := c_last_msg conv + 1\<rparr>"
  defines "us \<equiv> build_updates uuid now UpdateTypeMessage (PMessage m) members d"
  shows "store_send_message tx_ok uuid now msg0 members d = Inr ((m, us), sent_db now conv m us d)"
proof -
  let ?d1 = "d\<lparr>msgs := msgs d @ [m]\<rparr>"
  have "msg_conflict m = msg_conflict msg0" by (auto simp: m_def msg_conflict_def fun_eq_iff)
  moreover have dm: "msg_defaults now m = m" using filled by (simp add: m_def msg_defaults_def)
  ultimately have 1: "msg_create now m d = Inr ?d1" using new by (simp add: msg_create_def)
  have 2: "upd_create us ?d1 = Inr (?d1\<lparr>upds := upds ?d1 @ us\<rparr>)"
    unfolding us_def by (rule upd_create_build) (use ids in auto)
  have mc: "m_conv m = m_conv msg0" "m_created m = m_created msg0" by (simp_all add: m_def)
  have 3: "conv_update_last_message now (m_conv m) (m_created m) (m_msg_id m) (?d1\<lparr>upds := upds ?d1 @ us\<rparr>)
      = Inr (sent_db now conv m us d)"
    using conv_get_Inr [OF conv] by (auto simp: conv_update_last_message_def Let_def count_where_zero sent_db_def mc)
  have "send_message_tx uuid now msg0 members d = Inr ((m, us), sent_db now conv m us d)"
    by (simp only: send_message_tx_def conv sum.case Let_def 1 2 3 dm flip: m_def us_def)
  then show ?thesis using few by (simp add: store_send_message_def store_transaction_ok)
qed

lemma agent_fresh_no_conflict:
  "agent_fresh uuid d \<Longrightarrow> m_id m = uuid i \<Longrightarrow> m_client_id m = uuid j \<Longrightarrow> \<not> list_ex (msg_conflict m) (msgs d)"
  unfolding agent_fresh_def list_ex_iff msg_conflict_def by (metis image_eqI)

lemma agent_fresh_shift: "agent_fresh uuid d \<Longrightarrow> inj (\<lambda>i. uuid (k + i))"
  unfolding agent_fresh_def inj_def by (metis add_left_cancel)

lemma agent_fresh_upds: "agent_fresh uuid d \<Longrightarrow> uuid i \<notin> u_id ` set (upds d)"
  by (simp add: agent_fresh_def)

subsection \<open>The life of a tool message\<close>

text \<open>Updating the one message that carries a number.\<close>

lemma msg_update_content_last:
  fixes content ty st :: string
  assumes "\<And>x. x \<in> set (msgs d) \<Longrightarrow> m_conv x = m_conv m \<Longrightarrow> m_msg_id x \<noteq> m_msg_id m" "m_deleted m = None"
    and "msgs d' = msgs d @ [m]"
  defines "m' \<equiv> m\<lparr>m_content := content, m_type := ty, m_status := st\<rparr>"
  shows "msg_update_content (m_conv m) (m_msg_id m) content ty st d' = Inr (d'\<lparr>msgs := msgs d @ [m']\<rparr>)"
    and "msg_get_by_conversation_and_message_id (m_conv m) (m_msg_id m) (d'\<lparr>msgs := msgs d @ [m']\<rparr>) = Inr m'"
proof -
  have none: "\<And>x. x \<in> set (msgs d) \<Longrightarrow> \<not> ((m_conv x = m_conv m \<and> m_msg_id x = m_msg_id m) \<and> msg_live x)"
    using assms(1) by blast
  have same: "update_where (\<lambda>x. (m_conv x = m_conv m \<and> m_msg_id x = m_msg_id m) \<and> msg_live x) f (msgs d) = msgs d" for f
    by (rule update_where_none [OF none])
  have live: "msg_live m" using assms(2) by (simp add: msg_live_def)
  show "msg_update_content (m_conv m) (m_msg_id m) content ty st d' = Inr (d'\<lparr>msgs := msgs d @ [m']\<rparr>)"
    by (simp add: msg_update_content_def Let_def same [simplified] live m'_def assms(3))
  have "first_by m_id (\<lambda>x. (m_conv x = m_conv m \<and> m_msg_id x = m_msg_id m) \<and> msg_live x) (msgs d @ [m']) = Some m'"
  proof (rule first_by_unique)
    show "m' \<in> set (msgs d @ [m'])" by simp
    show "(m_conv m' = m_conv m \<and> m_msg_id m' = m_msg_id m) \<and> msg_live m'"
      using live by (simp add: m'_def msg_live_def)
    show "y = m'" if "y \<in> set (msgs d @ [m'])" "(m_conv y = m_conv m \<and> m_msg_id y = m_msg_id m) \<and> msg_live y" for y
      using that none by auto
  qed
  then show "msg_get_by_conversation_and_message_id (m_conv m) (m_msg_id m) (d'\<lparr>msgs := msgs d @ [m']\<rparr>) = Inr m'"
    by (simp add: msg_get_by_conversation_and_message_id_def)
qed

lemma updateToolCallingMessage_ok:
  assumes "msg_update_content cid n content ''tool_calling'' status (aw_db w) = Inr d1"
    and "msg_get_by_conversation_and_message_id cid n d1 = Inr m"
    and "upd_create (build_updates uuid now UpdateTypeMessage (PMessage m) (tool_members human agent) d1) d1 = Inr d2"
  shows "aw_db (updateToolCallingMessage (\<lambda>_. None) uuid now cid n human agent content status w) = d2"
  unfolding updateToolCallingMessage_def tool_try_def option.case assms(1) sum.case assms(2) Let_def assms(3)
  by (simp add: list_ex_iff)

lemma length_tool_members: "length (tool_members human agent) \<le> 2"
  by (simp add: tool_members_def)

text \<open>
  A tool call that finds the store and a broadcaster leaves one new message behind, under the next
  number of the conversation, whose content and status tell how the call ended; a call that interrupts
  the run stays \<^verbatim>\<open>executing\<close>.
\<close>

theorem tool_call_leaves_final_message:
  assumes ctx: "tc_store c" "tc_broadcaster c" "tc_human c \<noteq> []" "tc_conv c \<noteq> []" "cur \<in> {None, Some 0}"
    and conv: "conv_get (tc_conv c) (aw_db w) = Inr conv"
    and fresh: "agent_fresh (te_uuid te) (aw_db w)" "te_now te 0 \<noteq> zero_time" "te_tx te = tx_ok"
    and number: "c_last_msg conv + 1 \<noteq> 0"
      "\<And>x. x \<in> set (msgs (aw_db w)) \<Longrightarrow> m_conv x = tc_conv c \<Longrightarrow> m_msg_id x \<noteq> c_last_msg conv + 1"
    and calm: "te_after te = (\<lambda>_. None)" "\<And>v. aw_db (snd (endpoint v)) = aw_db v"
    and r: "\<And>v. fst (endpoint v) = r"
  shows "\<exists>w' m. WrapInvokableToolCall te c cur name args endpoint w = (Some r, w')
    \<and> msgs (aw_db w') = msgs (aw_db w) @ [m] \<and> m_msg_id m = c_last_msg conv + 1
    \<and> m_sender m = tc_agent c \<and> m_type m = ''tool_calling'' \<and> m_status m = final_status r
    \<and> m_content m = final_payload te name args r"
proof -
  let ?d = "aw_db w" and ?members = "tool_members (tc_human c) (tc_agent c)"
  let ?row = "tool_message te c (executing_payload te name args)"
  let ?m = "?row\<lparr>m_msg_id := c_last_msg conv + 1\<rparr>"
  let ?us = "build_updates (\<lambda>i. te_uuid te (10 + i)) (te_now te 1) UpdateTypeMessage (PMessage ?m) ?members ?d"
  let ?d1 = "sent_db (te_now te 1) conv ?m ?us ?d"
  let ?w1 = "send (BroadcastMessageUpdate ?us) (set_aw_db ?d1 w)"
  have m0: "m_conv ?row = tc_conv c" "m_created ?row = te_now te 0" "m_type ?row = ''tool_calling''"
    "m_status ?row = ''executing''" "m_id ?row = te_uuid te 0" "m_client_id ?row = te_uuid te 0"
    "m_deleted ?row = None" "m_sender ?row = tc_agent c"
    by (simp_all add: tool_message_def)
  have few: "length ?members \<le> maxSendMessageUpdates"
    using length_tool_members [of "tc_human c" "tc_agent c"] by (simp add: maxSendMessageUpdates_def)
  have "store_send_message tx_ok (\<lambda>i. te_uuid te (10 + i)) (te_now te 1) ?row ?members ?d = Inr ((?m, ?us), ?d1)"
    by (rule store_send_message_ok)
       (use conv fresh few in \<open>simp_all add: m0 agent_fresh_shift agent_fresh_upds agent_fresh_no_conflict\<close>)
  then have before: "tool_before te c cur name args w = ((c_last_msg conv + 1, te_uuid te 0, True), ?w1)"
    using ctx fresh(3) by (auto simp: tool_before_def Let_def)
  obtain w2 where ep: "endpoint ?w1 = (r, w2)" and w2: "aw_db w2 = ?d1"
    using r [of ?w1] calm(2) [of ?w1] by (cases "endpoint ?w1") simp
  let ?m' = "?m\<lparr>m_content := final_payload te name args r, m_type := ''tool_calling'', m_status := final_status r\<rparr>"
  have upd: "msg_update_content (tc_conv c) (c_last_msg conv + 1) (final_payload te name args r) ''tool_calling''
      (final_status r) ?d1 = Inr (?d1\<lparr>msgs := msgs ?d @ [?m']\<rparr>)"
    and got: "msg_get_by_conversation_and_message_id (tc_conv c) (c_last_msg conv + 1)
      (?d1\<lparr>msgs := msgs ?d @ [?m']\<rparr>) = Inr ?m'"
    using msg_update_content_last [of ?d ?m ?d1] number(2) by (simp_all add: m0)
  have ids: "te_uuid te (20 + i) \<notin> u_id ` set (upds ?d1)" for i
  proof -
    have "u_id ` set ?us = set (map u_id ?us)" by simp
    also have "\<dots> = (\<lambda>i. te_uuid te (10 + i)) ` {0..<length ?members}"
      by (simp only: map_u_id_build) simp
    finally have us: "u_id ` set ?us = (\<lambda>i. te_uuid te (10 + i)) ` {0..<length ?members}" .
    have "te_uuid te (20 + i) \<noteq> te_uuid te (10 + j)" if "j < length ?members" for j
    proof
      assume "te_uuid te (20 + i) = te_uuid te (10 + j)"
      then have "20 + i = 10 + j" using fresh(1) by (auto simp: agent_fresh_def dest: injD)
      then show False using that length_tool_members [of "tc_human c" "tc_agent c"] by simp
    qed
    then have "te_uuid te (20 + i) \<notin> u_id ` set ?us" unfolding us by fastforce
    then show ?thesis using agent_fresh_upds [OF fresh(1)] by auto
  qed
  let ?d2 = "?d1\<lparr>msgs := msgs ?d @ [?m']\<rparr>"
  obtain vs where created: "upd_create (build_updates (\<lambda>i. te_uuid te (20 + i)) (te_now te 2) UpdateTypeMessage
      (PMessage ?m') ?members ?d2) ?d2 = Inr (?d2\<lparr>upds := upds ?d2 @ vs\<rparr>)"
    using upd_create_build [OF agent_fresh_shift [OF fresh(1), of 20], of ?d2] ids by force
  have upd': "msg_update_content (tc_conv c) (c_last_msg conv + 1) (final_payload te name args r) ''tool_calling''
      (final_status r) (aw_db w2) = Inr ?d2"
    unfolding w2 by (rule upd)
  have "aw_db (updateToolCallingMessage (te_after te) (\<lambda>i. te_uuid te (20 + i)) (te_now te 2) (tc_conv c)
      (c_last_msg conv + 1) (tc_human c) (tc_agent c) (final_payload te name args r) (final_status r) w2)
    = ?d2\<lparr>upds := upds ?d2 @ vs\<rparr>"
    unfolding calm(1) by (rule updateToolCallingMessage_ok [OF upd' got created])
  then have "msgs (aw_db (tool_after te c name args (c_last_msg conv + 1) (te_uuid te 0) r w2)) = msgs ?d @ [?m']"
    using ctx number(1) by (simp add: tool_after_def Let_def word_gt_0)
  then show ?thesis
    using before ep by (auto simp: WrapInvokableToolCall_def m0 intro!: exI [of _ ?m'])
qed

text \<open>
  Where no message could be written (no human user, as in a run that the clean-up task resumed, or a
  failing transaction) and the context holds none, the middleware panics after the tool has run.
\<close>

theorem tool_call_without_message_panics:
  assumes "tc_human c = [] \<or> (\<exists>e. store_send_message (te_tx te) (\<lambda>i. te_uuid te (10 + i)) (te_now te 1)
      (tool_message te c (executing_payload te name args)) (tool_members (tc_human c) (tc_agent c)) (aw_db w) = Inl e)"
    and "tc_store c" "tc_broadcaster c" "tc_conv c \<noteq> []"
  shows "WrapInvokableToolCall te c None name args endpoint w = (None, snd (endpoint w))"
  using assms by (auto simp: WrapInvokableToolCall_def tool_before_def broadcastFunctionCall_def split_beta Let_def)

end
