(* ===== verification/AgentExecute.thy ===== *)
theory AgentExecute
  imports ToolMessages AgentBuild
begin

text \<open>
  \<^verbatim>\<open>internal/agent/executor.go\<close>: one run of an agent for one message.  The run itself belongs to the agent
  library; its events, the scheduler's choices while they are bridged, and what it does to the world (its
  tools write messages, see \<open>ToolMessages\<close>; an interrupt saves a checkpoint) come from an argument of the
  model.  Spans and metrics are left out.
\<close>

record ExecutePayload =
  xp_message_id :: string
  xp_conversation_id :: string
  xp_agent_id :: string
  xp_sender_id :: string
  xp_device_id :: string

subsection \<open>The environment of a run\<close>

datatype agent_call =
    ACallGetContext
  | ACallUpdateStatus
  | ACallLatestToolCalling
  | ACallCreateRC
  | ACallGetConversation
  | ACallGetMessage
  | ACallGetByCheckpoint
  | ACallClearStatus
  | ACallGetResolved
  | ACallDeleteByCheckpoint

text \<open>
  A run: its events up to where reading stopped, whether the iterator was exhausted there, the choices of
  the bridge's loop, the number of the context's tool message when an interrupt is read, and the chunk
  before which the typing timer fires, if it does.
\<close>

record agent_run =
  ru_events :: "agent_error agent_event list"
  ru_ended :: bool
  ru_choices :: "choice list"
  ru_tool_msg :: u32
  ru_typing :: "nat option"

text \<open>
  Clock readings and fresh identifiers in the order they are drawn, failing database calls, the
  transactions (0: the reply, 1: the error message), a context that ends while waiting for the semaphore,
  the handler environment of the injected conversation broadcast, the agent library's runner, and the JSON
  decoder for interrupt data (method, parameters, device, time-out).
\<close>

record 'a agent_env =
  ae_now :: "nat \<Rightarrow> time"
  ae_uuid :: "nat \<Rightarrow> string"
  ae_fault :: "agent_call \<Rightarrow> store_error option"
  ae_tx :: "nat \<Rightarrow> txenv"
  ae_sem :: "agent_error option"
  ae_fk :: bool
  ae_henv :: env
  ae_parse :: "string \<Rightarrow> (string \<times> string \<times> string \<times> int) option"
  ae_run :: "'a \<Rightarrow> eino_message list \<Rightarrow> string \<Rightarrow> agent_world \<Rightarrow> agent_run \<times> agent_world"

record ('t, 'm, 'a) executor =
  xr_registry :: registry
  xr_builder :: "('t, 'm, 'a) builder"
  xr_helper_registry :: "registry option"
  xr_debug :: bool
  xr_rc_store :: bool
  xr_broadcast :: bool
  xr_checkpoints :: "checkpoint_store option"

definition ae_try :: "'a agent_env \<Rightarrow> agent_call \<Rightarrow> store_error + 'b \<Rightarrow> store_error + 'b" where
  "ae_try ae call r = (case ae_fault ae call of Some e \<Rightarrow> Inl e | None \<Rightarrow> r)"

lemma ae_try_ok: "ae_fault ae call = None \<Longrightarrow> ae_try ae call r = r"
  by (simp add: ae_try_def)

subsection \<open>Messages of the agent\<close>

definition agent_text :: "string \<Rightarrow> string \<Rightarrow> time \<Rightarrow> string \<Rightarrow> string \<Rightarrow> string \<Rightarrow> message" where
  "agent_text uid cid now conv agent content =
     \<lparr>m_id = uid, m_client_id = cid, m_conv = conv, m_msg_id = 0, m_sender = agent, m_content = content,
      m_type = ''text'', m_reply_to = 0, m_status = ''sent'', m_summarized = False, m_created = now,
      m_deleted = None\<rparr>"

text \<open>
  Storing a text of the agent for both users and pushing the rows: the three places that do so draw their
  identifiers from \<open>k\<close> on.
\<close>

definition store_agent_text ::
  "'a agent_env \<Rightarrow> txenv \<Rightarrow> nat \<Rightarrow> string \<Rightarrow> string \<Rightarrow> string \<Rightarrow> string \<Rightarrow> agent_world
     \<Rightarrow> store_error option \<times> agent_world" where
  "store_agent_text ae t k conv agent sender content w =
     (case store_send_message t (\<lambda>i. ae_uuid ae (k + 2 + i)) (ae_now ae (k + 1))
             (agent_text (ae_uuid ae k) (ae_uuid ae (k + 1)) (ae_now ae k) conv agent content)
             [sender, agent] (aw_db w) of
        Inl e \<Rightarrow> (Some e, w)
      | Inr ((m, us), d) \<Rightarrow> (None, send (BroadcastMessageUpdate us) (set_aw_db d w)))"

definition sendErrorMessage ::
  "'a agent_env \<Rightarrow> string \<Rightarrow> string \<Rightarrow> string \<Rightarrow> string \<Rightarrow> agent_world \<Rightarrow> agent_world" where
  "sendErrorMessage ae conv agent sender content w =
     (case store_agent_text ae (ae_tx ae 1) 40 conv agent sender content w of
        (Some e, w1) \<Rightarrow> w1
      | (None, w1) \<Rightarrow>
          send (SendConversationUpdate sender conv (ae_now ae 42)
                @ SendConversationUpdate (extractBaseUserID agent) conv (ae_now ae 43)) w1)"

subsection \<open>Interrupts\<close>

text \<open>\<^verbatim>\<open>parseInterruptData\<close>: only an object with a method other than \<^verbatim>\<open>ask_user\<close> is a client call.\<close>

definition parseInterruptData ::
  "'a agent_env \<Rightarrow> string \<Rightarrow> (string \<times> string \<times> string \<times> int) option" where
  "parseInterruptData ae question =
     (case ae_parse ae question of
        None \<Rightarrow> None
      | Some (meth, params, dev, ms) \<Rightarrow>
          if meth = [] \<or> meth = ''ask_user'' then None else Some (meth, params, dev, ms))"

definition getConversationMemberIDs :: "'a agent_env \<Rightarrow> string \<Rightarrow> agent_world \<Rightarrow> string list" where
  "getConversationMemberIDs ae conv w =
     (case ae_try ae ACallGetConversation (conv_get conv (aw_db w)) of
        Inl e \<Rightarrow> []
      | Inr c \<Rightarrow> c_user1 c # (if c_user2 c \<noteq> [] then [c_user2 c] else []))"

definition interrupt_status :: "'a agent_env \<Rightarrow> InterruptInfo \<Rightarrow> string" where
  "interrupt_status ae info =
     (case parseInterruptData ae (ii_question info) of
        None \<Rightarrow> AgentStatusAskingUser | Some _ \<Rightarrow> AgentStatusToolCalling)"

text \<open>
  The row of the remote calling: for a client function with the number of its tool message and the
  normalised time-out, for a question with the question's text and a day.
\<close>

definition interrupt_row ::
  "'a agent_env \<Rightarrow> string \<Rightarrow> string \<Rightarrow> string \<Rightarrow> InterruptInfo \<Rightarrow> db \<Rightarrow> remote_calling" where
  "interrupt_row ae conv agent checkpoint info d =
     (case parseInterruptData ae (ii_question info) of
        Some (meth, params, dev, ms) \<Rightarrow>
          \<lparr>rc_id = ae_uuid ae 2, rc_conv = conv, rc_checkpoint = checkpoint, rc_agent = agent,
           rc_msg_id = (if ii_tool_msg_id info = 0 then
                          (case ae_try ae ACallLatestToolCalling (msg_get_latest_tool_calling conv d) of
                             Inl e \<Rightarrow> 0 | Inr m \<Rightarrow> m_msg_id m)
                        else ii_tool_msg_id info),
           rc_method = meth, rc_params = params, rc_interrupt = ii_interrupt_id info, rc_device = dev,
           rc_stat = RcPending, rc_result = [], rc_error = [], rc_success = False, rc_created = ae_now ae 5,
           rc_resolved_at = None,
           rc_expires_at = Some (ae_now ae 4 + int64 (NormalizeClientFunctionTimeout ms 0 * msec)),
           rc_cancelled_at = None, rc_cancelled_by = [], rc_cancel_reason = [], rc_deleted = None\<rparr>
      | None \<Rightarrow>
          \<lparr>rc_id = ae_uuid ae 2, rc_conv = conv, rc_checkpoint = checkpoint, rc_agent = agent, rc_msg_id = 0,
           rc_method = ''ask_user'', rc_params = ii_question info, rc_interrupt = ii_interrupt_id info,
           rc_device = [], rc_stat = RcPending, rc_result = [], rc_error = [], rc_success = False,
           rc_created = ae_now ae 5, rc_resolved_at = None,
           rc_expires_at = Some (ae_now ae 4 + DefaultHITLTimeout),
           rc_cancelled_at = None, rc_cancelled_by = [], rc_cancel_reason = [], rc_deleted = None\<rparr>)"

text \<open>
  Setting the status and persisting the call, the same in the executor and in the resume handler up to the
  prefix of the errors.  The two statements are not one transaction.
\<close>

definition open_remote_calling ::
  "string \<Rightarrow> 'a agent_env \<Rightarrow> bool \<Rightarrow> string \<Rightarrow> string \<Rightarrow> string \<Rightarrow> InterruptInfo \<Rightarrow> agent_world
     \<Rightarrow> (agent_error + time) \<times> agent_world" where
  "open_remote_calling pre ae rc_store conv agent checkpoint info w =
     (case ae_try ae ACallUpdateStatus
             (conv_update_agent_status (ae_now ae 3) conv (interrupt_status ae info) agent checkpoint (aw_db w)) of
        Inl e \<Rightarrow> (Inl (plain_error (pre @ '': update agent status: '' @ store_error_msg e)), w)
      | Inr (at, d1) \<Rightarrow>
          let w1 = set_aw_db d1 w in
          if \<not> rc_store then (Inr at, w1)
          else case ae_try ae ACallCreateRC
                  (rc_create (ae_fk ae) (ae_now ae 6) (interrupt_row ae conv agent checkpoint info d1) d1) of
                 Inl e \<Rightarrow> (Inl (plain_error (pre @ '': create remote calling: '' @ store_error_msg e)), w1)
               | Inr d2 \<Rightarrow> (Inr at, set_aw_db d2 w1))"

text \<open>The injected broadcast; its error is only logged.\<close>

definition broadcast_to_members :: "'a agent_env \<Rightarrow> bool \<Rightarrow> string \<Rightarrow> agent_world \<Rightarrow> agent_world" where
  "broadcast_to_members ae enabled conv w =
     (if enabled then
        w\<lparr>aw_srv := snd (broadcastConversationUpdateToMembers (ae_henv ae) (e_tx (ae_henv ae)) 0 (ae_now ae 7)
            conv (getConversationMemberIDs ae conv w) ''update'' (aw_srv w))\<rparr>
      else w)"

definition interrupt_pushes ::
  "'a agent_env \<Rightarrow> string \<Rightarrow> string \<Rightarrow> string \<Rightarrow> time \<Rightarrow> string \<Rightarrow> push list" where
  "interrupt_pushes ae sender agent conv at status =
     SendConversationUpdate sender conv at @ SendConversationUpdate (extractBaseUserID agent) conv at
     @ SendAgentStatus (ae_now ae 8) sender agent conv status"

subsection \<open>Consuming the stream\<close>

text \<open>
  The loop over the chunks: position, whether typing has been cleared, the text so far.  The result is the
  error the stream ends in, if it does, the text and whether typing has been cleared.
\<close>

record stream_ctx =
  sx_registry :: "registry option"
  sx_now :: "nat \<Rightarrow> time"
  sx_conv :: string
  sx_agent :: string
  sx_sender :: string
  sx_stream :: string
  sx_timer :: "nat option"

definition typing_off :: "stream_ctx \<Rightarrow> nat \<Rightarrow> bool \<Rightarrow> agent_world \<Rightarrow> agent_world" where
  "typing_off x i cleared w =
     (if cleared then w
      else send (SendTyping (sx_registry x) (sx_now x i) (sx_agent x) (sx_sender x) (sx_conv x) False) w)"

definition stream_push :: "stream_ctx \<Rightarrow> nat \<Rightarrow> string \<Rightarrow> bool \<Rightarrow> agent_world \<Rightarrow> agent_world" where
  "stream_push x i txt is_done w =
     send (SendStreamUpdate (sx_registry x) (sx_now x i) (sx_sender x) (sx_agent x) (sx_conv x) (sx_stream x)
             txt is_done) w"

fun consume ::
  "stream_ctx \<Rightarrow> nat \<Rightarrow> agent_error stream_chunk list \<Rightarrow> bool \<Rightarrow> string \<Rightarrow> agent_world
     \<Rightarrow> (agent_error option \<times> string \<times> bool) \<times> agent_world" where
  "consume x i [] cleared txt w = ((None, txt, cleared), w)"
| "consume x i (c # cs) cleared txt w =
     (let fires = (sx_timer x = Some i);
          w0 = (if fires then typing_off x i cleared w else w);
          cleared0 = (cleared \<or> fires)
      in case c of
           ChunkErr e \<Rightarrow> ((Some e, txt, cleared0), w0)
         | ChunkDone \<Rightarrow> ((None, txt, cleared0), w0)
         | Snapshot s \<Rightarrow>
             if s = [] then consume x (Suc i) cs cleared0 txt w0
             else consume x (Suc i) cs True s (stream_push x i s False (typing_off x i cleared0 w0)))"

subsection \<open>Execute\<close>

definition run_ctx :: "'a agent_env \<Rightarrow> ('t, 'm, 'a) executor \<Rightarrow> ExecutePayload \<Rightarrow> agent_run \<Rightarrow> stream_ctx" where
  "run_ctx ae xr p ru =
     \<lparr>sx_registry = xr_helper_registry xr, sx_now = (\<lambda>i. ae_now ae (100 + i)), sx_conv = xp_conversation_id p,
      sx_agent = xp_agent_id p, sx_sender = xp_sender_id p, sx_stream = ae_uuid ae 0,
      sx_timer = ru_typing ru\<rparr>"

text \<open>The stream ended in an error: close it for the clients, keep the partial text, map the error.\<close>

definition execute_stream_error ::
  "'a agent_env \<Rightarrow> stream_ctx \<Rightarrow> agent_error \<Rightarrow> string \<Rightarrow> agent_world \<Rightarrow> agent_error option \<times> agent_world" where
  "execute_stream_error ae x e txt w =
     (let w1 = stream_push x 90 txt True w;
          w2 = (if txt = [] then w1
                else snd (store_agent_text ae (ae_tx ae 0) 10 (sx_conv x) (sx_agent x) (sx_sender x) txt w1))
      in (Some (wrap_error ''execute agent: stream'' (map_stream_error e)), w2))"

definition execute_interrupt ::
  "'a agent_env \<Rightarrow> ('t, 'm, 'a) executor \<Rightarrow> stream_ctx \<Rightarrow> InterruptInfo \<Rightarrow> string \<Rightarrow> agent_world
     \<Rightarrow> agent_error option \<times> agent_world" where
  "execute_interrupt ae xr x info txt w =
     (case open_remote_calling ''execute agent'' ae (xr_rc_store xr) (sx_conv x) (sx_agent x) (ae_uuid ae 1) info w of
        (Inl e, w1) \<Rightarrow> (Some e, w1)
      | (Inr at, w1) \<Rightarrow>
          (Some (wrap_error ''execute agent'' (sentinel ErrHITLInterrupted)),
           send (interrupt_pushes ae (sx_sender x) (sx_agent x) (sx_conv x) at (interrupt_status ae info))
             (stream_push x 91 txt True (broadcast_to_members ae (xr_broadcast xr) (sx_conv x) w1))))"

definition execute_finish ::
  "'a agent_env \<Rightarrow> stream_ctx \<Rightarrow> string \<Rightarrow> agent_world \<Rightarrow> agent_error option \<times> agent_world" where
  "execute_finish ae x txt w =
     (let w1 = stream_push x 92 txt True w in
      if txt = [] then (None, w1)
      else case store_agent_text ae (ae_tx ae 0) 10 (sx_conv x) (sx_agent x) (sx_sender x) txt w1 of
             (Some e, w2) \<Rightarrow> (Some (plain_error (''execute agent: persist message: '' @ store_error_msg e)), w2)
           | (None, w2) \<Rightarrow> (None, w2))"

text \<open>The part after the agent has been built; the deferred call clears typing last.\<close>

definition execute_run ::
  "'a agent_env \<Rightarrow> ('t, 'm, 'a) executor \<Rightarrow> ExecutePayload \<Rightarrow> 'a \<Rightarrow> message list \<Rightarrow> agent_world
     \<Rightarrow> agent_error option \<times> agent_world" where
  "execute_run ae xr p a ms w =
     (let (ru, w1) = ae_run ae a (convertMessages (Some (xr_registry xr)) ms) (ae_uuid ae 1) w;
          x = run_ctx ae xr p ru;
          (chunks, intr) = BridgeWithInterrupt (ru_choices ru) (ru_ended ru) 0 (ru_events ru);
          ((err, txt, cleared), w2) = consume x 0 chunks False [] w1;
          (r, w3) = (case err of
                       Some e \<Rightarrow> execute_stream_error ae x e txt w2
                     | None \<Rightarrow> (case intr of
                                 Some info \<Rightarrow> execute_interrupt ae xr x info txt w2
                               | None \<Rightarrow> execute_finish ae x txt w2))
      in (r, typing_off x 93 cleared w3))"

definition typing_push :: "'a agent_env \<Rightarrow> ('t, 'm, 'a) executor \<Rightarrow> ExecutePayload \<Rightarrow> nat \<Rightarrow> bool \<Rightarrow> push list" where
  "typing_push ae xr p i on =
     SendTyping (xr_helper_registry xr) (ae_now ae i) (xp_agent_id p) (xp_sender_id p) (xp_conversation_id p) on"

definition Execute ::
  "'a agent_env \<Rightarrow> ('t, 'm, 'a) executor \<Rightarrow> ExecutePayload \<Rightarrow> agent_world \<Rightarrow> agent_error option \<times> agent_world" where
  "Execute ae xr p w =
     (case ae_sem ae of
        Some e \<Rightarrow> (Some (wrap_error ''execute agent'' e), w)
      | None \<Rightarrow>
          case Get (xp_agent_id p) (xr_registry xr) of
            None \<Rightarrow> (Some (wrap_error ''execute agent'' (under_sentinel ErrAgentNotFound (xp_agent_id p))), w)
          | Some config \<Rightarrow>
              let w1 = send (typing_push ae xr p 0 True) w in
              (case GetContext (ae_fault ae ACallGetContext) (ae_now ae 1) (ae_now ae 2) (xp_conversation_id p)
                      config (aw_db w1) (aw_cache w1) of
                 (Inl e, cm) \<Rightarrow>
                   (Some (wrap_error ''execute agent: load context'' e),
                    send (typing_push ae xr p 9 False) (w1\<lparr>aw_cache := cm\<rparr>))
               | (Inr ms, cm) \<Rightarrow>
                   let w2 = w1\<lparr>aw_cache := cm\<rparr> in
                   (case Build (xr_builder xr) config of
                      Inl e \<Rightarrow> (Some (wrap_error ''execute agent: build agent'' e),
                                send (typing_push ae xr p 9 False) w2)
                    | Inr a \<Rightarrow> execute_run ae xr p a ms w2)))"

definition ExecuteWithErrorMessage ::
  "'a agent_env \<Rightarrow> ('t, 'm, 'a) executor \<Rightarrow> ExecutePayload \<Rightarrow> agent_world \<Rightarrow> agent_error option \<times> agent_world" where
  "ExecuteWithErrorMessage ae xr p w =
     (case Execute ae xr p w of
        (None, w1) \<Rightarrow> (None, w1)
      | (Some e, w1) \<Rightarrow>
          if is_error e ErrHITLInterrupted then (Some e, w1)
          else (Some e, sendErrorMessage ae (xp_conversation_id p) (xp_agent_id p) (xp_sender_id p)
                          (classify_for_user (xr_debug xr) e) w1))"

end
