(* ===== verification/AgentExecuteProps.thy ===== *)
theory AgentExecuteProps
  imports AgentExecute
begin

text \<open>
  What a run of an agent leaves behind (theory \<open>AgentExecute\<close>): the reply, the pending call of an
  interrupt, the error message, and the cases in which the user learns nothing.
\<close>

subsection \<open>What the consumer makes of the chunks\<close>

text \<open>The error and the text, apart from the pushes.\<close>

fun chunk_result :: "agent_error stream_chunk list \<Rightarrow> string \<Rightarrow> agent_error option \<times> string" where
  "chunk_result [] t = (None, t)"
| "chunk_result (ChunkErr e # cs) t = (Some e, t)"
| "chunk_result (ChunkDone # cs) t = (None, t)"
| "chunk_result (Snapshot s # cs) t = chunk_result cs (if s = [] then t else s)"

lemma typing_off_send: "\<exists>ps. typing_off x i cleared w = send ps w \<and> (\<forall>p \<in> set ps. du_seq (snd p) = 0)"
proof (cases cleared)
  case True
  then show ?thesis by (intro exI [of _ "[]"]) (simp add: typing_off_def)
next
  case False
  then show ?thesis unfolding typing_off_def by (metis ephemeral_pushes(2))
qed

lemma stream_push_send: "\<exists>ps. stream_push x i t dn w = send ps w \<and> (\<forall>p \<in> set ps. du_seq (snd p) = 0)"
  unfolding stream_push_def by (metis ephemeral_pushes(1))

lemma send_trans:
  "(\<exists>ps. w2 = send ps w1 \<and> (\<forall>p \<in> set ps. P p)) \<Longrightarrow> (\<exists>ps. w1 = send ps w \<and> (\<forall>p \<in> set ps. P p)) \<Longrightarrow>
     \<exists>ps. w2 = send ps w \<and> (\<forall>p \<in> set ps. P p)"
proof (elim exE conjE)
  fix ps qs assume "w2 = send ps w1" "\<forall>p \<in> set ps. P p" "w1 = send qs w" "\<forall>p \<in> set qs. P p"
  then have "w2 = send (qs @ ps) w \<and> (\<forall>p \<in> set (qs @ ps). P p)" by auto
  then show ?thesis by blast
qed

lemma consume_chunks:
  "fst (fst (consume x i cs cleared t w)) = fst (chunk_result cs t)
   \<and> fst (snd (fst (consume x i cs cleared t w))) = snd (chunk_result cs t)
   \<and> (\<exists>ps. snd (consume x i cs cleared t w) = send ps w \<and> (\<forall>p \<in> set ps. du_seq (snd p) = 0))"
proof (induction cs arbitrary: i cleared t w)
  case Nil
  have "\<exists>ps. w = send ps w \<and> (\<forall>p \<in> set ps. du_seq (snd p) = 0)" by (intro exI [of _ "[]"]) simp
  then show ?case by simp
next
  case (Cons c cs)
  let ?f = "sx_timer x = Some i"
  let ?w0 = "if ?f then typing_off x i cleared w else w"
  have w0: "\<exists>ps. ?w0 = send ps w \<and> (\<forall>p \<in> set ps. du_seq (snd p) = 0)"
    using typing_off_send [of x i cleared w] by (auto intro: exI [of _ "[]"])
  show ?case
  proof (cases c)
    case (Snapshot s)
    show ?thesis
    proof (cases "s = []")
      case True
      have step: "consume x i (c # cs) cleared t w = consume x (Suc i) cs (cleared \<or> ?f) t ?w0"
        by (simp add: Snapshot True Let_def)
      have chunk: "chunk_result (c # cs) t = chunk_result cs t" by (simp add: Snapshot True)
      show ?thesis
        unfolding step chunk
        using Cons.IH [of "Suc i" "cleared \<or> ?f" t ?w0] send_trans [OF _ w0] by blast
    next
      case False
      let ?w1 = "stream_push x i s False (typing_off x i (cleared \<or> ?f) ?w0)"
      have step: "consume x i (c # cs) cleared t w = consume x (Suc i) cs True s ?w1"
        by (simp add: Snapshot False Let_def)
      have chunk: "chunk_result (c # cs) t = chunk_result cs s" by (simp add: Snapshot False)
      have "\<exists>ps. ?w1 = send ps w \<and> (\<forall>p \<in> set ps. du_seq (snd p) = 0)"
        by (rule send_trans [OF stream_push_send send_trans [OF typing_off_send w0]])
      then show ?thesis
        unfolding step chunk using Cons.IH [of "Suc i" True s ?w1] send_trans by blast
    qed
  qed (use w0 in \<open>simp_all add: Let_def\<close>)
qed

lemma chunk_result_append:
  "\<forall>c \<in> set out. \<exists>s. c = Snapshot s \<Longrightarrow> [] \<notin> set (chunk_texts out) \<Longrightarrow>
     chunk_result (out @ fin) t = chunk_result fin (last_text t out)"
  by (induction out arbitrary: t) auto

lemma bridge_snapshots_nonempty: "[] \<notin> set (chunk_texts (fst (bridge_loop cs ts buf)))"
proof (induction cs ts buf rule: bridge_loop.induct)
  case (1 ts buf)
  have "chunk_texts (fst (stream_end ts)) = []"
    by (induction ts rule: stream_end.induct) auto
  then show ?case by (auto simp: bridge_drain_eq)
next
  case (3 cs ts buf)
  then show ?case by (auto simp: split_beta Let_def)
qed (auto simp: bridge_drain_eq)

definition stream_error :: "agent_error text_event list \<Rightarrow> agent_error option" where
  "stream_error ts = fst (chunk_result (fst (stream_end ts)) [])"

lemma chunk_result_stream_end: "chunk_result (fst (stream_end ts)) t = (stream_error ts, t)"
  unfolding stream_error_def by (induction ts rule: stream_end.induct) auto

text \<open>
  Without cancellation the executor sees the whole text, the error and the interrupt of the run, whatever
  the ticker does.
\<close>

lemma bridge_outcome:
  assumes "Cancelled \<notin> set cs"
  shows "chunk_result (fst (bridge_loop cs ts [])) [] = (stream_error ts, stream_text_of ts)"
    and "snd (bridge_loop cs ts []) = snd (stream_end ts)"
proof -
  obtain out where out: "snd (bridge_loop cs ts []) = snd (stream_end ts)"
    "fst (bridge_loop cs ts []) = out @ fst (stream_end ts)" "\<forall>c \<in> set out. \<exists>s. c = Snapshot s"
    using bridge_loop_end [OF assms, of ts "[]"] by blast
  have ne: "[] \<notin> set (chunk_texts out)"
    using bridge_snapshots_nonempty [of cs ts "[]"] out(2) by simp
  have "last_text [] (out @ fst (stream_end ts)) = stream_text_of ts"
    using bridge_loop_text [OF assms, of "[]" ts "[]"] out(2) by (simp split: if_splits)
  then have "last_text [] out = stream_text_of ts" by simp
  then show "chunk_result (fst (bridge_loop cs ts [])) [] = (stream_error ts, stream_text_of ts)"
    by (simp only: out(2) chunk_result_append [OF out(3) ne] chunk_result_stream_end)
  show "snd (bridge_loop cs ts []) = snd (stream_end ts)" by (rule out(1))
qed

text \<open>What the executor does once it knows the outcome of the stream.\<close>

lemma execute_run_outcome:
  fixes p :: ExecutePayload
  assumes run: "ae_run ae a (convertMessages (Some (xr_registry xr)) ms) (ae_uuid ae 1) w = (ru, w1)"
    and chunks: "chunk_result (fst (BridgeWithInterrupt (ru_choices ru) (ru_ended ru) 0 (ru_events ru))) [] = (err, txt)"
    and intr: "snd (BridgeWithInterrupt (ru_choices ru) (ru_ended ru) 0 (ru_events ru)) = i"
  defines "x \<equiv> run_ctx ae xr p ru"
  shows "\<exists>ps qs. execute_run ae xr p a ms w =
     (let (r, w3) = (case err of
                       Some e \<Rightarrow> execute_stream_error ae x e txt (send ps w1)
                     | None \<Rightarrow> (case i of
                                 Some info \<Rightarrow> execute_interrupt ae xr x info txt (send ps w1)
                               | None \<Rightarrow> execute_finish ae x txt (send ps w1)))
      in (r, send qs w3))"
proof -
  let ?b = "BridgeWithInterrupt (ru_choices ru) (ru_ended ru) 0 (ru_events ru)"
  obtain cleared ps where c: "consume x 0 (fst ?b) False [] w1 = ((err, txt, cleared), send ps w1)"
    using consume_chunks [of x 0 "fst ?b" False "[]" w1] chunks
    by (cases "consume x 0 (fst ?b) False [] w1") (auto simp: prod_eq_iff)
  have off: "\<exists>qs. typing_off x 93 cleared w3 = send qs w3" for w3
    using typing_off_send by blast
  have b: "?b = (fst ?b, i)" using intr by (metis prod.collapse)
  have eq: "execute_run ae xr p a ms w =
     (let (r, w3) = (case err of
                       Some e \<Rightarrow> execute_stream_error ae x e txt (send ps w1)
                     | None \<Rightarrow> (case i of
                                 Some info \<Rightarrow> execute_interrupt ae xr x info txt (send ps w1)
                               | None \<Rightarrow> execute_finish ae x txt (send ps w1)))
      in (r, typing_off x 93 cleared w3))"
    unfolding execute_run_def run prod.case Let_def
    by (subst b) (simp only: prod.case c flip: x_def)
  show ?thesis
  proof -
    let ?R = "case err of
                       Some e \<Rightarrow> execute_stream_error ae x e txt (send ps w1)
                     | None \<Rightarrow> (case i of
                                 Some info \<Rightarrow> execute_interrupt ae xr x info txt (send ps w1)
                               | None \<Rightarrow> execute_finish ae x txt (send ps w1))"
    obtain qs where "typing_off x 93 cleared (snd ?R) = send qs (snd ?R)" using off by blast
    then have "(let (r, w3) = ?R in (r, typing_off x 93 cleared w3)) = (let (r, w3) = ?R in (r, send qs w3))"
      by (simp add: split_beta Let_def)
    then show ?thesis unfolding eq by blast
  qed
qed

subsection \<open>Texts of the agent\<close>

lemma store_agent_text_ok:
  assumes conv: "conv_get conv (aw_db w) = Inr c" and fresh: "agent_fresh (ae_uuid ae) (aw_db w)"
    and now: "ae_now ae k \<noteq> zero_time"
  shows "\<exists>m us. store_agent_text ae tx_ok k conv agent sender content w
      = (None, send (BroadcastMessageUpdate us) (set_aw_db (sent_db (ae_now ae (k + 1)) c m us (aw_db w)) w))
    \<and> m = (agent_text (ae_uuid ae k) (ae_uuid ae (k + 1)) (ae_now ae k) conv agent content)
            \<lparr>m_msg_id := c_last_msg c + 1\<rparr>
    \<and> map u_user us = [sender, agent]
    \<and> (\<forall>u \<in> set us. u_seq u = upd_latest_seq (u_user u) (aw_db w) + 1 \<and> u_payload u = PMessage m)"
proof -
  let ?row = "agent_text (ae_uuid ae k) (ae_uuid ae (k + 1)) (ae_now ae k) conv agent content"
  let ?m = "?row\<lparr>m_msg_id := c_last_msg c + 1\<rparr>"
  let ?us = "build_updates (\<lambda>i. ae_uuid ae (k + 2 + i)) (ae_now ae (k + 1)) UpdateTypeMessage (PMessage ?m)
      [sender, agent] (aw_db w)"
  have row: "m_conv ?row = conv" "m_created ?row = ae_now ae k" "m_type ?row = ''text''"
    "m_status ?row = ''sent''" "m_id ?row = ae_uuid ae k" "m_client_id ?row = ae_uuid ae (k + 1)"
    by (simp_all add: agent_text_def)
  have "store_send_message tx_ok (\<lambda>i. ae_uuid ae (k + 2 + i)) (ae_now ae (k + 1)) ?row [sender, agent] (aw_db w)
      = Inr ((?m, ?us), sent_db (ae_now ae (k + 1)) c ?m ?us (aw_db w))"
  proof (rule store_send_message_ok)
    show "conv_get (m_conv ?row) (aw_db w) = Inr c" using conv by (simp only: row)
    show "inj (\<lambda>i. ae_uuid ae (k + 2 + i))" by (rule agent_fresh_shift [OF fresh])
    show "ae_uuid ae (k + 2 + i) \<notin> u_id ` set (upds (aw_db w))" for i by (rule agent_fresh_upds [OF fresh])
    show "m_created ?row \<noteq> zero_time" unfolding row by (rule now)
    show "m_type ?row \<noteq> []" "m_status ?row \<noteq> []" unfolding row by simp_all
    show "\<not> list_ex (msg_conflict ?row) (msgs (aw_db w))"
      by (rule agent_fresh_no_conflict [OF fresh row(5,6)])
    show "length [sender, agent] \<le> maxSendMessageUpdates" by (simp add: maxSendMessageUpdates_def)
  qed
  then have "store_agent_text ae tx_ok k conv agent sender content w
      = (None, send (BroadcastMessageUpdate ?us) (set_aw_db (sent_db (ae_now ae (k + 1)) c ?m ?us (aw_db w)) w))"
    by (simp only: store_agent_text_def sum.case prod.case)
  moreover have "\<forall>u \<in> set ?us. u_seq u = upd_latest_seq (u_user u) (aw_db w) + 1 \<and> u_payload u = PMessage ?m"
    using set_build_updates by fast
  ultimately show ?thesis by (metis map_u_user_build)
qed

text \<open>The part of \<^verbatim>\<open>Execute\<close> before the run, when nothing goes wrong.\<close>

definition prepared :: "'a agent_env \<Rightarrow> ('t, 'm, 'a) executor \<Rightarrow> ExecutePayload \<Rightarrow> AgentConfig \<Rightarrow> 'a \<Rightarrow> bool" where
  "prepared ae xr p config a \<longleftrightarrow> ae_sem ae = None \<and> ae_fault ae ACallGetContext = None
     \<and> Get (xp_agent_id p) (xr_registry xr) = Some config \<and> Build (xr_builder xr) config = Inr a"

lemma GetContext_succeeds: "\<exists>ms cm'. GetContext None now stored cid config d cm = (Inr ms, cm')"
  by (auto simp: GetContext_def Let_def split: option.splits)

lemma Execute_prepared:
  assumes "prepared ae xr p config a"
  shows "\<exists>ms cm. Execute ae xr p w = execute_run ae xr p a ms ((send (typing_push ae xr p 0 True) w)\<lparr>aw_cache := cm\<rparr>)"
proof -
  obtain ms cm where "GetContext None (ae_now ae 1) (ae_now ae 2) (xp_conversation_id p) config
      (aw_db (send (typing_push ae xr p 0 True) w)) (aw_cache (send (typing_push ae xr p 0 True) w)) = (Inr ms, cm)"
    using GetContext_succeeds by blast
  then show ?thesis
    using assms unfolding prepared_def Execute_def by (auto simp: Let_def)
qed

lemma cache_frame [simp]:
  "aw_db (w\<lparr>aw_cache := cm\<rparr>) = aw_db w" "aw_sent (w\<lparr>aw_cache := cm\<rparr>) = aw_sent w"
  by (simp_all add: aw_db_def)

text \<open>
  A run that reads and writes nothing of the database itself: its events are \<open>ru\<close> and the database is the
  one it found.
\<close>

definition plain_run :: "'a agent_env \<Rightarrow> 'a \<Rightarrow> agent_run \<Rightarrow> bool" where
  "plain_run ae a ru \<longleftrightarrow> (\<forall>ms v. \<exists>v'. ae_run ae a ms (ae_uuid ae 1) v = (ru, v')
     \<and> aw_db v' = aw_db v \<and> aw_srv v' = aw_srv v \<and> aw_sent v' = aw_sent v)"

definition run_texts :: "agent_run \<Rightarrow> agent_error text_event list" where
  "run_texts ru = read_with_interrupt (ru_ended ru) 0 (ru_events ru)"

lemma Execute_outcome:
  assumes "prepared ae xr p config a" "plain_run ae a ru" "Cancelled \<notin> set (ru_choices ru)"
  defines "x \<equiv> run_ctx ae xr p ru" and "ts \<equiv> run_texts ru"
  shows "\<exists>v qs ps. aw_srv v = aw_srv w \<and> aw_sent v = aw_sent w @ ps \<and>
    Execute ae xr p w =
     (let (r, w3) = (case stream_error ts of
                       Some e \<Rightarrow> execute_stream_error ae x e (stream_text_of ts) v
                     | None \<Rightarrow> (case snd (stream_end ts) of
                                 Some info \<Rightarrow> execute_interrupt ae xr x info (stream_text_of ts) v
                               | None \<Rightarrow> execute_finish ae x (stream_text_of ts) v))
      in (r, send qs w3))"
proof -
  obtain ms cm where ex: "Execute ae xr p w
      = execute_run ae xr p a ms ((send (typing_push ae xr p 0 True) w)\<lparr>aw_cache := cm\<rparr>)"
    using Execute_prepared [OF assms(1)] by blast
  obtain v' where v': "ae_run ae a (convertMessages (Some (xr_registry xr)) ms) (ae_uuid ae 1)
      ((send (typing_push ae xr p 0 True) w)\<lparr>aw_cache := cm\<rparr>) = (ru, v')"
    "aw_srv v' = aw_srv w" "aw_sent v' = aw_sent w @ typing_push ae xr p 0 True"
    using assms(2) unfolding plain_run_def by (metis (no_types, lifting) cache_frame(2) world_simps(6)
      world_simps(10) agent_world.select_convs(1) agent_world.surjective agent_world.update_convs(4))
  note bo = bridge_outcome [OF assms(3), of ts, unfolded ts_def run_texts_def, folded BridgeWithInterrupt_def]
  obtain ps qs where "execute_run ae xr p a ms ((send (typing_push ae xr p 0 True) w)\<lparr>aw_cache := cm\<rparr>) =
     (let (r, w3) = (case stream_error ts of
                       Some e \<Rightarrow> execute_stream_error ae x e (stream_text_of ts) (send ps v')
                     | None \<Rightarrow> (case snd (stream_end ts) of
                                 Some info \<Rightarrow> execute_interrupt ae xr x info (stream_text_of ts) (send ps v')
                               | None \<Rightarrow> execute_finish ae x (stream_text_of ts) (send ps v')))
      in (r, send qs w3))"
    using execute_run_outcome [OF v'(1) bo, of p] unfolding x_def ts_def run_texts_def by blast
  then show ?thesis
    unfolding ex using v' by (intro exI [of _ "send ps v'"] exI conjI) (auto simp: send_def)
qed

subsection \<open>The reply\<close>


subsection \<open>The end of the time allowed\<close>

lemma bridge_nothing:
  assumes "ru_choices ru = Cancelled # cs"
  shows "BridgeWithInterrupt (ru_choices ru) (ru_ended ru) n (ru_events ru) = ([], None)"
  using assms by (simp add: BridgeWithInterrupt_def flush_def)

text \<open>
  When the context ends before the first text (the total time-out of a model that does not answer), the run
  counts as a success: no error, so no error message and no retry; nothing is stored, and all the user
  receives is ephemeral.
\<close>

theorem timeout_before_first_token_is_silent:
  assumes "prepared ae xr p config a" "plain_run ae a ru" "ru_choices ru = Cancelled # cs"
  shows "\<exists>w' ps. ExecuteWithErrorMessage ae xr p w = (None, w') \<and> aw_db w' = aw_db w
    \<and> aw_sent w' = aw_sent w @ ps \<and> (\<forall>u \<in> set ps. du_seq (snd u) = 0)"
proof -
  obtain ms cm where ex: "Execute ae xr p w
      = execute_run ae xr p a ms ((send (typing_push ae xr p 0 True) w)\<lparr>aw_cache := cm\<rparr>)"
    using Execute_prepared [OF assms(1)] by blast
  let ?v = "(send (typing_push ae xr p 0 True) w)\<lparr>aw_cache := cm\<rparr>"
  obtain v' where v': "ae_run ae a (convertMessages (Some (xr_registry xr)) ms) (ae_uuid ae 1) ?v = (ru, v')"
    "aw_db v' = aw_db w" "aw_sent v' = aw_sent w @ typing_push ae xr p 0 True"
    using assms(2) unfolding plain_run_def by (metis cache_frame world_simps(5,6))
  let ?x = "run_ctx ae xr p ru"
  have run: "execute_run ae xr p a ms ?v
      = (None, typing_off ?x 93 False (stream_push ?x 92 [] True v'))"
    unfolding execute_run_def v'(1) prod.case Let_def bridge_nothing [OF assms(3)]
    by (simp add: execute_finish_def Let_def)
  obtain ps1 where 1: "stream_push ?x 92 [] True v' = send ps1 v'" "\<forall>u \<in> set ps1. du_seq (snd u) = 0"
    using stream_push_send by blast
  obtain ps2 where 2: "typing_off ?x 93 False (send ps1 v') = send ps2 (send ps1 v')"
    "\<forall>u \<in> set ps2. du_seq (snd u) = 0" using typing_off_send by blast
  have 3: "\<forall>u \<in> set (typing_push ae xr p 0 True). du_seq (snd u) = 0" by (simp add: typing_push_def)
  have "ExecuteWithErrorMessage ae xr p w = (None, send ps2 (send ps1 v'))"
    by (simp add: ExecuteWithErrorMessage_def ex run 1 2)
  then show ?thesis
    using v' 1(2) 2(2) 3
    by (intro exI [of _ "send ps2 (send ps1 v')"] exI [of _ "typing_push ae xr p 0 True @ ps1 @ ps2"]) auto
qed

text \<open>
  When the context ends after some text, the executor tries to store the text with the ended context, so
  the store refuses, and the text already shown is replaced by a general error message.
\<close>

lemma cancelled_store: "tx_cancelled t 0 \<Longrightarrow> store_send_message t uuid now m [u, v] d = Inl ctx_error"
  by (simp add: store_send_message_def store_transaction_def maxSendMessageUpdates_def)

theorem cancelled_text_is_lost:
  assumes "txt \<noteq> []" "tx_cancelled (ae_tx ae 0) 0"
  shows "\<exists>e w'. execute_finish ae x txt w = (Some e, w') \<and> aw_db w' = aw_db w
    \<and> \<not> isTransientError e \<and> \<not> isHITLInterrupt e \<and> classify_for_user False e = txt_problem"
  using assms
  by (simp add: execute_finish_def Let_def store_agent_text_def cancelled_store stream_push_def
      isTransientError_def isHITLInterrupt_def classify_for_user_def)

subsection \<open>Errors\<close>

text \<open>A run for an agent nobody registered ends in an error message of that agent in the conversation.\<close>

theorem unknown_agent_is_reported:
  assumes "ae_sem ae = None" "Get (xp_agent_id p) (xr_registry xr) = None" "\<not> xr_debug xr"
    and "conv_get (xp_conversation_id p) (aw_db w) = Inr c"
    and "agent_fresh (ae_uuid ae) (aw_db w)" "ae_now ae 40 \<noteq> zero_time" "ae_tx ae 1 = tx_ok"
  shows "\<exists>e w' m us. ExecuteWithErrorMessage ae xr p w = (Some e, w')
    \<and> aw_db w' = sent_db (ae_now ae 41) c m us (aw_db w)
    \<and> m_content m = txt_not_registered \<and> m_sender m = xp_agent_id p \<and> \<not> isTransientError e"
proof -
  let ?e = "wrap_error ''execute agent'' (under_sentinel ErrAgentNotFound (xp_agent_id p))"
  have ex: "Execute ae xr p w = (Some ?e, w)" using assms(1,2) by (simp add: Execute_def)
  have shown: "classify_for_user (xr_debug xr) ?e = txt_not_registered"
    using assms(3) by (simp add: classify_for_user_def)
  from store_agent_text_ok [OF assms(4-6), of "xp_agent_id p" "xp_sender_id p" txt_not_registered]
  obtain m us where "store_agent_text ae tx_ok 40 (xp_conversation_id p) (xp_agent_id p) (xp_sender_id p)
      txt_not_registered w
      = (None, send (BroadcastMessageUpdate us) (set_aw_db (sent_db (ae_now ae 41) c m us (aw_db w)) w))"
    and m: "m = (agent_text (ae_uuid ae 40) (ae_uuid ae 41) (ae_now ae 40) (xp_conversation_id p) (xp_agent_id p)
        txt_not_registered)\<lparr>m_msg_id := c_last_msg c + 1\<rparr>"
    by auto
  then have "\<exists>w'. ExecuteWithErrorMessage ae xr p w = (Some ?e, w')
      \<and> aw_db w' = sent_db (ae_now ae 41) c m us (aw_db w)"
    by (simp add: ExecuteWithErrorMessage_def ex shown sendErrorMessage_def assms(7) del: One_nat_def)
  then obtain w' where "ExecuteWithErrorMessage ae xr p w = (Some ?e, w')"
    "aw_db w' = sent_db (ae_now ae 41) c m us (aw_db w)" by blast
  moreover have "m_content m = txt_not_registered" "m_sender m = xp_agent_id p" by (simp_all add: m agent_text_def)
  moreover have "\<not> isTransientError ?e" by (simp add: isTransientError_def)
  ultimately show ?thesis by blast
qed

subsection \<open>Interrupts\<close>

text \<open>A row of the paused run: pending, under the run's checkpoint, with the interrupt it answers.\<close>

definition awaits_answer :: "string \<Rightarrow> string \<Rightarrow> string \<Rightarrow> InterruptInfo \<Rightarrow> remote_calling \<Rightarrow> bool" where
  "awaits_answer conv agent cp info r \<longleftrightarrow> rc_stat r = RcPending \<and> rc_live r \<and> rc_conv r = conv \<and> rc_agent r = agent
     \<and> rc_checkpoint r = cp \<and> rc_interrupt r = ii_interrupt_id info"

lemma interrupt_row_awaits: "awaits_answer conv agent cp info (interrupt_row ae conv agent cp info d)"
  by (auto simp: awaits_answer_def interrupt_row_def rc_live_def split: option.splits)

lemma rc_create_pending:
  assumes "rc_create fk now r d = Inr d'" "awaits_answer conv agent cp info r"
  shows "\<exists>r'. d' = d\<lparr>rcs := rcs d @ [r']\<rparr> \<and> awaits_answer conv agent cp info r'"
  using assms by (auto simp: rc_create_def awaits_answer_def rc_live_def split: if_splits)

lemma conv_get_exists:
  assumes "conv_get cid d = Inr c"
  shows "count_where (\<lambda>c. c_id c = cid \<and> conv_live c) (convs d) \<noteq> 0" "list_ex (\<lambda>c. c_id c = cid) (convs d)"
proof -
  have c: "c \<in> set (convs d)" "c_id c = cid" "conv_live c"
    using assms first_by_SomeD [of c_id "\<lambda>c. c_id c = cid \<and> conv_live c" "convs d" c]
    by (auto simp: conv_get_def split: option.splits)
  then show "count_where (\<lambda>c. c_id c = cid \<and> conv_live c) (convs d) \<noteq> 0"
    by (auto simp: count_where_zero)
  show "list_ex (\<lambda>c. c_id c = cid) (convs d)" using c by (auto simp: list_ex_iff)
qed

definition status_set :: "'a agent_env \<Rightarrow> string \<Rightarrow> string \<Rightarrow> string \<Rightarrow> InterruptInfo \<Rightarrow> conversation list \<Rightarrow> conversation list" where
  "status_set ae conv agent cp info = update_where (\<lambda>c. c_id c = conv \<and> conv_live c)
     (\<lambda>c. c\<lparr>c_agent_status := interrupt_status ae info, c_agent_id := agent, c_checkpoint := cp,
            c_agent_act := ae_now ae 3, c_updated := ae_now ae 3\<rparr>)"

lemma status_set_exists: "list_ex (\<lambda>c. c_id c = cid) (status_set ae conv agent cp info cs) = list_ex (\<lambda>c. c_id c = cid) cs"
  by (induction cs) (auto simp: status_set_def update_where_def)

lemma open_remote_calling_ok:
  assumes "conv_get conv (aw_db w) = Inr c" "ae_fault ae ACallUpdateStatus = None" "ae_fault ae ACallCreateRC = None"
    and "\<forall>r \<in> set (rcs (aw_db w)). rc_id r \<noteq> ae_uuid ae 2"
  shows "\<exists>r. open_remote_calling pre ae True conv agent cp info w
      = (Inr (ae_now ae 3), set_aw_db ((aw_db w)\<lparr>convs := status_set ae conv agent cp info (convs (aw_db w)),
           rcs := rcs (aw_db w) @ [r]\<rparr>) w) \<and> awaits_answer conv agent cp info r"
proof -
  let ?d = "(aw_db w)\<lparr>convs := status_set ae conv agent cp info (convs (aw_db w))\<rparr>"
  let ?r = "interrupt_row ae conv agent cp info ?d"
  note ex = conv_get_exists [OF assms(1)]
  have upd: "ae_try ae ACallUpdateStatus
       (conv_update_agent_status (ae_now ae 3) conv (interrupt_status ae info) agent cp (aw_db w)) = Inr (ae_now ae 3, ?d)"
    using ex(1) assms(2) by (simp add: ae_try_def conv_update_agent_status_def status_set_def)
  have row: "rc_id ?r = ae_uuid ae 2" "rc_conv ?r = conv"
    by (auto simp: interrupt_row_def split: option.splits)
  obtain d' where d': "rc_create (ae_fk ae) (ae_now ae 6) ?r ?d = Inr d'"
    using assms(4) ex(2) by (auto simp: rc_create_def row list_ex_iff status_set_exists [unfolded list_ex_iff])
  obtain r where r: "d' = ?d\<lparr>rcs := rcs ?d @ [r]\<rparr>" "awaits_answer conv agent cp info r"
    using rc_create_pending [OF d' interrupt_row_awaits] by blast
  have create: "ae_try ae ACallCreateRC (rc_create (ae_fk ae) (ae_now ae 6) ?r ?d) = Inr d'"
    by (simp add: ae_try_ok [OF assms(3)] d')
  show ?thesis
    using r by (intro exI [of _ r]) (simp add: open_remote_calling_def upd create)
qed

lemma broadcast_to_members_frame:
  "convs (aw_db (broadcast_to_members ae b conv w)) = convs (aw_db w)
   \<and> msgs (aw_db (broadcast_to_members ae b conv w)) = msgs (aw_db w)
   \<and> rcs (aw_db (broadcast_to_members ae b conv w)) = rcs (aw_db w)
   \<and> aw_sent (broadcast_to_members ae b conv w) = aw_sent w"
proof -
  have "convs d' = convs d \<and> msgs d' = msgs d \<and> rcs d' = rcs d"
    if "store_transaction t (\<lambda>d. case upd_create (b d) d of Inl e \<Rightarrow> Inl e | Inr d' \<Rightarrow> Inr (b d, d')) d = Inr (us, d')"
    for t b d us d'
    using store_transaction_Inr [OF that] by (auto split: sum.splits dest: upd_create_Inr)
  then show ?thesis
    by (auto simp: broadcast_to_members_def broadcastConversationUpdateToMembers_def Let_def aw_db_def split: sum.split)
qed

text \<open>
  A run that pauses leaves the conversation in the status of the question, exactly one new pending call
  under the checkpoint of this run, and no message; the result tells the task handler to keep the lock.
\<close>

theorem interrupt_opens_one_call:
  assumes ready: "prepared ae xr p config a" "plain_run ae a ru" "Cancelled \<notin> set (ru_choices ru)"
    and ends: "stream_error (run_texts ru) = None" "snd (stream_end (run_texts ru)) = Some info"
    and conv: "conv_get (xp_conversation_id p) (aw_db w) = Inr c" and store: "xr_rc_store xr"
    and ok: "ae_fault ae ACallUpdateStatus = None" "ae_fault ae ACallCreateRC = None"
    and fresh: "\<forall>r \<in> set (rcs (aw_db w)). rc_id r \<noteq> ae_uuid ae 2"
  shows "\<exists>e w' r. ExecuteWithErrorMessage ae xr p w = (Some e, w') \<and> is_error e ErrHITLInterrupted
    \<and> rcs (aw_db w') = rcs (aw_db w) @ [r]
    \<and> awaits_answer (xp_conversation_id p) (xp_agent_id p) (ae_uuid ae 1) info r
    \<and> convs (aw_db w') = status_set ae (xp_conversation_id p) (xp_agent_id p) (ae_uuid ae 1) info (convs (aw_db w))
    \<and> msgs (aw_db w') = msgs (aw_db w)"
proof -
  let ?x = "run_ctx ae xr p ru" and ?t = "stream_text_of (run_texts ru)"
  obtain v qs ps where v: "aw_srv v = aw_srv w"
    and ex: "Execute ae xr p w = (let (r, w3) = execute_interrupt ae xr ?x info ?t v in (r, send qs w3))"
    using Execute_outcome [OF ready, of w] ends by auto
  have db: "aw_db v = aw_db w" using v by (simp add: aw_db_def)
  have ctx: "sx_conv ?x = xp_conversation_id p" "sx_agent ?x = xp_agent_id p" "sx_sender ?x = xp_sender_id p"
    by (simp_all add: run_ctx_def)
  obtain r where r: "open_remote_calling ''execute agent'' ae True (xp_conversation_id p) (xp_agent_id p) (ae_uuid ae 1)
        info v = (Inr (ae_now ae 3), set_aw_db ((aw_db w)\<lparr>convs := status_set ae (xp_conversation_id p) (xp_agent_id p)
          (ae_uuid ae 1) info (convs (aw_db w)), rcs := rcs (aw_db w) @ [r]\<rparr>) v)"
    "awaits_answer (xp_conversation_id p) (xp_agent_id p) (ae_uuid ae 1) info r"
    using open_remote_calling_ok [of "xp_conversation_id p" v c ae] conv ok fresh unfolding db by blast
  let ?w1 = "set_aw_db ((aw_db w)\<lparr>convs := status_set ae (xp_conversation_id p) (xp_agent_id p)
          (ae_uuid ae 1) info (convs (aw_db w)), rcs := rcs (aw_db w) @ [r]\<rparr>) v"
  let ?w2 = "broadcast_to_members ae (xr_broadcast xr) (xp_conversation_id p) ?w1"
  obtain ps2 where ps2: "stream_push ?x 91 ?t True ?w2 = send ps2 ?w2" using stream_push_send by blast
  let ?e = "wrap_error ''execute agent'' (sentinel ErrHITLInterrupted)"
  have "\<exists>rs. Execute ae xr p w = (Some ?e, send rs ?w2)"
    using store by (auto simp: ex execute_interrupt_def ctx r(1) ps2 simp del: One_nat_def)
  then obtain rs where "Execute ae xr p w = (Some ?e, send rs ?w2)" by blast
  moreover have "is_error ?e ErrHITLInterrupted" by simp
  ultimately have "ExecuteWithErrorMessage ae xr p w = (Some ?e, send rs ?w2)"
    by (simp add: ExecuteWithErrorMessage_def)
  then show ?thesis
    using r(2) broadcast_to_members_frame [of ae "xr_broadcast xr" "xp_conversation_id p" ?w1] \<open>is_error ?e ErrHITLInterrupted\<close>
    by (intro exI [of _ ?e] exI [of _ "send rs ?w2"] exI [of _ r]) simp
qed

text \<open>
  The status and the call are two statements: when the second fails, the conversation waits for an answer
  nobody can give, and the failure is reported as an ordinary error.
\<close>

theorem half_opened_call:
  assumes "conv_get conv (aw_db w) = Inr c" "ae_fault ae ACallUpdateStatus = None"
    and "ae_fault ae ACallCreateRC = Some e"
  shows "\<exists>e'. open_remote_calling pre ae True conv agent cp info w
      = (Inl e', set_aw_db ((aw_db w)\<lparr>convs := status_set ae conv agent cp info (convs (aw_db w))\<rparr>) w)
    \<and> \<not> isHITLInterrupt e'"
  using conv_get_exists(1) [OF assms(1)] assms(2,3)
  by (simp add: open_remote_calling_def ae_try_def conv_update_agent_status_def status_set_def isHITLInterrupt_def
      is_error_def plain_error_def)

end
