(* ===== verification/AgentTask.thy ===== *)
theory AgentTask
  imports AgentExecuteProps
begin

text \<open>
  \<^verbatim>\<open>internal/agent/task_handler.go\<close>: one delivery of a task that asks an agent to answer a message, with the
  conversation lock, the two marks against repeated and concurrent processing, and what is returned to
  the queue.
\<close>

subsection \<open>Marks and locks of a delivery\<close>

text \<open>The Redis commands of the two handlers, for the environment to fail and to time.\<close>

datatype redis_call =
    LockAcquire
  | CheckDone
  | CheckRunning
  | MarkRunning
  | MarkDone
  | DeleteRunning
  | LockRelease
  | DropCheckpoint

record task_env =
  tk_locks :: bool
  tk_marks :: bool
  tk_token :: string
  tk_fault :: "redis_call \<Rightarrow> fault"
  tk_now :: "redis_call \<Rightarrow> time"

abbreviation lock_ttl :: duration where "lock_ttl \<equiv> 130 * second"
abbreviation done_ttl :: duration where "done_ttl \<equiv> 24 * 3600 * second"

definition set_keys :: "keys \<Rightarrow> agent_world \<Rightarrow> agent_world" where
  "set_keys r w = w\<lparr>aw_keys := r\<rparr>"

lemma set_keys_simps [simp]:
  "aw_keys (set_keys r w) = r" "aw_srv (set_keys r w) = aw_srv w" "aw_sent (set_keys r w) = aw_sent w"
  "aw_db (set_keys r w) = aw_db w" "aw_cache (set_keys r w) = aw_cache w"
  by (simp_all add: set_keys_def aw_db_def)

text \<open>\<open>None\<close>: there is no lock or the command failed, and the handler goes on without.\<close>

definition take_lock :: "task_env \<Rightarrow> string \<Rightarrow> agent_world \<Rightarrow> bool option \<times> agent_world" where
  "take_lock tk cid w =
     (if \<not> tk_locks tk then (None, w)
      else case lock_Acquire (tk_fault tk LockAcquire) (tk_token tk) (tk_now tk LockAcquire) cid lock_ttl (aw_keys w) of
             (Inl m, r) \<Rightarrow> (None, w)
           | (Inr ok, r) \<Rightarrow> (Some ok, set_keys r w))"

definition drop_lock :: "task_env \<Rightarrow> string \<Rightarrow> agent_world \<Rightarrow> agent_world" where
  "drop_lock tk cid w =
     (if tk_locks tk
      then set_keys (snd (lock_Release (tk_fault tk LockRelease) (tk_token tk) (tk_now tk LockRelease) cid (aw_keys w))) w
      else w)"

text \<open>A check that fails counts as not marked.\<close>

definition marked :: "task_env \<Rightarrow> redis_call \<Rightarrow> string \<Rightarrow> agent_world \<Rightarrow> bool" where
  "marked tk call k w = (CheckProcessed (tk_fault tk call) (tk_now tk call) k (aw_keys w) = Inr True)"

definition mark :: "task_env \<Rightarrow> redis_call \<Rightarrow> string \<Rightarrow> duration \<Rightarrow> agent_world \<Rightarrow> agent_world" where
  "mark tk call k ttl w =
     set_keys (snd (MarkProcessed (tk_fault tk call) (tk_now tk call) k ttl (aw_keys w))) w"

definition unmark :: "task_env \<Rightarrow> redis_call \<Rightarrow> string \<Rightarrow> agent_world \<Rightarrow> agent_world" where
  "unmark tk call k w = set_keys (snd (DeleteKey (tk_fault tk call) k (aw_keys w))) w"

subsection \<open>The handler\<close>

definition processedKey :: "string \<Rightarrow> string" where
  "processedKey mid = ''agent:processed:'' @ mid"

definition processingKey :: "string \<Rightarrow> string" where
  "processingKey mid = ''agent:processing:'' @ mid"

definition lock_held_error :: agent_error where
  "lock_held_error = plain_error ''conversation lock held by another task, retrying later''"

definition exec_payload :: "agent_process_payload \<Rightarrow> ExecutePayload" where
  "exec_payload p =
     \<lparr>xp_message_id = ap_message_id p, xp_conversation_id = ap_conversation_id p, xp_agent_id = ap_agent_id p,
      xp_sender_id = ap_sender_id p, xp_device_id = ap_device_id p\<rparr>"

text \<open>The release of the task handler: only what this delivery acquired.\<close>

definition release_own :: "task_env \<Rightarrow> bool \<Rightarrow> string \<Rightarrow> agent_world \<Rightarrow> agent_world" where
  "release_own tk held cid w = (if held then drop_lock tk cid w else w)"

definition task_execute ::
  "task_env \<Rightarrow> 'a agent_env \<Rightarrow> ('t, 'm, 'a) executor \<Rightarrow> agent_process_payload \<Rightarrow> bool \<Rightarrow> agent_world
     \<Rightarrow> agent_error option \<times> agent_world" where
  "task_execute tk ae xr p held w =
     (let (err, w1) = ExecuteWithErrorMessage ae xr (exec_payload p) w in
      if (case err of Some e \<Rightarrow> isHITLInterrupt e | None \<Rightarrow> False) then (None, w1)
      else
        let transient = (case err of Some e \<Rightarrow> isTransientError e | None \<Rightarrow> False);
            w2 = (if tk_marks tk \<and> \<not> transient
                  then unmark tk DeleteRunning (processingKey (ap_message_id p))
                         (mark tk MarkDone (processedKey (ap_message_id p)) done_ttl w1)
                  else w1);
            w3 = release_own tk held (ap_conversation_id p) w2;
            w4 = w3\<lparr>aw_cache := InvalidateCache (ap_conversation_id p) (aw_cache w3)\<rparr>
        in (if transient then err else None, w4))"

text \<open>The payload is \<open>None\<close> for a missing task or one that does not parse; the result goes to the queue.\<close>

definition NewAgentTaskHandler ::
  "task_env \<Rightarrow> 'a agent_env \<Rightarrow> ('t, 'm, 'a) executor \<Rightarrow> agent_process_payload option \<Rightarrow> agent_world
     \<Rightarrow> agent_error option \<times> agent_world" where
  "NewAgentTaskHandler tk ae xr payload w =
     (case payload of
        None \<Rightarrow> (None, w)
      | Some p \<Rightarrow>
          if ap_message_id p = [] \<or> ap_conversation_id p = [] \<or> ap_agent_id p = [] then (None, w)
          else
            let (acquired, w1) = take_lock tk (ap_conversation_id p) w;
                held = (acquired = Some True)
            in if acquired = Some False then (Some lock_held_error, w1)
               else if tk_marks tk then
                 (if marked tk CheckDone (processedKey (ap_message_id p)) w1
                     \<or> marked tk CheckRunning (processingKey (ap_message_id p)) w1
                  then (None, release_own tk held (ap_conversation_id p) w1)
                  else task_execute tk ae xr p held
                         (mark tk MarkRunning (processingKey (ap_message_id p)) lock_ttl w1))
               else task_execute tk ae xr p held w1)"

subsection \<open>Keys and the rest of the world\<close>

lemma keys_frame [simp]:
  "aw_srv (snd (take_lock tk cid w)) = aw_srv w" "aw_sent (snd (take_lock tk cid w)) = aw_sent w"
  "aw_srv (drop_lock tk cid w) = aw_srv w" "aw_sent (drop_lock tk cid w) = aw_sent w"
  "aw_srv (mark tk call k ttl w) = aw_srv w" "aw_sent (mark tk call k ttl w) = aw_sent w"
  "aw_srv (unmark tk call k w) = aw_srv w" "aw_sent (unmark tk call k w) = aw_sent w"
  "aw_srv (release_own tk held cid w) = aw_srv w" "aw_sent (release_own tk held cid w) = aw_sent w"
  by (simp_all add: take_lock_def drop_lock_def mark_def unmark_def release_own_def split: prod.split sum.split)

lemma key_names [simp]:
  "lockKey cid \<noteq> processedKey mid" "lockKey cid \<noteq> processingKey mid" "processedKey mid \<noteq> processingKey mid'"
  "processedKey mid \<noteq> lockKey cid" "processingKey mid \<noteq> lockKey cid" "processingKey mid \<noteq> processedKey mid'"
  "(processedKey mid = processedKey mid') = (mid = mid')"
  "(processingKey mid = processingKey mid') = (mid = mid')"
  by (auto simp: lockKey_def processedKey_def processingKey_def)

text \<open>What does not depend on the executor: a delivery that meets a held lock or a mark.\<close>

lemma lock_busy:
  assumes "r (lockKey cid) = Some (v, Some t)" "now < t"
  shows "lock_Acquire None tok now cid ttl r = (Inr False, r)"
  using assms by (simp add: lock_Acquire_def key_setnx_def key_get_def)

theorem busy_conversation_is_requeued:
  assumes "tk_locks tk" "tk_fault tk LockAcquire = None" "ap_message_id p \<noteq> []" "ap_conversation_id p \<noteq> []"
    and "ap_agent_id p \<noteq> []"
    and "aw_keys w (lockKey (ap_conversation_id p)) = Some (v, Some t)" "tk_now tk LockAcquire < t"
  shows "NewAgentTaskHandler tk ae xr (Some p) w = (Some lock_held_error, w)"
  using assms by (simp add: NewAgentTaskHandler_def take_lock_def lock_busy set_keys_def)

text \<open>\<open>message_marked\<close>: the first check of the delivery that reaches the server finds a mark of the message.\<close>

definition message_marked :: "task_env \<Rightarrow> string \<Rightarrow> agent_world \<Rightarrow> bool" where
  "message_marked tk mid w \<longleftrightarrow> marked tk CheckDone (processedKey mid) w \<or> marked tk CheckRunning (processingKey mid) w"

lemma other_key_marked [simp]:
  "marked tk call (processedKey mid) (snd (take_lock tk cid w)) = marked tk call (processedKey mid) w"
  "marked tk call (processingKey mid) (snd (take_lock tk cid w)) = marked tk call (processingKey mid) w"
  by (auto simp: marked_def take_lock_def CheckProcessed_def lock_Acquire_def key_setnx_def key_get_def
      split: option.split)

lemma marked_message_is_skipped:
  assumes "tk_marks tk" "message_marked tk (ap_message_id p) w"
  shows "aw_srv (snd (NewAgentTaskHandler tk ae xr (Some p) w)) = aw_srv w
    \<and> aw_sent (snd (NewAgentTaskHandler tk ae xr (Some p) w)) = aw_sent w
    \<and> fst (NewAgentTaskHandler tk ae xr (Some p) w) \<in> {None, Some lock_held_error}"
proof -
  obtain a w1 where t: "take_lock tk (ap_conversation_id p) w = (a, w1)" by (cases "take_lock tk (ap_conversation_id p) w")
  have w1: "w1 = snd (take_lock tk (ap_conversation_id p) w)" by (simp add: t)
  have m: "marked tk CheckDone (processedKey (ap_message_id p)) w1
      \<or> marked tk CheckRunning (processingKey (ap_message_id p)) w1"
    using assms(2) by (simp add: message_marked_def w1)
  have "aw_srv w1 = aw_srv w" "aw_sent w1 = aw_sent w" by (simp_all add: w1)
  then show ?thesis
    using assms(1) m by (auto simp: NewAgentTaskHandler_def t Let_def)
qed

subsection \<open>What a run leaves of the keys\<close>

text \<open>The runner of the agent library writes checkpoints, but not the key \<open>k\<close>.\<close>

definition run_keeps :: "'a agent_env \<Rightarrow> string \<Rightarrow> bool" where
  "run_keeps ae k \<longleftrightarrow> (\<forall>a ms i v. aw_keys (snd (ae_run ae a ms i v)) k = aw_keys v k)"

lemma store_agent_text_keys [simp]:
  "aw_keys (snd (store_agent_text ae t i conv agent sender content w)) = aw_keys w"
  by (simp add: store_agent_text_def split: sum.split prod.split)

lemma sendErrorMessage_keys [simp]: "aw_keys (sendErrorMessage ae conv agent sender content w) = aw_keys w"
proof (cases "store_agent_text ae (ae_tx ae 1) 40 conv agent sender content w")
  case (Pair e v)
  moreover have "aw_keys v = aw_keys w" using store_agent_text_keys [of ae "ae_tx ae 1" 40 conv agent sender content w]
    by (simp only: Pair snd_conv)
  ultimately show ?thesis by (simp add: sendErrorMessage_def del: One_nat_def split: option.split)
qed

lemma push_keys [simp]:
  "aw_keys (typing_off x i b w) = aw_keys w" "aw_keys (stream_push x i t d w) = aw_keys w"
  "aw_keys (broadcast_to_members ae b conv w) = aw_keys w"
  by (simp_all add: typing_off_def stream_push_def broadcast_to_members_def)

lemma consume_keys [simp]: "aw_keys (snd (consume x i cs b t w)) = aw_keys w"
  by (induction x i cs b t w rule: consume.induct) (auto simp: Let_def split: stream_chunk.split)

lemma open_remote_calling_keys: "aw_keys (snd (open_remote_calling pre ae st conv agent cp info w)) = aw_keys w"
  by (simp add: open_remote_calling_def Let_def split: sum.split prod.split)

lemma execute_end_keys [simp]:
  "aw_keys (snd (execute_stream_error ae x e t w)) = aw_keys w"
  "aw_keys (snd (execute_interrupt ae xr x info t w)) = aw_keys w"
  "aw_keys (snd (execute_finish ae x t w)) = aw_keys w"
proof -
  show "aw_keys (snd (execute_stream_error ae x e t w)) = aw_keys w"
    by (simp add: execute_stream_error_def Let_def)
  show "aw_keys (snd (execute_interrupt ae xr x info t w)) = aw_keys w"
    using open_remote_calling_keys [of "''execute agent''" ae "xr_rc_store xr" "sx_conv x" "sx_agent x" "ae_uuid ae 1" info w]
    by (auto simp: execute_interrupt_def simp del: One_nat_def split: sum.split prod.split)
  show "aw_keys (snd (execute_finish ae x t w)) = aw_keys w"
    using store_agent_text_keys [of ae "ae_tx ae 0" 10 "sx_conv x" "sx_agent x" "sx_sender x" t "stream_push x 92 t True w"]
    by (auto simp: execute_finish_def Let_def simp del: store_agent_text_keys split: prod.split option.split)
qed

lemma execute_run_keys:
  assumes "run_keeps ae k"
  shows "aw_keys (snd (execute_run ae xr p a ms w)) k = aw_keys w k"
proof -
  obtain ru w1 where r: "ae_run ae a (convertMessages (Some (xr_registry xr)) ms) (ae_uuid ae 1) w = (ru, w1)"
    by (cases "ae_run ae a (convertMessages (Some (xr_registry xr)) ms) (ae_uuid ae 1) w")
  have 1: "aw_keys w1 k = aw_keys w k" using assms r unfolding run_keeps_def by (metis snd_conv)
  obtain chunks intr where b: "BridgeWithInterrupt (ru_choices ru) (ru_ended ru) 0 (ru_events ru) = (chunks, intr)"
    by (cases "BridgeWithInterrupt (ru_choices ru) (ru_ended ru) 0 (ru_events ru)")
  let ?x = "run_ctx ae xr p ru"
  obtain err t cl w2 where c: "consume ?x 0 chunks False [] w1 = ((err, t, cl), w2)"
    by (cases "consume ?x 0 chunks False [] w1") auto
  have 2: "aw_keys w2 = aw_keys w1" using consume_keys [of ?x 0 chunks False "[]" w1] by (simp add: c)
  obtain r w3 where e: "(case err of Some e \<Rightarrow> execute_stream_error ae ?x e t w2
      | None \<Rightarrow> (case intr of Some info \<Rightarrow> execute_interrupt ae xr ?x info t w2
          | None \<Rightarrow> execute_finish ae ?x t w2)) = (r, w3)" by force
  have "aw_keys (snd (case err of Some e \<Rightarrow> execute_stream_error ae ?x e t w2
      | None \<Rightarrow> (case intr of Some info \<Rightarrow> execute_interrupt ae xr ?x info t w2
          | None \<Rightarrow> execute_finish ae ?x t w2))) = aw_keys w2"
    by (simp split: option.split)
  then show ?thesis
    using 1 2 by (simp add: execute_run_def r b c e Let_def del: One_nat_def)
qed

lemma ExecuteWithErrorMessage_keys:
  assumes "run_keeps ae k"
  shows "aw_keys (snd (ExecuteWithErrorMessage ae xr p w)) k = aw_keys w k"
proof -
  have "aw_keys (snd (Execute ae xr p w)) k = aw_keys w k"
    by (auto simp: Execute_def Let_def execute_run_keys [OF assms] split: option.split sum.split prod.split)
  then show ?thesis by (auto simp: ExecuteWithErrorMessage_def split: prod.split option.split)
qed

subsection \<open>Two deliveries\<close>

definition complete_payload :: "agent_process_payload \<Rightarrow> bool" where
  "complete_payload p \<longleftrightarrow> ap_message_id p \<noteq> [] \<and> ap_conversation_id p \<noteq> [] \<and> ap_agent_id p \<noteq> []"

text \<open>Nobody has touched the message or the conversation: none of the three keys exists.\<close>

definition untouched :: "agent_process_payload \<Rightarrow> agent_world \<Rightarrow> bool" where
  "untouched p w \<longleftrightarrow> aw_keys w (processedKey (ap_message_id p)) = None
     \<and> aw_keys w (processingKey (ap_message_id p)) = None \<and> aw_keys w (lockKey (ap_conversation_id p)) = None"

text \<open>The world in which the execution starts.\<close>

definition at_execution :: "task_env \<Rightarrow> agent_process_payload \<Rightarrow> agent_world \<Rightarrow> agent_world" where
  "at_execution tk p w =
     mark tk MarkRunning (processingKey (ap_message_id p)) lock_ttl (snd (take_lock tk (ap_conversation_id p) w))"

lemma take_lock_untouched:
  assumes "untouched p w"
  shows "fst (take_lock tk (ap_conversation_id p) w)
    = (if tk_locks tk \<and> tk_fault tk LockAcquire = None then Some True else None)"
  using assms by (auto simp: take_lock_def untouched_def lock_Acquire_def key_setnx_def key_get_def split: option.split)

lemma untouched_not_marked: "untouched p w \<Longrightarrow> \<not> message_marked tk (ap_message_id p) w"
  by (auto simp: untouched_def message_marked_def marked_def CheckProcessed_def key_get_def split: option.splits)

lemma first_delivery:
  assumes "complete_payload p" "untouched p w" "tk_marks tk"
  shows "NewAgentTaskHandler tk ae xr (Some p) w
    = task_execute tk ae xr p (tk_locks tk \<and> tk_fault tk LockAcquire = None) (at_execution tk p w)"
proof -
  obtain a w1 where t: "take_lock tk (ap_conversation_id p) w = (a, w1)"
    by (cases "take_lock tk (ap_conversation_id p) w")
  have a: "a = (if tk_locks tk \<and> tk_fault tk LockAcquire = None then Some True else None)"
    using take_lock_untouched [OF assms(2), of tk] by (simp only: t fst_conv)
  have "\<not> marked tk CheckDone (processedKey (ap_message_id p)) w1"
    "\<not> marked tk CheckRunning (processingKey (ap_message_id p)) w1"
    using untouched_not_marked [OF assms(2), of tk] other_key_marked [of tk _ _ "ap_conversation_id p" w]
    by (simp_all only: message_marked_def t snd_conv) blast+
  then show ?thesis
    using assms(1,3) a by (auto simp: NewAgentTaskHandler_def complete_payload_def t Let_def at_execution_def)
qed


text \<open>
  A transient error goes back to the queue for a retry.  But the mark of the running delivery is left to
  expire, so a retry within 130 seconds of it is taken for a duplicate and acknowledged: the message is
  never answered.
\<close>

theorem early_retry_is_acknowledged_unrun:
  assumes first: "complete_payload p" "untouched p w" "tk_marks tk" "tk_fault tk MarkRunning = None"
    and keeps: "run_keeps ae (processingKey (ap_message_id p))"
    and failed: "fst (ExecuteWithErrorMessage ae xr (exec_payload p) (at_execution tk p w)) = Some e"
      "isTransientError e" "\<not> isHITLInterrupt e"
    and retry: "w1 = snd (NewAgentTaskHandler tk ae xr (Some p) w)" "tk_marks tk'" "tk_fault tk' CheckRunning = None"
      "tk_now tk' CheckRunning < tk_now tk MarkRunning + lock_ttl"
      "fst (take_lock tk' (ap_conversation_id p) w1) \<noteq> Some False"
  shows "fst (NewAgentTaskHandler tk ae xr (Some p) w) = Some e"
    and "fst (NewAgentTaskHandler tk' ae' xr' (Some p) w1) = None"
    and "aw_srv (snd (NewAgentTaskHandler tk' ae' xr' (Some p) w1)) = aw_srv w1"
proof -
  let ?k = "processingKey (ap_message_id p)" and ?w0 = "at_execution tk p w"
  obtain v where v: "ExecuteWithErrorMessage ae xr (exec_payload p) ?w0 = (Some e, v)"
    using failed(1) by (cases "ExecuteWithErrorMessage ae xr (exec_payload p) ?w0") auto
  have "aw_keys ?w0 ?k = Some (''1'', Some (tk_now tk MarkRunning + lock_ttl))"
    using first by (auto simp: at_execution_def mark_def MarkProcessed_def key_setnx_def key_get_def take_lock_def
        lock_Acquire_def Let_def untouched_def split: option.split sum.split prod.split)
  then have running: "aw_keys v ?k = Some (''1'', Some (tk_now tk MarkRunning + lock_ttl))"
    using ExecuteWithErrorMessage_keys [OF keeps, of xr "exec_payload p" ?w0] by (simp add: v)
  have run: "NewAgentTaskHandler tk ae xr (Some p) w
      = task_execute tk ae xr p (tk_locks tk \<and> tk_fault tk LockAcquire = None) ?w0"
    using first by (intro first_delivery)
  show "fst (NewAgentTaskHandler tk ae xr (Some p) w) = Some e"
    using failed(2,3) by (simp add: run task_execute_def v Let_def)
  have "aw_keys w1 ?k = Some (''1'', Some (tk_now tk MarkRunning + lock_ttl))"
    using failed(2,3) running
    by (auto simp: retry(1) run task_execute_def v Let_def release_own_def drop_lock_def
        lock_Release_def releaseScript_def key_del_def set_keys_def split: option.splits)
  then have m: "message_marked tk' (ap_message_id p) w1"
    using retry by (simp add: message_marked_def marked_def CheckProcessed_def key_get_def)
  from marked_message_is_skipped [OF retry(2) m]
  show "aw_srv (snd (NewAgentTaskHandler tk' ae' xr' (Some p) w1)) = aw_srv w1" by blast
  obtain a w2 where t: "take_lock tk' (ap_conversation_id p) w1 = (a, w2)"
    by (cases "take_lock tk' (ap_conversation_id p) w1")
  have "message_marked tk' (ap_message_id p) w2"
    using m other_key_marked [of tk' _ "ap_message_id p" "ap_conversation_id p" w1]
    unfolding message_marked_def by (simp only: t snd_conv)
  then show "fst (NewAgentTaskHandler tk' ae' xr' (Some p) w1) = None"
    using retry(2,5) by (auto simp: NewAgentTaskHandler_def message_marked_def t Let_def)
qed

text \<open>
  A paused run keeps the lock of its conversation: until it expires, every other task of the conversation
  goes back to the queue without an effect.
\<close>

theorem paused_conversation_is_locked:
  assumes first: "complete_payload p" "untouched p w" "tk_marks tk" "tk_locks tk" "tk_fault tk LockAcquire = None"
    and keeps: "run_keeps ae (lockKey (ap_conversation_id p))"
    and paused: "fst (ExecuteWithErrorMessage ae xr (exec_payload p) (at_execution tk p w)) = Some e" "isHITLInterrupt e"
    and other: "w1 = snd (NewAgentTaskHandler tk ae xr (Some p) w)" "complete_payload p'"
      "ap_conversation_id p' = ap_conversation_id p" "tk_locks tk'" "tk_fault tk' LockAcquire = None"
      "tk_now tk' LockAcquire < tk_now tk LockAcquire + lock_ttl"
  shows "fst (NewAgentTaskHandler tk ae xr (Some p) w) = None"
    and "NewAgentTaskHandler tk' ae' xr' (Some p') w1 = (Some lock_held_error, w1)"
proof -
  let ?k = "lockKey (ap_conversation_id p)" and ?w0 = "at_execution tk p w"
  obtain v where v: "ExecuteWithErrorMessage ae xr (exec_payload p) ?w0 = (Some e, v)"
    using paused(1) by (cases "ExecuteWithErrorMessage ae xr (exec_payload p) ?w0") auto
  have "aw_keys ?w0 ?k = Some (tk_token tk, Some (tk_now tk LockAcquire + lock_ttl))"
    using first by (auto simp: at_execution_def mark_def MarkProcessed_def key_setnx_def key_get_def take_lock_def
        lock_Acquire_def Let_def untouched_def split: option.split sum.split prod.split)
  then have held: "aw_keys v ?k = Some (tk_token tk, Some (tk_now tk LockAcquire + lock_ttl))"
    using ExecuteWithErrorMessage_keys [OF keeps, of xr "exec_payload p" ?w0] by (simp add: v)
  have run: "NewAgentTaskHandler tk ae xr (Some p) w = (None, v)"
    using paused(2) first by (simp add: first_delivery task_execute_def v)
  then show "fst (NewAgentTaskHandler tk ae xr (Some p) w) = None" by simp
  have "aw_keys w1 (lockKey (ap_conversation_id p')) = Some (tk_token tk, Some (tk_now tk LockAcquire + lock_ttl))"
    using held by (simp add: other(1,3) run)
  then show "NewAgentTaskHandler tk' ae' xr' (Some p') w1 = (Some lock_held_error, w1)"
    using other(2,4-6) by (intro busy_conversation_is_requeued) (auto simp: complete_payload_def)
qed

end
