(* ===== verification/AgentResume.thy ===== *)
theory AgentResume
  imports AgentTask
begin

text \<open>
  \<^verbatim>\<open>internal/agent/resume_handler.go\<close>: continuing a paused run with the answers stored in its remote
  callings.  The handler shares the stream consumption, the interrupt rows and the locks with the task
  handler; the agent library's resume function is an argument.
\<close>

subsection \<open>The environment\<close>

text \<open>
  Besides what a run needs: the library's resume function (agent, checkpoint, answers by interrupt, the
  number of the message of the context), the JSON encoder of tool messages, and the failing calls of the
  update of the i-th tool message.
\<close>

record 'a resume_env =
  re_ae :: "'a agent_env"
  re_resume :: "'a \<Rightarrow> string \<Rightarrow> (string \<rightharpoonup> string) \<Rightarrow> u32 option \<Rightarrow> agent_world
     \<Rightarrow> (agent_error + agent_run) \<times> agent_world"
  re_enc :: "ToolCallingPayload \<Rightarrow> string"
  re_tool :: "nat \<Rightarrow> tool_faults"

definition resumedKey :: "string \<Rightarrow> string" where
  "resumedKey cp = ''agent:resume:'' @ cp"

definition resumingKey :: "string \<Rightarrow> string" where
  "resumingKey cp = ''agent:resume:processing:'' @ cp"

subsection \<open>Cleaning up\<close>

definition drop_checkpoint :: "task_env \<Rightarrow> ('t, 'm, 'a) executor \<Rightarrow> string \<Rightarrow> agent_world \<Rightarrow> agent_world" where
  "drop_checkpoint tk xr cp w =
     (case xr_checkpoints xr of
        None \<Rightarrow> w
      | Some cs \<Rightarrow> set_keys (snd (checkpoint_Delete (tk_fault tk DropCheckpoint) cs cp (aw_keys w))) w)"

definition clear_status :: "'a agent_env \<Rightarrow> string \<Rightarrow> agent_world \<Rightarrow> agent_world" where
  "clear_status ae cid w =
     (case ae_try ae ACallClearStatus (conv_clear_agent_status (ae_now ae 200) cid (aw_db w)) of
        Inl e \<Rightarrow> w | Inr (at, d) \<Rightarrow> set_aw_db d w)"

definition delete_calls :: "'a agent_env \<Rightarrow> bool \<Rightarrow> string \<Rightarrow> agent_world \<Rightarrow> agent_world" where
  "delete_calls ae rc_store cp w =
     (if rc_store \<and> ae_fault ae ACallDeleteByCheckpoint = None
      then set_aw_db (rc_delete_by_checkpoint (ae_now ae 201) cp (aw_db w)) w else w)"

definition cleanupAfterResumeFailure ::
  "task_env \<Rightarrow> 'a agent_env \<Rightarrow> ('t, 'm, 'a) executor \<Rightarrow> string \<Rightarrow> string \<Rightarrow> agent_world \<Rightarrow> agent_world" where
  "cleanupAfterResumeFailure tk ae xr cid cp w =
     drop_checkpoint tk xr cp (delete_calls ae (xr_rc_store xr) cp (clear_status ae cid w))"

definition markResumeFailed :: "task_env \<Rightarrow> string \<Rightarrow> string \<Rightarrow> agent_world \<Rightarrow> agent_world" where
  "markResumeFailed tk cid cp w =
     drop_lock tk cid
       (if tk_marks tk then mark tk MarkDone (resumedKey cp) done_ttl (unmark tk DeleteRunning (resumingKey cp) w)
        else w)"

definition resume_message ::
  "'a agent_env \<Rightarrow> agent_resume_task_payload \<Rightarrow> string \<Rightarrow> agent_world \<Rightarrow> agent_world" where
  "resume_message ae p content =
     sendErrorMessage ae (ar_conversation_id p) (ar_agent_id p) (ar_sender_id p) content"

definition give_up ::
  "task_env \<Rightarrow> 'a agent_env \<Rightarrow> ('t, 'm, 'a) executor \<Rightarrow> agent_resume_task_payload \<Rightarrow> string \<Rightarrow> agent_world \<Rightarrow> agent_world" where
  "give_up tk ae xr p content w =
     markResumeFailed tk (ar_conversation_id p) (ar_checkpoint_id p)
       (resume_message ae p content
         (cleanupAfterResumeFailure tk ae xr (ar_conversation_id p) (ar_checkpoint_id p) w))"

subsection \<open>Answers\<close>

text \<open>Resolved rows with an interrupt supply the answers, later rows overriding earlier ones.\<close>

definition resume_targets :: "remote_calling list \<Rightarrow> string \<rightharpoonup> string" where
  "resume_targets rs =
     foldl (\<lambda>m r. if rc_stat r = RcResolved \<and> rc_interrupt r \<noteq> [] then m(rc_interrupt r \<mapsto> rc_result r) else m)
       Map.empty rs"

definition no_answers :: "remote_calling list \<Rightarrow> bool" where
  "no_answers rs = list_all (\<lambda>r. \<not> (rc_stat r = RcResolved \<and> rc_interrupt r \<noteq> [])) rs"

definition all_expired :: "remote_calling list \<Rightarrow> bool" where
  "all_expired rs \<longleftrightarrow> rs \<noteq> [] \<and> list_all (\<lambda>r. rc_stat r = RcExpired \<or> rc_stat r = RcCancelled) rs"

subsection \<open>Ends of a resumed run\<close>

text \<open>A transient error is shown to the user, and the resume may be repeated at once.\<close>

definition resume_transient ::
  "task_env \<Rightarrow> 'a agent_env \<Rightarrow> agent_resume_task_payload \<Rightarrow> agent_error \<Rightarrow> agent_world \<Rightarrow> agent_world" where
  "resume_transient tk ae p e w =
     (if isTransientError e then
        (let w1 = resume_message ae p txt_service w
         in if tk_marks tk then unmark tk DeleteRunning (resumingKey (ar_checkpoint_id p)) w1 else w1)
      else w)"

text \<open>A second message of the same delivery draws other identifiers and another transaction.\<close>

definition later :: "'a agent_env \<Rightarrow> 'a agent_env" where
  "later ae = ae\<lparr>ae_uuid := (\<lambda>i. ae_uuid ae (i + 500)), ae_now := (\<lambda>i. ae_now ae (i + 500)),
                 ae_tx := (\<lambda>i. ae_tx ae (i + 5))\<rparr>"

definition resume_refused ::
  "task_env \<Rightarrow> 'a agent_env \<Rightarrow> ('t, 'm, 'a) executor \<Rightarrow> agent_resume_task_payload \<Rightarrow> agent_error \<Rightarrow> agent_world
     \<Rightarrow> agent_world" where
  "resume_refused tk ae xr p e w =
     (let w1 = (if is_error e ErrCheckpointNotFound then give_up tk ae xr p txt_waited w else w)
      in drop_lock tk (ar_conversation_id p) (resume_transient tk (later ae) p e w1))"

text \<open>The stream ended in an error: the text so far is only shown, and the lock goes.\<close>

definition resume_stream_error ::
  "task_env \<Rightarrow> 'a agent_env \<Rightarrow> stream_ctx \<Rightarrow> agent_resume_task_payload \<Rightarrow> agent_error \<Rightarrow> string \<Rightarrow> bool
     \<Rightarrow> agent_world \<Rightarrow> agent_world" where
  "resume_stream_error tk ae x p e txt cleared w =
     drop_lock tk (ar_conversation_id p)
       (resume_transient tk ae p e (typing_off x 93 cleared (stream_push x 90 txt True w)))"

text \<open>
  Another interrupt: the next call under the same checkpoint.  Unlike in the first run the clients are not
  told that the stream has ended.
\<close>

definition resume_interrupt ::
  "task_env \<Rightarrow> 'a agent_env \<Rightarrow> ('t, 'm, 'a) executor \<Rightarrow> agent_resume_task_payload \<Rightarrow> InterruptInfo \<Rightarrow> agent_world
     \<Rightarrow> agent_error option \<times> agent_world" where
  "resume_interrupt tk ae xr p info w =
     (let cid = ar_conversation_id p; cp = ar_checkpoint_id p in
      case open_remote_calling ''agent resume'' ae (xr_rc_store xr) cid (ar_agent_id p) cp info w of
        (Inl e, w1) \<Rightarrow> (Some e, drop_lock tk cid w1)
      | (Inr at, w1) \<Rightarrow>
          let w2 = send (interrupt_pushes ae (ar_sender_id p) (ar_agent_id p) cid at (interrupt_status ae info))
                     (broadcast_to_members ae (xr_broadcast xr) cid w1)
          in (None, if tk_marks tk then unmark tk DeleteRunning (resumingKey cp) w2 else w2))"

text \<open>The final content of the tool messages of the resolved calls, each in a transaction of its own.\<close>

definition settle_tool_message ::
  "'a resume_env \<Rightarrow> agent_resume_task_payload \<Rightarrow> nat \<Rightarrow> remote_calling \<Rightarrow> agent_world \<Rightarrow> agent_world" where
  "settle_tool_message re p i rc w =
     (let f = re_tool re i; ae = re_ae re in
      if \<not> rc_msg_id rc > 0 \<or> f TcBegin \<noteq> None then w
      else
        let status = (if rc_success rc then ''completed'' else ''failed'');
            content = buildToolCallingContent (re_enc re) (rc_method rc) (rc_params rc) (rc_result rc)
                        (rc_error rc) status
        in case tool_try f TcUpdate
                  (msg_update_content (rc_conv rc) (rc_msg_id rc) content ''tool_calling'' status (aw_db w)) of
             Inl e \<Rightarrow> w
           | Inr d1 \<Rightarrow>
               let (ps, d2) = broadcastToolCallingUpdate f (\<lambda>j. ae_uuid ae (300 + 10 * i + j)) (ae_now ae (300 + i))
                     (rc_conv rc) (rc_msg_id rc) (ar_sender_id p) (ar_agent_id p) d1
               in send ps (if f TcCommit \<noteq> None then w else set_aw_db d2 w))"

fun settle_tool_messages ::
  "'a resume_env \<Rightarrow> agent_resume_task_payload \<Rightarrow> nat \<Rightarrow> remote_calling list \<Rightarrow> agent_world \<Rightarrow> agent_world" where
  "settle_tool_messages re p i [] w = w"
| "settle_tool_messages re p i (rc # rs) w =
     settle_tool_messages re p (Suc i) rs (settle_tool_message re p i rc w)"

definition settle_calls ::
  "'a resume_env \<Rightarrow> bool \<Rightarrow> agent_resume_task_payload \<Rightarrow> agent_world \<Rightarrow> agent_world" where
  "settle_calls re rc_store p w =
     (if \<not> rc_store \<or> ae_fault (re_ae re) ACallGetResolved \<noteq> None then w
      else settle_tool_messages re p 0 (rc_get_resolved_by_checkpoint (ar_checkpoint_id p) (aw_db w)) w)"

definition resume_complete ::
  "task_env \<Rightarrow> 'a resume_env \<Rightarrow> ('t, 'm, 'a) executor \<Rightarrow> stream_ctx \<Rightarrow> agent_resume_task_payload \<Rightarrow> string
     \<Rightarrow> agent_world \<Rightarrow> agent_world" where
  "resume_complete tk re xr x p txt w =
     (let ae = re_ae re; cid = ar_conversation_id p; cp = ar_checkpoint_id p;
          w1 = stream_push x 92 txt True w;
          w2 = (if txt = [] then w1
                else snd (store_agent_text ae (ae_tx ae 0) 10 cid (ar_agent_id p) (ar_sender_id p) txt w1));
          w3 = (if tk_marks tk then unmark tk DeleteRunning (resumingKey cp) (mark tk MarkDone (resumedKey cp) done_ttl w2)
                else w2);
          w4 = settle_calls re (xr_rc_store xr) p (clear_status ae cid w3);
          w5 = drop_checkpoint tk xr cp (delete_calls ae (xr_rc_store xr) cp w4);
          w6 = send (SendConversationUpdate (ar_sender_id p) cid (ae_now ae 202)
                     @ SendConversationUpdate (extractBaseUserID (ar_agent_id p)) cid (ae_now ae 203)) w5
      in drop_lock tk cid w6)"

subsection \<open>The handler\<close>

definition resume_ctx ::
  "'a agent_env \<Rightarrow> ('t, 'm, 'a) executor \<Rightarrow> agent_resume_task_payload \<Rightarrow> stream_ctx" where
  "resume_ctx ae xr p =
     \<lparr>sx_registry = xr_helper_registry xr, sx_now = (\<lambda>i. ae_now ae (100 + i)), sx_conv = ar_conversation_id p,
      sx_agent = ar_agent_id p, sx_sender = ar_sender_id p, sx_stream = ae_uuid ae 0, sx_timer = None\<rparr>"

text \<open>The run after the library has accepted the answers; typing is cleared at the latest at the end.\<close>

definition resume_run ::
  "task_env \<Rightarrow> 'a resume_env \<Rightarrow> ('t, 'm, 'a) executor \<Rightarrow> agent_resume_task_payload \<Rightarrow> agent_run \<Rightarrow> agent_world
     \<Rightarrow> agent_error option \<times> agent_world" where
  "resume_run tk re xr p ru w =
     (let ae = re_ae re; x = resume_ctx ae xr p;
          (chunks, intr) = BridgeWithInterrupt (ru_choices ru) (ru_ended ru) 0 (ru_events ru);
          ((err, txt, cleared), w1) = consume x 0 chunks False [] w
      in case err of
           Some e \<Rightarrow> (None, resume_stream_error tk ae x p e txt cleared w1)
         | None \<Rightarrow>
             let (r, w2) = (case intr of
                   Some info \<Rightarrow> resume_interrupt tk ae xr p info w1
                 | None \<Rightarrow> (None, resume_complete tk re xr x p txt w1))
             in (r, typing_off x 93 cleared w2))"

text \<open>From the answers on.\<close>

definition resume_with ::
  "task_env \<Rightarrow> 'a resume_env \<Rightarrow> ('t, 'm, 'a) executor \<Rightarrow> agent_resume_task_payload \<Rightarrow> 'a \<Rightarrow> remote_calling list
     \<Rightarrow> agent_world \<Rightarrow> agent_error option \<times> agent_world" where
  "resume_with tk re xr p a rs w =
     (let ae = re_ae re; x = resume_ctx ae xr p in
      if no_answers rs \<and> all_expired rs
      then (None, typing_off x 94 False (give_up tk ae xr p txt_call_timeout w))
      else
        let cur = (case ae_try ae ACallGetMessage
                     (msg_get_by_conversation_and_message_id (ar_conversation_id p) (ar_message_id p) (aw_db w)) of
                     Inl e \<Rightarrow> None | Inr m \<Rightarrow> Some (m_msg_id m));
            (r, w1) = re_resume re a (ar_checkpoint_id p) (resume_targets rs) cur w
        in case r of
             Inl e \<Rightarrow> (None, resume_refused tk ae xr p e (typing_off x 94 False w1))
           | Inr ru \<Rightarrow> resume_run tk re xr p ru w1)"

definition resume_start ::
  "task_env \<Rightarrow> 'a resume_env \<Rightarrow> ('t, 'm, 'a) executor \<Rightarrow> registry \<Rightarrow> agent_resume_task_payload \<Rightarrow> agent_world
     \<Rightarrow> agent_error option \<times> agent_world" where
  "resume_start tk re xr reg p w =
     (let ae = re_ae re; x = resume_ctx ae xr p in
      case Get (ar_agent_id p) reg of
        None \<Rightarrow> (None, give_up tk ae xr p txt_no_agent_config w)
      | Some config \<Rightarrow>
          case Build (xr_builder xr) config of
            Inl e \<Rightarrow> (None, give_up tk ae xr p txt_resume_failed w)
          | Inr a \<Rightarrow>
              let w1 = send (SendTyping (xr_helper_registry xr) (ae_now ae 204) (ar_agent_id p) (ar_sender_id p)
                               (ar_conversation_id p) True) w
              in if \<not> xr_rc_store xr then (None, typing_off x 94 False (drop_lock tk (ar_conversation_id p) w1))
                 else case ae_try ae ACallGetByCheckpoint (Inr (rc_get_by_checkpoint (ar_checkpoint_id p) (aw_db w1))) of
                        Inl e \<Rightarrow> (None, typing_off x 94 False (give_up tk ae xr p txt_resume_failed w1))
                      | Inr rs \<Rightarrow> resume_with tk re xr p a rs w1)"

text \<open>
  One delivery.  The lock is taken if it is free and otherwise assumed to be the one of the paused run; it
  is released at the end in either case.
\<close>

definition NewAgentResumeHandler ::
  "task_env \<Rightarrow> 'a resume_env \<Rightarrow> ('t, 'm, 'a) executor \<Rightarrow> registry \<Rightarrow> agent_resume_task_payload option \<Rightarrow> agent_world
     \<Rightarrow> agent_error option \<times> agent_world" where
  "NewAgentResumeHandler tk re xr reg payload w =
     (case payload of
        None \<Rightarrow> (None, w)
      | Some p \<Rightarrow>
          if ar_conversation_id p = [] \<or> ar_checkpoint_id p = [] \<or> ar_agent_id p = [] then (None, w)
          else if tk_marks tk \<and> (marked tk CheckDone (resumedKey (ar_checkpoint_id p)) w
                                 \<or> marked tk CheckRunning (resumingKey (ar_checkpoint_id p)) w) then (None, w)
          else
            let w1 = (if tk_marks tk then mark tk MarkRunning (resumingKey (ar_checkpoint_id p)) lock_ttl w else w)
            in resume_start tk re xr reg p (snd (take_lock tk (ar_conversation_id p) w1)))"

subsection \<open>What is left of a pause\<close>

text \<open>
  Settled: the conversation's status is idle, and no row of the checkpoint is live.  Both can be read off
  the statuses and the remote callings.
\<close>

definition settled :: "string \<Rightarrow> string \<Rightarrow> agent_world \<Rightarrow> bool" where
  "settled cid cp w \<longleftrightarrow>
     (\<forall>c \<in> set (convs (aw_db w)). c_id c = cid \<and> conv_live c \<longrightarrow> c_agent_status c = AgentStatusIdle)
     \<and> (\<forall>r \<in> set (rcs (aw_db w)). rc_checkpoint r = cp \<longrightarrow> \<not> rc_live r)"

definition conv_status :: "conversation \<Rightarrow> string \<times> bool \<times> string \<times> string \<times> string" where
  "conv_status c = (c_id c, conv_live c, c_agent_status c, c_agent_id c, c_checkpoint c)"

definition same_pause :: "agent_world \<Rightarrow> agent_world \<Rightarrow> bool" where
  "same_pause w w' \<longleftrightarrow> map conv_status (convs (aw_db w')) = map conv_status (convs (aw_db w))
     \<and> rcs (aw_db w') = rcs (aw_db w)"

lemma same_pause_refl [simp]: "same_pause w w"
  by (simp add: same_pause_def)

lemma same_pause_trans: "same_pause w w1 \<Longrightarrow> same_pause w1 w2 \<Longrightarrow> same_pause w w2"
  by (simp add: same_pause_def)

lemma same_pause_push [simp]:
  "same_pause w (send ps w') = same_pause w w'" "same_pause w (set_keys r w') = same_pause w w'"
  "same_pause (send ps w) w' = same_pause w w'" "same_pause (set_keys r w) w' = same_pause w w'"
  "same_pause w (typing_off x i b w') = same_pause w w'" "same_pause w (stream_push x i t d w') = same_pause w w'"
  "same_pause w (drop_lock tk cid w') = same_pause w w'" "same_pause w (mark tk call k ttl w') = same_pause w w'"
  "same_pause w (unmark tk call k w') = same_pause w w'" "same_pause w (drop_checkpoint tk xr cp w') = same_pause w w'"
  by (simp_all add: same_pause_def typing_off_def stream_push_def drop_lock_def mark_def unmark_def
      drop_checkpoint_def split: option.split)

lemma conv_status_settled:
  "(\<forall>c \<in> set cs. c_id c = cid \<and> conv_live c \<longrightarrow> c_agent_status c = s)
    \<longleftrightarrow> (\<forall>(i, l, s', a, cp) \<in> set (map conv_status cs). i = cid \<and> l \<longrightarrow> s' = s)"
  by (auto simp: conv_status_def)

lemma same_pause_settled: "same_pause w w' \<Longrightarrow> settled cid cp w' = settled cid cp w"
  unfolding settled_def same_pause_def conv_status_settled by simp

lemma store_agent_text_pause [simp]:
  "same_pause w (snd (store_agent_text ae t i conv agent sender content w'))
     = same_pause w w'"
proof (cases "store_send_message t (\<lambda>j. ae_uuid ae (i + 2 + j)) (ae_now ae (i + 1))
    (agent_text (ae_uuid ae i) (ae_uuid ae (i + 1)) (ae_now ae i) conv agent content) [sender, agent] (aw_db w')")
  case (Inl e)
  then show ?thesis by (simp add: store_agent_text_def)
next
  case (Inr q)
  obtain m us d where q: "q = ((m, us), d)" by (metis prod.collapse)
  have "send_message_tx (\<lambda>j. ae_uuid ae (i + 2 + j)) (ae_now ae (i + 1))
      (agent_text (ae_uuid ae i) (ae_uuid ae (i + 1)) (ae_now ae i) conv agent content) [sender, agent] (aw_db w')
      = Inr ((m, us), d)"
    using Inr q by (auto simp: store_send_message_def dest: store_transaction_Inr split: if_splits)
  then have "rcs d = rcs (aw_db w')" "map conv_status (convs d) = map conv_status (convs (aw_db w'))"
    by (auto elim!: send_message_tx_Inr intro!: map_update_where simp: conv_status_def conv_live_def)
  then show ?thesis
    using Inr q by (simp add: store_agent_text_def same_pause_def)
qed

lemma sendErrorMessage_pause [simp]:
  "same_pause w (sendErrorMessage ae conv agent sender content w') = same_pause w w'"
proof (cases "store_agent_text ae (ae_tx ae 1) 40 conv agent sender content w'")
  case (Pair e v)
  moreover have "same_pause w v = same_pause w w'"
    using store_agent_text_pause [of w ae "ae_tx ae 1" 40 conv agent sender content w'] by (simp only: Pair snd_conv)
  ultimately show ?thesis by (simp add: sendErrorMessage_def del: One_nat_def split: option.split)
qed

lemma msg_update_content_pause:
  "msg_update_content cid n content ty status d = Inr d' \<Longrightarrow> convs d' = convs d \<and> rcs d' = rcs d"
  by (auto simp: msg_update_content_def Let_def split: if_splits)

lemma broadcastToolCallingUpdate_pause:
  "broadcastToolCallingUpdate f uuid now cid n human agent d = (ps, d') \<Longrightarrow> convs d' = convs d \<and> rcs d' = rcs d"
  by (auto simp: broadcastToolCallingUpdate_def Let_def tool_try_def dest!: upd_create_Inr
      split: sum.splits if_splits option.splits)

lemma settle_tool_message_pause: "same_pause w (settle_tool_message re p i rc w)"
  by (auto simp: settle_tool_message_def Let_def tool_try_def same_pause_def
      dest!: msg_update_content_pause broadcastToolCallingUpdate_pause split: sum.split prod.split option.split)

lemma settle_calls_pause: "same_pause w (settle_calls re st p w)"
proof -
  have "same_pause w (settle_tool_messages re p i rs w)" for i rs
    by (induction rs arbitrary: i w) (simp, simp, metis same_pause_trans settle_tool_message_pause)
  then show ?thesis by (simp add: settle_calls_def)
qed

subsection \<open>Cleaning up settles\<close>

definition idle :: "string \<Rightarrow> agent_world \<Rightarrow> bool" where
  "idle cid w \<longleftrightarrow> (\<forall>c \<in> set (convs (aw_db w)). c_id c = cid \<and> conv_live c \<longrightarrow> c_agent_status c = AgentStatusIdle)"

lemma same_pause_idle: "same_pause w w' \<Longrightarrow> idle cid w' = idle cid w"
  unfolding idle_def same_pause_def conv_status_settled by simp

lemma update_where_all:
  "(\<And>x. p x \<Longrightarrow> q (g x)) \<Longrightarrow> (\<And>x. \<not> p x \<Longrightarrow> q x) \<Longrightarrow> \<forall>x \<in> set (update_where p g xs). q x"
  by (auto simp: update_where_def)

lemma clear_status_idle:
  assumes "ae_fault ae ACallClearStatus = None"
  shows "idle cid (clear_status ae cid w)"
proof (cases "count_where (\<lambda>c. c_id c = cid \<and> conv_live c) (convs (aw_db w)) = 0")
  case True
  then have "\<forall>c \<in> set (convs (aw_db w)). \<not> (c_id c = cid \<and> conv_live c)" by (simp only: count_where_zero)
  with True assms show ?thesis
    by (simp add: idle_def clear_status_def ae_try_def conv_clear_agent_status_def) blast
next
  case False
  with assms have "convs (aw_db (clear_status ae cid w))
      = update_where (\<lambda>c. c_id c = cid \<and> conv_live c)
          (\<lambda>c. c\<lparr>c_agent_status := AgentStatusIdle, c_agent_id := [], c_checkpoint := [],
                 c_agent_act := ae_now ae 200, c_updated := ae_now ae 200\<rparr>) (convs (aw_db w))"
    by (simp add: clear_status_def ae_try_def conv_clear_agent_status_def)
  then show ?thesis unfolding idle_def by (simp only:) (rule update_where_all, auto)
qed

lemma delete_calls_settled:
  assumes "idle cid w" "ae_fault ae ACallDeleteByCheckpoint = None"
  shows "settled cid cp (delete_calls ae True cp w)"
proof -
  have "convs (aw_db (delete_calls ae True cp w)) = convs (aw_db w)"
    "rcs (aw_db (delete_calls ae True cp w)) = update_where (\<lambda>r. rc_checkpoint r = cp \<and> rc_live r)
       (\<lambda>r. r\<lparr>rc_deleted := Some (ae_now ae 201)\<rparr>) (rcs (aw_db w))"
    using assms(2) by (simp_all add: delete_calls_def rc_delete_by_checkpoint_def)
  moreover have "\<forall>r \<in> set (update_where (\<lambda>r. rc_checkpoint r = cp \<and> rc_live r)
       (\<lambda>r. r\<lparr>rc_deleted := Some (ae_now ae 201)\<rparr>) (rcs (aw_db w))). rc_checkpoint r = cp \<longrightarrow> \<not> rc_live r"
    by (rule update_where_all) (auto simp: rc_live_def)
  ultimately show ?thesis using assms(1) by (simp add: settled_def idle_def)
qed

definition cleanup_works :: "'a agent_env \<Rightarrow> bool" where
  "cleanup_works ae \<longleftrightarrow> ae_fault ae ACallClearStatus = None \<and> ae_fault ae ACallDeleteByCheckpoint = None"

lemma cleanup_settles:
  assumes "cleanup_works ae" "xr_rc_store xr"
  shows "settled cid cp (cleanupAfterResumeFailure tk ae xr cid cp w)"
proof -
  have "same_pause (delete_calls ae True cp (clear_status ae cid w)) (cleanupAfterResumeFailure tk ae xr cid cp w)"
    using assms(2) by (simp add: cleanupAfterResumeFailure_def)
  then show ?thesis
    using assms(1) by (simp add: same_pause_settled delete_calls_settled clear_status_idle cleanup_works_def)
qed

lemma give_up_settles:
  assumes "cleanup_works ae" "xr_rc_store xr"
  shows "settled (ar_conversation_id p) (ar_checkpoint_id p) (give_up tk ae xr p content w)"
proof -
  have "same_pause (cleanupAfterResumeFailure tk ae xr (ar_conversation_id p) (ar_checkpoint_id p) w)
      (give_up tk ae xr p content w)"
    by (simp add: give_up_def markResumeFailed_def resume_message_def)
  then show ?thesis using cleanup_settles [OF assms] by (simp add: same_pause_settled)
qed

lemma resume_complete_settles:
  assumes "cleanup_works (re_ae re)" "xr_rc_store xr"
  shows "settled (ar_conversation_id p) (ar_checkpoint_id p) (resume_complete tk re xr x p txt w)"
proof -
  let ?cid = "ar_conversation_id p" and ?cp = "ar_checkpoint_id p"
  obtain v where v: "same_pause (delete_calls (re_ae re) True ?cp (settle_calls re True p (clear_status (re_ae re) ?cid v)))
      (resume_complete tk re xr x p txt w)"
    proof -
    let ?w2 = "if txt = [] then stream_push x 92 txt True w
      else snd (store_agent_text (re_ae re) (ae_tx (re_ae re) 0) 10 ?cid (ar_agent_id p) (ar_sender_id p) txt
                 (stream_push x 92 txt True w))"
    let ?w3 = "if tk_marks tk then unmark tk DeleteRunning (resumingKey ?cp) (mark tk MarkDone (resumedKey ?cp) done_ttl ?w2)
      else ?w2"
    have "same_pause (delete_calls (re_ae re) True ?cp (settle_calls re True p (clear_status (re_ae re) ?cid ?w3)))
      (resume_complete tk re xr x p txt w)"
      unfolding resume_complete_def Let_def using assms(2) by (simp only: same_pause_push same_pause_refl)
    then show thesis using that by blast
  qed
  have "idle ?cid (settle_calls re True p (clear_status (re_ae re) ?cid v))"
    using settle_calls_pause clear_status_idle assms(1) by (metis same_pause_idle cleanup_works_def)
  then show ?thesis
    using assms(1) v by (simp add: same_pause_settled delete_calls_settled cleanup_works_def)
qed

end
