(* ===== verification/AgentResumeProps.thy ===== *)
theory AgentResumeProps
  imports AgentResume
begin

text \<open>
  What a delivery of a resume task achieves: it settles the pause when the run ends, gives up without
  running the agent when every call has expired, and what it loses on the way.
\<close>

subsection \<open>The run after the resume\<close>

lemma resume_run_outcome:
  fixes p :: agent_resume_task_payload and re :: "'a resume_env" and xr :: "('t, 'm, 'a) executor"
  assumes "Cancelled \<notin> set (ru_choices ru)"
  defines "x \<equiv> resume_ctx (re_ae re) xr p" and "ts \<equiv> run_texts ru"
  shows "\<exists>ps cleared. resume_run tk re xr p ru w =
     (case stream_error ts of
        Some e \<Rightarrow> (None, resume_stream_error tk (re_ae re) x p e (stream_text_of ts) cleared (send ps w))
      | None \<Rightarrow>
          (let (r, w2) = (case snd (stream_end ts) of
                Some info \<Rightarrow> resume_interrupt tk (re_ae re) xr p info (send ps w)
              | None \<Rightarrow> (None, resume_complete tk re xr x p (stream_text_of ts) (send ps w)))
           in (r, typing_off x 93 cleared w2)))"
proof -
  let ?b = "BridgeWithInterrupt (ru_choices ru) (ru_ended ru) 0 (ru_events ru)"
  note bo = bridge_outcome [OF assms(1), of ts, unfolded ts_def run_texts_def, folded BridgeWithInterrupt_def,
      folded run_texts_def, folded ts_def]
  obtain cleared ps where c: "consume x 0 (fst ?b) False [] w
      = ((stream_error ts, stream_text_of ts, cleared), send ps w)"
    using consume_chunks [of x 0 "fst ?b" False "[]" w] bo(1)
    by (cases "consume x 0 (fst ?b) False [] w") (auto simp: prod_eq_iff)
  have b: "?b = (fst ?b, snd (stream_end ts))" using bo(2) by (metis prod.collapse)
  show ?thesis
    unfolding resume_run_def Let_def
    by (subst b) (simp only: prod.case c flip: x_def, blast)
qed

subsection \<open>Up to the answers\<close>

definition resumable ::
  "task_env \<Rightarrow> 'a resume_env \<Rightarrow> ('t, 'm, 'a) executor \<Rightarrow> registry \<Rightarrow> agent_resume_task_payload \<Rightarrow> 'a
     \<Rightarrow> agent_world \<Rightarrow> bool" where
  "resumable tk re xr reg p a w \<longleftrightarrow>
     ar_conversation_id p \<noteq> [] \<and> ar_checkpoint_id p \<noteq> [] \<and> ar_agent_id p \<noteq> []
     \<and> (tk_marks tk \<longrightarrow> \<not> marked tk CheckDone (resumedKey (ar_checkpoint_id p)) w
          \<and> \<not> marked tk CheckRunning (resumingKey (ar_checkpoint_id p)) w)
     \<and> (\<exists>config. Get (ar_agent_id p) reg = Some config \<and> Build (xr_builder xr) config = Inr a)
     \<and> xr_rc_store xr \<and> ae_fault (re_ae re) ACallGetByCheckpoint = None"

lemma same_db: "aw_srv w = aw_srv w' \<Longrightarrow> aw_db w = aw_db w'"
  by (simp add: aw_db_def)

lemma handler_reaches_answers:
  assumes "resumable tk re xr reg p a w"
  obtains v where "aw_srv v = aw_srv w"
    and "\<And>f. NewAgentResumeHandler tk (re\<lparr>re_resume := f\<rparr>) xr reg (Some p) w
      = resume_with tk (re\<lparr>re_resume := f\<rparr>) xr p a (rc_get_by_checkpoint (ar_checkpoint_id p) (aw_db w)) v"
proof -
  let ?cid = "ar_conversation_id p" and ?cp = "ar_checkpoint_id p"
  let ?w1 = "snd (take_lock tk ?cid (if tk_marks tk then mark tk MarkRunning (resumingKey ?cp) lock_ttl w else w))"
  let ?v = "send (SendTyping (xr_helper_registry xr) (ae_now (re_ae re) 204) (ar_agent_id p) (ar_sender_id p) ?cid True) ?w1"
  have v: "aw_srv ?v = aw_srv w" by simp
  obtain config where config: "Get (ar_agent_id p) reg = Some config" "Build (xr_builder xr) config = Inr a"
    using assms unfolding resumable_def by blast
  have "NewAgentResumeHandler tk (re\<lparr>re_resume := f\<rparr>) xr reg (Some p) w
      = resume_with tk (re\<lparr>re_resume := f\<rparr>) xr p a (rc_get_by_checkpoint ?cp (aw_db w)) ?v" for f
  proof -
    have "NewAgentResumeHandler tk (re\<lparr>re_resume := f\<rparr>) xr reg (Some p) w
        = resume_start tk (re\<lparr>re_resume := f\<rparr>) xr reg p ?w1"
      using assms by (auto simp: resumable_def NewAgentResumeHandler_def Let_def)
    also have "\<dots> = resume_with tk (re\<lparr>re_resume := f\<rparr>) xr p a (rc_get_by_checkpoint ?cp (aw_db ?v)) ?v"
      using assms unfolding resumable_def resume_start_def Let_def by (simp add: config ae_try_ok)
    also have "aw_db ?v = aw_db w" by (rule same_db [OF v])
    finally show ?thesis .
  qed
  then show thesis using that [OF v] by blast
qed

lemma resume_env_same: "re\<lparr>re_resume := re_resume re\<rparr> = re"
  by simp

lemma typing_off_settled: "settled cid cp (typing_off x i b w) = settled cid cp w"
  using same_pause_settled [of w "typing_off x i b w"] by simp

subsection \<open>The ends\<close>

text \<open>
  The library accepts the answers: it continues from the checkpoint as \<open>ru\<close> and leaves the database alone.
\<close>

definition accepts :: "'a resume_env \<Rightarrow> 'a \<Rightarrow> string \<Rightarrow> (string \<rightharpoonup> string) \<Rightarrow> agent_run \<Rightarrow> bool" where
  "accepts re a cp targets ru \<longleftrightarrow>
     (\<forall>cur v. \<exists>v'. re_resume re a cp targets cur v = (Inr ru, v') \<and> aw_srv v' = aw_srv v)"

lemma answers_reach_run:
  assumes "resumable tk re xr reg p a w" "\<not> no_answers (rc_get_by_checkpoint (ar_checkpoint_id p) (aw_db w))"
    and "accepts re a (ar_checkpoint_id p) (resume_targets (rc_get_by_checkpoint (ar_checkpoint_id p) (aw_db w))) ru"
  obtains v where "aw_srv v = aw_srv w" "NewAgentResumeHandler tk re xr reg (Some p) w = resume_run tk re xr p ru v"
proof -
  obtain v where v: "aw_srv v = aw_srv w" "NewAgentResumeHandler tk re xr reg (Some p) w
      = resume_with tk re xr p a (rc_get_by_checkpoint (ar_checkpoint_id p) (aw_db w)) v"
    using handler_reaches_answers [OF assms(1)] resume_env_same by metis
  let ?rs = "rc_get_by_checkpoint (ar_checkpoint_id p) (aw_db w)"
  let ?cur = "case ae_try (re_ae re) ACallGetMessage
      (msg_get_by_conversation_and_message_id (ar_conversation_id p) (ar_message_id p) (aw_db v)) of
      Inl e \<Rightarrow> None | Inr m \<Rightarrow> Some (m_msg_id m)"
  obtain v' where v': "re_resume re a (ar_checkpoint_id p) (resume_targets ?rs) ?cur v = (Inr ru, v')" "aw_srv v' = aw_srv v"
    using assms(3) unfolding accepts_def by blast
  have "resume_with tk re xr p a ?rs v = resume_run tk re xr p ru v'"
    using assms(2) unfolding resume_with_def Let_def by (simp add: v'(1))
  with v v' that show thesis by metis
qed

text \<open>
  A resumed run that ends without another interrupt settles the pause: the conversation is idle and no
  call of the checkpoint is live, whatever became of the messages.
\<close>

theorem finished_resume_settles:
  assumes start: "resumable tk re xr reg p a w" "\<not> no_answers (rc_get_by_checkpoint (ar_checkpoint_id p) (aw_db w))"
    and run: "accepts re a (ar_checkpoint_id p) (resume_targets (rc_get_by_checkpoint (ar_checkpoint_id p) (aw_db w))) ru"
      "Cancelled \<notin> set (ru_choices ru)" "stream_end (run_texts ru) = ([ChunkDone], None)"
    and clean: "cleanup_works (re_ae re)"
  shows "\<exists>w'. NewAgentResumeHandler tk re xr reg (Some p) w = (None, w')
    \<and> settled (ar_conversation_id p) (ar_checkpoint_id p) w'"
proof -
  obtain v where v: "NewAgentResumeHandler tk re xr reg (Some p) w = resume_run tk re xr p ru v"
    using answers_reach_run [OF start run(1)] by metis
  have none: "stream_error (run_texts ru) = None" using run(3) by (simp add: stream_error_def)
  let ?x = "resume_ctx (re_ae re) xr p"
  obtain ps cleared where r: "resume_run tk re xr p ru v
      = (None, typing_off ?x 93 cleared (resume_complete tk re xr ?x p (stream_text_of (run_texts ru)) (send ps v)))"
    using resume_run_outcome [OF run(2), of tk re xr p v] none run(3) by auto
  have store: "xr_rc_store xr" using start(1) by (simp add: resumable_def)
  let ?f = "resume_complete tk re xr ?x p (stream_text_of (run_texts ru)) (send ps v)"
  have "settled (ar_conversation_id p) (ar_checkpoint_id p) (typing_off ?x 93 cleared ?f)"
    by (simp add: typing_off_settled resume_complete_settles [OF clean store])
  then show ?thesis by (simp add: v r)
qed

lemma all_expired_no_answers: "all_expired rs \<Longrightarrow> no_answers rs"
  by (auto simp: all_expired_def no_answers_def list_all_iff)

text \<open>
  When every call of the checkpoint has expired or was cancelled, the run is not resumed, whatever the
  library would do, and the pause is settled: no loop of expiry and new call.
\<close>

theorem expired_resume_gives_up:
  assumes "resumable tk re xr reg p a w" "all_expired (rc_get_by_checkpoint (ar_checkpoint_id p) (aw_db w))"
    and "cleanup_works (re_ae re)"
  shows "\<exists>w'. (\<forall>f. NewAgentResumeHandler tk (re\<lparr>re_resume := f\<rparr>) xr reg (Some p) w = (None, w'))
    \<and> settled (ar_conversation_id p) (ar_checkpoint_id p) w'"
proof -
  obtain v where v: "\<And>f. NewAgentResumeHandler tk (re\<lparr>re_resume := f\<rparr>) xr reg (Some p) w
      = resume_with tk (re\<lparr>re_resume := f\<rparr>) xr p a (rc_get_by_checkpoint (ar_checkpoint_id p) (aw_db w)) v"
    using handler_reaches_answers [OF assms(1)] by metis
  let ?g = "give_up tk (re_ae re) xr p txt_call_timeout v" and ?x = "resume_ctx (re_ae re) xr p"
  have h: "NewAgentResumeHandler tk (re\<lparr>re_resume := f\<rparr>) xr reg (Some p) w = (None, typing_off ?x 94 False ?g)" for f
    using assms(2) by (simp add: v resume_with_def Let_def all_expired_no_answers)
  have store: "xr_rc_store xr" using assms(1) by (simp add: resumable_def)
  have "settled (ar_conversation_id p) (ar_checkpoint_id p) (typing_off ?x 94 False ?g)"
    by (simp add: typing_off_settled give_up_settles [OF assms(3) store])
  then show ?thesis using h by blast
qed

text \<open>
  When the stream of a resumed run fails with an error that is not marked transient (nothing maps the
  library's errors here), nothing is stored: no message, not even the partial text, and the conversation
  stays in the status of its pause, with its calls resolved.
\<close>

theorem failed_resume_stores_nothing:
  assumes start: "resumable tk re xr reg p a w" "\<not> no_answers (rc_get_by_checkpoint (ar_checkpoint_id p) (aw_db w))"
    and run: "accepts re a (ar_checkpoint_id p) (resume_targets (rc_get_by_checkpoint (ar_checkpoint_id p) (aw_db w))) ru"
      "Cancelled \<notin> set (ru_choices ru)" "stream_error (run_texts ru) = Some e" "\<not> isTransientError e"
  shows "\<exists>w'. NewAgentResumeHandler tk re xr reg (Some p) w = (None, w') \<and> aw_db w' = aw_db w"
proof -
  obtain v where v: "aw_srv v = aw_srv w" "NewAgentResumeHandler tk re xr reg (Some p) w = resume_run tk re xr p ru v"
    using answers_reach_run [OF start run(1)] by metis
  let ?x = "resume_ctx (re_ae re) xr p"
  obtain ps cleared where r: "resume_run tk re xr p ru v
      = (None, resume_stream_error tk (re_ae re) ?x p e (stream_text_of (run_texts ru)) cleared (send ps v))"
    using resume_run_outcome [OF run(2), of tk re xr p v] run(3) by auto
  have "aw_srv (resume_stream_error tk (re_ae re) ?x p e (stream_text_of (run_texts ru)) cleared (send ps v))
      = aw_srv w"
    using run(4) v(1) by (simp add: resume_stream_error_def resume_transient_def typing_off_def stream_push_def)
  then show ?thesis unfolding v(2) r by (blast dest: same_db)
qed

subsection \<open>A client's error does not reach the agent\<close>

lemma sort_key_map_same:
  assumes "\<And>x. k (f x) = k x"
  shows "sort_key k (map f xs) = map f (sort_key k xs)"
proof -
  have "insort_key k (f x) (map f ys) = map f (insort_key k x ys)" for x ys
    by (induction ys) (simp_all add: assms)
  then show ?thesis by (induction xs) simp_all
qed

definition no_error_text :: "remote_calling \<Rightarrow> remote_calling" where
  "no_error_text r = r\<lparr>rc_error := []\<rparr>"

lemma no_error_text_simps [simp]:
  "rc_stat (no_error_text r) = rc_stat r" "rc_interrupt (no_error_text r) = rc_interrupt r"
  "rc_result (no_error_text r) = rc_result r" "rc_created (no_error_text r) = rc_created r"
  "rc_checkpoint (no_error_text r) = rc_checkpoint r" "rc_live (no_error_text r) = rc_live r"
  by (simp_all add: no_error_text_def rc_live_def)

lemma resume_targets_no_error: "resume_targets (map no_error_text rs) = resume_targets rs"
  by (simp add: resume_targets_def foldl_map cong: if_cong)

lemma resume_targets_of_db:
  "resume_targets (rc_get_by_checkpoint cp d)
     = resume_targets (sort_key rc_created (filter (\<lambda>r. rc_checkpoint r = cp \<and> rc_live r) (map no_error_text (rcs d))))"
proof -
  have "filter (\<lambda>r. rc_checkpoint r = cp \<and> rc_live r) (map no_error_text (rcs d))
      = map no_error_text (filter (\<lambda>r. rc_checkpoint r = cp \<and> rc_live r) (rcs d))"
    by (simp add: filter_map o_def)
  then show ?thesis
    by (simp add: rc_get_by_checkpoint_def select_asc_def sort_key_map_same resume_targets_no_error)
qed

text \<open>
  The answers given to the agent do not depend on the error a client reports: a failed function is
  answered with the row's empty result.
\<close>

theorem reported_error_is_not_passed_on:
  assumes "rc_resolve_error now i err d = Inr d1" "rc_resolve_error now i err' d = Inr d2"
  shows "resume_targets (rc_get_by_checkpoint cp d1) = resume_targets (rc_get_by_checkpoint cp d2)"
proof -
  have "map no_error_text (rcs d1) = map no_error_text (rcs d2)"
    using assms by (auto simp: rc_resolve_error_def Let_def update_where_def no_error_text_def split: if_splits)
  then show ?thesis by (simp only: resume_targets_of_db)
qed

end
