(* ===== verification/AgentCleanup.thy ===== *)
theory AgentCleanup
  imports AgentResume
begin

text \<open>
  \<^verbatim>\<open>internal/agent/remote_calling_cleanup.go\<close>: the background task that ends pauses nobody answers.  One
  cycle first looks for conversations that have waited too long, then for single calls past their expiry,
  grouped by checkpoint.  The loop over Go's map of groups visits them in an order of the runtime's choice,
  which is an argument.
\<close>

subsection \<open>Configuration and environment\<close>

record RemoteCallingCleanupConfig =
  cc_interval :: duration
  cc_max_age :: duration
  cc_batch :: int
  cc_lock_ttl :: duration

definition cleanup_defaults :: "RemoteCallingCleanupConfig \<Rightarrow> RemoteCallingCleanupConfig" where
  "cleanup_defaults c =
     \<lparr>cc_interval = (if cc_interval c \<le> 0 then 300 * second else cc_interval c),
      cc_max_age = (if cc_max_age c \<le> 0 then 24 * 3600 * second else cc_max_age c),
      cc_batch = (if cc_batch c \<le> 0 then 100 else cc_batch c),
      cc_lock_ttl = (if cc_lock_ttl c \<le> 0 then 30 * second else cc_lock_ttl c)\<rparr>"

text \<open>
  The calls of the task, for the environment to fail; the first two are the listings, the others belong to
  one conversation or one checkpoint.
\<close>

datatype cleanup_call =
    CcListStale
  | CcListExpired
  | CcExists string
  | CcSetNX string
  | CcGet string
  | CcClear string
  | CcDeleteCalls string
  | CcDropCheckpoint string
  | CcMark string
  | CcCount string
  | CcResolved string
  | CcEnqueue string

text \<open>
  Clock readings by conversation, the transaction and the identifiers of its timeout message, and which
  calls fail.  The remaining members are the optional collaborators of the task.
\<close>

record cleanup_env =
  ce_fault :: "cleanup_call \<Rightarrow> string option"
  ce_now :: "string \<Rightarrow> nat \<Rightarrow> time"
  ce_uuid :: "string \<Rightarrow> nat \<Rightarrow> string"
  ce_tx :: "string \<Rightarrow> txenv"
  ce_config :: RemoteCallingCleanupConfig
  ce_rc_store :: bool
  ce_checkpoints :: "checkpoint_store option"
  ce_broadcaster :: bool
  ce_broker :: bool
  ce_lock_client :: bool

definition ce_ok :: "cleanup_env \<Rightarrow> cleanup_call \<Rightarrow> bool" where
  "ce_ok ce c \<longleftrightarrow> ce_fault ce c = None"

definition cleanupKey :: "string \<Rightarrow> string" where
  "cleanupKey cid = ''hitl:cleanup:'' @ cid"

definition resumeGuardKey :: "string \<Rightarrow> string" where
  "resumeGuardKey cp = ''cleanup:resume:'' @ cp"

subsection \<open>Ending one pause\<close>

definition human_of :: "conversation \<Rightarrow> string" where
  "human_of c = (if c_user1 c = c_agent_id c then c_user2 c else c_user1 c)"

text \<open>Clearing the status; a failure leaves the zero time for the notification.\<close>

definition cleanup_clear :: "cleanup_env \<Rightarrow> string \<Rightarrow> agent_world \<Rightarrow> time \<times> agent_world" where
  "cleanup_clear ce cid w =
     (if \<not> ce_ok ce (CcClear cid) then (zero_time, w)
      else case conv_clear_agent_status (ce_now ce cid 0) cid (aw_db w) of
             Inl e \<Rightarrow> (zero_time, w) | Inr (at, d) \<Rightarrow> (at, set_aw_db d w))"

definition cleanup_calls :: "cleanup_env \<Rightarrow> string \<Rightarrow> string \<Rightarrow> agent_world \<Rightarrow> agent_world" where
  "cleanup_calls ce cid cp w =
     (if ce_ok ce (CcDeleteCalls cid) then set_aw_db (rc_delete_by_checkpoint (ce_now ce cid 1) cp (aw_db w)) w else w)"

definition cleanup_checkpoint :: "cleanup_env \<Rightarrow> string \<Rightarrow> string \<Rightarrow> agent_world \<Rightarrow> agent_world" where
  "cleanup_checkpoint ce cid cp w =
     (case ce_checkpoints ce of
        None \<Rightarrow> w
      | Some cs \<Rightarrow> set_keys (snd (checkpoint_Delete (ce_fault ce (CcDropCheckpoint cid)) cs cp (aw_keys w))) w)"

text \<open>The timeout message is stored but its updates are not pushed.\<close>

definition timeout_message :: "cleanup_env \<Rightarrow> string \<Rightarrow> string \<Rightarrow> string \<Rightarrow> string \<Rightarrow> agent_world \<Rightarrow> agent_world" where
  "timeout_message ce cid agent human content w =
     (case store_send_message (ce_tx ce cid) (\<lambda>i. ce_uuid ce cid (2 + i)) (ce_now ce cid 3)
             (agent_text (ce_uuid ce cid 0) (ce_uuid ce cid 1) (ce_now ce cid 2) cid agent content)
             [human, agent] (aw_db w) of
        Inl e \<Rightarrow> w | Inr (r, d) \<Rightarrow> set_aw_db d w)"

definition cleanup_pushes :: "cleanup_env \<Rightarrow> string \<Rightarrow> string \<Rightarrow> string \<Rightarrow> string \<Rightarrow> time \<Rightarrow> push list" where
  "cleanup_pushes ce cid agent human reason at =
     (if ce_broadcaster ce then
        SendAgentTimeout (ce_now ce cid 4) human agent cid reason
        @ SendConversationUpdate human cid at @ SendConversationUpdate (extractBaseUserID agent) cid at
      else [])"

definition cleanupExpiredConversation :: "cleanup_env \<Rightarrow> remote_calling \<Rightarrow> agent_world \<Rightarrow> agent_world" where
  "cleanupExpiredConversation ce rc w =
     (let cid = rc_conv rc; cp = rc_checkpoint rc in
      if \<not> ce_ok ce (CcGet cid) then w
      else case conv_get cid (aw_db w) of
             Inl e \<Rightarrow> w
           | Inr c \<Rightarrow>
               if c_agent_status c \<noteq> AgentStatusToolCalling then w
               else
                 let (at, w1) = cleanup_clear ce cid w;
                     w2 = cleanup_checkpoint ce cid cp (cleanup_calls ce cid cp w1);
                     w3 = timeout_message ce cid (rc_agent rc) (human_of c) txt_call_timeout w2
                 in send (cleanup_pushes ce cid (rc_agent rc) (human_of c) ''remote_calling_timeout'' at) w3)"

text \<open>
  The conversation's own clean-up: not while an agent holds the lock, and on one node at a time.  The
  conversation is read again after the lock, and the fresh row decides.  (Without a Redis client the first
  command panics, and the caller recovers.)
\<close>

definition cleanupConversation :: "cleanup_env \<Rightarrow> string \<Rightarrow> agent_world \<Rightarrow> agent_world" where
  "cleanupConversation ce cid w =
     (if \<not> ce_lock_client ce \<or> \<not> ce_ok ce (CcExists cid) \<or> key_get (ce_now ce cid 5) (lockKey cid) (aw_keys w) \<noteq> None
         \<or> \<not> ce_ok ce (CcSetNX cid) then w
      else
        let (acquired, r) = key_setnx (ce_now ce cid 6) (cleanupKey cid) ''1'' (cc_lock_ttl (ce_config ce)) (aw_keys w);
            w0 = set_keys r w
        in if \<not> acquired \<or> \<not> ce_ok ce (CcGet cid) then w0
           else case conv_get cid (aw_db w0) of
                  Inl e \<Rightarrow> w0
                | Inr c \<Rightarrow>
                    if c_agent_status c \<noteq> AgentStatusAskingUser \<and> c_agent_status c \<noteq> AgentStatusToolCalling then w0
                    else
                      let cp = c_checkpoint c; (at, w1) = cleanup_clear ce cid w0;
                          w2 = (if cp \<noteq> [] \<and> ce_rc_store ce then cleanup_calls ce cid cp w1 else w1);
                          w3 = (if cp \<noteq> [] then cleanup_checkpoint ce cid cp w2 else w2);
                          w4 = timeout_message ce cid (c_agent_id c) (human_of c) txt_session_timeout w3
                      in send (cleanup_pushes ce cid (c_agent_id c) (human_of c) ''hitl_timeout'' at) w4)"

subsection \<open>The two layers\<close>

definition cleanupStaleConversations :: "cleanup_env \<Rightarrow> agent_world \<Rightarrow> agent_world" where
  "cleanupStaleConversations ce w =
     (if \<not> ce_ok ce CcListStale then w
      else fold (\<lambda>c. cleanupConversation ce (c_id c))
             (conv_list_stale_hitl (ce_now ce [] 0) (cc_max_age (ce_config ce)) (nat (cc_batch (ce_config ce))) (aw_db w)) w)"

definition cleanup_resume_task :: "string \<Rightarrow> remote_calling \<Rightarrow> task" where
  "cleanup_resume_task cp rc =
     TaskAgentResume \<lparr>ar_conversation_id = rc_conv rc, ar_checkpoint_id = cp, ar_agent_id = rc_agent rc,
       ar_sender_id = [], ar_device_id = [], ar_cancelled_by = [], ar_message_id = 0\<rparr>"

definition cleanup_enqueue :: "cleanup_env \<Rightarrow> string \<Rightarrow> remote_calling \<Rightarrow> agent_world \<Rightarrow> agent_world" where
  "cleanup_enqueue ce cp rc w =
     (if ce_broker ce \<and> ce_ok ce (CcEnqueue cp)
      then w\<lparr>aw_srv := (aw_srv w)\<lparr>sv_queue := sv_queue (aw_srv w) @ [cleanup_resume_task cp rc]\<rparr>\<rparr> else w)"

text \<open>
  One checkpoint: nothing while a call is pending; if some call was answered the run is resumed, at most
  once in five minutes, else the conversation is cleaned up.
\<close>

definition cleanupExpiredCheckpoint :: "cleanup_env \<Rightarrow> string \<Rightarrow> remote_calling \<Rightarrow> agent_world \<Rightarrow> agent_world" where
  "cleanupExpiredCheckpoint ce cp rc w =
     (if \<not> ce_ok ce (CcCount cp) \<or> rc_count_pending_by_checkpoint cp (aw_db w) \<noteq> 0 \<or> \<not> ce_ok ce (CcResolved cp) then w
      else if rc_get_resolved_by_checkpoint cp (aw_db w) \<noteq> [] then
        (if ce_broker ce \<and> ce_lock_client ce \<and> ce_ok ce (CcSetNX cp) then
           (let (acquired, r) = key_setnx (ce_now ce cp 7) (resumeGuardKey cp) ''1'' (300 * second) (aw_keys w);
                w1 = set_keys r w
            in if acquired then cleanup_enqueue ce cp rc w1 else w1)
         else cleanup_enqueue ce cp rc w)
      else cleanupExpiredConversation ce rc w)"

definition mark_all_expired :: "cleanup_env \<Rightarrow> remote_calling list \<Rightarrow> agent_world \<Rightarrow> agent_world" where
  "mark_all_expired ce rs w =
     fold (\<lambda>r w. if \<not> ce_ok ce (CcMark (rc_id r)) then w
                 else case rc_mark_expired (rc_id r) (aw_db w) of Inl e \<Rightarrow> w | Inr d \<Rightarrow> set_aw_db d w) rs w"

text \<open>The groups: each checkpoint with its first row; \<open>order\<close> permutes them.\<close>

definition checkpoint_groups :: "remote_calling list \<Rightarrow> (string \<times> remote_calling) list" where
  "checkpoint_groups rs =
     map (\<lambda>cp. (cp, hd (filter (\<lambda>r. rc_checkpoint r = cp) rs))) (remdups (map rc_checkpoint rs))"

definition cleanupExpiredRemoteCallings ::
  "cleanup_env \<Rightarrow> ((string \<times> remote_calling) list \<Rightarrow> (string \<times> remote_calling) list) \<Rightarrow> agent_world \<Rightarrow> agent_world" where
  "cleanupExpiredRemoteCallings ce order w =
     (if \<not> ce_rc_store ce \<or> \<not> ce_ok ce CcListExpired then w
      else
        let expired = rc_list_expired (nat (cc_batch (ce_config ce))) (ce_now ce [] 1) (aw_db w)
        in fold (\<lambda>(cp, rc). cleanupExpiredCheckpoint ce cp rc) (order (checkpoint_groups expired))
             (mark_all_expired ce expired w))"

definition cleanupOnce ::
  "cleanup_env \<Rightarrow> ((string \<times> remote_calling) list \<Rightarrow> (string \<times> remote_calling) list) \<Rightarrow> agent_world \<Rightarrow> agent_world" where
  "cleanupOnce ce order w = cleanupExpiredRemoteCallings ce order (cleanupStaleConversations ce w)"

end
