(* ===== verification/AgentLifecycle.thy ===== *)
theory AgentLifecycle
  imports AgentResumeProps AgentCleanup
begin

text \<open>
  The agent runtime as a whole and the remote callings: whatever the task handler, the resume handler and
  the clean-up do, in any order and with any failures, the table of calls only advances.  Then the
  clean-up's own promises.
\<close>

subsection \<open>What leaves pauses alone\<close>

abbreviation calls :: "agent_world \<Rightarrow> remote_calling list" where
  "calls w \<equiv> rcs (aw_db w)"

lemma same_pause_sym: "same_pause w w' \<Longrightarrow> same_pause w' w"
  by (simp add: same_pause_def)

lemma same_pause_absorb: "same_pause w1 w2 \<Longrightarrow> same_pause w w2 = same_pause w w1"
  by (simp add: same_pause_def)

lemma same_pause_frame [simp]:
  "same_pause w (snd (take_lock tk cid w')) = same_pause w w'"
  "same_pause w (release_own tk h cid w') = same_pause w w'"
  "same_pause w (broadcast_to_members ae b conv w') = same_pause w w'"
  "same_pause w (snd (consume x i cs b' s w')) = same_pause w w'"
  "same_pause w (w'\<lparr>aw_cache := cm\<rparr>) = same_pause w w'"
  "same_pause (w'\<lparr>aw_cache := cm\<rparr>) w = same_pause w' w"
  "same_pause w (settle_calls re st p w') = same_pause w w'"
  "same_pause w (resume_message ae' p' content w') = same_pause w w'"
  "same_pause w (cleanup_checkpoint ce cid cp w') = same_pause w w'"
  using broadcast_to_members_frame [of ae b conv w'] consume_chunks [of x i cs b' s w'] settle_calls_pause [of w' re st p]
  by (auto simp: same_pause_def take_lock_def release_own_def drop_lock_def aw_db_def resume_message_def
      cleanup_checkpoint_def set_keys_def send_def
      sendErrorMessage_pause [unfolded same_pause_def aw_db_def] split: sum.split prod.split option.split)

lemma resume_transient_pause [simp]: "same_pause w (resume_transient tk ae p e w') = same_pause w w'"
  by (simp add: resume_transient_def Let_def)

lemma timeout_message_pause: "same_pause w (timeout_message ce cid agent human content w)"
proof (cases "store_send_message (ce_tx ce cid) (\<lambda>i. ce_uuid ce cid (2 + i)) (ce_now ce cid 3)
             (agent_text (ce_uuid ce cid 0) (ce_uuid ce cid 1) (ce_now ce cid 2) cid agent content)
             [human, agent] (aw_db w)")
  case (Inl e)
  then show ?thesis by (simp add: timeout_message_def)
next
  case (Inr q)
  obtain m us d where q: "q = ((m, us), d)" by (metis prod.collapse)
  have "send_message_tx (\<lambda>i. ce_uuid ce cid (2 + i)) (ce_now ce cid 3)
             (agent_text (ce_uuid ce cid 0) (ce_uuid ce cid 1) (ce_now ce cid 2) cid agent content)
             [human, agent] (aw_db w) = Inr ((m, us), d)"
    using Inr q by (auto simp: store_send_message_def dest: store_transaction_Inr split: if_splits)
  then have "rcs d = rcs (aw_db w)" "map conv_status (convs d) = map conv_status (convs (aw_db w))"
    by (auto elim!: send_message_tx_Inr intro!: map_update_where simp: conv_status_def conv_live_def)
  then show ?thesis using Inr q by (simp add: timeout_message_def same_pause_def)
qed

lemma execute_end_pause:
  "same_pause w (snd (execute_stream_error ae x e t w))" "same_pause w (snd (execute_finish ae x t w))"
proof -
  show "same_pause w (snd (execute_stream_error ae x e t w))"
    by (simp add: execute_stream_error_def Let_def)
  show "same_pause w (snd (execute_finish ae x t w))"
  proof (cases "store_agent_text ae (ae_tx ae 0) 10 (sx_conv x) (sx_agent x) (sx_sender x) t (stream_push x 92 t True w)")
    case (Pair e v)
    have "same_pause w v"
      using store_agent_text_pause [of w ae "ae_tx ae 0" 10 "sx_conv x" "sx_agent x" "sx_sender x" t
          "stream_push x 92 t True w"] by (simp only: Pair snd_conv same_pause_push same_pause_refl)
    then show ?thesis by (simp add: execute_finish_def Let_def Pair split: option.split)
  qed
qed

lemma calls_frame [simp]:
  "calls (timeout_message ce cid agent human content w) = calls w" "calls (cleanup_checkpoint ce cid cp w) = calls w"
  "calls (typing_off x i b w) = calls w" "calls (stream_push x i txt d w) = calls w"
  "calls (drop_lock tk cid w) = calls w" "calls (mark tk call k ttl w) = calls w"
  "calls (unmark tk call k w) = calls w" "calls (drop_checkpoint tk xr cp w) = calls w"
  using timeout_message_pause [of w ce cid agent human content]
  by (simp_all add: same_pause_def typing_off_def stream_push_def drop_lock_def mark_def unmark_def
      drop_checkpoint_def cleanup_checkpoint_def split: option.split)

text \<open>
  The agent library's runner, and the tools it calls, write neither the status of a conversation nor a
  remote calling.
\<close>

definition run_leaves_pauses :: "'a agent_env \<Rightarrow> bool" where
  "run_leaves_pauses ae \<longleftrightarrow> (\<forall>a ms i v. same_pause v (snd (ae_run ae a ms i v)))"

definition resume_leaves_pauses :: "'a resume_env \<Rightarrow> bool" where
  "resume_leaves_pauses re \<longleftrightarrow> (\<forall>a cp t cur v. same_pause v (snd (re_resume re a cp t cur v)))"

subsection \<open>The contract with the stores\<close>

text \<open>
  A relation on databases that every statement of the runtime on statuses and remote callings respects:
  a pause always names an agent and a checkpoint.  Then every delivery and every cycle respects it.
\<close>

locale runtime_contract =
  fixes R :: "db \<Rightarrow> db \<Rightarrow> bool"
  assumes steps: "R d d1 \<Longrightarrow> R d1 d2 \<Longrightarrow> R d d2"
    and frame: "map conv_status (convs d') = map conv_status (convs d) \<Longrightarrow> rcs d' = rcs d \<Longrightarrow> R d d'"
    and clears: "conv_clear_agent_status now cid d = Inr (at, d') \<Longrightarrow> R d d'"
    and pauses: "conv_update_agent_status now cid st agent cp d = Inr (at, d') \<Longrightarrow>
      st = AgentStatusAskingUser \<or> st = AgentStatusToolCalling \<Longrightarrow> agent \<noteq> [] \<Longrightarrow> cp \<noteq> [] \<Longrightarrow> R d d'"
    and opens: "rc_create fk now r d = Inr d' \<Longrightarrow> R d d'"
    and expires: "rc_mark_expired i d = Inr d' \<Longrightarrow> R d d'"
    and deletes: "R d (rc_delete_by_checkpoint now cp d)"
begin

abbreviation reaches :: "agent_world \<Rightarrow> agent_world \<Rightarrow> bool" where
  "reaches w w' \<equiv> R (aw_db w) (aw_db w')"

lemma reaches_pause: "same_pause w w' \<Longrightarrow> reaches w w'"
  by (rule frame) (simp_all add: same_pause_def)

lemma reaches_refl: "reaches w w"
  by (simp add: reaches_pause)

lemma reaches_same: "same_pause w1 w2 \<Longrightarrow> reaches w w1 \<Longrightarrow> reaches w w2"
  by (rule steps [OF _ reaches_pause])

lemma same_reaches: "same_pause w w1 \<Longrightarrow> reaches w1 w2 \<Longrightarrow> reaches w w2"
  by (rule steps [OF reaches_pause])

lemma reaches_cong: "same_pause w1 w2 \<Longrightarrow> reaches w w2 = reaches w w1"
  using reaches_same same_pause_sym by blast

lemma reaches_frame [simp]:
  "reaches w (typing_off x i b w') = reaches w w'" "reaches w (stream_push x i t d w') = reaches w w'"
  "reaches w (drop_lock tk cid w') = reaches w w'" "reaches w (mark tk call k ttl w') = reaches w w'"
  "reaches w (unmark tk call k w') = reaches w w'" "reaches w (drop_checkpoint tk xr cp w') = reaches w w'"
  "reaches w (release_own tk h cid w') = reaches w w'" "reaches w (broadcast_to_members ae b' conv w') = reaches w w'"
  "reaches w (sendErrorMessage ae conv agent sender content w') = reaches w w'"
  "reaches w (resume_message ae p' content w') = reaches w w'" "reaches w (settle_calls re st p' w') = reaches w w'"
  "reaches w (resume_transient tk ae p' e w') = reaches w w'" "reaches w (cleanup_checkpoint ce cid cp w') = reaches w w'"
  "reaches w (w'\<lparr>aw_cache := cm\<rparr>) = reaches w w'"
  by (rule reaches_cong, simp)+

lemma clear_status_reaches: "reaches w (clear_status ae cid w)"
  by (auto simp: clear_status_def ae_try_def reaches_refl split: sum.split prod.split option.split intro: clears)

lemma delete_calls_reaches: "reaches w (delete_calls ae st cp w)"
  by (simp add: delete_calls_def deletes reaches_refl)

lemma open_remote_calling_reaches:
  assumes "agent \<noteq> []" "cp \<noteq> []"
  shows "reaches w (snd (open_remote_calling pre ae st conv agent cp info w))"
proof (cases "ae_try ae ACallUpdateStatus
    (conv_update_agent_status (ae_now ae 3) conv (interrupt_status ae info) agent cp (aw_db w))")
  case (Inl e)
  then show ?thesis by (simp add: open_remote_calling_def reaches_refl)
next
  case (Inr q)
  obtain at d1 where q: "q = (at, d1)" by (cases q)
  have "conv_update_agent_status (ae_now ae 3) conv (interrupt_status ae info) agent cp (aw_db w) = Inr (at, d1)"
    using Inr q by (simp add: ae_try_def split: option.splits)
  then have d1: "R (aw_db w) d1"
    by (rule pauses [OF _ _ assms]) (simp add: interrupt_status_def split: option.split)
  show ?thesis
  proof (cases "ae_try ae ACallCreateRC (rc_create (ae_fk ae) (ae_now ae 6) (interrupt_row ae conv agent cp info d1) d1)")
    case (Inl e)
    then show ?thesis using d1 by (simp add: open_remote_calling_def \<open>_ = Inr q\<close> q Let_def)
  next
    case (Inr d2)
    then have "rc_create (ae_fk ae) (ae_now ae 6) (interrupt_row ae conv agent cp info d1) d1 = Inr d2"
      by (simp add: ae_try_def split: option.splits)
    then have "R d1 d2" by (rule opens)
    with Inr d1 show ?thesis
      by (auto simp: open_remote_calling_def \<open>_ = Inr q\<close> q Let_def intro: steps)
  qed
qed

lemma execute_interrupt_reaches:
  assumes "sx_agent x \<noteq> []" "ae_uuid ae 1 \<noteq> []"
  shows "reaches w (snd (execute_interrupt ae xr x info t w))"
proof (cases "open_remote_calling ''execute agent'' ae (xr_rc_store xr) (sx_conv x) (sx_agent x) (ae_uuid ae 1) info w")
  case (Pair r v)
  have "reaches w v"
    using open_remote_calling_reaches [OF assms, of w "''execute agent''" ae "xr_rc_store xr" "sx_conv x" info]
    by (simp only: Pair snd_conv)
  then show ?thesis
    by (auto simp: execute_interrupt_def Pair simp del: One_nat_def split: sum.split intro: reaches_same)
qed

lemma execute_run_reaches:
  assumes ae: "run_leaves_pauses ae" "ae_uuid ae 1 \<noteq> []" and p: "xp_agent_id p \<noteq> []"
  shows "reaches w (snd (execute_run ae xr p a ms w))"
proof -
  obtain ru w1 where r: "ae_run ae a (convertMessages (Some (xr_registry xr)) ms) (ae_uuid ae 1) w = (ru, w1)"
    by (cases "ae_run ae a (convertMessages (Some (xr_registry xr)) ms) (ae_uuid ae 1) w")
  have 1: "same_pause w w1" using ae(1) r unfolding run_leaves_pauses_def by (metis snd_conv)
  obtain chunks intr where b: "BridgeWithInterrupt (ru_choices ru) (ru_ended ru) 0 (ru_events ru) = (chunks, intr)"
    by (cases "BridgeWithInterrupt (ru_choices ru) (ru_ended ru) 0 (ru_events ru)")
  let ?x = "run_ctx ae xr p ru"
  obtain err t cl w2 where c: "consume ?x 0 chunks False [] w1 = ((err, t, cl), w2)"
    by (cases "consume ?x 0 chunks False [] w1") auto
  have 2: "same_pause w w2"
    using same_pause_frame(4) [of w ?x 0 chunks False "[]" w1] 1 by (simp only: c snd_conv)
  obtain q w3 where e: "(case err of Some e \<Rightarrow> execute_stream_error ae ?x e t w2
      | None \<Rightarrow> (case intr of Some info \<Rightarrow> execute_interrupt ae xr ?x info t w2
          | None \<Rightarrow> execute_finish ae ?x t w2)) = (q, w3)" by force
  have "sx_agent ?x \<noteq> []" using p by (simp add: run_ctx_def)
  then have "reaches w2 (snd (case err of Some e \<Rightarrow> execute_stream_error ae ?x e t w2
      | None \<Rightarrow> (case intr of Some info \<Rightarrow> execute_interrupt ae xr ?x info t w2
          | None \<Rightarrow> execute_finish ae ?x t w2)))"
    using ae(2) by (auto simp: execute_interrupt_reaches simp del: One_nat_def split: option.split
        intro: reaches_pause execute_end_pause)
  then have "reaches w w3" using same_reaches [OF 2] by (simp only: e snd_conv)
  then show ?thesis
    by (auto simp: execute_run_def r b c e Let_def simp del: One_nat_def intro: reaches_same)
qed

lemma ExecuteWithErrorMessage_reaches:
  assumes "run_leaves_pauses ae" "ae_uuid ae 1 \<noteq> []" "xp_agent_id p \<noteq> []"
  shows "reaches w (snd (ExecuteWithErrorMessage ae xr p w))"
proof -
  have run: "reaches w (snd (execute_run ae xr p a ms (send ps w\<lparr>aw_cache := cm\<rparr>)))" for a ms ps cm
    by (rule same_reaches [OF _ execute_run_reaches [OF assms]]) simp
  have "reaches w (snd (Execute ae xr p w))"
    using run by (auto simp: Execute_def Let_def reaches_refl split: option.split sum.split prod.split
        intro: reaches_pause)
  then show ?thesis
    by (auto simp: ExecuteWithErrorMessage_def split: prod.split option.split intro: reaches_same)
qed

lemma task_handler_reaches:
  assumes "run_leaves_pauses ae" "ae_uuid ae 1 \<noteq> []"
  shows "reaches w (snd (NewAgentTaskHandler tk ae xr payload w))"
proof -
  have run: "reaches w (snd (task_execute tk ae xr p held v))" if "same_pause w v" "ap_agent_id p \<noteq> []" for p held v
  proof (cases "ExecuteWithErrorMessage ae xr (exec_payload p) v")
    case (Pair err w1)
    have "xp_agent_id (exec_payload p) \<noteq> []" using that(2) by (simp add: exec_payload_def)
    then have "reaches w w1"
      using same_reaches [OF that(1) ExecuteWithErrorMessage_reaches [OF assms]] by (metis Pair snd_conv)
    then show ?thesis
      by (auto simp: task_execute_def Pair Let_def intro: reaches_same)
  qed
  show ?thesis
  proof (cases payload)
    case (Some p)
    obtain a v where t: "take_lock tk (ap_conversation_id p) w = (a, v)" by (cases "take_lock tk (ap_conversation_id p) w")
    have "same_pause w v" using same_pause_frame(1) [of w tk "ap_conversation_id p" w] by (simp only: t snd_conv same_pause_refl)
    then show ?thesis by (auto simp: NewAgentTaskHandler_def Some t Let_def run reaches_refl intro: reaches_pause)
  qed (simp add: NewAgentTaskHandler_def reaches_refl)
qed

text \<open>The resume handler.\<close>

lemma give_up_reaches: "reaches w (give_up tk ae xr p content w)"
proof -
  have "reaches w (delete_calls ae (xr_rc_store xr) (ar_checkpoint_id p) (clear_status ae (ar_conversation_id p) w))"
    by (rule steps [OF clear_status_reaches delete_calls_reaches])
  then show ?thesis by (simp add: give_up_def markResumeFailed_def cleanupAfterResumeFailure_def)
qed

lemma resume_complete_reaches: "reaches w (resume_complete tk re xr x p txt w)"
proof -
  let ?ae = "re_ae re" and ?cid = "ar_conversation_id p" and ?cp = "ar_checkpoint_id p"
  let ?w2 = "if txt = [] then stream_push x 92 txt True w
      else snd (store_agent_text ?ae (ae_tx ?ae 0) 10 ?cid (ar_agent_id p) (ar_sender_id p) txt (stream_push x 92 txt True w))"
  let ?w3 = "if tk_marks tk then unmark tk DeleteRunning (resumingKey ?cp) (mark tk MarkDone (resumedKey ?cp) done_ttl ?w2)
      else ?w2"
  let ?w4 = "settle_calls re (xr_rc_store xr) p (clear_status ?ae ?cid ?w3)"
  have "reaches w ?w3" by (rule reaches_pause) simp
  then have "reaches w (clear_status ?ae ?cid ?w3)" by (rule steps [OF _ clear_status_reaches])
  then have "reaches w ?w4" by (simp only: reaches_frame)
  then have "reaches w (delete_calls ?ae (xr_rc_store xr) ?cp ?w4)" by (rule steps [OF _ delete_calls_reaches])
  then show ?thesis unfolding resume_complete_def Let_def by (simp only: reaches_frame world_simps)
qed

lemma resume_interrupt_reaches:
  assumes "ar_agent_id p \<noteq> []" "ar_checkpoint_id p \<noteq> []"
  shows "reaches w (snd (resume_interrupt tk ae xr p info w))"
proof (cases "open_remote_calling ''agent resume'' ae (xr_rc_store xr) (ar_conversation_id p) (ar_agent_id p)
    (ar_checkpoint_id p) info w")
  case (Pair r v)
  have "reaches w v"
    using open_remote_calling_reaches [OF assms, of w "''agent resume''" ae "xr_rc_store xr" "ar_conversation_id p" info]
    by (simp only: Pair snd_conv)
  then show ?thesis by (auto simp: resume_interrupt_def Pair Let_def split: sum.split)
qed

lemma resume_run_reaches:
  assumes "ar_agent_id p \<noteq> []" "ar_checkpoint_id p \<noteq> []"
  shows "reaches w (snd (resume_run tk re xr p ru w))"
proof -
  obtain chunks intr where b: "BridgeWithInterrupt (ru_choices ru) (ru_ended ru) 0 (ru_events ru) = (chunks, intr)"
    by (cases "BridgeWithInterrupt (ru_choices ru) (ru_ended ru) 0 (ru_events ru)")
  let ?x = "resume_ctx (re_ae re) xr p"
  obtain err t cl w2 where c: "consume ?x 0 chunks False [] w = ((err, t, cl), w2)"
    by (cases "consume ?x 0 chunks False [] w") auto
  have 2: "same_pause w w2"
    using same_pause_frame(4) [of w ?x 0 chunks False "[]" w] by (simp only: c snd_conv same_pause_refl)
  obtain q w3 where e: "(case intr of Some info \<Rightarrow> resume_interrupt tk (re_ae re) xr p info w2
      | None \<Rightarrow> (None, resume_complete tk re xr ?x p t w2)) = (q, w3)" by force
  have "reaches w2 (snd (case intr of Some info \<Rightarrow> resume_interrupt tk (re_ae re) xr p info w2
      | None \<Rightarrow> (None, resume_complete tk re xr ?x p t w2)))"
    by (auto simp: resume_interrupt_reaches [OF assms] resume_complete_reaches split: option.split)
  then have "reaches w w3" using same_reaches [OF 2] by (simp only: e snd_conv)
  then show ?thesis
    using reaches_pause [OF 2]
    by (auto simp: resume_run_def b c e Let_def resume_stream_error_def split: option.split)
qed

lemma resume_refused_reaches: "reaches w (resume_refused tk ae xr p e w)"
  by (simp add: resume_refused_def Let_def reaches_refl give_up_reaches)

lemma resume_with_reaches:
  assumes re: "resume_leaves_pauses re" and p: "ar_agent_id p \<noteq> []" "ar_checkpoint_id p \<noteq> []"
  shows "reaches w (snd (resume_with tk re xr p a rs w))"
proof -
  let ?cur = "case ae_try (re_ae re) ACallGetMessage
      (msg_get_by_conversation_and_message_id (ar_conversation_id p) (ar_message_id p) (aw_db w)) of
      Inl e \<Rightarrow> None | Inr m \<Rightarrow> Some (m_msg_id m)"
  obtain r v where r: "re_resume re a (ar_checkpoint_id p) (resume_targets rs) ?cur w = (r, v)" by force
  have v: "same_pause w v" using re r unfolding resume_leaves_pauses_def by (metis snd_conv)
  have run: "reaches w (snd (resume_run tk re xr p ru v))" for ru
    by (rule same_reaches [OF v resume_run_reaches [OF p]])
  have refused: "reaches w (resume_refused tk (re_ae re) xr p e (typing_off x i b v))" for e x i b
    by (rule same_reaches [OF _ resume_refused_reaches]) (simp add: v)
  show ?thesis
    using run refused give_up_reaches by (auto simp: resume_with_def Let_def r split: sum.split)
qed

lemma resume_handler_reaches:
  assumes "resume_leaves_pauses re"
  shows "reaches w (snd (NewAgentResumeHandler tk re xr reg payload w))"
proof -
  have start: "reaches w (snd (resume_start tk re xr reg p v))"
    if v: "same_pause w v" and p: "ar_agent_id p \<noteq> []" "ar_checkpoint_id p \<noteq> []" for p v
  proof -
    have "reaches w (give_up tk (re_ae re) xr p t v')" if "same_pause w v'" for t v'
      by (rule same_reaches [OF that give_up_reaches])
    moreover have "reaches w (snd (resume_with tk re xr p a rs v'))" if "same_pause w v'" for a rs v'
      by (rule same_reaches [OF that resume_with_reaches [OF assms p]])
    ultimately show ?thesis
      using v reaches_pause [OF v] by (auto simp: resume_start_def Let_def split: option.split sum.split)
  qed
  show ?thesis
    by (auto simp: NewAgentResumeHandler_def Let_def reaches_refl split: option.split intro!: start)
qed

text \<open>The clean-up.\<close>

lemma cleanup_clear_reaches: "cleanup_clear ce cid w = (at, w1) \<Longrightarrow> reaches w w1"
  by (auto simp: cleanup_clear_def reaches_refl split: if_splits sum.splits intro: clears)

lemma cleanup_calls_reaches: "reaches w (cleanup_calls ce cid cp w)"
  by (simp add: cleanup_calls_def deletes reaches_refl)

lemma timeout_message_reaches [simp]: "reaches w (timeout_message ce cid agent human content w') = reaches w w'"
  by (rule reaches_cong [OF timeout_message_pause])

lemma cleanup_end_reaches:
  assumes "cleanup_clear ce cid w = (at, w1)"
  shows "reaches w (cleanup_calls ce cid cp w1)" "reaches w w1"
  using steps [OF cleanup_clear_reaches [OF assms] cleanup_calls_reaches] cleanup_clear_reaches [OF assms] .

lemma cleanupExpiredConversation_reaches: "reaches w (cleanupExpiredConversation ce rc w)"
proof -
  obtain at w1 where c: "cleanup_clear ce (rc_conv rc) w = (at, w1)" by (cases "cleanup_clear ce (rc_conv rc) w")
  show ?thesis
    using cleanup_end_reaches [OF c]
    by (auto simp: cleanupExpiredConversation_def Let_def c reaches_refl split: sum.split)
qed

lemma cleanupConversation_reaches: "reaches w (cleanupConversation ce cid w)"
proof -
  have "reaches w (cleanup_calls ce cid cp w1)" "reaches w w1"
    if "cleanup_clear ce cid (set_keys r w) = (at, w1)" for r at w1 cp
    using cleanup_end_reaches [OF that] by simp_all
  then show ?thesis
    by (auto simp: cleanupConversation_def Let_def reaches_refl split: sum.split prod.split)
qed

lemma cleanupExpiredCheckpoint_reaches: "reaches w (cleanupExpiredCheckpoint ce cp rc w)"
  using cleanupExpiredConversation_reaches [of w ce rc] reaches_refl [of w]
  by (auto simp: cleanupExpiredCheckpoint_def cleanup_enqueue_def aw_db_def set_keys_def Let_def split: prod.split)

lemma fold_reaches:
  assumes "\<And>x v. reaches v (f x v)"
  shows "reaches w (fold f xs w)"
  using assms by (induction xs arbitrary: w) (auto simp: reaches_refl intro: steps)

lemma mark_all_expired_reaches: "reaches w (mark_all_expired ce rs w)"
  unfolding mark_all_expired_def
  by (rule fold_reaches) (auto simp: reaches_refl split: sum.split intro: expires)

lemma cleanup_reaches: "reaches w (cleanupOnce ce order w)"
proof -
  have stale: "reaches w (cleanupStaleConversations ce w)"
    unfolding cleanupStaleConversations_def
    by (cases "ce_ok ce CcListStale") (simp_all add: fold_reaches cleanupConversation_reaches reaches_refl)
  have expired: "reaches v (cleanupExpiredRemoteCallings ce order v)" for v
  proof (cases "\<not> ce_rc_store ce \<or> \<not> ce_ok ce CcListExpired")
    case True
    then show ?thesis unfolding cleanupExpiredRemoteCallings_def by (simp add: reaches_refl)
  next
    case False
    let ?rs = "rc_list_expired (nat (cc_batch (ce_config ce))) (ce_now ce [] 1) (aw_db v)"
    have groups: "reaches u (fold (\<lambda>(cp, rc). cleanupExpiredCheckpoint ce cp rc) gs u)" for u gs
    proof (rule fold_reaches)
      fix g u show "reaches u ((case g of (cp, rc) \<Rightarrow> cleanupExpiredCheckpoint ce cp rc) u)"
        by (cases g) (simp add: cleanupExpiredCheckpoint_reaches)
    qed
    show ?thesis
      unfolding cleanupExpiredRemoteCallings_def Let_def if_not_P [OF False]
      by (rule steps [OF mark_all_expired_reaches [of v ce ?rs] groups])
  qed
  show ?thesis
    unfolding cleanupOnce_def by (rule steps [OF stale expired])
qed

end

subsection \<open>The runtime\<close>

text \<open>
  One delivery or one cycle of a process with executor \<open>xr\<close> and registry \<open>reg\<close>, with any failures.  A fresh
  identifier is never empty.
\<close>

inductive runtime_step :: "('t, 'm, 'a) executor \<Rightarrow> registry \<Rightarrow> agent_world \<Rightarrow> agent_world \<Rightarrow> bool"
  for xr reg where
  process: "run_leaves_pauses ae \<Longrightarrow> ae_uuid ae 1 \<noteq> [] \<Longrightarrow>
    NewAgentTaskHandler tk ae xr payload w = (r, w') \<Longrightarrow> runtime_step xr reg w w'"
| resume: "resume_leaves_pauses re \<Longrightarrow> NewAgentResumeHandler tk re xr reg payload' w = (r, w') \<Longrightarrow> runtime_step xr reg w w'"
| clean: "cleanupOnce ce order w = w' \<Longrightarrow> runtime_step xr reg w w'"

context runtime_contract begin

lemma runtime_step_reaches: "runtime_step xr reg w w' \<Longrightarrow> reaches w w'"
proof (induction rule: runtime_step.induct)
  case (process ae tk payload w r w')
  then show ?case using task_handler_reaches [OF process(1,2), of w tk xr payload] by simp
next
  case (resume re tk payload' w r w')
  then show ?case using resume_handler_reaches [OF resume(1), of w tk xr reg payload'] by simp
next
  case (clean ce order w w')
  then show ?case using cleanup_reaches by blast
qed

lemma runtime_reaches: "(runtime_step xr reg)\<^sup>*\<^sup>* w w' \<Longrightarrow> reaches w w'"
  by (induction rule: rtranclp_induct) (auto simp: reaches_refl intro: steps runtime_step_reaches)

end

subsection \<open>The lifecycle of a call\<close>

lemma status_writes_keep_calls:
  "conv_clear_agent_status now cid d = Inr (at, d') \<Longrightarrow> rcs d' = rcs d"
  "conv_update_agent_status now cid st agent cp d = Inr (at, d') \<Longrightarrow> rcs d' = rcs d"
  by (auto simp: conv_clear_agent_status_def conv_update_agent_status_def Let_def split: if_splits)

lemma cleanup_clear_calls: "cleanup_clear ce cid w = (at, w1) \<Longrightarrow> calls w1 = calls w"
  by (auto simp: cleanup_clear_def status_writes_keep_calls split: if_splits sum.splits)

interpretation lifecycle: runtime_contract "\<lambda>d d'. rc_table_advances (rcs d) (rcs d')"
proof
  show "rc_table_advances (rcs d) (rcs (rc_delete_by_checkpoint now cp d))" for now cp d
    by (rule rc_step_advances [OF delete_checkpoint [OF refl]])
qed (auto intro: table_advances_trans rc_step_advances [OF create] rc_step_advances [OF expire]
      simp: status_writes_keep_calls)

text \<open>
  C34: The runtime refines the lifecycle of the store: along any sequence of its steps a call that has been
  answered, cancelled or expired keeps its outcome, and no call disappears from the table.
\<close>

theorem runtime_refines_call_lifecycle:
  assumes "(runtime_step xr reg)\<^sup>*\<^sup>* w w'" "i < length (calls w)"
  shows "i < length (calls w') \<and> rc_advances (calls w ! i) (calls w' ! i)"
proof -
  have "rc_table_advances (calls w) (calls w')" by (rule lifecycle.runtime_reaches [OF assms(1)])
  then have "length (calls w) \<le> length (calls w')" "list_all2 rc_advances (calls w) (take (length (calls w)) (calls w'))"
    by (auto simp: rc_table_advances_def)
  with assms(2) show ?thesis by (auto dest: list_all2_nthD)
qed

subsection \<open>The status of a conversation\<close>

text \<open>
  The values a status takes: idle and then without agent and checkpoint, or waiting for an answer, with the
  agent that asks and the checkpoint it resumes from.
\<close>

definition status_typed :: "conversation \<Rightarrow> bool" where
  "status_typed c \<longleftrightarrow>
     (if c_agent_status c = AgentStatusIdle then c_agent_id c = [] \<and> c_checkpoint c = []
      else (c_agent_status c = AgentStatusAskingUser \<or> c_agent_status c = AgentStatusToolCalling)
           \<and> c_agent_id c \<noteq> [] \<and> c_checkpoint c \<noteq> [])"

lemma status_typed_view:
  "list_all status_typed cs =
     list_all (\<lambda>(i, l, st, a, cp). if st = AgentStatusIdle then a = [] \<and> cp = []
       else (st = AgentStatusAskingUser \<or> st = AgentStatusToolCalling) \<and> a \<noteq> [] \<and> cp \<noteq> []) (map conv_status cs)"
  unfolding list.pred_map o_def conv_status_def prod.case status_typed_def ..

lemma update_where_typed:
  "list_all q xs \<Longrightarrow> (\<And>x. q x \<Longrightarrow> p x \<Longrightarrow> q (g x)) \<Longrightarrow> list_all q (update_where p g xs)"
  by (auto simp: list_all_iff set_update_where)

interpretation typing: runtime_contract "\<lambda>d d'. list_all status_typed (convs d) \<longrightarrow> list_all status_typed (convs d')"
proof
  fix now cid d at d'
  assume "conv_clear_agent_status now cid d = Inr (at, d')"
  then show "list_all status_typed (convs d) \<longrightarrow> list_all status_typed (convs d')"
    by (auto simp: conv_clear_agent_status_def Let_def status_typed_def split: if_splits intro!: update_where_typed)
next
  fix now cid st agent cp d at d'
  assume "conv_update_agent_status now cid st agent cp d = Inr (at, d')"
    "st = AgentStatusAskingUser \<or> st = AgentStatusToolCalling" "agent \<noteq> []" "cp \<noteq> []"
  then show "list_all status_typed (convs d) \<longrightarrow> list_all status_typed (convs d')"
    by (auto simp: conv_update_agent_status_def Let_def status_typed_def split: if_splits intro!: update_where_typed)
qed (auto simp: status_typed_view rc_create_def rc_mark_expired_def rc_delete_by_checkpoint_def Let_def
      split: if_splits option.splits)

lemma new_conversation_typed:
  "conv_create now c d = Inr (c', d') \<Longrightarrow> c_agent_status c = [] \<Longrightarrow> c_agent_id c = [] \<Longrightarrow> c_checkpoint c = [] \<Longrightarrow>
     status_typed c'"
  by (auto simp: status_typed_def conv_create_def conv_defaults_def Let_def split: if_splits)

text \<open>
  C35: In every database the runtime reaches the status of each conversation is one of the three constants; it
  is idle exactly when neither an agent nor a checkpoint is recorded, and a conversation that waits names
  both, so that an answer can always be routed to a run.
\<close>

theorem agent_status_well_typed:
  assumes "(runtime_step xr reg)\<^sup>*\<^sup>* w w'" "\<forall>c \<in> set (convs (aw_db w)). status_typed c"
  shows "\<forall>c \<in> set (convs (aw_db w')). status_typed c"
  using typing.runtime_reaches [OF assms(1)] assms(2) by (simp add: list_all_iff)

end
