(* ===== verification/AgentCleanupProps.thy ===== *)
theory AgentCleanupProps
  imports AgentLifecycle
begin

text \<open>
  What one cycle of the clean-up achieves: a stale pause is settled, an overdue call does not stay
  pending, an active agent is not disturbed, and a checkpoint is resumed at most once in five minutes.
\<close>

subsection \<open>A stale conversation\<close>

lemma conv_clear_idle:
  assumes "conv_clear_agent_status now cid d = Inr (at, d')" "aw_db w = d'"
  shows "idle cid w"
proof -
  have "convs d' = update_where (\<lambda>c. c_id c = cid \<and> conv_live c)
      (\<lambda>c. c\<lparr>c_agent_status := AgentStatusIdle, c_agent_id := [], c_checkpoint := [],
             c_agent_act := now, c_updated := now\<rparr>) (convs d)"
    using assms(1) by (auto simp: conv_clear_agent_status_def Let_def split: if_splits)
  then show ?thesis unfolding idle_def assms(2) by (simp only:) (rule update_where_all, auto)
qed

lemma cleanup_calls_settled:
  assumes "idle cid w" "ce_ok ce (CcDeleteCalls cid)"
  shows "settled cid cp (cleanup_calls ce cid cp w)"
proof -
  have "convs (aw_db (cleanup_calls ce cid cp w)) = convs (aw_db w)"
    "calls (cleanup_calls ce cid cp w) = update_where (\<lambda>r. rc_checkpoint r = cp \<and> rc_live r)
       (\<lambda>r. r\<lparr>rc_deleted := Some (ce_now ce cid 1)\<rparr>) (calls w)"
    using assms(2) by (simp_all add: cleanup_calls_def rc_delete_by_checkpoint_def)
  moreover have "\<forall>r \<in> set (update_where (\<lambda>r. rc_checkpoint r = cp \<and> rc_live r)
       (\<lambda>r. r\<lparr>rc_deleted := Some (ce_now ce cid 1)\<rparr>) (calls w)). rc_checkpoint r = cp \<longrightarrow> \<not> rc_live r"
    by (rule update_where_all) (auto simp: rc_live_def)
  ultimately show ?thesis using assms(1) by (simp add: settled_def idle_def)
qed

lemma cleanup_checkpoint_pause: "same_pause w (cleanup_checkpoint ce cid cp w)"
  by (simp add: cleanup_checkpoint_def split: option.split)

lemma settled_after:
  "settled cid cp w \<Longrightarrow> settled cid cp (timeout_message ce cid' agent human content (cleanup_checkpoint ce cid' cp' w))"
  by (meson same_pause_settled same_pause_trans timeout_message_pause cleanup_checkpoint_pause)

text \<open>
  C38: A conversation that waits for an answer and that nobody works on is settled when the clean-up reaches
  it: idle, and no call of its checkpoint is live.
\<close>

theorem stale_pause_is_settled:
  assumes works: "ce_lock_client ce" "ce_rc_store ce" "\<forall>c. ce_ok ce c"
    and free: "key_get (ce_now ce cid 5) (lockKey cid) (aw_keys w) = None"
      "key_get (ce_now ce cid 6) (cleanupKey cid) (aw_keys w) = None"
    and conv: "conv_get cid (aw_db w) = Inr c"
      "c_agent_status c = AgentStatusAskingUser \<or> c_agent_status c = AgentStatusToolCalling" "c_checkpoint c \<noteq> []"
  shows "settled cid (c_checkpoint c) (cleanupConversation ce cid w)"
proof -
  obtain r where setnx: "key_setnx (ce_now ce cid 6) (cleanupKey cid) ''1'' (cc_lock_ttl (ce_config ce)) (aw_keys w)
      = (True, r)"
    using free(2) by (simp add: key_setnx_def)
  obtain at d1 where d1: "conv_clear_agent_status (ce_now ce cid 0) cid (aw_db w) = Inr (at, d1)"
    using conv_get_exists(1) [OF conv(1)] by (auto simp: conv_clear_agent_status_def Let_def)
  let ?w1 = "set_aw_db d1 (set_keys r w)"
  have ok: "ce_ok ce x" for x using works(3) by blast
  have "cleanup_clear ce cid (set_keys r w) = (at, ?w1)"
    using d1 by (simp add: cleanup_clear_def ok)
  then have run: "cleanupConversation ce cid w
      = send (cleanup_pushes ce cid (c_agent_id c) (human_of c) ''hitl_timeout'' at)
          (timeout_message ce cid (c_agent_id c) (human_of c) txt_session_timeout
            (cleanup_checkpoint ce cid (c_checkpoint c) (cleanup_calls ce cid (c_checkpoint c) ?w1)))"
    using conv(2) ok by (elim disjE)
      (simp_all add: cleanupConversation_def works(1,2) free(1) conv(1,3) setnx Let_def)
  have "idle cid ?w1" by (rule conv_clear_idle [OF d1]) simp
  then have "settled cid (c_checkpoint c) (cleanup_calls ce cid (c_checkpoint c) ?w1)"
    using works(3) by (intro cleanup_calls_settled) simp_all
  then have "settled cid (c_checkpoint c) (timeout_message ce cid (c_agent_id c) (human_of c) txt_session_timeout
            (cleanup_checkpoint ce cid (c_checkpoint c) (cleanup_calls ce cid (c_checkpoint c) ?w1)))"
    by (rule settled_after)
  then show ?thesis unfolding run by (simp add: settled_def)
qed

text \<open>While an agent holds the lock of the conversation the clean-up leaves everything as it is.\<close>

lemma active_agent_not_disturbed:
  "key_get (ce_now ce cid 5) (lockKey cid) (aw_keys w) = Some tok \<Longrightarrow> cleanupConversation ce cid w = w"
  by (simp add: cleanupConversation_def)

subsection \<open>Overdue calls\<close>

definition no_overdue :: "time \<Rightarrow> remote_calling list \<Rightarrow> bool" where
  "no_overdue now rs \<longleftrightarrow> (\<forall>r \<in> set rs. rc_live r \<and> rc_stat r = RcPending \<longrightarrow> \<not> rc_overdue now r)"

lemma no_overdue_delete:
  "no_overdue now rs \<Longrightarrow> no_overdue now (update_where p (\<lambda>r. r\<lparr>rc_deleted := Some t\<rparr>) rs)"
  by (auto simp: no_overdue_def set_update_where rc_live_def split: if_splits)

text \<open>Rows that are open after a marking were open before, and are not the marked one.\<close>

lemma mark_expired_open:
  assumes mark: "rc_mark_expired i d = Inr d'" and r: "r \<in> set (rcs d')" "rc_live r" "rc_stat r = RcPending"
  shows "r \<in> set (rcs d) \<and> rc_id r \<noteq> i"
proof -
  let ?p = "\<lambda>r. (rc_id r = i \<and> rc_stat r = RcPending) \<and> rc_live r" and ?f = "\<lambda>r. r\<lparr>rc_stat := RcExpired\<rparr>"
  have "rcs d' = update_where ?p ?f (rcs d)"
    using mark by (auto simp: rc_mark_expired_def Let_def split: if_splits option.splits)
  then obtain x where x: "x \<in> set (rcs d)" "r = (if ?p x then ?f x else x)" using r(1) by (auto simp only: set_update_where)
  have "\<not> ?p x" using x(2) r(3) by auto
  then have "r = x" using x(2) by (simp only: if_False)
  with x(1) r \<open>\<not> ?p x\<close> show ?thesis by simp
qed

lemma mark_expired_fails:
  assumes "rc_mark_expired i d = Inl e" "r \<in> set (rcs d)" "rc_live r" "rc_stat r = RcPending"
  shows "rc_id r \<noteq> i"
  using assms by (auto simp: rc_mark_expired_def Let_def count_where_zero split: if_splits option.splits)

lemma mark_all_expired_open:
  assumes "\<forall>c. ce_ok ce c" "r \<in> set (calls (mark_all_expired ce rs w))" "rc_live r" "rc_stat r = RcPending"
  shows "r \<in> set (calls w) \<and> rc_id r \<notin> rc_id ` set rs"
  using assms(2)
proof (induction rs arbitrary: w)
  case Nil
  then show ?case by (simp add: mark_all_expired_def)
next
  case (Cons x rs)
  let ?w1 = "case rc_mark_expired (rc_id x) (aw_db w) of Inl e \<Rightarrow> w | Inr d \<Rightarrow> set_aw_db d w"
  have "mark_all_expired ce (x # rs) w = mark_all_expired ce rs ?w1"
    using assms(1) by (simp add: mark_all_expired_def)
  with Cons have 1: "r \<in> set (calls ?w1)" "rc_id r \<notin> rc_id ` set rs" by auto
  show ?case
  proof (cases "rc_mark_expired (rc_id x) (aw_db w)")
    case (Inl e)
    then show ?thesis using 1 mark_expired_fails [OF Inl _ assms(3,4)] by auto
  next
    case (Inr d)
    then show ?thesis using 1 mark_expired_open [OF Inr _ assms(3,4)] by auto
  qed
qed

lemma expired_listed:
  assumes "count_where (\<lambda>r. (rc_stat r = RcPending \<and> rc_overdue now r) \<and> rc_live r) (rcs d) \<le> n"
    and "r \<in> set (rcs d)" "rc_live r" "rc_stat r = RcPending" "rc_overdue now r"
  shows "r \<in> set (rc_list_expired n now d)"
  using assms by (simp add: rc_list_expired_def)

lemma cleanupExpiredConversation_overdue:
  assumes "no_overdue now (calls w)"
  shows "no_overdue now (calls (cleanupExpiredConversation ce rc w))"
proof -
  obtain at w1 where c: "cleanup_clear ce (rc_conv rc) w = (at, w1)" by (cases "cleanup_clear ce (rc_conv rc) w")
  have "no_overdue now (calls (cleanup_calls ce (rc_conv rc) (rc_checkpoint rc) w1))"
    using assms cleanup_clear_calls [OF c]
    by (simp add: cleanup_calls_def rc_delete_by_checkpoint_def no_overdue_delete)
  with assms show ?thesis
    by (auto simp: cleanupExpiredConversation_def Let_def c split: sum.split)
qed

lemma cleanupExpiredCheckpoint_overdue:
  "no_overdue now (calls w) \<Longrightarrow> no_overdue now (calls (cleanupExpiredCheckpoint ce cp rc w))"
  using cleanupExpiredConversation_overdue [of now w ce rc]
  by (auto simp: cleanupExpiredCheckpoint_def cleanup_enqueue_def aw_db_def set_keys_def Let_def split: prod.split)

text \<open>
  After the second layer has run, no call whose expiry had passed is still pending, provided the cycle's
  batch could hold them all.
\<close>

theorem no_overdue_call_stays_pending:
  assumes works: "ce_rc_store ce" "\<forall>c. ce_ok ce c"
    and few: "count_where (\<lambda>r. (rc_stat r = RcPending \<and> rc_overdue (ce_now ce [] 1) r) \<and> rc_live r) (calls w)
      \<le> nat (cc_batch (ce_config ce))"
  shows "no_overdue (ce_now ce [] 1) (calls (cleanupExpiredRemoteCallings ce order w))"
proof -
  let ?now = "ce_now ce [] 1"
  let ?rs = "rc_list_expired (nat (cc_batch (ce_config ce))) ?now (aw_db w)"
  have "no_overdue ?now (calls (mark_all_expired ce ?rs w))"
    unfolding no_overdue_def
    using mark_all_expired_open [OF works(2), of _ ?rs w] expired_listed [OF few] by blast
  moreover have "no_overdue ?now (calls v) \<Longrightarrow>
      no_overdue ?now (calls (fold (\<lambda>(cp, rc). cleanupExpiredCheckpoint ce cp rc) gs v))" for gs v
    by (induction gs arbitrary: v) (auto simp: cleanupExpiredCheckpoint_overdue)
  ultimately show ?thesis
    using works by (simp add: cleanupExpiredRemoteCallings_def Let_def)
qed

subsection \<open>The resume guard\<close>

text \<open>
  A checkpoint some of whose calls were answered is resumed by the clean-up, and a second look within five
  minutes does not enqueue the task again.
\<close>

theorem checkpoint_resumed_once:
  fixes rc rc' :: remote_calling
  assumes works: "ce_broker ce" "ce_lock_client ce" "\<forall>c. ce_ok ce c" "\<forall>c. ce_ok ce' c"
    and ready: "rc_count_pending_by_checkpoint cp (aw_db w) = 0" "rc_get_resolved_by_checkpoint cp (aw_db w) \<noteq> []"
    and free: "key_get (ce_now ce cp 7) (resumeGuardKey cp) (aw_keys w) = None"
    and again: "ce_broker ce'" "ce_lock_client ce'" "ce_now ce' cp 7 < ce_now ce cp 7 + 300 * second"
  defines "w1 \<equiv> cleanupExpiredCheckpoint ce cp rc w"
  shows "sv_queue (aw_srv w1) = sv_queue (aw_srv w) @ [cleanup_resume_task cp rc]"
    and "sv_queue (aw_srv (cleanupExpiredCheckpoint ce' cp rc' w1)) = sv_queue (aw_srv w1)"
proof -
  let ?k = "resumeGuardKey cp"
  let ?r = "(aw_keys w)(?k \<mapsto> (''1'', Some (ce_now ce cp 7 + 300 * second)))"
  have setnx: "key_setnx (ce_now ce cp 7) ?k ''1'' (300 * second) (aw_keys w) = (True, ?r)"
    using free by (simp add: key_setnx_def)
  have w1: "w1 = (set_keys ?r w)\<lparr>aw_srv := (aw_srv w)\<lparr>sv_queue := sv_queue (aw_srv w) @ [cleanup_resume_task cp rc]\<rparr>\<rparr>"
    using works ready unfolding w1_def cleanupExpiredCheckpoint_def setnx by (simp add: Let_def cleanup_enqueue_def)
  show "sv_queue (aw_srv w1) = sv_queue (aw_srv w) @ [cleanup_resume_task cp rc]"
    by (simp add: w1)
  have db: "aw_db w1 = aw_db w" and keys: "aw_keys w1 = ?r" by (simp_all add: w1 aw_db_def set_keys_def)
  have "key_setnx (ce_now ce' cp 7) ?k ''1'' (300 * second) (aw_keys w1) = (False, ?r)"
    using again(3) by (simp add: keys key_setnx_def key_get_def)
  then show "sv_queue (aw_srv (cleanupExpiredCheckpoint ce' cp rc' w1)) = sv_queue (aw_srv w1)"
    using works(4) ready again(1,2) by (simp add: cleanupExpiredCheckpoint_def db Let_def)
qed

end
