(* ===== verification/RedisStore.thy ===== *)
theory RedisStore
  imports Connections Models
begin

text \<open>
  \<^verbatim>\<open>internal/server/redis_connection_store.go\<close>: the connection store of a deployment with several nodes.
  Two kinds of Redis keys carry it, a record with a time to live per connection and a set of connections
  per user.  The Lua scripts are single steps of the server; the other commands of an operation are steps
  of their own, each at its own time.  A command that fails has no effect, and a record stands for its JSON
  text.
\<close>

subsection \<open>Redis\<close>

text \<open>A key exists until its expiry, and an empty set does not exist.\<close>

record redis =
  rd_info :: "string \<rightharpoonup> connection_info \<times> time"
  rd_sets :: "string \<rightharpoonup> string set \<times> time option"

definition info_get :: "time \<Rightarrow> string \<Rightarrow> redis \<Rightarrow> connection_info option" where
  "info_get now k d = (case rd_info d k of Some (c, e) \<Rightarrow> if now < e then Some c else None | None \<Rightarrow> None)"

definition info_set :: "time \<Rightarrow> string \<Rightarrow> connection_info \<Rightarrow> duration \<Rightarrow> redis \<Rightarrow> redis" where
  "info_set now k c ttl d = d\<lparr>rd_info := (rd_info d)(k \<mapsto> (c, now + ttl))\<rparr>"

definition info_del :: "string \<Rightarrow> redis \<Rightarrow> redis" where
  "info_del k d = d\<lparr>rd_info := (rd_info d)(k := None)\<rparr>"

definition set_entry :: "time \<Rightarrow> string \<Rightarrow> redis \<Rightarrow> (string set \<times> time option) option" where
  "set_entry now k d =
     (case rd_sets d k of
        None \<Rightarrow> None
      | Some (ids, None) \<Rightarrow> if ids = {} then None else Some (ids, None)
      | Some (ids, Some e) \<Rightarrow> if ids = {} \<or> \<not> now < e then None else Some (ids, Some e))"

definition smembers :: "time \<Rightarrow> string \<Rightarrow> redis \<Rightarrow> string set" where
  "smembers now k d = (case set_entry now k d of None \<Rightarrow> {} | Some (ids, e) \<Rightarrow> ids)"

definition scard :: "time \<Rightarrow> string \<Rightarrow> redis \<Rightarrow> int" where
  "scard now k d = int (card (smembers now k d))"

definition sadd :: "time \<Rightarrow> string \<Rightarrow> string \<Rightarrow> redis \<Rightarrow> redis" where
  "sadd now k x d = d\<lparr>rd_sets := (rd_sets d)(k \<mapsto>
     (case set_entry now k d of None \<Rightarrow> ({x}, None) | Some (ids, e) \<Rightarrow> (insert x ids, e)))\<rparr>"

definition srem :: "time \<Rightarrow> string \<Rightarrow> string set \<Rightarrow> redis \<Rightarrow> redis" where
  "srem now k xs d = d\<lparr>rd_sets := (rd_sets d)(k :=
     (case set_entry now k d of
        None \<Rightarrow> None
      | Some (ids, e) \<Rightarrow> if ids - xs = {} then None else Some (ids - xs, e)))\<rparr>"

text \<open>The tail of two scripts: the set lives at least as long as the record, if the set exists.\<close>

definition extend_set :: "time \<Rightarrow> string \<Rightarrow> duration \<Rightarrow> redis \<Rightarrow> redis" where
  "extend_set now k ttl d =
     (case set_entry now k d of
        None \<Rightarrow> d
      | Some (ids, None) \<Rightarrow> d\<lparr>rd_sets := (rd_sets d)(k \<mapsto> (ids, Some (now + ttl)))\<rparr>
      | Some (ids, Some e) \<Rightarrow>
          if ttl > e - now then d\<lparr>rd_sets := (rd_sets d)(k \<mapsto> (ids, Some (now + ttl)))\<rparr> else d)"

subsection \<open>The scripts\<close>

text \<open>
  \<^verbatim>\<open>luaAdd\<close>.  Leaving the old user's set comes before the check of the limit, and a script is not undone
  when it returns early or when a command fails, as \<^verbatim>\<open>SET\<close> does for a time to live of zero milliseconds
  (\<open>None\<close>).
\<close>

definition luaAdd ::
  "time \<Rightarrow> string \<Rightarrow> string \<Rightarrow> connection_info \<Rightarrow> duration \<Rightarrow> int \<Rightarrow> string \<Rightarrow> redis \<Rightarrow> int option \<times> redis" where
  "luaAdd now info_key new_user_key c ttl max_conns user_prefix d =
     (let old_user = (case info_get now info_key d of None \<Rightarrow> [] | Some old \<Rightarrow> ci_user old);
          full = (\<lambda>d. max_conns > 0 \<and> scard now new_user_key d \<ge> max_conns);
          d1 = (if old_user \<noteq> [] \<and> old_user \<noteq> ci_user c then srem now (user_prefix @ old_user) {ci_id c} d else d)
      in if (old_user = [] \<or> old_user \<noteq> ci_user c) \<and> full d1 then (Some (- 1), d1)
         else if ttl \<le> 0 then (None, d1)
         else (Some 1, extend_set now new_user_key ttl (sadd now new_user_key (ci_id c) (info_set now info_key c ttl d1))))"

definition luaRemove :: "time \<Rightarrow> string \<Rightarrow> string \<Rightarrow> string \<Rightarrow> redis \<Rightarrow> redis" where
  "luaRemove now info_key user_key cid d = srem now user_key {cid} (info_del info_key d)"

definition luaUpdate :: "time \<Rightarrow> string \<Rightarrow> connection_info \<Rightarrow> duration \<Rightarrow> redis \<Rightarrow> int option \<times> redis" where
  "luaUpdate now info_key c ttl d =
     (if info_get now info_key d = None then (Some 0, d)
      else if ttl \<le> 0 then (None, d)
      else (Some 1, info_set now info_key c ttl d))"

text \<open>\<^verbatim>\<open>PEXPIRE\<close> with zero milliseconds deletes the key.\<close>

definition luaRefresh :: "time \<Rightarrow> string \<Rightarrow> string \<Rightarrow> duration \<Rightarrow> redis \<Rightarrow> int \<times> redis" where
  "luaRefresh now info_key user_key ttl d =
     (case info_get now info_key d of
        None \<Rightarrow> (0, d)
      | Some c \<Rightarrow>
          (1, extend_set now user_key ttl
                (if ttl \<le> 0 then info_del info_key d else info_set now info_key c ttl d)))"

text \<open>\<^verbatim>\<open>luaCleanupEmptySet\<close>: an empty set does not exist, so there is nothing to delete.\<close>

definition luaCleanupEmptySet :: "time \<Rightarrow> string \<Rightarrow> redis \<Rightarrow> redis" where
  "luaCleanupEmptySet now user_key d =
     (if scard now user_key d = 0 \<and> set_entry now user_key d \<noteq> None
      then d\<lparr>rd_sets := (rd_sets d)(user_key := None)\<rparr> else d)"

subsection \<open>The store\<close>

record redis_config =
  rg_prefix :: string
  rg_default_ttl :: duration
  rg_max :: int

definition resolveDefaultTTL :: "duration \<Rightarrow> duration" where
  "resolveDefaultTTL ttl = (if ttl > 0 then ttl else 30 * 60 * second)"

definition NewRedisConnectionStoreFromClient :: "string \<Rightarrow> duration \<Rightarrow> int \<Rightarrow> redis_config" where
  "NewRedisConnectionStoreFromClient pre ttl mx =
     \<lparr>rg_prefix = pre, rg_default_ttl = (if ttl \<le> 0 then 30 * 60 * second else ttl), rg_max = mx\<rparr>"

definition resolveTTL :: "redis_config \<Rightarrow> duration \<Rightarrow> duration" where
  "resolveTTL g ttl = (if ttl > 0 then ttl else rg_default_ttl g)"

text \<open>The time to live the scripts get: whole milliseconds.\<close>

definition script_ttl :: "redis_config \<Rightarrow> connection_info \<Rightarrow> duration" where
  "script_ttl g c = truncate_ms (resolveTTL g (ci_ttl c))"

definition infoKey :: "redis_config \<Rightarrow> string \<Rightarrow> string" where
  "infoKey g cid = rg_prefix g @ ''xyncra:conn:info:'' @ cid"

definition userKeyPrefix :: "redis_config \<Rightarrow> string" where
  "userKeyPrefix g = rg_prefix g @ ''xyncra:conn:user:''"

definition userKey :: "redis_config \<Rightarrow> string \<Rightarrow> string" where
  "userKey g u = userKeyPrefix g @ u"

text \<open>\<^verbatim>\<open>classifyRedisError\<close>: the text of the error returned.\<close>

definition classifyRedisError :: "string \<Rightarrow> string" where
  "classifyRedisError m =
     (if contains m ''context deadline exceeded'' \<or> contains m ''i/o timeout''
      then ''server: redis timeout: '' @ m
      else if contains m ''connection refused'' \<or> contains m ''connection reset'' \<or> contains m ''broken pipe''
              \<or> contains m ''no such host'' \<or> contains m ''dial tcp''
      then ''server: redis connection failed: '' @ m
      else m)"

text \<open>
  Choices of the environment in one operation: clock readings (Go's and the server's, in order), failing
  commands, the text of the server's complaint about a time to live of zero, the answers of \<^verbatim>\<open>SSCAN\<close> and
  the order of \<^verbatim>\<open>SMEMBERS\<close>.
\<close>

record redis_env =
  rn_now :: "nat \<Rightarrow> time"
  rn_fault :: "nat \<Rightarrow> string option"
  rn_bad_ttl :: string
  rn_pages :: "string list list"
  rn_order :: "string list"

definition backend :: "string \<Rightarrow> string \<Rightarrow> conn_error" where
  "backend what m = ConnBackend (what @ classifyRedisError m)"

definition on_conn :: "string \<Rightarrow> string \<Rightarrow> string" where
  "on_conn op cid = ''server: '' @ op @ '' connection [connID='' @ cid @ '']: ''"

definition id_required :: conn_error where
  "id_required = ConnArgument ''server: connection ID is required''"

definition user_required :: conn_error where
  "user_required = ConnArgument ''server: user ID is required''"

definition rds_add :: "redis_config \<Rightarrow> redis_env \<Rightarrow> connection_info option \<Rightarrow> redis \<Rightarrow> (conn_error + connection_info) \<times> redis" where
  "rds_add g en info d =
     (case info of
        None \<Rightarrow> (Inl (ConnArgument ''server: connection info is nil''), d)
      | Some ci \<Rightarrow>
          if ci_id ci = [] then (Inl id_required, d)
          else if ci_user ci = [] then (Inl user_required, d)
          else
            let c = stamped (rn_now en 0) ci in
            (case rn_fault en 0 of
               Some m \<Rightarrow> (Inl (backend (on_conn ''add'' (ci_id c)) m), d)
             | None \<Rightarrow>
                 (case luaAdd (rn_now en 1) (infoKey g (ci_id c)) (userKey g (ci_user c)) c (script_ttl g c) (rg_max g)
                         (userKeyPrefix g) d of
                    (None, d1) \<Rightarrow> (Inl (backend (on_conn ''add'' (ci_id c)) (rn_bad_ttl en)), d1)
                  | (Some r, d1) \<Rightarrow> if r = - 1 then (Inl ErrMaxConnectionsExceeded, d1) else (Inr c, d1))))"

definition rds_get :: "redis_config \<Rightarrow> redis_env \<Rightarrow> string \<Rightarrow> redis \<Rightarrow> conn_error + connection_info" where
  "rds_get g en cid d =
     (if cid = [] then Inl id_required
      else case rn_fault en 0 of
             Some m \<Rightarrow> Inl (backend (on_conn ''get'' cid) m)
           | None \<Rightarrow> (case info_get (rn_now en 0) (infoKey g cid) d of
                       None \<Rightarrow> Inl ErrConnectionNotFound | Some c \<Rightarrow> Inr c))"

definition rds_remove :: "redis_config \<Rightarrow> redis_env \<Rightarrow> string \<Rightarrow> redis \<Rightarrow> conn_error option \<times> redis" where
  "rds_remove g en cid d =
     (if cid = [] then (Some id_required, d)
      else case rds_get g en cid d of
             Inl e \<Rightarrow> (if e = ErrConnectionNotFound then None else Some e, d)
           | Inr c \<Rightarrow>
               (case rn_fault en 1 of
                  Some m \<Rightarrow> (Some (backend (''server: remove connection [connID='' @ cid @ '', userID='' @ ci_user c @ '']: '') m), d)
                | None \<Rightarrow>
                    let d1 = luaRemove (rn_now en 1) (infoKey g cid) (userKey g (ci_user c)) cid d
                    in (None, if rn_fault en 2 = None then luaCleanupEmptySet (rn_now en 2) (userKey g (ci_user c)) d1 else d1)))"

definition rds_exists :: "redis_config \<Rightarrow> redis_env \<Rightarrow> string \<Rightarrow> redis \<Rightarrow> conn_error + bool" where
  "rds_exists g en cid d =
     (if cid = [] then Inl id_required
      else case rn_fault en 0 of
             Some m \<Rightarrow> Inl (backend (on_conn ''exists'' cid) m)
           | None \<Rightarrow> Inr (info_get (rn_now en 0) (infoKey g cid) d \<noteq> None))"

text \<open>The write half of \<^verbatim>\<open>Update\<close> and \<^verbatim>\<open>Patch\<close>: the record changed, its new time to live from the change.\<close>

definition rds_write ::
  "redis_config \<Rightarrow> redis_env \<Rightarrow> string \<Rightarrow> string \<Rightarrow> connection_info \<Rightarrow> redis \<Rightarrow> conn_error option \<times> redis" where
  "rds_write g en op cid c d =
     (case rn_fault en 1 of
        Some m \<Rightarrow> (Some (backend (on_conn op cid) m), d)
      | None \<Rightarrow>
          (case luaUpdate (rn_now en 2) (infoKey g cid) c (script_ttl g c) d of
             (None, d1) \<Rightarrow> (Some (backend (on_conn op cid) (rn_bad_ttl en)), d1)
           | (Some r, d1) \<Rightarrow> (if r = 0 then Some ErrConnectionNotFound else None, d1)))"

definition rds_update ::
  "redis_config \<Rightarrow> redis_env \<Rightarrow> string \<Rightarrow> (string \<rightharpoonup> string) \<Rightarrow> redis \<Rightarrow> conn_error option \<times> redis" where
  "rds_update g en cid meta d =
     (if cid = [] then (Some id_required, d)
      else case rds_get g en cid d of
             Inl e \<Rightarrow> (Some e, d)
           | Inr c \<Rightarrow> rds_write g en ''update'' cid (c\<lparr>ci_meta := meta, ci_updated := rn_now en 1\<rparr>) d)"

definition rds_patch ::
  "redis_config \<Rightarrow> redis_env \<Rightarrow> string \<Rightarrow> (connection_info \<Rightarrow> connection_info) option \<Rightarrow> redis
     \<Rightarrow> conn_error option \<times> redis" where
  "rds_patch g en cid updater d =
     (if cid = [] then (Some id_required, d)
      else case updater of
             None \<Rightarrow> (Some (ConnArgument ''server: updater function is nil''), d)
           | Some f \<Rightarrow>
               (case rn_fault en 0 of
                  Some m \<Rightarrow> (Some (backend (on_conn ''patch'' cid @ ''read: '') m), d)
                | None \<Rightarrow>
                    (case info_get (rn_now en 0) (infoKey g cid) d of
                       None \<Rightarrow> (Some ErrConnectionNotFound, d)
                     | Some c \<Rightarrow> rds_write g en ''patch'' cid ((f c)\<lparr>ci_updated := rn_now en 1\<rparr>) d)))"

definition rds_refresh :: "redis_config \<Rightarrow> redis_env \<Rightarrow> string \<Rightarrow> redis \<Rightarrow> conn_error option \<times> redis" where
  "rds_refresh g en cid d =
     (if cid = [] then (Some id_required, d)
      else case rn_fault en 0 of
             Some m \<Rightarrow> (Some (backend (on_conn ''refresh'' cid) m), d)
           | None \<Rightarrow>
               (case info_get (rn_now en 0) (infoKey g cid) d of
                  None \<Rightarrow> (Some ErrConnectionNotFound, d)
                | Some c \<Rightarrow>
                    (case rn_fault en 1 of
                       Some m \<Rightarrow> (Some (backend (on_conn ''refresh'' cid) m), d)
                     | None \<Rightarrow>
                         (let (r, d1) = luaRefresh (rn_now en 1) (infoKey g cid) (userKey g (ci_user c)) (script_ttl g c) d
                          in (if r = 0 then Some ErrConnectionNotFound else None, d1)))))"

subsection \<open>Listing and counting\<close>

text \<open>
  One page of \<^verbatim>\<open>SSCAN\<close> at a time with one \<^verbatim>\<open>MGET\<close>; the scan stops early when the limit is reached, and the
  result and the stale members are collected.
\<close>

definition page_stale :: "redis_config \<Rightarrow> time \<Rightarrow> redis \<Rightarrow> string list \<Rightarrow> string list" where
  "page_stale g now d ids = filter (\<lambda>cid. info_get now (infoKey g cid) d = None) ids"

definition page_live :: "redis_config \<Rightarrow> time \<Rightarrow> redis \<Rightarrow> string list \<Rightarrow> connection_info list" where
  "page_live g now d ids = List.map_filter (\<lambda>cid. info_get now (infoKey g cid) d) ids"

fun scan_pages ::
  "redis_config \<Rightarrow> redis_env \<Rightarrow> string \<Rightarrow> int \<Rightarrow> redis \<Rightarrow> nat \<Rightarrow> string list list \<Rightarrow> connection_info list \<Rightarrow> string list
     \<Rightarrow> conn_error + (connection_info list \<times> string list)" where
  "scan_pages g en u limit d i [] acc stale = Inr (acc, stale)"
| "scan_pages g en u limit d i (ids # pages) acc stale =
     (case rn_fault en (2 * i) of
        Some m \<Rightarrow> Inl (backend (''server: list connections by user [userID='' @ u @ '']: '') m)
      | None \<Rightarrow>
          if ids = [] then scan_pages g en u limit d (Suc i) pages acc stale
          else
            (case rn_fault en (2 * i + 1) of
               Some m \<Rightarrow> Inl (backend (''server: list connections by user [userID='' @ u @ '']: mget: '') m)
             | None \<Rightarrow>
                 let acc' = acc @ page_live g (rn_now en i) d ids;
                     stale' = stale @ page_stale g (rn_now en i) d ids;
                     bound = (if limit > 1000 then 1000 else limit)
                 in if limit > 0 \<and> int (length acc') \<ge> bound then Inr (take (nat bound) acc', stale')
                    else scan_pages g en u limit d (Suc i) pages acc' stale'))"

definition rds_list_by_user ::
  "redis_config \<Rightarrow> redis_env \<Rightarrow> string \<Rightarrow> int \<Rightarrow> redis \<Rightarrow> (conn_error + connection_info list) \<times> redis" where
  "rds_list_by_user g en u limit d =
     (if u = [] then (Inl user_required, d)
      else case scan_pages g en u limit d 0 (rn_pages en) [] [] of
             Inl e \<Rightarrow> (Inl e, d)
           | Inr (cs, stale) \<Rightarrow>
               let t = rn_now en (length (rn_pages en)); k = userKey g u;
                   f = rn_fault en (2 * length (rn_pages en)); f' = rn_fault en (2 * length (rn_pages en) + 1);
                   d1 = (if stale \<noteq> [] \<and> f = None then srem t k (set stale) d else d);
                   d2 = (if stale \<noteq> [] \<and> f' = None then luaCleanupEmptySet t k d1 else d1)
               in (Inr cs, d2))"

definition rds_count_by_user :: "redis_config \<Rightarrow> redis_env \<Rightarrow> string \<Rightarrow> redis \<Rightarrow> conn_error + int" where
  "rds_count_by_user g en u d =
     (if u = [] then Inl user_required
      else case rn_fault en 0 of
             Some m \<Rightarrow> Inl (backend (''server: count connections by user [userID='' @ u @ '']: '') m)
           | None \<Rightarrow> Inr (scard (rn_now en 0) (userKey g u) d))"

text \<open>\<^verbatim>\<open>CountAll\<close> adds up the pages of \<^verbatim>\<open>SCAN\<close>.\<close>

fun count_pages :: "redis_env \<Rightarrow> nat \<Rightarrow> string list list \<Rightarrow> int \<Rightarrow> conn_error + int" where
  "count_pages en i [] n = Inr n"
| "count_pages en i (ks # pages) n =
     (case rn_fault en i of
        Some m \<Rightarrow> Inl (backend ''server: count all connections: '' m)
      | None \<Rightarrow> count_pages en (Suc i) pages (n + int (length ks)))"

definition rds_count_all :: "redis_env \<Rightarrow> conn_error + int" where
  "rds_count_all en = count_pages en 0 (rn_pages en) 0"

subsection \<open>Removing a user\<close>

definition unlink_infos :: "redis_config \<Rightarrow> string list \<Rightarrow> redis \<Rightarrow> redis" where
  "unlink_infos g ids d = fold (\<lambda>cid. info_del (infoKey g cid)) ids d"

text \<open>Batches of a hundred; a failing batch leaves the earlier ones deleted.\<close>

function unlink_batches :: "redis_config \<Rightarrow> redis_env \<Rightarrow> nat \<Rightarrow> string list \<Rightarrow> redis \<Rightarrow> string option \<times> redis" where
  "unlink_batches g en i ids d =
     (if ids = [] then (None, d)
      else case rn_fault en i of
             Some m \<Rightarrow> (Some m, d)
           | None \<Rightarrow> unlink_batches g en (Suc i) (drop 100 ids) (unlink_infos g (take 100 ids) d))"
  by pat_completeness auto

termination by (relation "measure (\<lambda>(g, en, i, ids, d). length ids)") auto

declare unlink_batches.simps [simp del]

definition rds_remove_by_user :: "redis_config \<Rightarrow> redis_env \<Rightarrow> string \<Rightarrow> redis \<Rightarrow> (conn_error + int) \<times> redis" where
  "rds_remove_by_user g en u d =
     (if u = [] then (Inl user_required, d)
      else
        let what = ''server: remove by user [userID='' @ u @ '']: '' in
        case rn_fault en 0 of
          Some m \<Rightarrow> (Inl (backend (what @ ''list connections: '') m), d)
        | None \<Rightarrow>
            if rn_order en = [] then (Inr 0, d)
            else
              (case unlink_batches g en 2 (rn_order en) d of
                 (Some m, d1) \<Rightarrow> (Inl (backend (what @ ''unlink batch: '') m), d1)
               | (None, d1) \<Rightarrow>
                   (case rn_fault en 1 of
                      Some m \<Rightarrow> (Inl (backend (what @ ''unlink user set: '') m), d1)
                    | None \<Rightarrow> (Inr (int (length (rn_order en))),
                               d1\<lparr>rd_sets := (rd_sets d1)(userKey g u := None)\<rparr>))))"

end
