(* ===== verification/RedisProps.thy ===== *)
theory RedisProps
  imports RedisStore
begin

text \<open>
  The Redis store against the in-memory store: at one instant, the records and sets that have not expired
  are an in-memory store, and the operations on them agree.  Over time the sets must outlive the records;
  which operations keep that, and what happens after those that do not.
\<close>

subsection \<open>Keys\<close>

lemma key_inj [simp]:
  "infoKey g a = infoKey g b \<longleftrightarrow> a = b" "userKey g a = userKey g b \<longleftrightarrow> a = b"
  by (simp_all add: infoKey_def userKey_def)

lemma userKeyPrefix_append [simp]: "userKeyPrefix g @ u = userKey g u"
  by (simp add: userKey_def)

lemma info_get_set [simp]:
  "info_get now k (info_set now k' c ttl d) = (if k = k' then (if 0 < ttl then Some c else None) else info_get now k d)"
  by (simp add: info_get_def info_set_def)

lemma info_get_del [simp]: "info_get now k (info_del k' d) = (if k = k' then None else info_get now k d)"
  by (simp add: info_get_def info_del_def)

lemma info_get_sets [simp]:
  "info_get now k (sadd t k' x d) = info_get now k d" "info_get now k (srem t k' xs d) = info_get now k d"
  "info_get now k (extend_set t k' ttl d) = info_get now k d"
  "info_get now k (luaCleanupEmptySet t k' d) = info_get now k d"
  by (simp_all add: info_get_def sadd_def srem_def extend_set_def luaCleanupEmptySet_def split: option.split prod.split)

lemma set_entry_info [simp]:
  "set_entry now k (info_set t k' c ttl d) = set_entry now k d" "set_entry now k (info_del k' d) = set_entry now k d"
  by (simp_all add: set_entry_def info_set_def info_del_def)

text \<open>Whether an entry of the second map stands for a key that exists.\<close>

fun entry_live :: "time \<Rightarrow> string set \<times> time option \<Rightarrow> bool" where
  "entry_live now (ids, None) \<longleftrightarrow> ids \<noteq> {}"
| "entry_live now (ids, Some e) \<longleftrightarrow> ids \<noteq> {} \<and> now < e"

lemma set_entry_alt:
  "set_entry now k d = (case rd_sets d k of None \<Rightarrow> None | Some q \<Rightarrow> if entry_live now q then Some q else None)"
  by (auto simp: set_entry_def split: option.split prod.split)

lemma set_entry_Some: "set_entry now k d = Some q \<longleftrightarrow> rd_sets d k = Some q \<and> entry_live now q"
  by (auto simp: set_entry_alt split: option.splits if_splits)

lemma entry_live_insert: "entry_live now (insert x ids, e) \<longleftrightarrow> (case e of None \<Rightarrow> True | Some t \<Rightarrow> now < t)"
  by (cases e) auto

lemma set_entry_sadd:
  "set_entry now k (sadd now k' x d) =
     (if k = k' then Some (case set_entry now k d of None \<Rightarrow> ({x}, None) | Some (ids, e) \<Rightarrow> (insert x ids, e))
      else set_entry now k d)"
proof (cases "set_entry now k' d")
  case None
  then show ?thesis by (auto simp: sadd_def set_entry_alt [of now _ "d\<lparr>rd_sets := _\<rparr>"]) (simp add: set_entry_alt)
next
  case (Some q)
  then obtain ids e where q: "q = (ids, e)" "entry_live now (ids, e)" by (cases q) (auto simp: set_entry_Some)
  then have "entry_live now (insert x ids, e)" by (cases e) auto
  with Some q show ?thesis
    by (auto simp: sadd_def set_entry_alt [of now _ "d\<lparr>rd_sets := _\<rparr>"]) (simp add: set_entry_alt)
qed

lemma set_entry_srem:
  "set_entry now k (srem now k' xs d) =
     (if k = k' then (case set_entry now k d of None \<Rightarrow> None
        | Some (ids, e) \<Rightarrow> if ids - xs = {} then None else Some (ids - xs, e))
      else set_entry now k d)"
proof (cases "set_entry now k' d")
  case None
  then show ?thesis by (auto simp: srem_def set_entry_alt [of now _ "d\<lparr>rd_sets := _\<rparr>"]) (simp add: set_entry_alt)
next
  case (Some q)
  then obtain ids e where q: "q = (ids, e)" "entry_live now (ids, e)" by (cases q) (auto simp: set_entry_Some)
  then have "ids - xs \<noteq> {} \<Longrightarrow> entry_live now (ids - xs, e)" by (cases e) auto
  with Some q show ?thesis
    by (auto simp: srem_def set_entry_alt [of now _ "d\<lparr>rd_sets := _\<rparr>"]) (simp add: set_entry_alt)
qed

definition extended :: "time \<Rightarrow> time option \<Rightarrow> time option" where
  "extended t e = (case e of None \<Rightarrow> Some t | Some e \<Rightarrow> Some (max e t))"

lemma set_entry_extend:
  assumes "0 < ttl"
  shows "set_entry now k (extend_set now k' ttl d) =
     (if k = k' then map_option (\<lambda>(ids, e). (ids, extended (now + ttl) e)) (set_entry now k d) else set_entry now k d)"
proof (cases "set_entry now k' d")
  case None
  then show ?thesis by (simp add: extend_set_def)
next
  case (Some q)
  then obtain ids e where q: "q = (ids, e)" "entry_live now (ids, e)" by (cases q) (auto simp: set_entry_Some)
  show ?thesis
  proof (cases e)
    case None
    with Some q assms show ?thesis
      by (auto simp: extend_set_def extended_def set_entry_alt [of now _ "d\<lparr>rd_sets := _\<rparr>"]) (simp add: set_entry_alt)
  next
    case (Some t)
    with \<open>set_entry now k' d = Some q\<close> q assms show ?thesis
      by (auto simp: extend_set_def extended_def max_def set_entry_alt [of now _ "d\<lparr>rd_sets := _\<rparr>"])
         (simp_all add: set_entry_alt)
  qed
qed

lemma set_entry_nonempty: "set_entry now k d = Some (ids, e) \<Longrightarrow> ids \<noteq> {}"
  by (cases e) (auto simp: set_entry_Some)

subsection \<open>The in-memory store at one instant\<close>

definition redis_view :: "redis_config \<Rightarrow> time \<Rightarrow> redis \<Rightarrow> conn_store" where
  "redis_view g now d =
     \<lparr>cs_info = (\<lambda>cid. info_get now (infoKey g cid) d),
      cs_users = (\<lambda>u. map_option fst (set_entry now (userKey g u) d)),
      cs_max = rg_max g\<rparr>"

lemma view_simps [simp]:
  "cs_info (redis_view g now d) cid = info_get now (infoKey g cid) d"
  "cs_users (redis_view g now d) u = map_option fst (set_entry now (userKey g u) d)"
  "cs_max (redis_view g now d) = rg_max g"
  by (simp_all add: redis_view_def)

lemma view_ids [simp]: "ids_of_user u (redis_view g now d) = smembers now (userKey g u) d"
  by (simp add: ids_of_user_def smembers_def split: option.split prod.split)

lemma conn_store_eqI:
  "cs_info s = cs_info s' \<Longrightarrow> cs_users s = cs_users s' \<Longrightarrow> cs_max s = cs_max s' \<Longrightarrow> s = (s' :: conn_store)"
  by simp

lemma view_srem:
  "redis_view g now (srem now (userKey g u) {cid} d) = drop_user_conn u cid (redis_view g now d)"
proof (rule conn_store_eqI)
  show "cs_users (redis_view g now (srem now (userKey g u) {cid} d)) = cs_users (drop_user_conn u cid (redis_view g now d))"
    by (auto simp: drop_user_conn_def set_entry_srem Let_def fun_eq_iff split: option.split prod.split)
qed (auto simp: drop_user_conn_def Let_def fun_eq_iff split: option.split prod.split)

lemma view_store:
  assumes "0 < ttl"
  shows "redis_view g now (extend_set now (userKey g u) ttl (sadd now (userKey g u) cid (info_set now (infoKey g cid) c ttl d)))
    = (redis_view g now d)\<lparr>cs_info := (cs_info (redis_view g now d))(cid \<mapsto> c),
        cs_users := (cs_users (redis_view g now d))(u \<mapsto> insert cid (ids_of_user u (redis_view g now d)))\<rparr>"
proof (rule conn_store_eqI)
  let ?d = "extend_set now (userKey g u) ttl (sadd now (userKey g u) cid (info_set now (infoKey g cid) c ttl d))"
  show "cs_users (redis_view g now ?d) = cs_users ((redis_view g now d)\<lparr>cs_info := (cs_info (redis_view g now d))(cid \<mapsto> c),
        cs_users := (cs_users (redis_view g now d))(u \<mapsto> insert cid (ids_of_user u (redis_view g now d)))\<rparr>)"
    using assms by (auto simp: fun_eq_iff set_entry_extend set_entry_sadd smembers_def split: option.split)
qed (use assms in \<open>auto simp: fun_eq_iff\<close>)

text \<open>An undisturbed operation at the instant \<open>now\<close>: no command fails, and the server's clock shows \<open>now\<close>.\<close>

definition at_instant :: "redis_env \<Rightarrow> time \<Rightarrow> bool" where
  "at_instant en now \<longleftrightarrow> (\<forall>i. rn_fault en i = None) \<and> rn_now en 1 = now"

text \<open>Records carry the user they were added for.\<close>

definition users_named :: "redis_config \<Rightarrow> time \<Rightarrow> redis \<Rightarrow> bool" where
  "users_named g now d \<longleftrightarrow> (\<forall>cid c. info_get now (infoKey g cid) d = Some c \<longrightarrow> ci_user c \<noteq> [])"

text \<open>
  C39: Adding a connection that is new or keeps its user does to the records and sets that have not expired
  what the in-memory store does to its maps, with the same answer, the limit included.
\<close>

theorem redis_add_refines_memory:
  assumes "at_instant en now" "users_named g now d" "keeps_user ci (redis_view g now d)"
    and "0 < script_ttl g (stamped (rn_now en 0) ci)"
  shows "fst (rds_add g en (Some ci) d) = fst (mcs_add (rn_now en 0) (Some ci) (redis_view g now d))
    \<and> redis_view g now (snd (rds_add g en (Some ci) d)) = snd (mcs_add (rn_now en 0) (Some ci) (redis_view g now d))"
proof -
  let ?c = "stamped (rn_now en 0) ci" and ?v = "redis_view g now d"
  let ?k = "infoKey g (ci_id ci)" and ?u = "userKey g (ci_user ci)"
  let ?old = "case info_get now ?k d of None \<Rightarrow> [] | Some old \<Rightarrow> ci_user old"
  have same: "?old = [] \<or> ?old = ci_user ci"
    using assms(3) by (auto simp: keeps_user_def split: option.split)
  have full: "conn_full ci ?v \<longleftrightarrow> ?old = [] \<and> rg_max g > 0 \<and> scard now ?u d \<ge> rg_max g"
    using assms(2) by (auto simp: conn_full_def scard_def users_named_def split: option.split)
  have put: "mcs_put ?c ?v = ?v\<lparr>cs_info := (cs_info ?v)(ci_id ci \<mapsto> ?c),
      cs_users := (cs_users ?v)(ci_user ci \<mapsto> insert (ci_id ci) (ids_of_user (ci_user ci) ?v))\<rparr>"
    using assms(3) by (auto simp: mcs_put_def keeps_user_def Let_def split: option.split)
  have script: "luaAdd now ?k ?u ?c (script_ttl g ?c) (rg_max g) (userKeyPrefix g) d =
      (if conn_full ci ?v then (Some (- 1), d)
       else (Some 1, extend_set now ?u (script_ttl g ?c) (sadd now ?u (ci_id ci) (info_set now ?k ?c (script_ttl g ?c) d))))"
    if "ci_user ci \<noteq> []"
    using same assms(4) that unfolding full by (auto simp: luaAdd_def Let_def)
  have "rds_add g en (Some ci) d =
      (if ci_id ci = [] then (Inl id_required, d) else if ci_user ci = [] then (Inl user_required, d)
       else if conn_full ci ?v then (Inl ErrMaxConnectionsExceeded, d)
       else (Inr ?c, extend_set now ?u (script_ttl g ?c) (sadd now ?u (ci_id ci) (info_set now ?k ?c (script_ttl g ?c) d))))"
    using assms(1) script by (simp add: rds_add_def at_instant_def Let_def)
  then show ?thesis
    using assms(4) by (auto simp: mcs_add_def put view_store id_required_def user_required_def)
qed

lemma luaCleanup_same:
  assumes "finite (smembers t k d)"
  shows "luaCleanupEmptySet t k d = d"
proof (cases "set_entry t k d")
  case (Some q)
  obtain ids e where q: "q = (ids, e)" by (cases q)
  then have "ids \<noteq> {}" using Some set_entry_nonempty by blast
  then have "scard t k d \<noteq> 0" using assms Some q by (simp add: scard_def smembers_def)
  then show ?thesis by (simp add: luaCleanupEmptySet_def)
qed (simp add: luaCleanupEmptySet_def)

text \<open>Removing a connection agrees as well, when its user's set is finite.\<close>

theorem redis_remove_refines_memory:
  assumes "\<forall>i. rn_fault en i = None" "\<forall>i. rn_now en i = now" "\<forall>k. finite (smembers now k d)"
  shows "fst (rds_remove g en cid d) = fst (mcs_remove cid (redis_view g now d))"
    and "redis_view g now (snd (rds_remove g en cid d)) = snd (mcs_remove cid (redis_view g now d))"
proof -
  have drop: "redis_view g now (luaCleanupEmptySet now (userKey g u) (luaRemove now (infoKey g cid) (userKey g u) cid d))
      = drop_user_conn u cid ((redis_view g now d)\<lparr>cs_info := (cs_info (redis_view g now d))(cid := None)\<rparr>)" for u
  proof -
    let ?d = "luaRemove now (infoKey g cid) (userKey g u) cid d"
    have "smembers now (userKey g u) ?d \<subseteq> smembers now (userKey g u) d"
      by (auto simp: luaRemove_def smembers_def set_entry_srem split: option.splits prod.splits if_splits)
    then have "finite (smembers now (userKey g u) ?d)" using assms(3) finite_subset by blast
    then have "redis_view g now (luaCleanupEmptySet now (userKey g u) ?d) = redis_view g now ?d"
      by (simp add: luaCleanup_same)
    also have "\<dots> = drop_user_conn u cid (redis_view g now (info_del (infoKey g cid) d))"
      unfolding luaRemove_def by (rule view_srem)
    also have "redis_view g now (info_del (infoKey g cid) d)
        = (redis_view g now d)\<lparr>cs_info := (cs_info (redis_view g now d))(cid := None)\<rparr>"
      by (rule conn_store_eqI) (auto simp: fun_eq_iff)
    finally show ?thesis .
  qed
  show "fst (rds_remove g en cid d) = fst (mcs_remove cid (redis_view g now d))"
    using assms(1,2) by (auto simp: rds_remove_def rds_get_def mcs_remove_def id_required_def Let_def split: option.split)
  show "redis_view g now (snd (rds_remove g en cid d)) = snd (mcs_remove cid (redis_view g now d))"
    using assms(1,2) drop by (auto simp: rds_remove_def rds_get_def mcs_remove_def id_required_def Let_def split: option.split)
qed

subsection \<open>Sets outlive records\<close>

text \<open>
  Every live record is a member of its user's set, and the set expires no earlier than the record.
\<close>

definition covered :: "redis_config \<Rightarrow> time \<Rightarrow> redis \<Rightarrow> bool" where
  "covered g now d \<longleftrightarrow> (\<forall>k c e. rd_info d k = Some (c, e) \<and> now < e \<longrightarrow> k = infoKey g (ci_id c) \<and>
     (\<exists>ids t. rd_sets d (userKey g (ci_user c)) = Some (ids, Some t) \<and> ci_id c \<in> ids \<and> e \<le> t))"

lemma coveredI:
  assumes "\<And>k c e. rd_info d k = Some (c, e) \<Longrightarrow> now < e \<Longrightarrow> k = infoKey g (ci_id c)"
    and "\<And>k c e. rd_info d k = Some (c, e) \<Longrightarrow> now < e \<Longrightarrow>
      \<exists>ids t. rd_sets d (userKey g (ci_user c)) = Some (ids, Some t) \<and> ci_id c \<in> ids \<and> e \<le> t"
  shows "covered g now d"
  using assms unfolding covered_def by blast

lemma coveredD:
  assumes "covered g now d" "rd_info d k = Some (c, e)" "now < e"
  obtains ids t where "k = infoKey g (ci_id c)" "rd_sets d (userKey g (ci_user c)) = Some (ids, Some t)" "ci_id c \<in> ids"
    "e \<le> t" "set_entry now (userKey g (ci_user c)) d = Some (ids, Some t)"
proof -
  obtain ids t where 1: "k = infoKey g (ci_id c)" "rd_sets d (userKey g (ci_user c)) = Some (ids, Some t)" "ci_id c \<in> ids"
    "e \<le> t" using assms unfolding covered_def by blast
  moreover have "entry_live now (ids, Some t)" using 1(3,4) assms(3) by auto
  then have "set_entry now (userKey g (ci_user c)) d = Some (ids, Some t)" using 1(2) by (simp add: set_entry_Some)
  ultimately show thesis using that by blast
qed

lemma covered_empty: "covered g now \<lparr>rd_info = Map.empty, rd_sets = Map.empty\<rparr>"
  by (simp add: covered_def)

lemma covered_later: "covered g now d \<Longrightarrow> now \<le> now' \<Longrightarrow> covered g now' d"
  unfolding covered_def by (meson order.strict_trans1)

lemma covered_less_info:
  assumes "covered g now d" "rd_sets d' = rd_sets d" "\<And>k. rd_info d' k = rd_info d k \<or> rd_info d' k = None"
  shows "covered g now d'"
  using assms unfolding covered_def by (metis option.distinct(1))

lemma covered_info_del: "covered g now d \<Longrightarrow> covered g now (info_del k d)"
  by (rule covered_less_info) (auto simp: info_del_def)

text \<open>Members whose record is gone may leave the set.\<close>

lemma covered_srem:
  assumes "covered g now d" "\<And>cid. cid \<in> xs \<Longrightarrow> info_get now (infoKey g cid) d = None"
  shows "covered g now (srem now k xs d)"
proof (rule coveredI)
  fix k' c e assume info: "rd_info (srem now k xs d) k' = Some (c, e)" and live: "now < e"
  then have i: "rd_info d k' = Some (c, e)" by (simp add: srem_def)
  obtain ids t where c: "k' = infoKey g (ci_id c)" "rd_sets d (userKey g (ci_user c)) = Some (ids, Some t)" "ci_id c \<in> ids"
    "e \<le> t" "set_entry now (userKey g (ci_user c)) d = Some (ids, Some t)"
    using coveredD [OF assms(1) i live] .
  show "k' = infoKey g (ci_id c)" by (rule c(1))
  have "ci_id c \<notin> xs" using assms(2) i live c(1) by (force simp: info_get_def)
  then show "\<exists>ids t. rd_sets (srem now k xs d) (userKey g (ci_user c)) = Some (ids, Some t) \<and> ci_id c \<in> ids \<and> e \<le> t"
    using c by (auto simp: srem_def)
qed

text \<open>The common end of adding and refreshing: the record is written and the set extended.\<close>

lemma covered_write:
  assumes cov: "covered g now d" and ttl: "0 < ttl"
  shows "covered g now (extend_set now (userKey g (ci_user c)) ttl
     (sadd now (userKey g (ci_user c)) (ci_id c) (info_set now (infoKey g (ci_id c)) c ttl d)))"
    (is "covered g now ?d")
proof -
  let ?u = "userKey g (ci_user c)"
  have sets: "rd_sets ?d k = (if k = ?u then
      Some (case set_entry now ?u d of None \<Rightarrow> ({ci_id c}, Some (now + ttl))
        | Some (ids, e) \<Rightarrow> (insert (ci_id c) ids, extended (now + ttl) e)) else rd_sets d k)" for k
  proof -
    have "set_entry now ?u ?d = Some (case set_entry now ?u d of None \<Rightarrow> ({ci_id c}, Some (now + ttl))
        | Some (ids, e) \<Rightarrow> (insert (ci_id c) ids, extended (now + ttl) e))"
      using ttl by (auto simp: set_entry_extend set_entry_sadd extended_def split: option.split)
    moreover have "rd_sets ?d k = rd_sets d k" if "k \<noteq> ?u"
      using that by (auto simp: extend_set_def sadd_def info_set_def split: option.split)
    ultimately show ?thesis by (simp add: set_entry_Some)
  qed
  have info: "rd_info ?d k = (if k = infoKey g (ci_id c) then Some (c, now + ttl) else rd_info d k)" for k
    by (auto simp: extend_set_def sadd_def info_set_def split: option.split)
  show ?thesis
  proof (rule coveredI)
    fix k c' e assume i: "rd_info ?d k = Some (c', e)" and live: "now < e"
    show "k = infoKey g (ci_id c')"
      using i live coveredD [OF cov] by (cases "k = infoKey g (ci_id c)") (auto simp: info)
    show "\<exists>ids t. rd_sets ?d (userKey g (ci_user c')) = Some (ids, Some t) \<and> ci_id c' \<in> ids \<and> e \<le> t"
    proof (cases "k = infoKey g (ci_id c)")
      case True
      then have c': "c' = c" "e = now + ttl" using i by (auto simp: info)
      show ?thesis
      proof (cases "set_entry now ?u d")
        case (Some q)
        then show ?thesis using c' sets [of ?u] by (cases q) (auto simp: extended_def split: option.split)
      qed (use c' sets [of ?u] in auto)
    next
      case False
      then have "rd_info d k = Some (c', e)" using i by (simp add: info)
      from coveredD [OF cov this live] obtain ids t where
        "rd_sets d (userKey g (ci_user c')) = Some (ids, Some t)" "ci_id c' \<in> ids" "e \<le> t"
        "set_entry now (userKey g (ci_user c')) d = Some (ids, Some t)" by blast
      then show ?thesis by (auto simp: sets extended_def split: option.splits)
    qed
  qed
qed

lemma covered_extend_nothing:
  assumes "covered g now d" "ttl \<le> 0"
  shows "covered g now (extend_set now k ttl d)"
proof (cases "\<exists>ids. set_entry now k d = Some (ids, None)")
  case True
  then obtain ids where e: "set_entry now k d = Some (ids, None)" by blast
  then have k: "rd_sets d k = Some (ids, None)" by (simp add: set_entry_Some)
  show ?thesis
  proof (rule coveredI)
    fix k' c e' assume i: "rd_info (extend_set now k ttl d) k' = Some (c, e')" and live: "now < e'"
    then have "rd_info d k' = Some (c, e')" using e by (simp add: extend_set_def)
    then obtain ids' t where c: "k' = infoKey g (ci_id c)" "rd_sets d (userKey g (ci_user c)) = Some (ids', Some t)"
      "ci_id c \<in> ids'" "e' \<le> t" using coveredD [OF assms(1) _ live] by metis
    then show "k' = infoKey g (ci_id c)" by simp
    have "userKey g (ci_user c) \<noteq> k" using k c(2) by auto
    then have "rd_sets (extend_set now k ttl d) (userKey g (ci_user c)) = Some (ids', Some t)"
      using e c(2) by (simp add: extend_set_def)
    then show "\<exists>ids t. rd_sets (extend_set now k ttl d) (userKey g (ci_user c)) = Some (ids, Some t) \<and> ci_id c \<in> ids \<and> e' \<le> t"
      using c by blast
  qed
next
  case False
  then have "extend_set now k ttl d = d"
    using assms(2) by (auto simp: extend_set_def set_entry_Some split: option.split)
  then show ?thesis using assms(1) by simp
qed

lemma sadd_member:
  assumes "set_entry now k d = Some (ids, e)" "x \<in> ids"
  shows "sadd now k x d = d"
proof -
  have "rd_sets d k = Some (ids, e)" using assms(1) by (simp add: set_entry_Some)
  then have "(rd_sets d)(k \<mapsto> (ids, e)) = rd_sets d" by (simp add: fun_upd_idem)
  then show ?thesis using assms by (simp add: sadd_def insert_absorb)
qed

lemma luaRefresh_covered:
  assumes cov: "covered g now d" and info: "info_get now (infoKey g cid) d = Some c"
  shows "covered g now (snd (luaRefresh now (infoKey g cid) (userKey g (ci_user c)) ttl d))"
proof -
  obtain e where e: "rd_info d (infoKey g cid) = Some (c, e)" "now < e"
    using info by (auto simp: info_get_def split: option.splits if_splits)
  from coveredD [OF cov this] obtain ids t where c: "infoKey g cid = infoKey g (ci_id c)"
    "set_entry now (userKey g (ci_user c)) d = Some (ids, Some t)" "ci_id c \<in> ids" by metis
  show ?thesis
  proof (cases "ttl \<le> 0")
    case True
    then show ?thesis
      using covered_extend_nothing [OF covered_info_del [OF cov]] by (simp add: luaRefresh_def info)
  next
    case False
    have "sadd now (userKey g (ci_user c)) (ci_id c) (info_set now (infoKey g cid) c ttl d) = info_set now (infoKey g cid) c ttl d"
      by (rule sadd_member [where ids = ids and e = "Some t"]) (simp_all add: c)
    moreover have "cid = ci_id c" using c(1) by simp
    ultimately show ?thesis using covered_write [OF cov, of ttl c] False info by (simp add: luaRefresh_def)
  qed
qed

subsection \<open>Listings\<close>

lemma info_get_later: "info_get t k d = None \<Longrightarrow> t \<le> t' \<Longrightarrow> info_get t' k d = None"
  by (auto simp: info_get_def split: option.splits if_splits)

lemma scan_pages_stale:
  assumes "scan_pages g en u limit d i pages acc stale = Inr (cs, st)" "mono (rn_now en)"
    and "\<forall>cid \<in> set stale. info_get t (infoKey g cid) d = None" "rn_now en (i + length pages) \<le> t"
  shows "\<forall>cid \<in> set st. info_get t (infoKey g cid) d = None"
  using assms
proof (induction g en u limit d i pages acc stale rule: scan_pages.induct)
  case (2 g en u limit d i ids pages acc stale)
  have "rn_now en i \<le> t" using 2(4,6) by (metis le_add1 monoD order_trans)
  then have new: "\<forall>cid \<in> set (stale @ page_stale g (rn_now en i) d ids). info_get t (infoKey g cid) d = None"
    using 2(5) by (auto simp: page_stale_def intro: info_get_later)
  show ?case
  proof (cases "ids = []")
    case True
    then show ?thesis using 2(1,3-6) by (auto split: option.splits)
  next
    case False
    show ?thesis
      using 2(2) [OF _ False _ refl refl refl] 2(3,4,6) new False
      by (auto simp: Let_def split: option.splits if_splits)
  qed
qed simp

lemma unlink_batches_info:
  "rd_sets (snd (unlink_batches g en i ids d)) = rd_sets d
   \<and> (\<forall>k. rd_info (snd (unlink_batches g en i ids d)) k \<in> {rd_info d k, None})
   \<and> (fst (unlink_batches g en i ids d) = None \<longrightarrow> (\<forall>cid \<in> set ids. rd_info (snd (unlink_batches g en i ids d)) (infoKey g cid) = None))"
proof (induction g en i ids d rule: unlink_batches.induct)
  case (1 g en i ids d)
  have un: "rd_sets (unlink_infos g xs v) = rd_sets v
      \<and> (\<forall>k. rd_info (unlink_infos g xs v) k = (if k \<in> infoKey g ` set xs then None else rd_info v k))" for xs v
    unfolding unlink_infos_def by (induction xs arbitrary: v) (auto simp: info_del_def)
  show ?case
  proof (cases "ids = [] \<or> rn_fault en i \<noteq> None")
    case True
    then show ?thesis by (subst (1 2 3 4) unlink_batches.simps) (auto split: option.split)
  next
    case False
    then have step: "unlink_batches g en i ids d = unlink_batches g en (Suc i) (drop 100 ids) (unlink_infos g (take 100 ids) d)"
      by (subst unlink_batches.simps) (auto split: option.split)
    have split: "set ids = set (take 100 ids) \<union> set (drop 100 ids)" by (metis append_take_drop_id set_append)
    let ?v = "unlink_infos g (take 100 ids) d"
    let ?r = "unlink_batches g en (Suc i) (drop 100 ids) ?v"
    have ih: "rd_sets (snd ?r) = rd_sets ?v" "\<forall>k. rd_info (snd ?r) k \<in> {rd_info ?v k, None}"
      "fst ?r = None \<longrightarrow> (\<forall>cid \<in> set (drop 100 ids). rd_info (snd ?r) (infoKey g cid) = None)"
      using 1 False by auto
    have v: "rd_sets ?v = rd_sets d" "\<forall>k. rd_info ?v k = (if k \<in> infoKey g ` set (take 100 ids) then None else rd_info d k)"
      using un by auto
    have gone: "rd_info (snd ?r) k = None" if "k \<in> infoKey g ` set (take 100 ids)" for k
      using ih(2) v(2) that by (metis insertE singletonD)
    show ?thesis
      unfolding step split using ih v gone by (metis UnE image_eqI insert_iff)
  qed
qed

subsection \<open>Every sequence of operations\<close>

definition finite_sets :: "redis \<Rightarrow> bool" where
  "finite_sets d \<longleftrightarrow> (\<forall>k ids e. rd_sets d k = Some (ids, e) \<longrightarrow> finite ids)"

lemma finite_members: "finite_sets d \<Longrightarrow> finite (smembers t k d)"
  by (auto simp: finite_sets_def smembers_def set_entry_Some split: option.split)

lemma finite_sets_ops [simp]:
  "finite_sets (info_set t k c ttl d) = finite_sets d" "finite_sets (info_del k d) = finite_sets d"
  "finite_sets d \<Longrightarrow> finite_sets (sadd t k x d)" "finite_sets d \<Longrightarrow> finite_sets (srem t k xs d)"
  "finite_sets d \<Longrightarrow> finite_sets (extend_set t k ttl d)"
  by (auto simp: finite_sets_def info_set_def info_del_def sadd_def srem_def extend_set_def set_entry_Some
      split: option.splits if_splits)

definition redis_wf :: "redis_config \<Rightarrow> time \<Rightarrow> redis \<Rightarrow> bool" where
  "redis_wf g now d \<longleftrightarrow> covered g now d \<and> finite_sets d"

text \<open>
  The operations with advancing clocks, any of their commands failing.  An addition keeps the user of a
  record that is still there; changing the metadata of a connection is left out (see below).
\<close>

inductive redis_step :: "redis_config \<Rightarrow> time \<Rightarrow> redis \<Rightarrow> time \<Rightarrow> redis \<Rightarrow> bool" for g where
  add: "t \<le> rn_now en 1 \<Longrightarrow>
     \<forall>old. info_get (rn_now en 1) (infoKey g (ci_id ci)) d = Some old \<longrightarrow> ci_user old = ci_user ci \<Longrightarrow>
     redis_step g t d (rn_now en 1) (snd (rds_add g en (Some ci) d))"
| remove: "t \<le> rn_now en 0 \<Longrightarrow> mono (rn_now en) \<Longrightarrow>
     redis_step g t d (rn_now en 2) (snd (rds_remove g en cid d))"
| refresh: "t \<le> rn_now en 0 \<Longrightarrow> mono (rn_now en) \<Longrightarrow>
     redis_step g t d (rn_now en 1) (snd (rds_refresh g en cid d))"
| listing: "t \<le> rn_now en 0 \<Longrightarrow> mono (rn_now en) \<Longrightarrow>
     redis_step g t d (rn_now en (length (rn_pages en))) (snd (rds_list_by_user g en u limit d))"
| remove_by_user: "t \<le> rn_now en 0 \<Longrightarrow> smembers (rn_now en 0) (userKey g u) d \<subseteq> set (rn_order en) \<Longrightarrow>
     redis_step g t d (rn_now en 0) (snd (rds_remove_by_user g en u d))"
| wait: "t \<le> t' \<Longrightarrow> redis_step g t d t' d"

lemma luaAdd_same_user:
  assumes "\<forall>old. info_get now k d = Some old \<longrightarrow> ci_user old = ci_user c"
  shows "snd (luaAdd now k uk c ttl mx pre d) = d \<or>
    0 < ttl \<and> snd (luaAdd now k uk c ttl mx pre d) = extend_set now uk ttl (sadd now uk (ci_id c) (info_set now k c ttl d))"
proof (cases "info_get now k d")
  case None
  then show ?thesis by (simp add: luaAdd_def Let_def)
next
  case (Some old)
  then show ?thesis using assms by (simp add: luaAdd_def Let_def)
qed

lemma add_wf:
  assumes wf: "redis_wf g t d" and t: "t \<le> rn_now en 1"
    and keeps: "\<forall>old. info_get (rn_now en 1) (infoKey g (ci_id ci)) d = Some old \<longrightarrow> ci_user old = ci_user ci"
  shows "redis_wf g (rn_now en 1) (snd (rds_add g en (Some ci) d))"
proof -
  let ?c = "stamped (rn_now en 0) ci" and ?t = "rn_now en 1"
  have cov: "covered g ?t d" and fin: "finite_sets d"
    using wf t covered_later by (auto simp: redis_wf_def)
  let ?r = "luaAdd ?t (infoKey g (ci_id ci)) (userKey g (ci_user ci)) ?c (script_ttl g ?c) (rg_max g) (userKeyPrefix g) d"
  have "redis_wf g ?t (snd ?r)"
  proof -
    have "\<forall>old. info_get ?t (infoKey g (ci_id ci)) d = Some old \<longrightarrow> ci_user old = ci_user ?c" using keeps by simp
    from luaAdd_same_user [OF this, of "userKey g (ci_user ci)" "script_ttl g ?c" "rg_max g" "userKeyPrefix g"]
    consider "snd ?r = d" | "0 < script_ttl g ?c" "snd ?r = extend_set ?t (userKey g (ci_user ?c)) (script_ttl g ?c)
        (sadd ?t (userKey g (ci_user ?c)) (ci_id ?c) (info_set ?t (infoKey g (ci_id ?c)) ?c (script_ttl g ?c) d))"
      unfolding stamped_simps by blast
    then show ?thesis
    proof cases
      case 1
      then show ?thesis using cov fin by (simp add: redis_wf_def)
    next
      case 2
      have "covered g ?t (snd ?r)" unfolding 2(2) by (rule covered_write [OF cov 2(1)])
      moreover have "finite_sets (snd ?r)" unfolding 2(2) using fin by (intro finite_sets_ops) simp
      ultimately show ?thesis by (simp only: redis_wf_def)
    qed
  qed
  moreover have "snd (rds_add g en (Some ci) d) = d \<or> snd (rds_add g en (Some ci) d) = snd ?r"
    by (auto simp: rds_add_def Let_def split: option.split prod.split)
  ultimately show ?thesis using cov fin by (auto simp: redis_wf_def)
qed

lemma remove_wf:
  assumes wf: "redis_wf g t d" and t: "t \<le> rn_now en 0" and mono: "mono (rn_now en)"
  shows "redis_wf g (rn_now en 2) (snd (rds_remove g en cid d))"
proof -
  have le: "t \<le> rn_now en i" for i using t monoD [OF mono, of 0 i] by simp
  have cov: "covered g (rn_now en i) d" and fin: "finite_sets d" for i
    using wf le covered_later by (auto simp: redis_wf_def)
  have gone: "redis_wf g (rn_now en 2) (luaRemove (rn_now en 1) (infoKey g cid) (userKey g u) cid d)" for u
  proof -
    have "covered g (rn_now en 1) (luaRemove (rn_now en 1) (infoKey g cid) (userKey g u) cid d)"
      unfolding luaRemove_def by (rule covered_srem) (auto intro: covered_info_del cov)
    then have "covered g (rn_now en 2) (luaRemove (rn_now en 1) (infoKey g cid) (userKey g u) cid d)"
      by (rule covered_later) (rule monoD [OF mono], simp)
    then show ?thesis using fin by (simp add: redis_wf_def luaRemove_def)
  qed
  have "luaCleanupEmptySet (rn_now en 2) (userKey g u) (luaRemove (rn_now en 1) (infoKey g cid) (userKey g u) cid d)
      = luaRemove (rn_now en 1) (infoKey g cid) (userKey g u) cid d" for u
    using gone [of u] by (simp add: luaCleanup_same finite_members redis_wf_def)
  then have "snd (rds_remove g en cid d) = d
      \<or> (\<exists>u. snd (rds_remove g en cid d) = luaRemove (rn_now en 1) (infoKey g cid) (userKey g u) cid d)"
    by (auto simp: rds_remove_def Let_def split: option.split sum.split)
  then show ?thesis using gone cov fin by (auto simp: redis_wf_def)
qed

lemma refresh_wf:
  assumes wf: "redis_wf g t d" and t: "t \<le> rn_now en 0" and mono: "mono (rn_now en)"
  shows "redis_wf g (rn_now en 1) (snd (rds_refresh g en cid d))"
proof -
  have "t \<le> rn_now en 1" using t monoD [OF mono, of 0 1] by simp
  then have cov: "covered g (rn_now en 1) d" and fin: "finite_sets d"
    using wf covered_later by (auto simp: redis_wf_def)
  show ?thesis
  proof (cases "\<exists>c. info_get (rn_now en 0) (infoKey g cid) d = Some c \<and> rn_fault en 1 = None \<and> rn_fault en 0 = None \<and> cid \<noteq> []
      \<and> info_get (rn_now en 1) (infoKey g cid) d = Some c")
    case True
    then obtain c where c: "info_get (rn_now en 0) (infoKey g cid) d = Some c" "rn_fault en 1 = None" "rn_fault en 0 = None"
      "cid \<noteq> []" "info_get (rn_now en 1) (infoKey g cid) d = Some c" by blast
    have "finite_sets (snd (luaRefresh (rn_now en 1) (infoKey g cid) (userKey g (ci_user c)) (script_ttl g c) d))"
      using fin c(5) by (simp add: luaRefresh_def)
    then show ?thesis
      using luaRefresh_covered [OF cov c(5), of "script_ttl g c"] c by (simp add: rds_refresh_def redis_wf_def split_beta Let_def)
  next
    case False
    have "info_get (rn_now en 1) (infoKey g cid) d = None \<or> info_get (rn_now en 1) (infoKey g cid) d = info_get (rn_now en 0) (infoKey g cid) d"
      by (auto simp: info_get_def monoD [OF mono] split: option.split)
         (use monoD [OF mono, of 0 1] in simp)
    with False have "snd (rds_refresh g en cid d) = d"
      by (auto simp: rds_refresh_def luaRefresh_def split: option.splits)
    then show ?thesis using cov fin by (simp add: redis_wf_def)
  qed
qed

lemma listing_wf:
  assumes wf: "redis_wf g t d" and t: "t \<le> rn_now en 0" and mono: "mono (rn_now en)"
  shows "redis_wf g (rn_now en (length (rn_pages en))) (snd (rds_list_by_user g en u limit d))"
proof -
  let ?t = "rn_now en (length (rn_pages en))"
  have "t \<le> ?t" using t monoD [OF mono, of 0 "length (rn_pages en)"] by simp
  then have cov: "covered g ?t d" and fin: "finite_sets d"
    using wf covered_later by (auto simp: redis_wf_def)
  show ?thesis
  proof (cases "scan_pages g en u limit d 0 (rn_pages en) [] []")
    case (Inl e)
    then show ?thesis using cov fin by (simp add: rds_list_by_user_def redis_wf_def)
  next
    case (Inr q)
    obtain cs st where q: "q = (cs, st)" by (cases q)
    have gone: "\<forall>cid \<in> set st. info_get ?t (infoKey g cid) d = None"
      by (rule scan_pages_stale [OF Inr [unfolded q] mono]) simp_all
    have "redis_wf g ?t (srem ?t (userKey g u) (set st) d)"
      using covered_srem [OF cov, of "set st" "userKey g u"] gone fin by (simp add: redis_wf_def)
    then have "redis_wf g ?t d1 \<Longrightarrow> redis_wf g ?t (luaCleanupEmptySet ?t (userKey g u) d1)" for d1
      by (simp add: luaCleanup_same finite_members redis_wf_def)
    with \<open>redis_wf g ?t (srem ?t (userKey g u) (set st) d)\<close> show ?thesis
      using cov fin by (auto simp: rds_list_by_user_def Inr q Let_def redis_wf_def)
  qed
qed

lemma remove_by_user_wf:
  assumes wf: "redis_wf g t d" and t: "t \<le> rn_now en 0"
    and order: "smembers (rn_now en 0) (userKey g u) d \<subseteq> set (rn_order en)"
  shows "redis_wf g (rn_now en 0) (snd (rds_remove_by_user g en u d))"
proof -
  let ?t = "rn_now en 0"
  have cov: "covered g ?t d" and fin: "finite_sets d" using wf t covered_later by (auto simp: redis_wf_def)
  obtain m d1 where b: "unlink_batches g en 2 (rn_order en) d = (m, d1)" by (cases "unlink_batches g en 2 (rn_order en) d")
  note info = unlink_batches_info [of g en 2 "rn_order en" d, unfolded b fst_conv snd_conv]
  have cov1: "covered g ?t d1"
    by (rule covered_less_info [OF cov]) (use info in auto)
  have fin1: "finite_sets d1" using fin info by (simp add: finite_sets_def)
  have all: "redis_wf g ?t (d1\<lparr>rd_sets := (rd_sets d1)(userKey g u := None)\<rparr>)" if m: "m = None"
  proof -
    have "covered g ?t (d1\<lparr>rd_sets := (rd_sets d1)(userKey g u := None)\<rparr>)"
    proof (rule coveredI)
      fix k c e assume "rd_info (d1\<lparr>rd_sets := (rd_sets d1)(userKey g u := None)\<rparr>) k = Some (c, e)" and live: "?t < e"
      then have i: "rd_info d1 k = Some (c, e)" by simp
      obtain ids t' where c: "k = infoKey g (ci_id c)" "rd_sets d1 (userKey g (ci_user c)) = Some (ids, Some t')"
        "ci_id c \<in> ids" "e \<le> t'" "set_entry ?t (userKey g (ci_user c)) d1 = Some (ids, Some t')"
        using coveredD [OF cov1 i live] .
      show "k = infoKey g (ci_id c)" by (rule c(1))
      have "ci_user c \<noteq> u"
      proof
        assume u: "ci_user c = u"
        then have "set_entry ?t (userKey g u) d = Some (ids, Some t')" using c(5) info by (simp add: set_entry_Some)
        then have "ci_id c \<in> set (rn_order en)" using order c(3) by (auto simp: smembers_def)
        then have "rd_info d1 k = None" using info m by (simp add: c(1))
        with i show False by simp
      qed
      then show "\<exists>ids t. rd_sets (d1\<lparr>rd_sets := (rd_sets d1)(userKey g u := None)\<rparr>) (userKey g (ci_user c)) = Some (ids, Some t)
          \<and> ci_id c \<in> ids \<and> e \<le> t" using c by auto
    qed
    moreover have "finite_sets (d1\<lparr>rd_sets := (rd_sets d1)(userKey g u := None)\<rparr>)"
      using fin1 by (simp add: finite_sets_def)
    ultimately show ?thesis by (simp add: redis_wf_def)
  qed
  show ?thesis
    using cov fin cov1 fin1 all by (auto simp: rds_remove_by_user_def b Let_def redis_wf_def split: option.split)
qed

lemma redis_step_wf: "redis_step g t d t' d' \<Longrightarrow> redis_wf g t d \<Longrightarrow> redis_wf g t' d'"
proof (induction rule: redis_step.induct)
  case (wait t t' d)
  then show ?case using covered_later by (auto simp: redis_wf_def)
next
  case (add t en ci d)
  from add_wf [OF add(3,1,2)] show ?case .
next
  case (remove t en d cid)
  from remove_wf [OF remove(3,1,2)] show ?case .
next
  case (refresh t en d cid)
  from refresh_wf [OF refresh(3,1,2)] show ?case .
next
  case (listing t en d u limit)
  from listing_wf [OF listing(3,1,2)] show ?case .
next
  case (remove_by_user t en u d)
  from remove_by_user_wf [OF remove_by_user(3,1,2)] show ?case .
qed

inductive redis_reachable :: "redis_config \<Rightarrow> time \<Rightarrow> redis \<Rightarrow> bool" for g where
  empty: "redis_reachable g t \<lparr>rd_info = Map.empty, rd_sets = Map.empty\<rparr>"
| step: "redis_reachable g t d \<Longrightarrow> redis_step g t d t' d' \<Longrightarrow> redis_reachable g t' d'"

lemma redis_reachable_wf: "redis_reachable g t d \<Longrightarrow> redis_wf g t d"
proof (induction rule: redis_reachable.induct)
  case (empty t)
  then show ?case by (simp add: redis_wf_def covered_empty finite_sets_def)
next
  case (step t d t' d')
  then show ?case by (blast intro: redis_step_wf)
qed

text \<open>
  C40: In every reachable state, a connection that has not expired is a member of its user's set, so that no
  push to the user misses it.
\<close>

theorem live_connection_is_indexed:
  assumes "redis_reachable g now d" "info_get now (infoKey g cid) d = Some c"
  shows "ci_id c = cid \<and> cid \<in> smembers now (userKey g (ci_user c)) d"
proof -
  obtain e where e: "rd_info d (infoKey g cid) = Some (c, e)" "now < e"
    using assms(2) by (auto simp: info_get_def split: option.splits if_splits)
  have "covered g now d" using redis_reachable_wf [OF assms(1)] by (simp add: redis_wf_def)
  from coveredD [OF this e] obtain ids t where "infoKey g cid = infoKey g (ci_id c)" "ci_id c \<in> ids"
    "set_entry now (userKey g (ci_user c)) d = Some (ids, Some t)" by metis
  then show ?thesis by (simp add: smembers_def)
qed

subsection \<open>Operations that break the index\<close>

text \<open>
  An addition that would move a connection to a user at the limit is refused after the connection has
  already left its old user's set: the connection stays alive and is in no set.
\<close>

theorem refused_move_orphans_connection:
  assumes "at_instant en now" "info_get now (infoKey g (ci_id ci)) d = Some old"
    and "ci_user old \<noteq> []" "ci_user old \<noteq> ci_user ci" "ci_id ci \<noteq> []" "ci_user ci \<noteq> []"
    and "rg_max g > 0" "scard now (userKey g (ci_user ci)) d \<ge> rg_max g"
  shows "fst (rds_add g en (Some ci) d) = Inl ErrMaxConnectionsExceeded"
    and "info_get now (infoKey g (ci_id ci)) (snd (rds_add g en (Some ci) d)) = Some old"
    and "ci_id ci \<notin> smembers now (userKey g (ci_user old)) (snd (rds_add g en (Some ci) d))"
proof -
  let ?d = "srem now (userKey g (ci_user old)) {ci_id ci} d"
  have "scard now (userKey g (ci_user ci)) ?d = scard now (userKey g (ci_user ci)) d"
    using assms(4) by (simp add: scard_def smembers_def set_entry_srem)
  then have "rds_add g en (Some ci) d = (Inl ErrMaxConnectionsExceeded, ?d)"
    using assms by (simp add: rds_add_def at_instant_def luaAdd_def Let_def)
  then show "fst (rds_add g en (Some ci) d) = Inl ErrMaxConnectionsExceeded"
    "info_get now (infoKey g (ci_id ci)) (snd (rds_add g en (Some ci) d)) = Some old"
    "ci_id ci \<notin> smembers now (userKey g (ci_user old)) (snd (rds_add g en (Some ci) d))"
    using assms(2) by (auto simp: smembers_def set_entry_srem split: option.split)
qed

text \<open>
  \<^verbatim>\<open>Update\<close> renews the record's time to live but not the set's: from the set's expiry on the connection is
  alive and listed nowhere.
\<close>

theorem update_outlives_index:
  fixes meta :: "string \<rightharpoonup> string"
  assumes en: "\<forall>i. rn_fault en i = None" "\<forall>i. rn_now en i = t" "cid \<noteq> []"
    and info: "info_get t (infoKey g cid) d = Some c"
    and sets: "rd_sets d (userKey g (ci_user c)) = Some (ids, Some e)"
    and later: "e \<le> now" "now < t + script_ttl g c" "t \<le> now"
  defines "d' \<equiv> snd (rds_update g en cid meta d)"
  shows "info_get now (infoKey g cid) d' = Some (c\<lparr>ci_meta := meta, ci_updated := t\<rparr>)"
    and "smembers now (userKey g (ci_user c)) d' = {}"
proof -
  have ttl: "script_ttl g (c\<lparr>ci_meta := meta, ci_updated := t\<rparr>) = script_ttl g c" "0 < script_ttl g c"
    using later by (simp_all add: script_ttl_def)
  have d': "d' = info_set t (infoKey g cid) (c\<lparr>ci_meta := meta, ci_updated := t\<rparr>) (script_ttl g c) d"
    using en info ttl by (simp add: d'_def rds_update_def rds_get_def rds_write_def luaUpdate_def)
  show "info_get now (infoKey g cid) d' = Some (c\<lparr>ci_meta := meta, ci_updated := t\<rparr>)"
    using later by (simp add: d' info_get_def info_set_def)
  show "smembers now (userKey g (ci_user c)) d' = {}"
    using sets later by (simp add: d' smembers_def set_entry_alt info_set_def)
qed

text \<open>
  The limit counts members, not records: a user whose connections have all expired can be refused a new
  one, until a listing has swept the set or the set has expired.
\<close>

theorem expired_connections_count:
  assumes "at_instant en now" "ci_id ci \<noteq> []" "ci_user ci \<noteq> []" "info_get now (infoKey g (ci_id ci)) d = None"
    and "rg_max g > 0" "scard now (userKey g (ci_user ci)) d \<ge> rg_max g"
  shows "rds_add g en (Some ci) d = (Inl ErrMaxConnectionsExceeded, d)"
  using assms by (simp add: rds_add_def at_instant_def luaAdd_def Let_def)

end
