(* ===== verification/RuntimeExamples.thy ===== *)
theory RuntimeExamples
  imports ServerExamples AgentCleanupProps RedisProps
begin

text \<open>
  One agent that answers, one conversation that waits for an answer, and one Redis: an instance of every
  property of the agent runtime and of the Redis connection store.
\<close>

subsection \<open>A run that answers\<close>

definition ex_builder :: "(unit, unit, unit) builder" where
  "ex_builder = \<lparr>bd_factory = (\<lambda>_. Some (\<lambda>_ _. Inr ())), bd_getenv = (\<lambda>_. ''key''), bd_tools = None,
     bd_registry = None, bd_mcp = None,
     bd_flags = \<lparr>bf_client_functions = False, bf_llm_logger = False, bf_tracing = False, bf_init_ok = (\<lambda>_. True)\<rparr>,
     bd_new_agent = (\<lambda>_ _ _ _. Inr ()), bd_agent_tool = (\<lambda>_. ())\<rparr>"

definition ex_agents :: registry where
  "ex_agents = \<lparr>ar_agents = [''x'' \<mapsto> ex_config], ar_dir = ''agents''\<rparr>"

definition ex_executor :: "(unit, unit, unit) executor" where
  "ex_executor = \<lparr>xr_registry = ex_agents, xr_builder = ex_builder, xr_helper_registry = Some ex_agents,
     xr_debug = False, xr_rc_store = True, xr_broadcast = True, xr_checkpoints = None\<rparr>"

definition ex_run :: agent_run where
  "ex_run = \<lparr>ru_events = [\<lparr>ev_err = None, ev_interrupted = None, ev_output = Some (False, Whole (Some ''hello''))\<rparr>],
     ru_ended = True, ru_choices = [Tick, Receive], ru_tool_msg = 0, ru_typing = Some 0\<rparr>"

definition ex_agent_env :: "unit agent_env" where
  "ex_agent_env = \<lparr>ae_now = (\<lambda>n. 5000000 + int n), ae_uuid = (\<lambda>i. replicate (Suc i) CHR ''u''), ae_fault = (\<lambda>_. None),
     ae_tx = (\<lambda>_. tx_ok), ae_sem = None, ae_fk = False, ae_henv = ex_env, ae_parse = (\<lambda>_. None),
     ae_run = (\<lambda>_ _ _ w. (ex_run, w))\<rparr>"

definition ex_world :: agent_world where
  "ex_world = \<lparr>aw_srv = ex_srv, aw_sent = [], aw_keys = Map.empty, aw_cache = NewDBContextManager\<rparr>"

definition ex_process :: agent_process_payload where
  "ex_process = \<lparr>ap_message_id = ''m1'', ap_conversation_id = ''c1'', ap_agent_id = ''x'', ap_sender_id = ''a'',
     ap_device_id = ''d''\<rparr>"

lemma ex_world_simps [simp]: "aw_db ex_world = ex_db" "aw_keys ex_world = Map.empty" "aw_srv ex_world = ex_srv"
  by (simp_all add: ex_world_def aw_db_def)

lemma ex_builds: "Build ex_builder ex_config = Inr ()"
  by (subst Build.simps) (simp add: ex_builder_def ex_config_def factory_Create_def Let_def)

lemma ex_prepared: "prepared ex_agent_env ex_executor (exec_payload ex_process) ex_config ()"
  by (simp add: prepared_def ex_agent_env_def ex_executor_def ex_agents_def exec_payload_def ex_process_def Get_def
      ex_builds)

lemma ex_plain: "plain_run ex_agent_env () ex_run"
  by (simp add: plain_run_def ex_agent_env_def)

lemma ex_texts: "run_texts ex_run = [TextDelta ''hello'', TextDone]"
  by (simp add: run_texts_def ex_run_def output_fails_def)

lemma ex_agent_fresh: "agent_fresh (ae_uuid ex_agent_env) ex_db"
  by (auto simp: agent_fresh_def ex_agent_env_def ex_db_def ex_msg_def ex_update_def ex_rc_def inj_def)


subsection \<open>A message delivered twice\<close>

definition ex_delivery :: "time \<Rightarrow> task_env" where
  "ex_delivery t = \<lparr>tk_locks = True, tk_marks = True, tk_token = ''node'', tk_fault = (\<lambda>_. None), tk_now = (\<lambda>_. t)\<rparr>"

definition ex_no_agents :: "(unit, unit, unit) executor" where
  "ex_no_agents = ex_executor\<lparr>xr_registry := NewRegistry\<rparr>"


subsection \<open>A conversation that waits\<close>

definition ex_waiting :: agent_world where
  "ex_waiting = set_aw_db (ex_db\<lparr>convs := [ex_conv\<lparr>c_agent_status := AgentStatusAskingUser, c_agent_id := ''x'',
     c_checkpoint := ''cp''\<rparr>]\<rparr>) ex_world"

definition ex_cleanup_env :: cleanup_env where
  "ex_cleanup_env = \<lparr>ce_fault = (\<lambda>_. None), ce_now = (\<lambda>_ n. 10 ^ 15 + int n), ce_uuid = (\<lambda>_ i. replicate (Suc i) CHR ''t''),
     ce_tx = (\<lambda>_. tx_ok),
     ce_config = cleanup_defaults \<lparr>cc_interval = 0, cc_max_age = 0, cc_batch = 0, cc_lock_ttl = 0\<rparr>,
     ce_rc_store = True, ce_checkpoints = None, ce_broadcaster = True, ce_broker = True, ce_lock_client = True\<rparr>"

lemma ex_waiting_keys: "aw_keys ex_waiting = Map.empty"
  by (simp add: ex_waiting_def)

theorem stale_pause_is_settled_witness: "settled ''c1'' ''cp'' (cleanupConversation ex_cleanup_env ''c1'' ex_waiting)"
proof -
  let ?c = "ex_conv\<lparr>c_agent_status := AgentStatusAskingUser, c_agent_id := ''x'', c_checkpoint := ''cp''\<rparr>"
  have "conv_get (c_id ?c) (aw_db ex_waiting) = Inr ?c"
    by (rule conv_get_ok) (simp_all add: ex_waiting_def ex_conv_def conv_live_def)
  then have "conv_get ''c1'' (aw_db ex_waiting) = Inr ?c" by (simp add: ex_conv_def)
  moreover have "ce_lock_client ex_cleanup_env" "ce_rc_store ex_cleanup_env" "\<forall>c. ce_ok ex_cleanup_env c"
    by (simp_all add: ex_cleanup_env_def ce_ok_def)
  ultimately show ?thesis
    using stale_pause_is_settled [of ex_cleanup_env "''c1''" ex_waiting ?c]
    by (simp add: ex_waiting_keys key_get_def)
qed

lemma ex_cleanup_step:
  "(runtime_step ex_executor ex_agents)\<^sup>*\<^sup>* ex_waiting (cleanupOnce ex_cleanup_env id ex_waiting)"
  by (rule r_into_rtranclp, rule runtime_step.clean [OF refl])

theorem agent_status_well_typed_witness:
  "list_all status_typed (convs (aw_db (cleanupOnce ex_cleanup_env id ex_waiting)))"
  unfolding list_all_iff by (rule agent_status_well_typed [OF ex_cleanup_step]) (simp add: ex_waiting_def status_typed_def)

theorem runtime_refines_call_lifecycle_witness:
  "0 < length (calls (cleanupOnce ex_cleanup_env id ex_waiting))
    \<and> rc_advances (ex_rc ''r1'') (calls (cleanupOnce ex_cleanup_env id ex_waiting) ! 0)"
  using runtime_refines_call_lifecycle [OF ex_cleanup_step, of 0] by (simp add: ex_waiting_def ex_db_def)

subsection \<open>Redis\<close>

definition ex_redis_config :: redis_config where
  "ex_redis_config = NewRedisConnectionStoreFromClient [] 0 2"

definition ex_redis_env :: "time \<Rightarrow> redis_env" where
  "ex_redis_env t = \<lparr>rn_now = (\<lambda>_. t), rn_fault = (\<lambda>_. None), rn_bad_ttl = [], rn_pages = [], rn_order = []\<rparr>"

definition ex_redis :: redis where
  "ex_redis = snd (rds_add ex_redis_config (ex_redis_env 5) (Some ex_info) \<lparr>rd_info = Map.empty, rd_sets = Map.empty\<rparr>)"

lemma ex_script_ttl: "ci_ttl c = 0 \<Longrightarrow> 0 < script_ttl ex_redis_config c"
  by (simp add: script_ttl_def ex_redis_config_def NewRedisConnectionStoreFromClient_def resolveTTL_def truncate_ms_def
      second_def msec_def)

lemma ex_redis_reachable: "redis_reachable ex_redis_config 5 ex_redis"
proof -
  have "redis_step ex_redis_config 5 \<lparr>rd_info = Map.empty, rd_sets = Map.empty\<rparr> (rn_now (ex_redis_env 5) 1)
      (snd (rds_add ex_redis_config (ex_redis_env 5) (Some ex_info) \<lparr>rd_info = Map.empty, rd_sets = Map.empty\<rparr>))"
    by (rule redis_step.add) (simp_all add: ex_redis_env_def info_get_def)
  then show ?thesis
    using redis_reachable.step [OF redis_reachable.empty] by (simp add: ex_redis_def ex_redis_env_def)
qed

lemma ex_redis_info:
  "info_get 5 (infoKey ex_redis_config cid) ex_redis = (if cid = ''k1'' then Some (stamped 5 ex_info) else None)"
proof -
  let ?d = "\<lparr>rd_info = Map.empty, rd_sets = Map.empty\<rparr> :: redis"
  have info: "ci_id ex_info = ''k1''" "ci_user ex_info = ''a''" "ci_ttl (stamped 5 ex_info) = 0"
    by (simp_all add: ex_info_def stamped_def)
  have none: "info_get 5 k ?d = None" "scard 5 k ?d = 0" for k
    by (simp_all add: info_get_def scard_def smembers_def set_entry_def)
  have "rg_max ex_redis_config = 2" by (simp add: ex_redis_config_def NewRedisConnectionStoreFromClient_def)
  then show ?thesis
    using ex_script_ttl [OF info(3)]
    by (simp add: ex_redis_def rds_add_def ex_redis_env_def luaAdd_def info none Let_def stamped_def)
qed

theorem live_connection_is_indexed_witness:
  "''k1'' \<in> smembers 5 (userKey ex_redis_config ''a'') ex_redis"
  using live_connection_is_indexed [OF ex_redis_reachable, of "''k1''" "stamped 5 ex_info"]
  by (simp add: ex_redis_info stamped_def ex_info_def)

definition ex_second :: connection_info where
  "ex_second = ex_info\<lparr>ci_id := ''k2''\<rparr>"

lemma ex_second_refines:
  "at_instant (ex_redis_env 5) 5" "users_named ex_redis_config 5 ex_redis"
  "keeps_user ex_second (redis_view ex_redis_config 5 ex_redis)"
  "0 < script_ttl ex_redis_config (stamped (rn_now (ex_redis_env 5) 0) ex_second)"
proof -
  show "0 < script_ttl ex_redis_config (stamped (rn_now (ex_redis_env 5) 0) ex_second)"
    by (rule ex_script_ttl) (simp add: ex_second_def ex_info_def stamped_def)
qed (simp_all add: at_instant_def ex_redis_env_def users_named_def keeps_user_def ex_redis_info ex_second_def ex_info_def
      stamped_def)

theorem redis_add_refines_memory_witness:
  "redis_view ex_redis_config 5 (snd (rds_add ex_redis_config (ex_redis_env 5) (Some ex_second) ex_redis))
    = snd (mcs_add (rn_now (ex_redis_env 5) 0) (Some ex_second) (redis_view ex_redis_config 5 ex_redis))"
  using redis_add_refines_memory [OF ex_second_refines] by (rule conjunct2)

end
