(* ===== verification/MessageQueue.thy ===== *)
theory MessageQueue
  imports Prelude
begin

text \<open>
  \<^verbatim>\<open>internal/mq\<close>: the options of an enqueued task and their precedence, the envelope, the table of
  handlers, and the life of the Asynq broker.  Asynq itself (the queue in Redis, the workers, the delays
  between attempts) is a library: its answers are arguments.
\<close>

subsection \<open>Tasks and options\<close>

record mq_task =
  mt_type :: string
  mt_payload :: string
  mt_id :: string
  mt_queue :: string
  mt_max_retry :: int
  mt_timeout :: duration
  mt_retention :: duration
  mt_process_in :: duration
  mt_metadata :: "(string \<times> string) list"

definition QueueCritical :: string where "QueueCritical = ''critical''"
definition QueueDefault :: string where "QueueDefault = ''default''"
definition QueueLow :: string where "QueueLow = ''low''"

definition DefaultRetryCount :: int where "DefaultRetryCount = 3"
definition DefaultUniqueTTL :: duration where "DefaultUniqueTTL = 300 * second"

definition DefaultQueuePriority :: "(string \<times> int) list" where
  "DefaultQueuePriority = [(QueueCritical, 6), (QueueDefault, 3), (QueueLow, 1)]"

record enqueue_options =
  eo_queue :: string
  eo_max_retry :: int
  eo_timeout :: duration
  eo_task_id :: string
  eo_retention :: duration
  eo_process_in :: duration
  eo_deadline :: time
  eo_unique :: bool
  eo_unique_ttl :: duration

definition defaultEnqueueOptions :: enqueue_options where
  "defaultEnqueueOptions = \<lparr>eo_queue = QueueDefault, eo_max_retry = - 1, eo_timeout = 0, eo_task_id = [],
     eo_retention = 0, eo_process_in = 0, eo_deadline = zero_time, eo_unique = False, eo_unique_ttl = 0\<rparr>"

definition applyTaskDefaults :: "mq_task option \<Rightarrow> enqueue_options \<Rightarrow> enqueue_options" where
  "applyTaskDefaults task eo =
     (case task of
        None \<Rightarrow> eo
      | Some t \<Rightarrow>
          eo\<lparr>eo_queue := (if mt_queue t \<noteq> [] \<and> eo_queue eo = QueueDefault then mt_queue t else eo_queue eo),
             eo_max_retry := (if mt_max_retry t > 0 \<and> eo_max_retry eo < 0 then mt_max_retry t else eo_max_retry eo),
             eo_timeout := (if mt_timeout t > 0 \<and> eo_timeout eo = 0 then mt_timeout t else eo_timeout eo),
             eo_task_id := (if mt_id t \<noteq> [] \<and> eo_task_id eo = [] then mt_id t else eo_task_id eo),
             eo_retention := (if mt_retention t > 0 \<and> eo_retention eo = 0 then mt_retention t else eo_retention eo),
             eo_process_in := (if mt_process_in t > 0 \<and> eo_process_in eo = 0 then mt_process_in t
                               else eo_process_in eo)\<rparr>)"

text \<open>The functional options as values.\<close>

datatype enqueue_option =
    WithQueue string
  | WithMaxRetry int
  | WithTimeout duration
  | WithTaskID string
  | WithRetention duration
  | WithProcessIn duration
  | WithDeadline time
  | WithUnique
  | WithUniqueTTL duration

fun apply_enqueue_option :: "enqueue_option \<Rightarrow> enqueue_options \<Rightarrow> enqueue_options" where
  "apply_enqueue_option (WithQueue n) eo = (if n \<noteq> [] then eo\<lparr>eo_queue := n\<rparr> else eo)"
| "apply_enqueue_option (WithMaxRetry n) eo = (if n \<ge> 0 then eo\<lparr>eo_max_retry := n\<rparr> else eo)"
| "apply_enqueue_option (WithTimeout d) eo = (if d > 0 then eo\<lparr>eo_timeout := d\<rparr> else eo)"
| "apply_enqueue_option (WithTaskID i) eo = (if i \<noteq> [] then eo\<lparr>eo_task_id := i\<rparr> else eo)"
| "apply_enqueue_option (WithRetention d) eo = (if d > 0 then eo\<lparr>eo_retention := d\<rparr> else eo)"
| "apply_enqueue_option (WithProcessIn d) eo = (if d > 0 then eo\<lparr>eo_process_in := d\<rparr> else eo)"
| "apply_enqueue_option (WithDeadline t) eo = (if t \<noteq> zero_time then eo\<lparr>eo_deadline := t\<rparr> else eo)"
| "apply_enqueue_option WithUnique eo = eo\<lparr>eo_unique := True\<rparr>"
| "apply_enqueue_option (WithUniqueTTL d) eo =
     (if d > 0 then eo\<lparr>eo_unique := True, eo_unique_ttl := d\<rparr> else eo\<lparr>eo_unique := True\<rparr>)"

text \<open>The order of \<^verbatim>\<open>Enqueue\<close>: the task's fields on the defaults, then the options, then the broker's retries.\<close>

definition resolve_options :: "int \<Rightarrow> mq_task \<Rightarrow> enqueue_option list \<Rightarrow> enqueue_options" where
  "resolve_options retry_count task opts =
     (let eo = fold apply_enqueue_option opts (applyTaskDefaults (Some task) defaultEnqueueOptions)
      in if eo_max_retry eo < 0 \<and> retry_count > 0 then eo\<lparr>eo_max_retry := retry_count\<rparr> else eo)"

datatype asynq_option =
    AQueue string
  | AMaxRetry int
  | ATimeout duration
  | ATaskID string
  | ARetention duration
  | AProcessIn duration
  | ADeadline time
  | AUnique duration

definition buildAsynqOptions :: "enqueue_options \<Rightarrow> asynq_option list" where
  "buildAsynqOptions eo =
     (if eo_queue eo \<noteq> [] then [AQueue (eo_queue eo)] else [])
     @ (if eo_max_retry eo \<ge> 0 then [AMaxRetry (eo_max_retry eo)] else [])
     @ (if eo_timeout eo > 0 then [ATimeout (eo_timeout eo)] else [])
     @ (if eo_task_id eo \<noteq> [] then [ATaskID (eo_task_id eo)] else [])
     @ (if eo_retention eo > 0 then [ARetention (eo_retention eo)] else [])
     @ (if eo_process_in eo > 0 then [AProcessIn (eo_process_in eo)] else [])
     @ (if eo_deadline eo \<noteq> zero_time then [ADeadline (eo_deadline eo)] else [])
     @ (if eo_unique eo then [AUnique (if eo_unique_ttl eo > 0 then eo_unique_ttl eo else DefaultUniqueTTL)] else [])"

subsection \<open>The broker\<close>

datatype mq_error =
    ErrQueueClosed
  | ErrTaskNotFound
  | ErrHandlerNotRegistered string
  | ErrInvalidTask string
  | ErrInvalidConfig string
  | MqOther string

record asynq_config =
  aq_addr :: string
  aq_db :: int
  aq_concurrency :: int
  aq_queues :: "(string \<times> int) list"
  aq_retry :: int

definition serverConfig_queues :: "asynq_config \<Rightarrow> (string \<times> int) list" where
  "serverConfig_queues c = (if aq_queues c = [] then DefaultQueuePriority else aq_queues c)"

definition NewAsynqBroker :: "asynq_config \<Rightarrow> mq_error + asynq_config" where
  "NewAsynqBroker c =
     (if aq_addr c = [] then Inl (MqOther ''mq: redis address is required'')
      else if aq_db c < 0 then Inl (ErrInvalidConfig ''redis db must be >= 0'')
      else if aq_concurrency c < 0 then Inl (ErrInvalidConfig ''concurrency must be >= 0'')
      else Inr (c\<lparr>aq_retry := (if aq_retry c = 0 then DefaultRetryCount else aq_retry c)\<rparr>))"

text \<open>The envelope: what a worker gets back of a task.\<close>

record task_envelope =
  te_type :: string
  te_payload :: string
  te_metadata :: "(string \<times> string) list"

text \<open>\<open>trace\<close> is the trace context injected by the caller, \<open>client\<close> Asynq's answer.\<close>

definition mq_Enqueue ::
  "asynq_config \<Rightarrow> bool \<Rightarrow> (string \<times> string) list \<Rightarrow> (string \<Rightarrow> task_envelope \<Rightarrow> asynq_option list \<Rightarrow> string + string)
     \<Rightarrow> mq_task option \<Rightarrow> enqueue_option list \<Rightarrow> mq_error + string" where
  "mq_Enqueue c is_closed trace client task opts =
     (if is_closed then Inl ErrQueueClosed
      else case task of
             None \<Rightarrow> Inl (ErrInvalidTask [])
           | Some t \<Rightarrow>
               if mt_type t = [] then Inl (ErrInvalidTask ''type is required'')
               else case client (mt_type t) \<lparr>te_type = mt_type t, te_payload = mt_payload t, te_metadata = trace\<rparr>
                           (buildAsynqOptions (resolve_options (aq_retry c) t opts)) of
                      Inl m \<Rightarrow> Inl (MqOther (''mq: enqueue task: '' @ m))
                    | Inr i \<Rightarrow> Inr i)"

text \<open>\<open>None\<close>: the payload is not an envelope.\<close>

definition decodeAsynqTask :: "task_envelope option \<Rightarrow> mq_error + mq_task" where
  "decodeAsynqTask en =
     (case en of
        None \<Rightarrow> Inl (MqOther ''unmarshal payload envelope'')
      | Some e \<Rightarrow>
          if te_type e = [] then Inl (ErrInvalidTask ''type is required'')
          else Inr \<lparr>mt_type = te_type e, mt_payload = te_payload e, mt_id = [], mt_queue = [], mt_max_retry = 0,
                    mt_timeout = 0, mt_retention = 0, mt_process_in = 0, mt_metadata = te_metadata e\<rparr>)"

datatype TaskState =
    TaskStateUnknown
  | TaskStatePending
  | TaskStateActive
  | TaskStateCompleted
  | TaskStateRetry
  | TaskStateArchived
  | TaskStateScheduled

fun TaskState_String :: "TaskState \<Rightarrow> string" where
  "TaskState_String TaskStatePending = ''pending''"
| "TaskState_String TaskStateActive = ''active''"
| "TaskState_String TaskStateCompleted = ''completed''"
| "TaskState_String TaskStateRetry = ''retry''"
| "TaskState_String TaskStateArchived = ''archived''"
| "TaskState_String TaskStateScheduled = ''scheduled''"
| "TaskState_String TaskStateUnknown = ''unknown''"

text \<open>Asynq's states, with one for what the code does not know (its aggregating state).\<close>

datatype asynq_state = APending | AActive | ACompleted | ARetry | AArchived | AScheduled | AAggregating

fun mapAsynqTaskState :: "asynq_state \<Rightarrow> TaskState" where
  "mapAsynqTaskState APending = TaskStatePending"
| "mapAsynqTaskState AActive = TaskStateActive"
| "mapAsynqTaskState ACompleted = TaskStateCompleted"
| "mapAsynqTaskState ARetry = TaskStateRetry"
| "mapAsynqTaskState AArchived = TaskStateArchived"
| "mapAsynqTaskState AScheduled = TaskStateScheduled"
| "mapAsynqTaskState AAggregating = TaskStateUnknown"

text \<open>\<open>queues\<close> is the inspector's list, \<open>info\<close> its answer for a queue and a task.\<close>

definition GetTaskState ::
  "bool \<Rightarrow> (string + string list) \<Rightarrow> (string \<Rightarrow> string \<Rightarrow> asynq_state option) \<Rightarrow> string \<Rightarrow> mq_error + TaskState" where
  "GetTaskState is_closed queues info i =
     (if is_closed then Inl ErrQueueClosed
      else if i = [] then Inl (ErrInvalidTask ''task id is required'')
      else case queues of
             Inl m \<Rightarrow> Inl (MqOther (''mq: list queues: '' @ m))
           | Inr qs \<Rightarrow>
               (case List.map_filter (\<lambda>q. info q i) qs of
                  [] \<Rightarrow> Inl ErrTaskNotFound | s # _ \<Rightarrow> Inr (mapAsynqTaskState s)))"

subsection \<open>Handlers\<close>

type_synonym 'h task_handlers = "string \<rightharpoonup> 'h"

definition handler_Register :: "string \<Rightarrow> 'h \<Rightarrow> 'h task_handlers \<Rightarrow> bool \<times> 'h task_handlers" where
  "handler_Register ty h th = (th ty = None, th(ty \<mapsto> h))"

definition handler_Unregister :: "string \<Rightarrow> 'h task_handlers \<Rightarrow> 'h task_handlers" where
  "handler_Unregister ty th = th(ty := None)"

definition HasHandler :: "string \<Rightarrow> 'h task_handlers \<Rightarrow> bool" where
  "HasHandler ty th \<longleftrightarrow> th ty \<noteq> None"

definition RegisteredTypes :: "'h task_handlers \<Rightarrow> string set" where
  "RegisteredTypes th = dom th"

text \<open>Routing: the handler the task goes to.\<close>

definition ProcessTask :: "'h task_handlers \<Rightarrow> mq_task option \<Rightarrow> mq_error + 'h \<times> mq_task" where
  "ProcessTask th task =
     (case task of
        None \<Rightarrow> Inl (ErrInvalidTask [])
      | Some t \<Rightarrow> (case th (mt_type t) of
                    None \<Rightarrow> Inl (ErrHandlerNotRegistered (mt_type t)) | Some h \<Rightarrow> Inr (h, t)))"

text \<open>What a worker does with one delivery.\<close>

definition work :: "'h task_handlers \<Rightarrow> task_envelope option \<Rightarrow> mq_error + 'h \<times> mq_task" where
  "work th en =
     (case decodeAsynqTask en of
        Inl e \<Rightarrow> Inl (MqOther ''mq: decode task'')
      | Inr t \<Rightarrow> ProcessTask th (Some t))"

subsection \<open>The life of a broker\<close>

text \<open>
  \<^verbatim>\<open>Start\<close> blocks, so it is two steps: entering it, and leaving it once its context has ended.  \<^verbatim>\<open>Close\<close>
  likewise waits for a running \<^verbatim>\<open>Start\<close> between marking the broker closed and releasing its connections.
\<close>

record broker_life =
  bl_running :: bool
  bl_closed :: bool
  bl_cancel :: bool
  bl_ctx_done :: bool
  bl_closing :: bool
  bl_released :: bool

definition new_broker :: broker_life where
  "new_broker = \<lparr>bl_running = False, bl_closed = False, bl_cancel = False, bl_ctx_done = False,
     bl_closing = False, bl_released = False\<rparr>"

definition broker_Start :: "bool \<Rightarrow> bool \<Rightarrow> broker_life \<Rightarrow> mq_error option \<times> broker_life" where
  "broker_Start has_handler server_ok b =
     (if \<not> has_handler then (Some (MqOther ''mq: handler must not be nil''), b)
      else if bl_running b then (Some (MqOther ''mq: server is already running''), b)
      else if server_ok then (None, b\<lparr>bl_running := True, bl_cancel := True, bl_ctx_done := False\<rparr>)
      else (Some (MqOther ''mq: server start''), b\<lparr>bl_running := False, bl_cancel := True, bl_ctx_done := False\<rparr>))"

definition broker_Stop :: "broker_life \<Rightarrow> broker_life" where
  "broker_Stop b = (if bl_cancel b then b\<lparr>bl_ctx_done := True\<rparr> else b)"

text \<open>The rest of \<^verbatim>\<open>Start\<close>, possible once the context has ended.\<close>

definition start_returns :: "broker_life \<Rightarrow> broker_life option" where
  "start_returns b = (if bl_running b \<and> bl_ctx_done b then Some (b\<lparr>bl_running := False\<rparr>) else None)"

definition broker_Close :: "broker_life \<Rightarrow> broker_life" where
  "broker_Close b =
     (if bl_closing b then b else broker_Stop (b\<lparr>bl_closed := True, bl_closing := True\<rparr>))"

definition close_returns :: "broker_life \<Rightarrow> broker_life option" where
  "close_returns b = (if bl_closing b \<and> \<not> bl_running b then Some (b\<lparr>bl_released := True\<rparr>) else None)"

subsection \<open>Precedence of the options\<close>

text \<open>The retries the options ask for: the last option with a count that is not negative.\<close>

fun option_retry :: "enqueue_option list \<Rightarrow> int option" where
  "option_retry [] = None"
| "option_retry (p # ps) =
     (case option_retry ps of
        Some n \<Rightarrow> Some n
      | None \<Rightarrow> (case p of WithMaxRetry n \<Rightarrow> if n \<ge> 0 then Some n else None | _ \<Rightarrow> None))"

lemma fold_option_retry:
  "eo_max_retry (fold apply_enqueue_option ps eo) = (case option_retry ps of Some n \<Rightarrow> n | None \<Rightarrow> eo_max_retry eo)"
proof (induction ps arbitrary: eo)
  case (Cons p ps)
  have "eo_max_retry (apply_enqueue_option p eo) = (case p of WithMaxRetry n \<Rightarrow> if n \<ge> 0 then n else eo_max_retry eo | _ \<Rightarrow> eo_max_retry eo)"
    by (cases p) auto
  with Cons show ?case by (auto split: option.split enqueue_option.split)
qed simp

lemma option_retry_nonneg: "option_retry ps = Some n \<Longrightarrow> n \<ge> 0"
  by (induction ps arbitrary: n rule: option_retry.induct)
     (auto split: option.splits enqueue_option.splits if_splits)

text \<open>
  The number of retries of an enqueued task: the last option that sets it, else the task's own positive
  count, else the broker's.  It is always passed on, so the library's own default never applies, as long
  as the configured count is not negative.
\<close>

theorem retry_limit_precedence:
  assumes "NewAsynqBroker c0 = Inr c" "aq_retry c0 \<ge> 0"
  shows "AMaxRetry (case option_retry opts of
           Some n \<Rightarrow> n
         | None \<Rightarrow> if mt_max_retry t > 0 then mt_max_retry t
                   else if aq_retry c0 = 0 then 3 else aq_retry c0)
       \<in> set (buildAsynqOptions (resolve_options (aq_retry c) t opts))"
proof -
  have c: "aq_retry c = (if aq_retry c0 = 0 then 3 else aq_retry c0)" "aq_retry c > 0"
    using assms by (auto simp: NewAsynqBroker_def DefaultRetryCount_def split: if_splits)
  show ?thesis
  proof (cases "option_retry opts")
    case None
    then show ?thesis
      using c by (simp add: buildAsynqOptions_def resolve_options_def Let_def fold_option_retry
          applyTaskDefaults_def defaultEnqueueOptions_def)
  next
    case (Some n)
    then show ?thesis
      using option_retry_nonneg [OF Some]
      by (simp add: buildAsynqOptions_def resolve_options_def Let_def fold_option_retry)
  qed
qed

text \<open>
  A negative count passes the validation, and then a task without a count of its own gets none: the
  library's default of 25 applies, which the package means to replace.
\<close>

theorem negative_retry_count_is_accepted:
  assumes "aq_addr c0 \<noteq> []" "aq_db c0 \<ge> 0" "aq_concurrency c0 \<ge> 0" "aq_retry c0 < 0" "mt_max_retry t \<le> 0"
  shows "\<exists>c. NewAsynqBroker c0 = Inr c \<and> (\<forall>n. AMaxRetry n \<notin> set (buildAsynqOptions (resolve_options (aq_retry c) t [])))"
  using assms
  by (auto simp: NewAsynqBroker_def buildAsynqOptions_def resolve_options_def Let_def applyTaskDefaults_def
      defaultEnqueueOptions_def)

subsection \<open>Delivery\<close>

text \<open>
  What a worker sees of an enqueued task: its type and payload, under the handler of its type.  The other
  fields do not travel.
\<close>

theorem enqueued_task_reaches_its_handler:
  assumes "mt_type t \<noteq> []" "th (mt_type t) = Some h"
    and "client = (\<lambda>ty en os. if q = (ty, en, os) then Inr i else Inl [])"
    and "mq_Enqueue c False trace client (Some t) opts = Inr i'"
  shows "i' = i \<and> (\<exists>t'. work th (Some (fst (snd q))) = Inr (h, t') \<and> mt_type t' = mt_type t \<and> mt_payload t' = mt_payload t
    \<and> mt_metadata t' = trace \<and> mt_id t' = [] \<and> mt_max_retry t' = 0)"
  using assms by (auto simp: mq_Enqueue_def work_def decodeAsynqTask_def ProcessTask_def split: if_splits)

text \<open>An unknown type is an error of every attempt, so the task is retried until its limit.\<close>

lemma unregistered_type_fails:
  "mt_type t \<noteq> [] \<Longrightarrow> th (mt_type t) = None \<Longrightarrow>
     work th (Some \<lparr>te_type = mt_type t, te_payload = mt_payload t, te_metadata = trace\<rparr>)
       = Inl (ErrHandlerNotRegistered (mt_type t))"
  by (simp add: work_def decodeAsynqTask_def ProcessTask_def)

subsection \<open>Shutting down\<close>

inductive broker_step :: "broker_life \<Rightarrow> broker_life \<Rightarrow> bool" where
  starts: "broker_Start h ok b = (r, b') \<Longrightarrow> broker_step b b'"
| stops: "broker_step b (broker_Stop b)"
| start_ends: "start_returns b = Some b' \<Longrightarrow> broker_step b b'"
| context_ends: "bl_running b \<Longrightarrow> broker_step b (b\<lparr>bl_ctx_done := True\<rparr>)"
| closes: "broker_step b (broker_Close b)"
| close_ends: "close_returns b = Some b' \<Longrightarrow> broker_step b b'"

lemma broker_step_closed: "broker_step b b' \<Longrightarrow> bl_closed b \<Longrightarrow> bl_closed b'"
  by (cases rule: broker_step.cases)
     (auto simp: broker_Start_def broker_Stop_def start_returns_def broker_Close_def close_returns_def split: if_splits)

lemma broker_steps_closed: "broker_step\<^sup>*\<^sup>* b b' \<Longrightarrow> bl_closed b \<Longrightarrow> bl_closed b'"
  by (induction rule: rtranclp_induct) (auto intro: broker_step_closed)

text \<open>A broker that has been closed refuses tasks for good.\<close>

theorem closed_broker_stays_closed:
  assumes "broker_step\<^sup>*\<^sup>* new_broker b" "broker_step\<^sup>*\<^sup>* (broker_Close b) b'"
  shows "mq_Enqueue c (bl_closed b') trace client task opts = Inl ErrQueueClosed"
proof -
  have inv: "bl_closing b1 \<longrightarrow> bl_closed b1" if "broker_step\<^sup>*\<^sup>* new_broker b1" for b1
    using that
  proof (induction rule: rtranclp_induct)
    case (step b1 b2)
    from step.hyps(2) step.IH show ?case
      by (cases rule: broker_step.cases)
         (auto simp: broker_Start_def broker_Stop_def start_returns_def broker_Close_def close_returns_def split: if_splits)
  qed (simp add: new_broker_def)
  then have "bl_closed (broker_Close b)"
    using assms(1) by (auto simp: broker_Close_def broker_Stop_def)
  then have "bl_closed b'" using broker_steps_closed [OF assms(2)] by blast
  then show ?thesis by (simp add: mq_Enqueue_def)
qed

text \<open>
  \<^verbatim>\<open>Start\<close> does not look at the closed flag: after \<^verbatim>\<open>Close\<close> it starts the workers again, and a second
  \<^verbatim>\<open>Close\<close> does not stop them.
\<close>

theorem start_after_close_runs_on:
  assumes "\<not> bl_running b"
  shows "\<exists>b'. broker_Start True True (broker_Close b) = (None, b') \<and> bl_running b'
    \<and> bl_running (broker_Close b') \<and> start_returns (broker_Close b') = None"
  using assms by (auto simp: broker_Start_def broker_Close_def broker_Stop_def start_returns_def)

end
