(* ===== verification/Spec2Isabelle.thy ===== *)
theory Spec2Isabelle
  imports ClientExamples ServerExamples ClientCallProps ClientQueries AgentLocks DynamicTools RuntimeExamples MessageQueue
begin

text \<open>
  Xyncra is a messaging server with agents, written in Go.  Clients hold WebSocket connections to a node,
  call methods, and receive numbered updates; what they miss they pull.  Agents take part in
  conversations and may suspend a run until a person or a device has answered a call.  This library
  models the logic of the server and of its client library and proves what they promise.

  \<^bold>\<open>The database\<close> (\<^verbatim>\<open>internal/store\<close>).  A table is the list of its rows in insertion order, a statement a
  list function, a failing statement a value of \<open>store_error\<close>.  \<open>Models\<close> has the rows and their
  constraints (\<^verbatim>\<open>internal/store/model\<close>, \<^verbatim>\<open>errors.go\<close>), \<open>ConversationStore\<close>, \<open>MessageStore\<close>,
  \<open>UserUpdateStore\<close> and \<open>RemoteCallingStore\<close> the operations of the four tables, \<open>Store\<close> transactions with
  their retry on deadlock and \<^verbatim>\<open>SendMessage\<close>, the transaction that numbers messages and updates.
  \<open>Protocol\<close> has the packages and error codes of \<^verbatim>\<open>pkg/protocol\<close>, \<open>Prelude\<close> the statements over lists and
  the lemmas about sorting, pages and 32-bit numbers that all theories share.

  \<^bold>\<open>The handlers\<close> (\<^verbatim>\<open>internal/handler\<close>).  A handler maps the environment of one request (which database
  calls fail, clock, fresh identifiers, broker), the caller, the decoded parameters and the state to a
  result and a state; parameters that do not decode are \<open>None\<close>.  \<open>HandlerBase\<close> holds what they share,
  \<open>MessageHandlers\<close>, \<open>ConversationHandlers\<close>, \<open>AgentHandlers\<close> and \<open>SyncHandler\<close> the handlers, \<open>Ephemeral\<close>
  the three that touch no table, \<open>Api\<close> the method table of \<^verbatim>\<open>register.go\<close> and the dispatcher of
  \<^verbatim>\<open>websocket_handler.go\<close>.  A handler that puts a task on the queue appends to \<open>sv_queue\<close>.

  \<^bold>\<open>Connections\<close> (\<^verbatim>\<open>internal/server\<close>).  \<open>Connections\<close> is the in-memory connection store,
  \<open>FunctionRegistry\<close> the functions that devices declare, \<open>Hub\<close> the life of a WebSocket connection on a
  node: every section under the server's lock and every store call is one operation, and the relation
  \<open>hub_step\<close> interleaves them.

  \<^bold>\<open>Agents\<close> (\<^verbatim>\<open>internal/agent\<close>).  \<open>AgentRegistry\<close> reads the agent definition files.

  \<^bold>\<open>The client\<close> (\<^verbatim>\<open>pkg/store\<close>, \<^verbatim>\<open>pkg/client\<close>).  \<open>ClientStore\<close> and \<open>ClientTables\<close> are the local database,
  \<open>ClientSync\<close> the synchronisation manager of \<^verbatim>\<open>sync.go\<close>.

  \<^bold>\<open>What is proved.\<close>  \<open>MessageProps\<close>, \<open>ConversationProps\<close> and \<open>AgentProps\<close> say what each handler does on every
  branch; \<open>Invariants\<close> that every sequence of requests, with any failures, keeps the database consistent
  (\<open>db_ok\<close>); \<open>SyncHandler\<close> that a pull returns a contiguous page of numbers; \<open>ClientSyncProps\<close> that the
  client records every number once and in order whatever it is sent; \<open>SyncRefinement\<close> puts both together:
  a full synchronisation against the model of the handler catches up.  \<open>Connections\<close>, \<open>FunctionRegistry\<close>
  and \<open>Hub\<close> have the invariants of their indexes, \<open>Ephemeral\<close> the spacing of rate-limited events.
  \<open>Examples\<close>, \<open>ClientExamples\<close> and \<open>ServerExamples\<close> apply every property to a concrete state.

  \<^bold>\<open>Interfaces\<close> are locales, each interpreted on the model: \<open>seq_log\<close> (an append-only numbered log),
  \<open>counters\<close> (the client's stored numbers), \<open>sync_server\<close> (a server of contiguous pages, interpreted by the
  handler), \<open>connection_index\<close> (connections with an exact index by user), \<open>keyed_map\<close> (the registry as a
  map), \<open>rate_limited\<close> (a handler behind a limiter, interpreted twice).

  \<^bold>\<open>Numbers, loops and fuel.\<close>  Sequence numbers and message numbers are 32-bit words and wrap; times and
  durations are integers in nanoseconds.  The loop over the numbers of a page and the client's full
  synchronisation need not end and are partial functions whose \<open>None\<close> is not returning; a transaction
  retries at most as often as the code does.  Nothing else needs fuel.

  \<^bold>\<open>Parameters.\<close>  JSON and YAML decoding, the character comparison of \<^verbatim>\<open>LIKE\<close>, the clock, fresh
  identifiers, the outcome of each database call, the queue and the calls of a client to the server are
  arguments of the definitions that use them.

  \<^bold>\<open>Not modelled.\<close>  Sockets, HTTP and the pumps of a connection, tracing, metrics, logs and profiles are
  input and output.  The Redis connection store, the agent runtime around the language model, the message
  queue, the client's connection and call management and the command line are not modelled yet.
\<close>

end
